(* ===== verification/Prelude.thy ===== *)
theory Prelude
  imports Main "HOL-Library.Word"
begin

text \<open>
  Shared vocabulary of the control-plane development: identifiers, instants, byte
  strings, Go integer conversions, the errors a PostgreSQL statement can raise, and the
  table operations (\<open>UPDATE ... WHERE\<close>, \<open>INSERT\<close>, row counts) in which the
  statements of \<^verbatim>\<open>internal/store/postgres\<close> are written.

  A table is a list of rows. The list order stands for the physical order in which
  PostgreSQL happens to meet the rows, which no statement may rely on, so every theorem
  is stated for an arbitrary list. An instant is an integer number of nanoseconds and a
  duration is a difference of instants. A UUID is a natural number that is only ever
  compared; \<open>uuid_Nil\<close> is Go's \<^verbatim>\<open>uuid.Nil\<close>. A Go string is its list
  of bytes.
\<close>

section \<open>Names for the model's types\<close>

type_synonym uuid = nat
type_synonym instant = int
type_synonym duration = int
type_synonym bytes = string

abbreviation uuid_Nil :: uuid where
  "uuid_Nil \<equiv> 0"

abbreviation Second :: duration where
  "Second \<equiv> 1000000000"

abbreviation Minute :: duration where
  "Minute \<equiv> 60000000000"

text \<open>Collections: the row-update laws of tables, and the functional laws of operations.\<close>

named_theorems table_simps \<open>how table operations act on rows\<close>
named_theorems frame \<open>what an operation leaves alone\<close>

section \<open>Fixed-width integers\<close>

text \<open>Go's conversions between \<open>int64\<close> (and SQL \<open>bigint\<close>) and \<open>uint64\<close>.\<close>

abbreviation int64_max :: int where
  "int64_max \<equiv> 9223372036854775807"

definition in_int64 :: "int \<Rightarrow> bool" where
  "in_int64 i \<longleftrightarrow> - 9223372036854775808 \<le> i \<and> i \<le> int64_max"

definition uint64_of_int64 :: "int \<Rightarrow> 64 word" where
  "uint64_of_int64 i = word_of_int i"

definition int64_of_uint64 :: "64 word \<Rightarrow> int" where
  "int64_of_uint64 w = sint w"

lemma int64_round_trip [simp]:
  assumes "in_int64 i"
  shows "int64_of_uint64 (uint64_of_int64 i) = i"
proof -
  have "signed_take_bit 63 i = i"
    using assms by (intro signed_take_bit_int_eq_self) (auto simp: in_int64_def)
  then show ?thesis
    by (simp add: int64_of_uint64_def uint64_of_int64_def sint_sbintrunc')
qed

lemma int64_of_uint64_range: "in_int64 (int64_of_uint64 w)"
  using sint_range_size [of w] by (simp add: int64_of_uint64_def in_int64_def word_size)

section \<open>Tables\<close>

text \<open>The errors a statement may raise beside the loss of the connection.\<close>

datatype sql_error =
    NumericOutOfRange
  | UniqueViolation string
  | CheckViolation string
  | ForeignKeyViolation string

definition update_where :: "('r \<Rightarrow> bool) \<Rightarrow> ('r \<Rightarrow> 'r) \<Rightarrow> 'r list \<Rightarrow> 'r list" where
  "update_where p f t = map (\<lambda>r. if p r then f r else r) t"

definition rows_affected :: "('r \<Rightarrow> bool) \<Rightarrow> 'r list \<Rightarrow> nat" where
  "rows_affected p t = length (filter p t)"

lemma length_update_where [simp]: "length (update_where p f t) = length t"
  by (simp add: update_where_def)

lemma update_where_Nil [simp]: "update_where p f [] = []"
  by (simp add: update_where_def)

lemma update_where_Cons [simp]:
  "update_where p f (r # t) = (if p r then f r else r) # update_where p f t"
  by (simp add: update_where_def)

lemma rows_affected_Nil [simp]: "rows_affected p [] = 0"
  by (simp add: rows_affected_def)

lemma rows_affected_Cons [simp]:
  "rows_affected p (r # t) = (if p r then Suc (rows_affected p t) else rows_affected p t)"
  by (simp add: rows_affected_def)

lemma rows_affected_0: "rows_affected p t = 0 \<longleftrightarrow> (\<forall>r \<in> set t. \<not> p r)"
  by (auto simp: rows_affected_def filter_empty_conv)

lemma set_update_where [table_simps]:
  "set (update_where p f t) = (\<lambda>r. if p r then f r else r) ` set t"
  by (simp add: update_where_def)

lemma update_where_mem:
  "r \<in> set (update_where p f t) \<Longrightarrow> \<exists>x \<in> set t. r = (if p x then f x else x)"
  by (auto simp: update_where_def)

lemma map_update_where [table_simps]:
  assumes "\<And>r. p r \<Longrightarrow> k (f r) = k r"
  shows "map k (update_where p f t) = map k t"
  using assms by (simp add: update_where_def)

lemma update_where_no_match: "(\<And>r. r \<in> set t \<Longrightarrow> \<not> p r) \<Longrightarrow> update_where p f t = t"
  by (induction t) auto

text \<open>The row with a given primary key, if the table has one.\<close>

definition row_of :: "('r \<Rightarrow> 'k) \<Rightarrow> 'k \<Rightarrow> 'r list \<Rightarrow> 'r option" where
  "row_of k i t = List.find (\<lambda>r. k r = i) t"

lemma row_of_Nil [simp]: "row_of k i [] = None"
  by (simp add: row_of_def)

lemma row_of_Cons [simp]: "row_of k i (r # t) = (if k r = i then Some r else row_of k i t)"
  by (simp add: row_of_def)

lemma row_of_Some: "row_of k i t = Some r \<Longrightarrow> r \<in> set t \<and> k r = i"
  by (induction t) (auto split: if_splits)

lemma row_of_None: "row_of k i t = None \<longleftrightarrow> i \<notin> k ` set t"
  by (induction t) auto

lemma row_of_unique:
  assumes "distinct (map k t)" "r \<in> set t"
  shows "row_of k (k r) t = Some r"
  using assms by (induction t) (auto simp: image_iff)

lemma row_of_iff:
  "distinct (map k t) \<Longrightarrow> row_of k i t = Some r \<longleftrightarrow> r \<in> set t \<and> k r = i"
  by (auto dest: row_of_Some intro: row_of_unique)

lemma row_of_append [simp]:
  "row_of k i (t @ u) = (case row_of k i t of Some r \<Rightarrow> Some r | None \<Rightarrow> row_of k i u)"
  by (induction t) auto

text \<open>An update that keeps the key acts on a row looked up by the key.\<close>

lemma row_of_update_where [table_simps]:
  assumes "\<And>r. p r \<Longrightarrow> k (f r) = k r"
  shows "row_of k i (update_where p f t) = map_option (\<lambda>r. if p r then f r else r) (row_of k i t)"
  using assms by (induction t) auto

lemma filter_update_where [table_simps]:
  assumes "\<And>r. p r \<Longrightarrow> \<not> q (f r)" "\<And>r. p r \<Longrightarrow> q r"
  shows "length (filter q (update_where p f t)) + rows_affected p t = length (filter q t)"
  using assms by (induction t) auto

text \<open>
  A row's check constraints, by name; PostgreSQL tries them in the order of their names. An
  update fails as a whole when a row it changes breaks one.
\<close>

definition violated :: "(string \<times> bool) list \<Rightarrow> string option" where
  "violated checks = map_option fst (List.find (\<lambda>(name, ok). \<not> ok) checks)"

definition checked_update ::
  "('r \<Rightarrow> (string \<times> bool) list) \<Rightarrow> ('r \<Rightarrow> bool) \<Rightarrow> ('r \<Rightarrow> 'r) \<Rightarrow> 'r list \<Rightarrow> sql_error + 'r list"
where
  "checked_update checks p f t =
     (case List.find (\<lambda>r. p r \<and> violated (checks (f r)) \<noteq> None) t of
        Some r \<Rightarrow> Inl (CheckViolation (the (violated (checks (f r)))))
      | None \<Rightarrow> Inr (update_where p f t))"

lemma violated_None: "violated checks = None \<longleftrightarrow> list_all snd checks"
  by (induction checks) (auto simp: violated_def)

lemma checked_update_Inr:
  "checked_update checks p f t = Inr t' \<longleftrightarrow>
     t' = update_where p f t \<and> (\<forall>r \<in> set t. p r \<longrightarrow> list_all snd (checks (f r)))"
proof (cases "List.find (\<lambda>r. p r \<and> violated (checks (f r)) \<noteq> None) t")
  case None
  then have "\<forall>r \<in> set t. p r \<longrightarrow> list_all snd (checks (f r))"
    by (auto simp: find_None_iff violated_None)
  with None show ?thesis by (auto simp: checked_update_def)
next
  case (Some r)
  then have "r \<in> set t" "p r" "violated (checks (f r)) \<noteq> None"
    by (auto simp: find_Some_iff)
  then have "\<not> (\<forall>r \<in> set t. p r \<longrightarrow> list_all snd (checks (f r)))" by (auto simp: violated_None)
  with Some show ?thesis by (auto simp: checked_update_def)
qed

section \<open>Lists\<close>

lemma filter_Cons_mem: "filter p t = r # rs \<Longrightarrow> r \<in> set t \<and> p r"
  by (induction t) (auto split: if_splits)

lemma sort_key_Cons_mem: "sort_key k xs = r # rs \<Longrightarrow> r \<in> set xs"
  by (metis list.set_intros(1) set_sort)

lemma find_filter: "List.find p xs = (case filter p xs of [] \<Rightarrow> None | x # _ \<Rightarrow> Some x)"
  by (induction xs) auto

text \<open>Membership by key in a sublist of a table with distinct keys is membership of the row.\<close>

lemma key_in_sublist:
  assumes "distinct (map k t)" "set s \<subseteq> set t" "r \<in> set t"
  shows "k r \<in> k ` set s \<longleftrightarrow> r \<in> set s"
  using assms by (auto simp: distinct_map inj_on_def)

end
