(* ===== verification/Storage.thy ===== *)
theory Storage
  imports Prelude
begin

text \<open>
  The database handle of \<^verbatim>\<open>internal/store/postgres/storage.go\<close>: the errors its
  operations return, the organization guard every tenant statement goes through, the rows
  of the shared \<^verbatim>\<open>integration\<close> table, and the schema migration runner.
\<close>

section \<open>Errors and the organization guard\<close>

datatype ResultRefusal =
    ResultAlreadyRecorded
  | ResultFenceSuperseded
  | ResultJobUnknown
  | ResultLeaseNotHeld

datatype EnrolmentRefusal =
    RefusalNone
  | RefusalTokenUnknown
  | RefusalTokenExpired
  | RefusalTokenAlreadyConsumed
  | RefusalTokenRevoked
  | RefusalOrganizationMismatch

text \<open>
  \<open>ErrDatabase\<close> is what a caller sees when the connection fails; \<open>ErrSql\<close> is a
  statement PostgreSQL refuses. A sentinel that the Go code returns beside a refusal value
  carries that value.
\<close>

datatype store_error =
    ErrUnknownOrganization
  | ErrNotAMember
  | ErrDatabase
  | ErrSql sql_error
  | ErrInvalidInterval
  | ErrJobRefused
  | ErrResultRefused ResultRefusal
  | ErrEnrolmentRefused EnrolmentRefusal
  | ErrRegistrationNotFound
  | ErrInvestigationUnknown
  | ErrAlreadyEnded
  | ErrObservationTooLarge
  | ErrAuditFailed sql_error
  | ErrBadCursor
  | ErrIncidentUnknown
  | ErrQueueFull
  | ErrInvestigationCapacity
  | ErrAlertCapacity
  | ErrAlertBatchTooLarge
  | ErrConversationUnknown
  | ErrSourceMismatch
  | ErrInvalidWindow
  | ErrWindowConflict
  | ErrUserDisabled
  | ErrMembershipUnknown
  | ErrLastAdmin
  | ErrLocalBootstrapComplete
  | ErrLocalCredentialUnknown
  | ErrLocalAccountExists
  | ErrFlowUnknown
  | ErrSessionUnknown
  | ErrSessionExpired

definition poolForOrganization :: "uuid \<Rightarrow> store_error + unit" where
  "poolForOrganization organization =
     (if organization = uuid_Nil then Inl ErrUnknownOrganization else Inr ())"

text \<open>An operation that resolves the organization first and then runs its statements.\<close>

definition in_organization :: "uuid \<Rightarrow> (store_error + 'a) \<Rightarrow> store_error + 'a" where
  "in_organization organization body =
     (case poolForOrganization organization of Inl e \<Rightarrow> Inl e | Inr _ \<Rightarrow> body)"

lemma in_organization_Inr [simp]:
  "in_organization organization body = Inr v \<longleftrightarrow> organization \<noteq> uuid_Nil \<and> body = Inr v"
  by (simp add: in_organization_def poolForOrganization_def)

lemma in_organization_Nil [simp]: "in_organization uuid_Nil body = Inl ErrUnknownOrganization"
  by (simp add: in_organization_def poolForOrganization_def)

lemma in_organization_known [simp]:
  "organization \<noteq> uuid_Nil \<Longrightarrow> in_organization organization body = body"
  by (simp add: in_organization_def poolForOrganization_def)

text \<open>
  How a call to the database can end for its caller: it reports its result; or the
  connection fails, before the statement took effect (\<open>Lost\<close>) or after it committed
  (\<open>Unreported\<close>). In both failures the caller sees an error.
\<close>

datatype db_fate = Reported | Lost | Unreported

text \<open>The columns of \<^verbatim>\<open>integration\<close> that the modelled statements read.\<close>

record integration =
  int_id :: uuid
  int_org :: uuid
  int_provider :: string
  int_relay_id :: "uuid option"
  int_disabled :: bool
  int_verification_status :: "string option"
  int_verified_at :: "instant option"
  int_verification_grants :: "string list"

section \<open>Schema migrations\<close>

text \<open>
  The migration runner works inside one transaction under an advisory lock, so its effect
  is a function of the schema it finds: whether the ledger exists, which versions it
  records, and the application objects it holds (of some type \<open>'db\<close>, with the parameter
  \<open>hasObjects\<close> for the catalogue query). The SQL of a migration maps the objects to new
  ones or fails; a failure rolls the whole transaction back.
\<close>

datatype migrate_error =
    IncompatibleSchema string
  | MigrationFailed string

record 'db schema =
  ledger_exists :: bool
  ledger :: "string list"
  objects :: 'db

record 'db migration =
  version :: string
  statements :: "'db \<Rightarrow> 'db option"

fun apply_pending ::
  "string list \<Rightarrow> 'db migration list \<Rightarrow> 'db schema \<Rightarrow> migrate_error + string list \<times> 'db schema"
where
  "apply_pending present [] s = Inr ([], s)"
| "apply_pending present (m # ms) s =
     (if version m \<in> set present then apply_pending present ms s
      else (case statements m (objects s) of
              None \<Rightarrow> Inl (MigrationFailed (version m))
            | Some db \<Rightarrow>
                (case apply_pending present ms
                        (s\<lparr>ledger := ledger s @ [version m], objects := db\<rparr>) of
                   Inl e \<Rightarrow> Inl e
                 | Inr (applied, s') \<Rightarrow> Inr (version m # applied, s'))))"

definition migrateDatabase ::
  "('db \<Rightarrow> bool) \<Rightarrow> 'db migration list \<Rightarrow> 'db schema
     \<Rightarrow> migrate_error + string list \<times> 'db schema"
where
  "migrateDatabase hasObjects migrations s =
     (let present = (if ledger_exists s then ledger s else []) in
      case filter (\<lambda>v. v \<notin> version ` set migrations) present of
        v # _ \<Rightarrow> Inl (IncompatibleSchema v)
      | [] \<Rightarrow>
          if present = [] \<and> hasObjects (objects s) then Inl (IncompatibleSchema '''')
          else apply_pending present migrations
                 (if present = [] then s\<lparr>ledger_exists := True, ledger := present\<rparr> else s))"

lemma apply_pending_ledger:
  assumes "apply_pending present ms s = Inr (applied, s')"
  shows "ledger s' = ledger s @ applied
    \<and> applied = filter (\<lambda>v. v \<notin> set present) (map version ms)
    \<and> ledger_exists s' = ledger_exists s"
  using assms
proof (induction present ms s arbitrary: applied s' rule: apply_pending.induct)
  case (1 present s)
  then show ?case by simp
next
  case (2 present m ms s)
  show ?case
  proof (cases "version m \<in> set present")
    case True
    with "2.prems" "2.IH"(1) show ?thesis by simp
  next
    case False
    with "2.prems" obtain db where db: "statements m (objects s) = Some db"
      by (cases "statements m (objects s)") auto
    let ?s = "s\<lparr>ledger := ledger s @ [version m], objects := db\<rparr>"
    from False db "2.prems" obtain rest where
      rest: "apply_pending present ms ?s = Inr (rest, s')" "applied = version m # rest"
      by (auto split: sum.splits)
    from "2.IH"(2) [OF False db rest(1)] rest(2) False show ?thesis by simp
  qed
qed

lemma apply_pending_done:
  assumes "version ` set ms \<subseteq> set present"
  shows "apply_pending present ms s = Inr ([], s)"
  using assms by (induction ms arbitrary: s) auto

lemma migrate_ledger:
  assumes "migrateDatabase hasObjects migrations s = Inr (applied, s')"
  shows "ledger_exists s'" "set (ledger s') = version ` set migrations"
proof -
  let ?present = "if ledger_exists s then ledger s else []"
  from assms have known: "set ?present \<subseteq> version ` set migrations"
    by (auto simp: migrateDatabase_def Let_def filter_empty_conv split: list.splits if_splits)
  from assms have run: "apply_pending ?present migrations
      (if ?present = [] then s\<lparr>ledger_exists := True, ledger := ?present\<rparr> else s) = Inr (applied, s')"
    by (simp add: migrateDatabase_def Let_def split: list.splits if_splits)
  note ledger = apply_pending_ledger [OF run]
  show "ledger_exists s'" using ledger by (auto split: if_splits)
  have "set (ledger s') = set ?present \<union> (version ` set migrations - set ?present)"
    using ledger by (auto split: if_splits)
  with known show "set (ledger s') = version ` set migrations" by auto
qed

lemma migrate_up_to_date:
  assumes "ledger_exists s" "set (ledger s) = version ` set migrations" "migrations \<noteq> []"
  shows "migrateDatabase hasObjects migrations s = Inr ([], s)"
proof -
  have "ledger s \<noteq> []" using assms by auto
  moreover have "filter (\<lambda>v. v \<notin> version ` set migrations) (ledger s) = []"
    using assms by (simp add: filter_empty_conv)
  ultimately show ?thesis
    using assms by (simp add: migrateDatabase_def apply_pending_done)
qed

end
