(* ===== verification/RelayJobs.thy ===== *)
theory RelayJobs
  imports Storage
begin

text \<open>
  The relay work queue: the \<^verbatim>\<open>relay_job\<close> table and every statement that writes it
  (\<^verbatim>\<open>job.go\<close>, \<^verbatim>\<open>lease.go\<close>, \<^verbatim>\<open>result.go\<close> of
  \<^verbatim>\<open>internal/store/postgres\<close>). Each operation is one SQL statement and therefore one
  atomic step on the table. A statement's \<open>now()\<close> is an argument; the rows another
  transaction has locked, which \<open>FOR UPDATE SKIP LOCKED\<close> passes over, are the argument
  \<open>locked\<close>.
\<close>

section \<open>Rows and request structures\<close>

datatype JobStatus = JobPending | JobLeased | JobSucceeded | JobFailed | JobCancelled

fun terminal :: "JobStatus \<Rightarrow> bool" where
  "terminal JobPending = False"
| "terminal JobLeased = False"
| "terminal JobSucceeded = True"
| "terminal JobFailed = True"
| "terminal JobCancelled = True"

record relay_job =
  job_id :: uuid
  job_org :: uuid
  job_registration :: uuid
  job_integration :: uuid
  job_capability_id :: string
  job_capability_version :: "32 word"
  job_arguments :: bytes
  job_status :: JobStatus
  job_lease_session :: "uuid option"
  job_lease_epoch :: int
  job_lease_expires_at :: "instant option"
  job_cancel_requested_at :: "instant option"
  job_result :: "bytes option"
  job_terminal_at :: "instant option"
  job_created_at :: instant
  job_investigation :: "uuid option"

record RelayJob =
  rj_ID :: uuid
  rj_InvestigationID :: uuid
  rj_IntegrationID :: uuid
  rj_RegistrationID :: uuid
  rj_CapabilityID :: string
  rj_CapabilityVersion :: "32 word"
  rj_Arguments :: bytes
  rj_LeaseSession :: uuid
  rj_LeaseEpoch :: int

record JobFence =
  fence_JobID :: uuid
  fence_LeaseSession :: uuid
  fence_LeaseEpoch :: int

record JobClaim =
  claim_RegistrationID :: uuid
  claim_SessionID :: uuid
  claim_LeaseFor :: duration
  claim_Capacity :: int

record InFlightJob =
  flight_JobID :: uuid
  flight_LeaseEpoch :: int

record LeaseAdoption =
  adopt_RegistrationID :: uuid
  adopt_SessionID :: uuid
  adopt_LeaseFor :: duration
  adopt_InFlight :: "InFlightJob list"

record JobOutcome =
  outcome_Status :: JobStatus
  outcome_Result :: "bytes option"

record StoredJobOutcome =
  stored_Status :: JobStatus
  stored_Result :: "bytes option"
  stored_TerminalAt :: instant

text \<open>The columns of \<^verbatim>\<open>investigation\<close> that enqueueing reads: who owns it and whether
  it is running (status 1).\<close>

record investigation_state =
  is_id :: uuid
  is_org :: uuid
  is_running :: bool

section \<open>Enqueueing\<close>

definition nullableUUID :: "uuid \<Rightarrow> uuid option" where
  "nullableUUID u = (if u = uuid_Nil then None else Some u)"

definition serves_verified :: "uuid \<Rightarrow> RelayJob \<Rightarrow> integration \<Rightarrow> bool" where
  "serves_verified organization job i \<longleftrightarrow>
     int_id i = rj_IntegrationID job \<and> int_org i = organization
     \<and> int_relay_id i = Some (rj_RegistrationID job) \<and> \<not> int_disabled i
     \<and> int_verification_status i = Some ''verified'' \<and> int_verified_at i \<noteq> None
     \<and> rj_CapabilityID job \<in> set (int_verification_grants i)"

definition investigation_permits :: "uuid \<Rightarrow> RelayJob \<Rightarrow> investigation_state list \<Rightarrow> bool" where
  "investigation_permits organization job invs \<longleftrightarrow>
     (case nullableUUID (rj_InvestigationID job) of
        None \<Rightarrow> True
      | Some owner \<Rightarrow> list_ex (\<lambda>s. is_org s = organization \<and> is_id s = owner \<and> is_running s) invs)"

definition enqueued :: "instant \<Rightarrow> uuid \<Rightarrow> RelayJob \<Rightarrow> integration \<Rightarrow> relay_job" where
  "enqueued now organization job i =
     \<lparr>job_id = rj_ID job, job_org = organization,
      job_registration = (case int_relay_id i of Some r \<Rightarrow> r | None \<Rightarrow> uuid_Nil),
      job_integration = int_id i, job_capability_id = rj_CapabilityID job,
      job_capability_version = rj_CapabilityVersion job, job_arguments = rj_Arguments job,
      job_status = JobPending, job_lease_session = None, job_lease_epoch = 0,
      job_lease_expires_at = None, job_cancel_requested_at = None, job_result = None,
      job_terminal_at = None, job_created_at = now,
      job_investigation = nullableUUID (rj_InvestigationID job)\<rparr>"

text \<open>
  The version column is a 32-bit signed integer, so a version above its range is an error;
  the primary keys make a reused job identifier one.
\<close>

definition EnqueueVerifiedJob ::
  "instant \<Rightarrow> uuid \<Rightarrow> RelayJob \<Rightarrow> integration list \<Rightarrow> investigation_state list \<Rightarrow> relay_job list
     \<Rightarrow> store_error + relay_job list"
where
  "EnqueueVerifiedJob now organization job ints invs t =
     in_organization organization
       (if uint (rj_CapabilityVersion job) > 2147483647 then Inl (ErrSql NumericOutOfRange)
        else if \<not> investigation_permits organization job invs then Inl ErrJobRefused
        else (case filter (serves_verified organization job) ints of
                [] \<Rightarrow> Inl ErrJobRefused
              | i # _ \<Rightarrow>
                  if rj_ID job \<in> job_id ` set t then Inl (ErrSql (UniqueViolation ''relay_job_pkey''))
                  else Inr (t @ [enqueued now organization job i])))"

section \<open>Claiming\<close>

definition lease_live :: "instant \<Rightarrow> relay_job \<Rightarrow> bool" where
  "lease_live now r \<longleftrightarrow> (case job_lease_expires_at r of Some e \<Rightarrow> now < e | None \<Rightarrow> False)"

definition lease_lapsed :: "instant \<Rightarrow> relay_job \<Rightarrow> bool" where
  "lease_lapsed now r \<longleftrightarrow> (case job_lease_expires_at r of Some e \<Rightarrow> e \<le> now | None \<Rightarrow> False)"

definition claimable :: "instant \<Rightarrow> uuid \<Rightarrow> uuid \<Rightarrow> relay_job \<Rightarrow> bool" where
  "claimable now organization registration r \<longleftrightarrow>
     job_org r = organization \<and> job_registration r = registration
     \<and> (job_status r = JobPending \<or> (job_status r = JobLeased \<and> lease_lapsed now r))"

definition holds :: "instant \<Rightarrow> uuid \<Rightarrow> uuid \<Rightarrow> relay_job \<Rightarrow> bool" where
  "holds now organization session r \<longleftrightarrow>
     job_org r = organization \<and> job_lease_session r = Some session
     \<and> job_status r = JobLeased \<and> lease_live now r"

definition claim_selection ::
  "instant \<Rightarrow> (uuid \<Rightarrow> bool) \<Rightarrow> uuid \<Rightarrow> JobClaim \<Rightarrow> relay_job list \<Rightarrow> relay_job list"
where
  "claim_selection now locked organization c t =
     take (nat (claim_Capacity c - int (rows_affected (holds now organization (claim_SessionID c)) t)))
       (sort_key job_created_at
          (filter (\<lambda>r. claimable now organization (claim_RegistrationID c) r \<and> \<not> locked (job_id r)) t))"

definition lease_to :: "instant \<Rightarrow> JobClaim \<Rightarrow> relay_job \<Rightarrow> relay_job" where
  "lease_to now c r =
     r\<lparr>job_status := JobLeased, job_lease_session := Some (claim_SessionID c),
       job_lease_epoch := job_lease_epoch r + 1,
       job_lease_expires_at := Some (now + claim_LeaseFor c)\<rparr>"

definition claimed_job :: "relay_job \<Rightarrow> RelayJob" where
  "claimed_job r =
     \<lparr>rj_ID = job_id r, rj_InvestigationID = uuid_Nil, rj_IntegrationID = job_integration r,
      rj_RegistrationID = job_registration r, rj_CapabilityID = job_capability_id r,
      rj_CapabilityVersion = job_capability_version r, rj_Arguments = job_arguments r,
      rj_LeaseSession = (case job_lease_session r of Some s \<Rightarrow> s | None \<Rightarrow> uuid_Nil),
      rj_LeaseEpoch = job_lease_epoch r\<rparr>"

definition ClaimJobs ::
  "instant \<Rightarrow> (uuid \<Rightarrow> bool) \<Rightarrow> uuid \<Rightarrow> JobClaim \<Rightarrow> relay_job list
     \<Rightarrow> store_error + RelayJob list \<times> relay_job list"
where
  "ClaimJobs now locked organization c t =
     in_organization organization
       (let chosen = job_id ` set (claim_selection now locked organization c t);
            p = (\<lambda>r. job_id r \<in> chosen) in
        if list_ex (\<lambda>r. p r \<and> job_lease_epoch r = int64_max) t then Inl (ErrSql NumericOutOfRange)
        else Inr (map (claimed_job \<circ> lease_to now c) (filter p t), update_where p (lease_to now c) t))"

section \<open>Adopting and releasing leases\<close>

definition declared_in_flight :: "uuid \<Rightarrow> LeaseAdoption \<Rightarrow> relay_job \<Rightarrow> bool" where
  "declared_in_flight organization a r \<longleftrightarrow>
     list_ex (\<lambda>d. job_id r = flight_JobID d \<and> job_lease_epoch r = flight_LeaseEpoch d) (adopt_InFlight a)
     \<and> job_org r = organization \<and> job_registration r = adopt_RegistrationID a
     \<and> job_status r = JobLeased"

definition adopted :: "instant \<Rightarrow> LeaseAdoption \<Rightarrow> relay_job \<Rightarrow> relay_job" where
  "adopted now a r =
     r\<lparr>job_lease_session := Some (adopt_SessionID a),
       job_lease_expires_at := Some (now + adopt_LeaseFor a)\<rparr>"

definition AdoptInFlightLeases ::
  "instant \<Rightarrow> uuid \<Rightarrow> LeaseAdoption \<Rightarrow> relay_job list \<Rightarrow> store_error + uuid list \<times> relay_job list"
where
  "AdoptInFlightLeases now organization a t =
     (if adopt_InFlight a = [] then Inr ([], t)
      else in_organization organization
        (Inr (map job_id (filter (declared_in_flight organization a) t),
              update_where (declared_in_flight organization a) (adopted now a) t)))"

definition stranded :: "uuid \<Rightarrow> uuid \<Rightarrow> uuid \<Rightarrow> relay_job \<Rightarrow> bool" where
  "stranded organization registration holder r \<longleftrightarrow>
     job_org r = organization \<and> job_registration r = registration
     \<and> job_status r = JobLeased \<and> job_lease_session r \<noteq> Some holder"

definition released :: "relay_job \<Rightarrow> relay_job" where
  "released r =
     r\<lparr>job_status := JobPending, job_lease_session := None, job_lease_expires_at := None,
       job_lease_epoch := job_lease_epoch r + 1\<rparr>"

definition ReleaseStrandedLeases ::
  "uuid \<Rightarrow> uuid \<Rightarrow> uuid \<Rightarrow> relay_job list \<Rightarrow> store_error + nat \<times> relay_job list"
where
  "ReleaseStrandedLeases organization registration holder t =
     in_organization organization
       (let p = stranded organization registration holder in
        if list_ex (\<lambda>r. p r \<and> job_lease_epoch r = int64_max) t then Inl (ErrSql NumericOutOfRange)
        else Inr (rows_affected p t, update_where p released t))"

section \<open>Cancelling\<close>

datatype JobCancellation = CancellationRefused | CancellationRecorded | CancellationRequested

definition cancellable :: "uuid \<Rightarrow> uuid \<Rightarrow> relay_job \<Rightarrow> bool" where
  "cancellable organization jobID r \<longleftrightarrow>
     job_id r = jobID \<and> job_org r = organization \<and> \<not> terminal (job_status r)"

definition cancel_row :: "instant \<Rightarrow> relay_job \<Rightarrow> relay_job" where
  "cancel_row now r =
     r\<lparr>job_status := (if job_status r = JobPending then JobCancelled else job_status r),
       job_terminal_at := (if job_status r = JobPending then Some now else job_terminal_at r),
       job_cancel_requested_at :=
         (case job_cancel_requested_at r of Some at \<Rightarrow> Some at | None \<Rightarrow> Some now)\<rparr>"

definition RequestJobCancellation ::
  "instant \<Rightarrow> uuid \<Rightarrow> uuid \<Rightarrow> relay_job list \<Rightarrow> store_error + JobCancellation \<times> relay_job list"
where
  "RequestJobCancellation now organization jobID t =
     in_organization organization
       (let p = cancellable organization jobID; t' = update_where p (cancel_row now) t in
        case map (cancel_row now) (filter p t) of
          [] \<Rightarrow> Inr (CancellationRefused, t')
        | r # _ \<Rightarrow>
            if job_status r = JobCancelled then Inr (CancellationRecorded, t')
            else Inr (CancellationRequested, t'))"

text \<open>The statement of \<^verbatim>\<open>CancelInvestigation\<close> that stops the investigation's relay work.\<close>

definition cancelInvestigationJobs ::
  "instant \<Rightarrow> uuid \<Rightarrow> uuid \<Rightarrow> relay_job list \<Rightarrow> relay_job list"
where
  "cancelInvestigationJobs now organization investigation t =
     update_where (\<lambda>r. job_org r = organization \<and> job_investigation r = Some investigation
                       \<and> \<not> terminal (job_status r)) (cancel_row now) t"

definition PendingCancellations ::
  "uuid \<Rightarrow> uuid \<Rightarrow> relay_job list \<Rightarrow> store_error + JobFence list"
where
  "PendingCancellations organization session t =
     in_organization organization
       (Inr (map (\<lambda>r. \<lparr>fence_JobID = job_id r, fence_LeaseSession = session,
                       fence_LeaseEpoch = job_lease_epoch r\<rparr>)
               (filter (\<lambda>r. job_org r = organization \<and> job_lease_session r = Some session
                            \<and> job_status r = JobLeased \<and> job_cancel_requested_at r \<noteq> None) t)))"

section \<open>Results\<close>

definition fence_holds :: "uuid \<Rightarrow> JobFence \<Rightarrow> relay_job \<Rightarrow> bool" where
  "fence_holds organization fence r \<longleftrightarrow>
     job_id r = fence_JobID fence \<and> job_org r = organization \<and> job_status r = JobLeased
     \<and> job_lease_session r = Some (fence_LeaseSession fence)
     \<and> job_lease_epoch r = fence_LeaseEpoch fence"

definition finished :: "instant \<Rightarrow> JobOutcome \<Rightarrow> relay_job \<Rightarrow> relay_job" where
  "finished now outcome r =
     r\<lparr>job_status := outcome_Status outcome, job_result := outcome_Result outcome,
       job_terminal_at := Some now, job_lease_expires_at := None, job_lease_session := None\<rparr>"

definition explainRefusedResult ::
  "uuid \<Rightarrow> JobFence \<Rightarrow> relay_job list \<Rightarrow> store_error + unit"
where
  "explainRefusedResult organization fence t =
     in_organization organization
       (case filter (\<lambda>r. job_id r = fence_JobID fence \<and> job_org r = organization) t of
          [] \<Rightarrow> Inl (ErrResultRefused ResultJobUnknown)
        | r # _ \<Rightarrow>
            if job_status r \<noteq> JobPending \<and> job_status r \<noteq> JobLeased
            then Inl (ErrResultRefused ResultAlreadyRecorded)
            else if job_lease_epoch r > fence_LeaseEpoch fence
            then Inl (ErrResultRefused ResultFenceSuperseded)
            else Inl (ErrResultRefused ResultLeaseNotHeld))"

text \<open>
  \<open>RecordResult\<close> updates the row its fence names and, when no row matched, asks in a
  second statement why. Other transactions may commit in between, so the table the second
  statement reads is an argument of its own, \<open>later\<close>. A status that is not terminal would
  break the table's \<^verbatim>\<open>relay_job_terminal_is_stamped\<close> constraint.
\<close>

definition RecordResult ::
  "instant \<Rightarrow> uuid \<Rightarrow> JobFence \<Rightarrow> JobOutcome \<Rightarrow> relay_job list \<Rightarrow> relay_job list
     \<Rightarrow> (store_error + unit) \<times> relay_job list"
where
  "RecordResult now organization fence outcome t later =
     (case poolForOrganization organization of
        Inl e \<Rightarrow> (Inl e, t)
      | Inr _ \<Rightarrow>
          let p = fence_holds organization fence in
          if rows_affected p t > 0 \<and> \<not> terminal (outcome_Status outcome)
          then (Inl (ErrSql (CheckViolation ''relay_job_terminal_is_stamped'')), t)
          else if rows_affected p t = 1 then (Inr (), update_where p (finished now outcome) t)
          else (explainRefusedResult organization fence later, update_where p (finished now outcome) t))"

definition JobOutcome_of ::
  "uuid \<Rightarrow> uuid \<Rightarrow> relay_job list \<Rightarrow> store_error + StoredJobOutcome option \<times> bool"
where
  "JobOutcome_of organization jobID t =
     in_organization organization
       (case filter (\<lambda>r. job_org r = organization \<and> job_id r = jobID) t of
          [] \<Rightarrow> Inr (None, False)
        | r # _ \<Rightarrow>
            Inr (Some \<lparr>stored_Status = job_status r, stored_Result = job_result r,
                       stored_TerminalAt = (case job_terminal_at r of Some at \<Rightarrow> at | None \<Rightarrow> 0)\<rparr>,
                 job_status r = JobSucceeded \<or> job_status r = JobFailed \<or> job_status r = JobCancelled))"

end
