(* ===== verification/RelayFencing.thy ===== *)
theory RelayFencing
  imports RelayJobs
begin

text \<open>
  What the relay work queue guarantees under any interleaving of its statements. The
  statements of \<open>RelayJobs\<close> are the rules of a step relation on the table. The
  generation contract of a leased row (its epoch never falls, a closed row never changes, a
  fence is accepted at one generation only) is a locale, interpreted here on the job table
  and again on the investigation table; the safety of refusing a late result follows from it.
\<close>

section \<open>The generation contract\<close>

locale fenced_rows =
  fixes step :: "'s \<Rightarrow> 's \<Rightarrow> bool"
    and invariant :: "'s \<Rightarrow> bool"
    and row :: "'s \<Rightarrow> 'k \<Rightarrow> 'r option"
    and generation :: "'r \<Rightarrow> int"
    and closed :: "'r \<Rightarrow> bool"
    and accepts :: "'f \<Rightarrow> 'r \<Rightarrow> bool"
    and fence_generation :: "'f \<Rightarrow> int"
  assumes step_invariant: "invariant s \<Longrightarrow> step s s' \<Longrightarrow> invariant s'"
    and step_row: "invariant s \<Longrightarrow> step s s' \<Longrightarrow> row s k = Some r \<Longrightarrow>
      \<exists>r'. row s' k = Some r' \<and> generation r \<le> generation r' \<and> (closed r \<longrightarrow> r' = r)"
    and accepts_generation: "accepts f r \<Longrightarrow> generation r = fence_generation f"
    and accepts_open: "accepts f r \<Longrightarrow> \<not> closed r"
begin

lemma run_row:
  assumes "step\<^sup>*\<^sup>* s s'" "invariant s" "row s k = Some r"
  shows "invariant s' \<and>
    (\<exists>r'. row s' k = Some r' \<and> generation r \<le> generation r' \<and> (closed r \<longrightarrow> r' = r))"
  using assms
proof (induction rule: rtranclp_induct)
  case base
  then show ?case by auto
next
  case (step y z)
  then obtain r' where r': "invariant y" "row y k = Some r'" "generation r \<le> generation r'"
      "closed r \<longrightarrow> r' = r"
    by blast
  from step_row [OF r'(1) step.hyps(2) r'(2)] obtain r'' where
    "row z k = Some r''" "generation r' \<le> generation r''" "closed r' \<longrightarrow> r'' = r'" by blast
  with r' step_invariant [OF r'(1) step.hyps(2)] show ?case by fastforce
qed

lemma run_invariant: "step\<^sup>*\<^sup>* s s' \<Longrightarrow> invariant s \<Longrightarrow> invariant s'"
  by (induction rule: rtranclp_induct) (auto intro: step_invariant)

lemma closed_forever:
  assumes "step\<^sup>*\<^sup>* s s'" "invariant s" "row s k = Some r" "closed r"
  shows "row s' k = Some r"
  using run_row [OF assms(1-3)] assms(4) by auto

lemma refused_forever:
  assumes "step\<^sup>*\<^sup>* s s'" "invariant s" "row s k = Some r"
    and "closed r \<or> fence_generation f < generation r" and "row s' k = Some r'"
  shows "\<not> accepts f r'"
  using run_row [OF assms(1-3)] assms(4,5) accepts_generation accepts_open by fastforce

end

section \<open>Steps of the work queue\<close>

inductive job_step :: "relay_job list \<Rightarrow> relay_job list \<Rightarrow> bool" where
  enqueue: "EnqueueVerifiedJob now organization job ints invs t = Inr t' \<Longrightarrow> job_step t t'"
| claim: "ClaimJobs now locked organization c t = Inr (jobs, t') \<Longrightarrow> job_step t t'"
| adopt: "AdoptInFlightLeases now organization a t = Inr (ids, t') \<Longrightarrow> job_step t t'"
| release: "ReleaseStrandedLeases organization registration holder t = Inr (n, t') \<Longrightarrow> job_step t t'"
| cancel: "RequestJobCancellation now organization jobID t = Inr (v, t') \<Longrightarrow> job_step t t'"
| cancel_investigation: "job_step t (cancelInvestigationJobs now organization investigation t)"
| record_result: "RecordResult now organization fence outcome t later = (v, t') \<Longrightarrow> job_step t t'"

text \<open>How one row may change over any number of steps.\<close>

definition row_evolves :: "relay_job \<Rightarrow> relay_job \<Rightarrow> bool" where
  "row_evolves r r' \<longleftrightarrow>
     job_id r' = job_id r \<and> job_org r' = job_org r \<and> job_registration r' = job_registration r
     \<and> job_lease_epoch r \<le> job_lease_epoch r' \<and> (terminal (job_status r) \<longrightarrow> r' = r)"

definition keeps_rows :: "relay_job list \<Rightarrow> relay_job list \<Rightarrow> bool" where
  "keeps_rows t t' \<longleftrightarrow>
     (\<forall>i r. row_of job_id i t = Some r \<longrightarrow> (\<exists>r'. row_of job_id i t' = Some r' \<and> row_evolves r r'))"

lemma row_evolves_refl [simp]: "row_evolves r r"
  by (simp add: row_evolves_def)

lemma keeps_rows_refl [simp]: "keeps_rows t t"
  by (auto simp: keeps_rows_def)

lemma keeps_rows_append [simp]: "keeps_rows t (t @ u)"
  by (auto simp: keeps_rows_def)

lemma keeps_rows_update_where:
  assumes "\<And>r. p r \<Longrightarrow> row_evolves r (f r)"
  shows "keeps_rows t (update_where p f t)"
proof -
  have "job_id (f r) = job_id r" if "p r" for r
    using assms [OF that] by (simp add: row_evolves_def)
  then show ?thesis
    using assms by (auto simp: keeps_rows_def row_of_update_where)
qed

lemmas row_change_defs =
  lease_to_def adopted_def released_def cancel_row_def finished_def row_evolves_def

lemma row_change_keeps [simp]:
  "job_id (lease_to now c r) = job_id r" "job_id (adopted now a r) = job_id r"
  "job_id (released r) = job_id r" "job_id (cancel_row now r) = job_id r"
  "job_id (finished now outcome r) = job_id r" "job_id (enqueued now organization job i) = rj_ID job"
  "job_org (cancel_row now r) = job_org r" "job_registration (cancel_row now r) = job_registration r"
  "job_lease_epoch (cancel_row now r) = job_lease_epoch r"
  by (simp_all add: lease_to_def adopted_def released_def cancel_row_def finished_def enqueued_def)

text \<open>The rows a claim selects are claimable rows of the table.\<close>

lemma claim_selection_subset:
  "set (claim_selection now locked organization c t) \<subseteq>
     {r \<in> set t. claimable now organization (claim_RegistrationID c) r \<and> \<not> locked (job_id r)}"
  unfolding claim_selection_def by (rule subset_trans [OF set_take_subset]) auto

lemma chosen_claimable:
  assumes "distinct (map job_id t)" "r \<in> set t"
    and "job_id r \<in> job_id ` set (claim_selection now locked organization c t)"
  shows "r \<in> set (claim_selection now locked organization c t)"
    and "claimable now organization (claim_RegistrationID c) r"
proof -
  let ?s = "claim_selection now locked organization c t"
  have "set ?s \<subseteq> set t" using claim_selection_subset by blast
  with assms show r: "r \<in> set ?s" using key_in_sublist [of job_id t ?s r] by simp
  with claim_selection_subset show "claimable now organization (claim_RegistrationID c) r" by blast
qed

lemma claimable_open: "claimable now organization registration r \<Longrightarrow> \<not> terminal (job_status r)"
  by (auto simp: claimable_def)

section \<open>The table's invariant\<close>

definition job_wf :: "relay_job \<Rightarrow> bool" where
  "job_wf r \<longleftrightarrow>
     0 \<le> job_lease_epoch r \<and> in_int64 (job_lease_epoch r)
     \<and> (job_lease_session r = None \<longleftrightarrow> job_lease_expires_at r = None)
     \<and> (terminal (job_status r) \<longleftrightarrow> job_terminal_at r \<noteq> None)
     \<and> (job_status r = JobLeased \<longleftrightarrow> job_lease_session r \<noteq> None)"

definition jobs_inv :: "relay_job list \<Rightarrow> bool" where
  "jobs_inv t \<longleftrightarrow> distinct (map job_id t) \<and> (\<forall>r \<in> set t. job_wf r)"

lemma jobs_inv_Nil [simp]: "jobs_inv []"
  by (simp add: jobs_inv_def)

lemma jobs_inv_update_where:
  assumes "jobs_inv t" "\<And>r. p r \<Longrightarrow> job_id (f r) = job_id r"
    and "\<And>r. r \<in> set t \<Longrightarrow> p r \<Longrightarrow> job_wf r \<Longrightarrow> job_wf (f r)"
  shows "jobs_inv (update_where p f t)"
  using assms unfolding jobs_inv_def by (auto simp: map_update_where set_update_where)

lemma jobs_inv_append:
  "jobs_inv t \<Longrightarrow> job_id r \<notin> job_id ` set t \<Longrightarrow> job_wf r \<Longrightarrow> jobs_inv (t @ [r])"
  by (auto simp: jobs_inv_def)

lemma job_wf_enqueued: "job_wf (enqueued now organization job i)"
  by (simp add: job_wf_def enqueued_def in_int64_def)

lemma job_wf_lease_to:
  "job_wf r \<Longrightarrow> job_lease_epoch r \<noteq> int64_max \<Longrightarrow> \<not> terminal (job_status r) \<Longrightarrow> job_wf (lease_to now c r)"
  by (auto simp: job_wf_def lease_to_def in_int64_def)

lemma job_wf_released:
  "job_wf r \<Longrightarrow> job_lease_epoch r \<noteq> int64_max \<Longrightarrow> \<not> terminal (job_status r) \<Longrightarrow> job_wf (released r)"
  by (auto simp: job_wf_def released_def in_int64_def)

lemma job_wf_adopted: "job_wf r \<Longrightarrow> job_status r = JobLeased \<Longrightarrow> job_wf (adopted now a r)"
  by (auto simp: job_wf_def adopted_def)

lemma job_wf_cancel_row: "job_wf r \<Longrightarrow> job_wf (cancel_row now r)"
  by (auto simp: job_wf_def cancel_row_def)

lemma job_wf_finished:
  "job_wf r \<Longrightarrow> terminal (outcome_Status outcome) \<Longrightarrow> job_wf (finished now outcome r)"
  by (cases "outcome_Status outcome") (auto simp: job_wf_def finished_def)

lemmas job_wf_changes =
  job_wf_enqueued job_wf_lease_to job_wf_released job_wf_adopted job_wf_cancel_row job_wf_finished

lemma ClaimJobs_result:
  assumes "ClaimJobs now locked organization c t = Inr (jobs, t')"
  defines "p \<equiv> \<lambda>r. job_id r \<in> job_id ` set (claim_selection now locked organization c t)"
  shows "t' = update_where p (lease_to now c) t" "jobs = map (claimed_job \<circ> lease_to now c) (filter p t)"
    and "organization \<noteq> uuid_Nil" "\<And>r. r \<in> set t \<Longrightarrow> p r \<Longrightarrow> job_lease_epoch r \<noteq> int64_max"
  using assms by (auto simp: ClaimJobs_def Let_def list_ex_iff split: if_splits)

lemma RecordResult_result:
  assumes "RecordResult now organization fence outcome t later = (v, t')"
  shows "t' = t \<or> (t' = update_where (fence_holds organization fence) (finished now outcome) t
             \<and> (terminal (outcome_Status outcome) \<or> rows_affected (fence_holds organization fence) t = 0))"
  using assms by (auto simp: RecordResult_def Let_def split: sum.splits if_splits)

lemma claim_keeps:
  assumes "jobs_inv t" "ClaimJobs now locked organization c t = Inr (jobs, t')"
  shows "jobs_inv t' \<and> keeps_rows t t'"
proof -
  let ?p = "\<lambda>r. job_id r \<in> job_id ` set (claim_selection now locked organization c t)"
  note result = ClaimJobs_result [OF assms(2)]
  have dist: "distinct (map job_id t)" using assms(1) by (simp add: jobs_inv_def)
  have opened: "\<not> terminal (job_status r)" if "r \<in> set t" "?p r" for r
    using chosen_claimable(2) [OF dist that] claimable_open by blast
  have "jobs_inv t'"
    unfolding result(1)
    by (rule jobs_inv_update_where [OF assms(1)]) (use result(4) opened in \<open>auto intro!: job_wf_lease_to\<close>)
  moreover have "keeps_rows t t'"
    unfolding keeps_rows_def result(1)
  proof (intro allI impI)
    fix i r
    assume "row_of job_id i t = Some r"
    then show "\<exists>r'. row_of job_id i (update_where ?p (lease_to now c) t) = Some r' \<and> row_evolves r r'"
      using opened [of r] row_of_Some [of job_id i t r]
      by (auto simp: row_of_update_where row_change_defs)
  qed
  ultimately show ?thesis ..
qed

lemma enqueue_keeps:
  assumes "jobs_inv t" "EnqueueVerifiedJob now organization job ints invs t = Inr t'"
  shows "jobs_inv t' \<and> keeps_rows t t'"
  using assms
  by (auto simp: EnqueueVerifiedJob_def job_wf_enqueued
      intro!: jobs_inv_append split: if_splits list.splits)

lemma adopt_keeps:
  assumes "jobs_inv t" "AdoptInFlightLeases now organization a t = Inr (ids, t')"
  shows "jobs_inv t' \<and> keeps_rows t t'"
proof -
  have "jobs_inv (update_where (declared_in_flight organization a) (adopted now a) t)"
    by (rule jobs_inv_update_where [OF assms(1)])
       (auto simp: declared_in_flight_def intro: job_wf_adopted)
  moreover have "keeps_rows t (update_where (declared_in_flight organization a) (adopted now a) t)"
    by (rule keeps_rows_update_where) (auto simp: declared_in_flight_def row_change_defs)
  ultimately show ?thesis
    using assms by (auto simp: AdoptInFlightLeases_def split: if_splits)
qed

lemma release_keeps:
  assumes "jobs_inv t" "ReleaseStrandedLeases organization registration holder t = Inr (n, t')"
  shows "jobs_inv t' \<and> keeps_rows t t'"
proof -
  let ?p = "stranded organization registration holder"
  from assms(2) have t': "t' = update_where ?p released t"
    and bound: "\<And>r. r \<in> set t \<Longrightarrow> ?p r \<Longrightarrow> job_lease_epoch r \<noteq> int64_max"
    by (auto simp: ReleaseStrandedLeases_def Let_def list_ex_iff split: if_splits)
  have "jobs_inv t'"
    unfolding t' by (rule jobs_inv_update_where [OF assms(1)])
      (use bound in \<open>auto simp: stranded_def intro!: job_wf_released\<close>)
  moreover have "keeps_rows t t'"
    unfolding t' by (rule keeps_rows_update_where) (auto simp: stranded_def row_change_defs)
  ultimately show ?thesis ..
qed

lemma cancel_where_keeps:
  assumes "jobs_inv t" "\<And>r. p r \<Longrightarrow> \<not> terminal (job_status r)"
  shows "jobs_inv (update_where p (cancel_row now) t) \<and> keeps_rows t (update_where p (cancel_row now) t)"
  using assms
  by (auto intro!: jobs_inv_update_where keeps_rows_update_where job_wf_cancel_row
      simp: row_evolves_def)

lemma record_keeps:
  assumes "jobs_inv t" "RecordResult now organization fence outcome t later = (v, t')"
  shows "jobs_inv t' \<and> keeps_rows t t'"
proof -
  let ?p = "fence_holds organization fence" and ?u = "update_where (fence_holds organization fence) (finished now outcome) t"
  have "keeps_rows t ?u"
    by (rule keeps_rows_update_where) (auto simp: fence_holds_def row_change_defs)
  moreover have "jobs_inv ?u" if "terminal (outcome_Status outcome)"
    using that by (intro jobs_inv_update_where [OF assms(1)])
      (auto intro: job_wf_finished)
  moreover have "?u = t" if "rows_affected ?p t = 0"
    using that by (intro update_where_no_match) (auto simp: rows_affected_0)
  ultimately show ?thesis
    using RecordResult_result [OF assms(2)] assms(1) by auto
qed

lemma job_step_keeps:
  assumes "job_step t t'" "jobs_inv t"
  shows "jobs_inv t' \<and> keeps_rows t t'"
  using assms
proof (induction rule: job_step.induct)
  case (cancel now organization jobID t v t')
  then have "t' = update_where (cancellable organization jobID) (cancel_row now) t"
    by (auto simp: RequestJobCancellation_def Let_def split: list.splits if_splits)
  with cancel.prems show ?case
    using cancel_where_keeps [of t "cancellable organization jobID" now] by (auto simp: cancellable_def)
next
  case (cancel_investigation t now organization investigation)
  then show ?case
    unfolding cancelInvestigationJobs_def by (intro cancel_where_keeps) auto
qed ((rule enqueue_keeps; assumption) | (rule claim_keeps; assumption) | (rule adopt_keeps; assumption)
  | (rule release_keeps; assumption) | (rule record_keeps; assumption))+

interpretation jobs: fenced_rows job_step jobs_inv "\<lambda>t i. row_of job_id i t" job_lease_epoch
  "\<lambda>r. terminal (job_status r)" "fence_holds organization" fence_LeaseEpoch
proof unfold_locales
  show "jobs_inv t'" if "jobs_inv t" "job_step t t'" for t t'
    using job_step_keeps that by blast
  show "\<exists>r'. row_of job_id k t' = Some r' \<and> job_lease_epoch r \<le> job_lease_epoch r' \<and>
      (terminal (job_status r) \<longrightarrow> r' = r)"
    if "jobs_inv t" "job_step t t'" "row_of job_id k t = Some r" for t t' k r
    using job_step_keeps [OF that(2,1)] that(3) by (auto simp: keeps_rows_def row_evolves_def)
qed (auto simp: fence_holds_def)

end
