(* ===== verification/RelayQueue.thy ===== *)
theory RelayQueue
  imports RelayFencing
begin

text \<open>
  The properties of the relay work queue: what claiming takes and what it leaves, that
  results are recorded at most once and only under the current lease, that adoption keeps an
  execution in flight valid, and that releasing fences the executions it gives up on.
\<close>

section \<open>Claims\<close>

lemma claim_row:
  assumes "jobs_inv t" "ClaimJobs now locked organization c t = Inr (jobs, t')"
    and "row_of job_id i t = Some r"
  shows "row_of job_id i t' = Some (if i \<in> rj_ID ` set jobs then lease_to now c r else r)"
    and "i \<in> rj_ID ` set jobs \<Longrightarrow> claimable now organization (claim_RegistrationID c) r \<and> \<not> locked i"
proof -
  let ?s = "claim_selection now locked organization c t"
  let ?p = "\<lambda>r. job_id r \<in> job_id ` set ?s"
  note result = ClaimJobs_result [OF assms(2)]
  have dist: "distinct (map job_id t)" using assms(1) by (simp add: jobs_inv_def)
  have r: "r \<in> set t" "job_id r = i" using row_of_Some [OF assms(3)] by auto
  have sub: "set ?s \<subseteq> set t" using claim_selection_subset by blast
  have ids: "rj_ID ` set jobs = job_id ` set ?s"
    unfolding result(2) using sub by (force simp: claimed_job_def)
  show "row_of job_id i t' = Some (if i \<in> rj_ID ` set jobs then lease_to now c r else r)"
    using assms(3) r(2) by (simp add: result(1) ids row_of_update_where)
  assume "i \<in> rj_ID ` set jobs"
  then have "r \<in> set ?s" using chosen_claimable(1) [OF dist r(1)] r(2) ids by simp
  then show "claimable now organization (claim_RegistrationID c) r \<and> \<not> locked i"
    using claim_selection_subset r(2) by blast
qed

lemma claimed_job_row:
  assumes "ClaimJobs now locked organization c t = Inr (jobs, t')" "job \<in> set jobs"
  obtains r where "r \<in> set t" "job = claimed_job (lease_to now c r)"
  using assms(2) unfolding ClaimJobs_result(2) [OF assms(1)] by auto

lemma rows_affected_keys_le:
  assumes "distinct (map k t)" "set s \<subseteq> set t"
  shows "rows_affected (\<lambda>r. k r \<in> k ` set s) t \<le> length s"
proof -
  have "set (filter (\<lambda>r. k r \<in> k ` set s) t) \<subseteq> set s"
    using key_in_sublist [OF assms] by auto
  moreover have "distinct (filter (\<lambda>r. k r \<in> k ` set s) t)"
    using assms(1) by (simp add: distinct_map)
  ultimately show ?thesis
    unfolding rows_affected_def by (metis card_mono card_length distinct_card finite_set le_trans)
qed

lemma rows_affected_update_le:
  "rows_affected q (update_where p f t) \<le> rows_affected q t + rows_affected p t"
  by (induction t) auto

lemma claim_holds_le:
  assumes "jobs_inv t" "ClaimJobs now locked organization c t = Inr (jobs, t')"
  shows "rows_affected (holds now organization (claim_SessionID c)) t'
    \<le> max (nat (claim_Capacity c)) (rows_affected (holds now organization (claim_SessionID c)) t)"
proof -
  let ?s = "claim_selection now locked organization c t" and ?h = "holds now organization (claim_SessionID c)"
  let ?p = "\<lambda>r. job_id r \<in> job_id ` set ?s"
  have dist: "distinct (map job_id t)" using assms(1) by (simp add: jobs_inv_def)
  have sub: "set ?s \<subseteq> set t" using claim_selection_subset by blast
  have "rows_affected ?h t' \<le> rows_affected ?h t + rows_affected ?p t"
    unfolding ClaimJobs_result(1) [OF assms(2)] by (rule rows_affected_update_le)
  also have "rows_affected ?p t \<le> length ?s" by (rule rows_affected_keys_le [OF dist sub])
  also have "length ?s \<le> nat (claim_Capacity c - int (rows_affected ?h t))"
    by (simp add: claim_selection_def)
  finally show ?thesis by linarith
qed

text \<open>The selection is a prefix of the claimable jobs in order of age.\<close>

lemma claim_selection_sorted:
  assumes "r \<in> set (claim_selection now locked organization c t)" "r' \<in> set t"
    and "claimable now organization (claim_RegistrationID c) r'" "\<not> locked (job_id r')"
    and "r' \<notin> set (claim_selection now locked organization c t)"
  shows "job_created_at r \<le> job_created_at r'"
proof -
  define all where "all = sort_key job_created_at
      (filter (\<lambda>r. claimable now organization (claim_RegistrationID c) r \<and> \<not> locked (job_id r)) t)"
  define n where "n = nat (claim_Capacity c - int (rows_affected (holds now organization (claim_SessionID c)) t))"
  have sel: "claim_selection now locked organization c t = take n all"
    by (simp add: claim_selection_def all_def n_def)
  have "r' \<in> set all" using assms(2-4) by (simp add: all_def)
  then have "r' \<in> set (drop n all)" using assms(5) sel by (metis append_take_drop_id set_append Un_iff)
  moreover have "sorted (map job_created_at (take n all @ drop n all))" by (simp add: all_def)
  ultimately show ?thesis
    using assms(1) unfolding sel map_append sorted_append by auto
qed

lemma claim_selection_nonempty:
  assumes "int (rows_affected (holds now organization (claim_SessionID c)) t) < claim_Capacity c"
    and "r \<in> set t" "claimable now organization (claim_RegistrationID c) r" "\<not> locked (job_id r)"
  shows "claim_selection now locked organization c t \<noteq> []"
proof -
  let ?all = "filter (\<lambda>r. claimable now organization (claim_RegistrationID c) r \<and> \<not> locked (job_id r)) t"
  have "r \<in> set (sort_key job_created_at ?all)" using assms(2-4) by simp
  then have "sort_key job_created_at ?all \<noteq> []" by force
  with assms(1) show ?thesis by (simp add: claim_selection_def)
qed

section \<open>Results and adoption\<close>

lemma record_accepted_iff:
  assumes "jobs_inv t" "organization \<noteq> uuid_Nil"
  shows "rows_affected (fence_holds organization fence) t = 1 \<longleftrightarrow>
    (\<exists>r. row_of job_id (fence_JobID fence) t = Some r \<and> fence_holds organization fence r)"
proof -
  let ?p = "fence_holds organization fence"
  have dist: "distinct (map job_id t)" using assms(1) by (simp add: jobs_inv_def)
  have le: "rows_affected ?p t \<le> 1"
  proof -
    have "card (set (filter ?p t)) \<le> card {fence_JobID fence}"
      by (rule card_inj_on_le [of job_id])
         (use dist in \<open>auto simp: fence_holds_def inj_on_def distinct_map\<close>)
    moreover have "card (set (filter ?p t)) = rows_affected ?p t"
      unfolding rows_affected_def by (rule distinct_card) (use dist in \<open>simp add: distinct_map\<close>)
    ultimately show ?thesis by simp
  qed
  have "rows_affected ?p t = 1 \<longleftrightarrow> (\<exists>r \<in> set t. ?p r)"
    using le rows_affected_0 [of ?p t] by (metis One_nat_def le_Suc_eq le_zero_eq one_neq_zero)
  also have "\<dots> \<longleftrightarrow> (\<exists>r. row_of job_id (fence_JobID fence) t = Some r \<and> ?p r)"
    using row_of_iff [OF dist] by (auto simp: fence_holds_def)
  finally show ?thesis .
qed

lemma RecordResult_refused:
  assumes "jobs_inv t"
    and "\<And>r. row_of job_id (fence_JobID fence) t = Some r \<Longrightarrow> \<not> fence_holds organization fence r"
  shows "fst (RecordResult now organization fence outcome t later) \<noteq> Inr ()"
    and "snd (RecordResult now organization fence outcome t later) = t"
proof -
  let ?p = "fence_holds organization fence"
  have dist: "distinct (map job_id t)" using assms(1) by (simp add: jobs_inv_def)
  have none: "\<forall>r \<in> set t. \<not> ?p r"
    using assms(2) row_of_iff [OF dist] by (auto simp: fence_holds_def)
  then have "rows_affected ?p t = 0" "update_where ?p (finished now outcome) t = t"
    by (auto simp: rows_affected_0 intro: update_where_no_match)
  then show "fst (RecordResult now organization fence outcome t later) \<noteq> Inr ()"
    and "snd (RecordResult now organization fence outcome t later) = t"
    by (auto simp: RecordResult_def explainRefusedResult_def in_organization_def
        split: sum.splits list.splits)
qed

lemma RecordResult_accepted:
  assumes "jobs_inv t" "organization \<noteq> uuid_Nil" "terminal (outcome_Status outcome)"
    and "row_of job_id (fence_JobID fence) t = Some r" "fence_holds organization fence r"
  shows "RecordResult now organization fence outcome t later =
    (Inr (), update_where (fence_holds organization fence) (finished now outcome) t)"
  using record_accepted_iff [OF assms(1,2), of fence] assms
  by (auto simp: RecordResult_def poolForOrganization_def)

lemma explain_stale:
  assumes "explainRefusedResult organization fence t = Inl (ErrResultRefused refusal)"
    and "refusal = ResultAlreadyRecorded \<or> refusal = ResultFenceSuperseded" "jobs_inv t"
  obtains r where "row_of job_id (fence_JobID fence) t = Some r"
    "terminal (job_status r) \<or> fence_LeaseEpoch fence < job_lease_epoch r"
proof -
  have dist: "distinct (map job_id t)" using assms(3) by (simp add: jobs_inv_def)
  from assms(1,2) obtain r rs where
    f: "filter (\<lambda>r. job_id r = fence_JobID fence \<and> job_org r = organization) t = r # rs"
    and c: "terminal (job_status r) \<or> fence_LeaseEpoch fence < job_lease_epoch r"
    by (cases "job_status (hd (filter (\<lambda>r. job_id r = fence_JobID fence \<and> job_org r = organization) t))")
       (auto simp: explainRefusedResult_def in_organization_def poolForOrganization_def
         split: list.splits if_splits)
  from f have "r \<in> set t" "job_id r = fence_JobID fence"
    using filter_Cons_mem [OF f] by auto
  with row_of_iff [OF dist] c that show thesis by blast
qed

lemma PendingCancellations_told:
  assumes "organization \<noteq> uuid_Nil" "r \<in> set t" "job_org r = organization"
    and "job_lease_session r = Some session" "job_status r = JobLeased" "job_cancel_requested_at r \<noteq> None"
  shows "\<exists>fences. PendingCancellations organization session t = Inr fences \<and> job_id r \<in> fence_JobID ` set fences"
proof -
  have "r \<in> set (filter (\<lambda>r. job_org r = organization \<and> job_lease_session r = Some session
      \<and> job_status r = JobLeased \<and> job_cancel_requested_at r \<noteq> None) t)"
    using assms by simp
  then show ?thesis
    using assms(1) by (simp add: PendingCancellations_def image_image)
qed

section \<open>Properties\<close>

text \<open>A row for the witnesses: one pending job of organization 1 and registration 2.\<close>

definition sample_job :: relay_job where
  "sample_job =
     \<lparr>job_id = 7, job_org = 1, job_registration = 2, job_integration = 3,
      job_capability_id = ''kubernetes.workload.runtime'', job_capability_version = 1,
      job_arguments = ''a'', job_status = JobPending, job_lease_session = None,
      job_lease_epoch = 0, job_lease_expires_at = None, job_cancel_requested_at = None,
      job_result = None, job_terminal_at = None, job_created_at = 5, job_investigation = None\<rparr>"

definition sample_leased :: relay_job where
  "sample_leased = sample_job\<lparr>job_status := JobLeased, job_lease_session := Some 9,
     job_lease_epoch := 1, job_lease_expires_at := Some 100\<rparr>"

definition sample_claim :: JobClaim where
  "sample_claim = \<lparr>claim_RegistrationID = 2, claim_SessionID = 9, claim_LeaseFor = 90, claim_Capacity = 1\<rparr>"

definition sample_done :: relay_job where
  "sample_done = finished 20 \<lparr>outcome_Status = JobSucceeded, outcome_Result = Some ''ok''\<rparr> sample_leased"

lemmas sample_defs = sample_job_def sample_leased_def sample_claim_def sample_done_def finished_def

lemma sample_inv:
  "jobs_inv [sample_job]" "jobs_inv [sample_leased]" "jobs_inv [sample_done]"
  by (simp_all add: sample_defs jobs_inv_def job_wf_def in_int64_def)

lemma sample_claimed:
  "ClaimJobs 10 (\<lambda>_. False) 1 sample_claim [sample_job]
     = Inr ([claimed_job (lease_to 10 sample_claim sample_job)], [lease_to 10 sample_claim sample_job])"
  by (simp add: ClaimJobs_def claim_selection_def claimable_def holds_def sample_defs)

text \<open>
  C9. A job that reached a terminal status is final: whatever statements run afterwards, in
  whatever order, its row (status, result and the moment it ended) is the one first recorded.
\<close>

theorem terminal_job_is_final:
  assumes "jobs_inv t" "job_step\<^sup>*\<^sup>* t t'"
    and "row_of job_id i t = Some r" "terminal (job_status r)"
  shows "row_of job_id i t' = Some r"
  using jobs.closed_forever assms by metis

theorem terminal_job_is_final_witness:
  "row_of job_id 7 (cancelInvestigationJobs 30 1 4 [sample_done]) = Some sample_done"
proof (rule terminal_job_is_final [OF sample_inv(3)])
  show "job_step\<^sup>*\<^sup>* [sample_done] (cancelInvestigationJobs 30 1 4 [sample_done])"
    by (rule r_into_rtranclp) (rule job_step.cancel_investigation)
qed (simp_all add: sample_defs)

text \<open>
  C17. A result that \<open>explainRefusedResult\<close> calls already recorded or superseded can never be
  recorded later: after any further statements, recording it again is refused and changes no
  row. This is what makes the acknowledgement that tells the relay to stop resending safe.
\<close>

theorem refused_result_stays_refused:
  assumes "jobs_inv t"
    and "explainRefusedResult organization fence t = Inl (ErrResultRefused refusal)"
    and "refusal = ResultAlreadyRecorded \<or> refusal = ResultFenceSuperseded"
    and "job_step\<^sup>*\<^sup>* t t'"
  shows "fst (RecordResult now organization fence outcome t' later) \<noteq> Inr ()
    \<and> snd (RecordResult now organization fence outcome t' later) = t'"
proof -
  obtain r where r: "row_of job_id (fence_JobID fence) t = Some r"
    "terminal (job_status r) \<or> fence_LeaseEpoch fence < job_lease_epoch r"
    using explain_stale [OF assms(2,3,1)] .
  have "\<not> fence_holds organization fence r'" if "row_of job_id (fence_JobID fence) t' = Some r'" for r'
    using jobs.refused_forever [OF assms(4,1) r that] .
  moreover have "jobs_inv t'" using jobs.run_invariant [OF assms(4,1)] .
  ultimately show ?thesis using RecordResult_refused by blast
qed

theorem refused_result_stays_refused_witness:
  "fst (RecordResult 40 1 \<lparr>fence_JobID = 7, fence_LeaseSession = 9, fence_LeaseEpoch = 0\<rparr>
          \<lparr>outcome_Status = JobFailed, outcome_Result = None\<rparr> [sample_leased] []) \<noteq> Inr ()
   \<and> snd (RecordResult 40 1 \<lparr>fence_JobID = 7, fence_LeaseSession = 9, fence_LeaseEpoch = 0\<rparr>
          \<lparr>outcome_Status = JobFailed, outcome_Result = None\<rparr> [sample_leased] []) = [sample_leased]"
  by (rule refused_result_stays_refused [OF sample_inv(2), where refusal = ResultFenceSuperseded])
     (simp_all add: explainRefusedResult_def sample_defs)

text \<open>
  C18. \<open>ClaimJobs\<close> leases exactly the jobs it returns and leaves every other row as it was.
  Each returned job was pending or under a lapsed lease, belonged to the claiming organization
  and registration, and was not locked by another transaction; so no job is taken from a
  session whose lease is still running.
\<close>

theorem claim_takes_only_claimable:
  assumes "jobs_inv t" "ClaimJobs now locked organization c t = Inr (jobs, t')"
    and "row_of job_id i t = Some r"
  shows "row_of job_id i t' = Some (if i \<in> rj_ID ` set jobs then lease_to now c r else r)
    \<and> (i \<in> rj_ID ` set jobs \<longrightarrow>
         claimable now organization (claim_RegistrationID c) r \<and> \<not> locked i
         \<and> \<not> (job_status r = JobLeased \<and> lease_live now r))"
  using claim_row [OF assms]
  by (auto simp: claimable_def lease_live_def lease_lapsed_def split: option.splits)

theorem claim_takes_only_claimable_witness:
  "row_of job_id 7 [lease_to 10 sample_claim sample_job] = Some (lease_to 10 sample_claim sample_job)
   \<and> claimable 10 1 2 sample_job"
  using claim_takes_only_claimable [OF sample_inv(1) sample_claimed, of 7 sample_job]
  by (simp add: claimed_job_def sample_defs lease_to_def)

text \<open>
  Capacity is a ceiling on what a session holds at once: after a claim the session's live
  leases number at most its declared capacity, or what it already held when that was more.
\<close>

theorem claim_within_capacity:
  assumes "jobs_inv t" "ClaimJobs now locked organization c t = Inr (jobs, t')"
  shows "rows_affected (holds now organization (claim_SessionID c)) t'
    \<le> max (nat (claim_Capacity c)) (rows_affected (holds now organization (claim_SessionID c)) t)"
  using claim_holds_le [OF assms] .

theorem claim_within_capacity_witness:
  "rows_affected (holds 10 1 9) [lease_to 10 sample_claim sample_job] \<le> 1"
  using claim_within_capacity [OF sample_inv(1) sample_claimed]
  by (simp add: sample_defs holds_def split: if_splits)

text \<open>
  C25. Claiming makes progress and is fair by age: a session with spare capacity gets at least
  one job whenever an unlocked claimable job exists, and a job left behind is never older than
  a job that was taken.
\<close>

theorem claim_progress_oldest_first:
  assumes "jobs_inv t" "ClaimJobs now locked organization c t = Inr (jobs, t')"
    and "int (rows_affected (holds now organization (claim_SessionID c)) t) < claim_Capacity c"
    and "r \<in> set t" "claimable now organization (claim_RegistrationID c) r" "\<not> locked (job_id r)"
  shows "jobs \<noteq> []
    \<and> (job_id r \<notin> rj_ID ` set jobs \<longrightarrow>
         (\<forall>r' \<in> set t. job_id r' \<in> rj_ID ` set jobs \<longrightarrow> job_created_at r' \<le> job_created_at r))"
proof -
  let ?s = "claim_selection now locked organization c t"
  note result = ClaimJobs_result [OF assms(2)]
  have dist: "distinct (map job_id t)" using assms(1) by (simp add: jobs_inv_def)
  have sub: "set ?s \<subseteq> set t" using claim_selection_subset by blast
  have ids: "rj_ID ` set jobs = job_id ` set ?s"
    unfolding result(2) using sub by (force simp: claimed_job_def)
  have "?s \<noteq> []" using claim_selection_nonempty assms(3-6) by blast
  then have "jobs \<noteq> []" using ids by auto
  moreover have "job_created_at r' \<le> job_created_at r"
    if "job_id r \<notin> rj_ID ` set jobs" "r' \<in> set t" "job_id r' \<in> rj_ID ` set jobs" for r'
  proof (rule claim_selection_sorted [where locked = locked, OF _ assms(4-6)])
    show "r' \<in> set ?s" using chosen_claimable(1) [OF dist that(2)] that(3) ids by simp
    show "r \<notin> set ?s" using that(1) ids by blast
  qed
  ultimately show ?thesis by blast
qed

theorem claim_progress_oldest_first_witness:
  "[claimed_job (lease_to 10 sample_claim sample_job)] \<noteq> []"
  using claim_progress_oldest_first [OF sample_inv(1) sample_claimed, of sample_job]
  by (simp add: sample_defs holds_def claimable_def)

text \<open>
  C19. No two executions of a job share a fence: when a job is claimed, and later, after any
  other statements, claimed again, the second lease has a strictly greater epoch. A result
  from the first execution therefore never passes for one of the second.
\<close>

theorem claims_never_share_an_epoch:
  assumes "jobs_inv t" "ClaimJobs now locked organization c t = Inr (jobs, t1)"
    and "job_step\<^sup>*\<^sup>* t1 t2"
    and "ClaimJobs now' locked' organization' c' t2 = Inr (jobs', t3)"
    and "job \<in> set jobs" "job' \<in> set jobs'" "rj_ID job = rj_ID job'"
  shows "rj_LeaseEpoch job < rj_LeaseEpoch job'"
proof -
  obtain r where r: "r \<in> set t" "job = claimed_job (lease_to now c r)"
    using claimed_job_row [OF assms(2,5)] .
  obtain r2 where r2: "r2 \<in> set t2" "job' = claimed_job (lease_to now' c' r2)"
    using claimed_job_row [OF assms(4,6)] .
  have inv1: "jobs_inv t1" using claim_keeps [OF assms(1,2)] by blast
  have inv2: "jobs_inv t2" using jobs.run_invariant [OF assms(3) inv1] .
  have id: "job_id r = rj_ID job" "job_id r2 = rj_ID job" using r(2) r2(2) assms(7) by (auto simp: claimed_job_def)
  have "row_of job_id (rj_ID job) t = Some r"
    using row_of_iff [of job_id t] r(1) id(1) assms(1) by (simp add: jobs_inv_def)
  then have "row_of job_id (rj_ID job) t1 = Some (lease_to now c r)"
    using claim_row(1) [OF assms(1,2)] assms(5) by simp
  moreover have "row_of job_id (rj_ID job) t2 = Some r2"
    using row_of_iff [of job_id t2] r2(1) id(2) inv2 by (simp add: jobs_inv_def)
  ultimately have "job_lease_epoch (lease_to now c r) \<le> job_lease_epoch r2"
    using jobs.run_row [OF assms(3) inv1] by fastforce
  then show ?thesis using r(2) r2(2) by (simp add: claimed_job_def lease_to_def)
qed

lemma sample_reclaimed:
  "ClaimJobs 200 (\<lambda>_. False) 1 sample_claim [lease_to 10 sample_claim sample_job]
     = Inr ([claimed_job (lease_to 200 sample_claim (lease_to 10 sample_claim sample_job))],
            [lease_to 200 sample_claim (lease_to 10 sample_claim sample_job)])"
  by (simp add: ClaimJobs_def claim_selection_def claimable_def holds_def lease_live_def lease_lapsed_def
      sample_defs lease_to_def)

theorem claims_never_share_an_epoch_witness:
  "rj_LeaseEpoch (claimed_job (lease_to 10 sample_claim sample_job))
     < rj_LeaseEpoch (claimed_job (lease_to 200 sample_claim (lease_to 10 sample_claim sample_job)))"
  by (rule claims_never_share_an_epoch [OF sample_inv(1) sample_claimed _ sample_reclaimed])
     (simp_all add: claimed_job_def lease_to_def)

text \<open>
  Adopting the work a reconnected relay never stopped keeps that work valid: for every
  job it reports as adopted, the relay had declared the job at its current epoch, and a result
  presented by the new session under that epoch is recorded.
\<close>

theorem adopted_execution_still_reports:
  assumes "jobs_inv t" "AdoptInFlightLeases now organization a t = Inr (ids, t')" "i \<in> set ids"
    and "terminal (outcome_Status outcome)"
  shows "\<exists>epoch. \<lparr>flight_JobID = i, flight_LeaseEpoch = epoch\<rparr> \<in> set (adopt_InFlight a)
    \<and> fst (RecordResult now' organization
             \<lparr>fence_JobID = i, fence_LeaseSession = adopt_SessionID a, fence_LeaseEpoch = epoch\<rparr>
             outcome t' later) = Inr ()"
proof -
  let ?p = "declared_in_flight organization a"
  from assms(2,3) have org: "organization \<noteq> uuid_Nil"
    and t': "t' = update_where ?p (adopted now a) t" and ids: "ids = map job_id (filter ?p t)"
    by (auto simp: AdoptInFlightLeases_def split: if_splits)
  from ids assms(3) obtain r where r: "r \<in> set t" "?p r" "job_id r = i" by auto
  then obtain d where d: "d \<in> set (adopt_InFlight a)" "flight_JobID d = i" "flight_LeaseEpoch d = job_lease_epoch r"
    by (auto simp: declared_in_flight_def list_ex_iff)
  have "row_of job_id i t = Some r" using row_of_iff [of job_id t] r assms(1) by (simp add: jobs_inv_def)
  then have "row_of job_id i t' = Some (adopted now a r)"
    using r(2) by (simp add: t' row_of_update_where)
  moreover have "fence_holds organization \<lparr>fence_JobID = i, fence_LeaseSession = adopt_SessionID a,
      fence_LeaseEpoch = job_lease_epoch r\<rparr> (adopted now a r)"
    using r by (auto simp: fence_holds_def adopted_def declared_in_flight_def)
  ultimately have "fst (RecordResult now' organization \<lparr>fence_JobID = i, fence_LeaseSession = adopt_SessionID a,
      fence_LeaseEpoch = job_lease_epoch r\<rparr> outcome t' later) = Inr ()"
    using RecordResult_accepted [OF _ org assms(4)] adopt_keeps [OF assms(1,2)] by fastforce
  moreover have "d = \<lparr>flight_JobID = i, flight_LeaseEpoch = job_lease_epoch r\<rparr>" using d by simp
  ultimately show ?thesis using d(1) by metis
qed

theorem adopted_execution_still_reports_witness:
  "\<exists>epoch. \<lparr>flight_JobID = 7, flight_LeaseEpoch = epoch\<rparr>
       \<in> set [\<lparr>flight_JobID = 7, flight_LeaseEpoch = 1\<rparr>]
    \<and> fst (RecordResult 60 1 \<lparr>fence_JobID = 7, fence_LeaseSession = 11, fence_LeaseEpoch = epoch\<rparr>
             \<lparr>outcome_Status = JobSucceeded, outcome_Result = None\<rparr>
             [adopted 50 \<lparr>adopt_RegistrationID = 2, adopt_SessionID = 11, adopt_LeaseFor = 90,
                adopt_InFlight = [\<lparr>flight_JobID = 7, flight_LeaseEpoch = 1\<rparr>]\<rparr> sample_leased] []) = Inr ()"
  using adopted_execution_still_reports [OF sample_inv(2), of 50 1
      "\<lparr>adopt_RegistrationID = 2, adopt_SessionID = 11, adopt_LeaseFor = 90,
        adopt_InFlight = [\<lparr>flight_JobID = 7, flight_LeaseEpoch = 1\<rparr>]\<rparr>" "[7]" _ 7
      "\<lparr>outcome_Status = JobSucceeded, outcome_Result = None\<rparr>" 60 "[]"]
  by (simp add: AdoptInFlightLeases_def declared_in_flight_def sample_defs)

text \<open>
  Releasing stranded leases leaves the registration's work either pending or leased to the
  session that reported the complete roster, and fences every execution it released: a result
  under the lease the job had before is refused from then on, whatever statements follow.
\<close>

theorem released_executions_are_fenced:
  assumes "jobs_inv t" "ReleaseStrandedLeases organization registration holder t = Inr (n, t')"
    and "row_of job_id i t = Some r" "job_org r = organization" "job_registration r = registration"
    and "job_status r = JobLeased"
  shows "(job_lease_session r = Some holder \<and> row_of job_id i t' = Some r)
    \<or> (row_of job_id i t' = Some (released r)
       \<and> (\<forall>t'' session now outcome later. job_step\<^sup>*\<^sup>* t' t'' \<longrightarrow>
            fst (RecordResult now organization
                   \<lparr>fence_JobID = i, fence_LeaseSession = session, fence_LeaseEpoch = job_lease_epoch r\<rparr>
                   outcome t'' later) \<noteq> Inr ()))"
proof -
  from assms(2) have t': "t' = update_where (stranded organization registration holder) released t"
    by (auto simp: ReleaseStrandedLeases_def Let_def split: if_splits)
  have inv': "jobs_inv t'" using release_keeps [OF assms(1,2)] by blast
  have row: "row_of job_id i t' =
      Some (if stranded organization registration holder r then released r else r)"
    using assms(3) by (simp add: t' row_of_update_where)
  show ?thesis
  proof (cases "job_lease_session r = Some holder")
    case True
    with row show ?thesis by (simp add: stranded_def)
  next
    case False
    with row assms(4-6) have rel: "row_of job_id i t' = Some (released r)" by (simp add: stranded_def)
    have "fst (RecordResult now organization
        \<lparr>fence_JobID = i, fence_LeaseSession = session, fence_LeaseEpoch = job_lease_epoch r\<rparr>
        outcome t'' later) \<noteq> Inr ()" (is "fst (RecordResult _ _ ?f _ _ _) \<noteq> _")
      if run: "job_step\<^sup>*\<^sup>* t' t''" for t'' session now outcome later
    proof (rule RecordResult_refused(1) [OF jobs.run_invariant [OF run inv']])
      show "\<not> fence_holds organization ?f r''" if "row_of job_id (fence_JobID ?f) t'' = Some r''" for r''
        using jobs.refused_forever [OF run inv' rel, of ?f r''] that by (simp add: released_def)
    qed
    with rel show ?thesis by blast
  qed
qed

theorem released_executions_are_fenced_witness:
  "row_of job_id 7 [released sample_leased] = Some (released sample_leased)"
  using released_executions_are_fenced [OF sample_inv(2), of 1 2 11 1 "[released sample_leased]" 7 sample_leased]
  by (simp add: ReleaseStrandedLeases_def stranded_def sample_defs)

text \<open>
  Every table the queue's statements can produce, in any order, from an empty one is
  well formed: job identifiers are unique, a lease is whole (session and expiry together) and
  present exactly while the job is leased, a terminal job and only such a job is stamped, and
  epochs stay in the range of \<open>bigint\<close>.
\<close>

theorem queue_tables_are_well_formed:
  assumes "job_step\<^sup>*\<^sup>* [] t"
  shows "jobs_inv t"
  using jobs.run_invariant [OF assms] by simp

theorem queue_tables_are_well_formed_witness:
  "jobs_inv (cancelInvestigationJobs 0 1 1 [])"
  by (rule queue_tables_are_well_formed)
     (rule r_into_rtranclp, rule job_step.cancel_investigation)

text \<open>
  Work is queued for a relay only where the operator allows it: a job enters the table
  only when an integration of the same organization, enabled, verified, served by the named
  relay and granting the capability exists, and, for an investigation's job, while that
  investigation is running. The new row is pending and unleased at epoch 0.
\<close>

theorem enqueue_requires_a_verified_grant:
  assumes "EnqueueVerifiedJob now organization job ints invs t = Inr t'"
  shows "\<exists>i \<in> set ints. int_org i = organization \<and> \<not> int_disabled i
      \<and> int_verification_status i = Some ''verified''
      \<and> int_relay_id i = Some (rj_RegistrationID job)
      \<and> rj_CapabilityID job \<in> set (int_verification_grants i)
      \<and> t' = t @ [enqueued now organization job i]
      \<and> job_registration (enqueued now organization job i) = rj_RegistrationID job
    \<and> (rj_InvestigationID job = uuid_Nil \<or>
       (\<exists>s \<in> set invs. is_org s = organization \<and> is_id s = rj_InvestigationID job \<and> is_running s))"
proof -
  from assms obtain i more where f: "filter (serves_verified organization job) ints = i # more"
    and t': "t' = t @ [enqueued now organization job i]"
    and p: "investigation_permits organization job invs"
    by (auto simp: EnqueueVerifiedJob_def split: if_splits list.splits)
  from filter_Cons_mem [OF f] t' p show ?thesis
    by (auto simp: serves_verified_def enqueued_def investigation_permits_def nullableUUID_def list_ex_iff
        split: if_splits)
qed

definition sample_integration :: integration where
  "sample_integration =
     \<lparr>int_id = 3, int_org = 1, int_provider = ''kubernetes'', int_relay_id = Some 2, int_disabled = False,
      int_verification_status = Some ''verified'', int_verified_at = Some 1,
      int_verification_grants = [''kubernetes.workload.runtime'']\<rparr>"

theorem enqueue_requires_a_verified_grant_witness:
  "\<exists>i \<in> set [sample_integration]. int_org i = 1 \<and> \<not> int_disabled i"
  using enqueue_requires_a_verified_grant [of 5 1
      "claimed_job (sample_job\<lparr>job_lease_session := None\<rparr>)" "[sample_integration]" "[]" "[]"]
  by (simp add: EnqueueVerifiedJob_def serves_verified_def sample_integration_def investigation_permits_def
      nullableUUID_def claimed_job_def sample_defs)

text \<open>
  A cancellation of a job nobody is running is final at once: the job is never claimed
  again. For a leased job the request is remembered at the first moment it was made, however
  often it is repeated, and the holder is told of it.
\<close>

theorem cancellation_is_remembered:
  assumes "jobs_inv t" "row_of job_id i t = Some r" "job_org r = organization" "organization \<noteq> uuid_Nil"
    and "job_status r = JobPending \<or> job_status r = JobLeased"
  shows "\<exists>t' r'. RequestJobCancellation now organization i t
        = Inr (if job_status r = JobPending then CancellationRecorded else CancellationRequested, t')
      \<and> row_of job_id i t' = Some r'
      \<and> job_cancel_requested_at r' = (case job_cancel_requested_at r of None \<Rightarrow> Some now | Some m \<Rightarrow> Some m)
      \<and> (job_status r = JobPending \<longrightarrow>
           (\<forall>t'' registration later. job_step\<^sup>*\<^sup>* t' t'' \<longrightarrow> row_of job_id i t'' = Some r'
              \<and> \<not> claimable later organization registration r'))
      \<and> (\<forall>session. job_status r = JobLeased \<longrightarrow> job_lease_session r = Some session \<longrightarrow>
           (\<exists>fences. PendingCancellations organization session t' = Inr fences \<and> i \<in> fence_JobID ` set fences))"
proof -
  let ?p = "cancellable organization i" and ?r' = "cancel_row now r"
  let ?t' = "update_where (cancellable organization i) (cancel_row now) t"
  have dist: "distinct (map job_id t)" using assms(1) by (simp add: jobs_inv_def)
  have r: "r \<in> set t" "job_id r = i" using row_of_Some [OF assms(2)] by auto
  have p: "?p r" using r assms(3,5) by (auto simp: cancellable_def)
  have first: "\<exists>rs. filter ?p t = r # rs"
  proof -
    obtain r0 rs where f: "filter ?p t = r0 # rs"
      using r(1) p by (cases "filter ?p t") (auto simp: filter_empty_conv)
    then have "r0 \<in> set t" "job_id r0 = i" using filter_Cons_mem [OF f] by (auto simp: cancellable_def)
    then have "row_of job_id i t = Some r0" using row_of_iff [OF dist] by blast
    then have "r0 = r" using assms(2) by simp
    with f show ?thesis by blast
  qed
  then have call: "RequestJobCancellation now organization i t =
      Inr (if job_status r = JobPending then CancellationRecorded else CancellationRequested, ?t')"
    using assms(4,5) by (auto simp: RequestJobCancellation_def Let_def cancel_row_def)
  have row: "row_of job_id i ?t' = Some ?r'" using assms(2) p by (simp add: row_of_update_where)
  have inv': "jobs_inv ?t'" using cancel_where_keeps [OF assms(1), of ?p now] by (auto simp: cancellable_def)
  have told: "\<exists>fences. PendingCancellations organization session ?t' = Inr fences \<and> i \<in> fence_JobID ` set fences"
    if "job_status r = JobLeased" "job_lease_session r = Some session" for session
  proof -
    have "?r' \<in> set ?t'" using row_of_Some [OF row] by simp
    moreover have "job_org ?r' = organization" "job_lease_session ?r' = Some session"
        "job_status ?r' = JobLeased" "job_cancel_requested_at ?r' \<noteq> None" "job_id ?r' = i"
      using that assms(3) r(2) by (simp_all add: cancel_row_def split: option.splits)
    ultimately show ?thesis using PendingCancellations_told [OF assms(4)] by blast
  qed
  have "job_step\<^sup>*\<^sup>* ?t' t'' \<Longrightarrow> row_of job_id i t'' = Some ?r' \<and> \<not> claimable later organization registration ?r'"
    if "job_status r = JobPending" for t'' registration later
    using jobs.closed_forever [OF _ inv' row] that by (auto simp: cancel_row_def claimable_def)
  then show ?thesis
    using call row told by (auto simp: cancel_row_def split: option.splits)
qed

theorem cancellation_is_remembered_witness:
  "\<exists>t'. RequestJobCancellation 8 1 7 [sample_job] = Inr (CancellationRecorded, t')"
  using cancellation_is_remembered [OF sample_inv(1), of 7 sample_job 1 8]
  by (auto simp: sample_defs)

end
