(* ===== verification/GoStrings.thy ===== *)
theory GoStrings
  imports Prelude "HOL-Library.Char_ord" "HOL-Library.List_Lexorder"
begin

text \<open>
  The functions of Go's \<^verbatim>\<open>strings\<close> and \<^verbatim>\<open>unicode/utf8\<close> packages the modelled
  code uses, on strings as lists of bytes. Strings are ordered byte by byte, as Go and
  \<^verbatim>\<open>sort.Strings\<close> order them.
\<close>

section \<open>Spaces, prefixes, substrings\<close>

text \<open>
  The UTF-8 encodings of the runes for which \<^verbatim>\<open>unicode.IsSpace\<close> holds, and
  \<^verbatim>\<open>strings.TrimSpace\<close>, which cuts them off both ends. UTF-8 is self-synchronizing, so
  the last rune of a string is a space exactly when the string ends in one of the encodings.
\<close>

definition space_encodings :: "nat list list" where
  "space_encodings =
     [[9], [10], [11], [12], [13], [32], [0xC2, 0x85], [0xC2, 0xA0], [0xE1, 0x9A, 0x80],
      [0xE2, 0x80, 0x80], [0xE2, 0x80, 0x81], [0xE2, 0x80, 0x82], [0xE2, 0x80, 0x83], [0xE2, 0x80, 0x84],
      [0xE2, 0x80, 0x85], [0xE2, 0x80, 0x86], [0xE2, 0x80, 0x87], [0xE2, 0x80, 0x88], [0xE2, 0x80, 0x89],
      [0xE2, 0x80, 0x8A], [0xE2, 0x80, 0xA8], [0xE2, 0x80, 0xA9], [0xE2, 0x80, 0xAF], [0xE2, 0x81, 0x9F],
      [0xE3, 0x80, 0x80]]"

fun starts_with :: "nat list \<Rightarrow> string \<Rightarrow> bool" where
  "starts_with [] s = True"
| "starts_with (b # bs) [] = False"
| "starts_with (b # bs) (c # s) = (of_char c = b \<and> starts_with bs s)"

definition leading :: "nat list list \<Rightarrow> string \<Rightarrow> nat" where
  "leading encodings s =
     (case filter (\<lambda>e. starts_with e s) encodings of [] \<Rightarrow> 0 | e # _ \<Rightarrow> length e)"

function cut_leading :: "nat list list \<Rightarrow> string \<Rightarrow> string" where
  "cut_leading encodings s =
     (if leading encodings s = 0 \<or> s = [] then s else cut_leading encodings (drop (leading encodings s) s))"
  by pat_completeness auto
termination
  by (relation "measure (\<lambda>(encodings, s). length s)") auto

declare cut_leading.simps [simp del]

definition TrimSpace :: "string \<Rightarrow> string" where
  "TrimSpace s = rev (cut_leading (map rev space_encodings) (rev (cut_leading space_encodings s)))"

definition HasPrefix :: "string \<Rightarrow> string \<Rightarrow> bool" where
  "HasPrefix s prefix \<longleftrightarrow> take (length prefix) s = prefix"

definition CutPrefix :: "string \<Rightarrow> string \<Rightarrow> string option" where
  "CutPrefix s prefix = (if HasPrefix s prefix then Some (drop (length prefix) s) else None)"

lemma CutPrefix_append [simp]: "CutPrefix (prefix @ s) prefix = Some s"
  by (simp add: CutPrefix_def HasPrefix_def)

lemma length_cut_leading: "length (cut_leading encodings s) \<le> length s"
proof (induction encodings s rule: cut_leading.induct)
  case (1 encodings s)
  then show ?case by (subst cut_leading.simps) auto
qed

lemma length_TrimSpace: "length (TrimSpace s) \<le> length s"
  unfolding TrimSpace_def
  using length_cut_leading [of "map rev space_encodings" "rev (cut_leading space_encodings s)"]
    length_cut_leading [of space_encodings s]
  by simp

text \<open>A string with no leading or trailing space is left as it is.\<close>

lemma cut_leading_none: "leading encodings s = 0 \<Longrightarrow> cut_leading encodings s = s"
  by (subst cut_leading.simps) simp

lemma leading_none:
  assumes "s = [] \<or> of_char (hd s) \<notin> hd ` set encodings" "[] \<notin> set encodings"
  shows "leading encodings s = 0"
proof -
  have "\<not> starts_with e s" if "e \<in> set encodings" for e
  proof (cases e)
    case Nil
    with that assms(2) show ?thesis by simp
  next
    case (Cons b bs)
    with that assms(1) show ?thesis by (cases s) force+
  qed
  then have none: "filter (\<lambda>e. starts_with e s) encodings = []" by (simp add: filter_empty_conv)
  show ?thesis unfolding leading_def none by simp
qed

definition graphic :: "char \<Rightarrow> bool" where
  "graphic c \<longleftrightarrow> 33 \<le> (of_char c :: nat) \<and> (of_char c :: nat) \<le> 126"

lemma TrimSpace_graphic:
  assumes "s = [] \<or> graphic (hd s) \<and> graphic (last s)"
  shows "TrimSpace s = s"
proof -
  have first: "leading space_encodings s = 0"
    using assms by (intro leading_none) (auto simp: space_encodings_def graphic_def)
  have final: "leading (map rev space_encodings) (rev s) = 0"
    using assms by (intro leading_none) (auto simp: space_encodings_def graphic_def hd_rev)
  show ?thesis by (simp add: TrimSpace_def cut_leading_none [OF first] cut_leading_none [OF final])
qed

fun Contains :: "string \<Rightarrow> string \<Rightarrow> bool" where
  "Contains [] part \<longleftrightarrow> part = []"
| "Contains (c # s) part \<longleftrightarrow> HasPrefix (c # s) part \<or> Contains s part"

text \<open>
  \<^verbatim>\<open>strings.ToLower\<close> lowers the ASCII letters of an ASCII string itself and hands any other
  string to the Unicode tables, which are the argument \<open>unicode_lower\<close>.
\<close>

definition lower_byte :: "char \<Rightarrow> char" where
  "lower_byte c = (let n = (of_char c :: nat) in if 65 \<le> n \<and> n \<le> 90 then char_of (n + 32) else c)"

definition ToLower :: "(string \<Rightarrow> string) \<Rightarrow> string \<Rightarrow> string" where
  "ToLower unicode_lower s =
     (if \<forall>c \<in> set s. (of_char c :: nat) < 128 then map lower_byte s else unicode_lower s)"

section \<open>Runes\<close>

text \<open>
  \<open>rune_width\<close> is the width of the valid UTF-8 encoding a string starts with, or 0 where
  the first byte starts none. \<open>runes\<close> is the conversion \<^verbatim>\<open>[]rune(s)\<close>, each rune given
  by its encoding: an invalid byte becomes U+FFFD. So \<^verbatim>\<open>string(rs)\<close> is \<open>concat\<close>, and
  \<^verbatim>\<open>utf8.RuneCountInString\<close> is the length.
\<close>

definition continuation :: "nat \<Rightarrow> bool" where
  "continuation b \<longleftrightarrow> 0x80 \<le> b \<and> b \<le> 0xBF"

definition second_byte :: "nat \<Rightarrow> nat \<Rightarrow> bool" where
  "second_byte a b \<longleftrightarrow>
     (if a = 0xE0 then 0xA0 \<le> b \<and> b \<le> 0xBF
      else if a = 0xED then 0x80 \<le> b \<and> b \<le> 0x9F
      else if a = 0xF0 then 0x90 \<le> b \<and> b \<le> 0xBF
      else if a = 0xF4 then 0x80 \<le> b \<and> b \<le> 0x8F
      else continuation b)"

definition sequence_length :: "nat \<Rightarrow> nat" where
  "sequence_length a =
     (if a < 0x80 then 1
      else if 0xC2 \<le> a \<and> a \<le> 0xDF then 2
      else if 0xE0 \<le> a \<and> a \<le> 0xEF then 3
      else if 0xF0 \<le> a \<and> a \<le> 0xF4 then 4
      else 0)"

definition rune_width :: "string \<Rightarrow> nat" where
  "rune_width s =
     (case s of
        [] \<Rightarrow> 0
      | c # rest \<Rightarrow>
          let a = of_char c; n = sequence_length a in
          if n = 1 then 1
          else if n = 0 \<or> length rest < n - 1 then 0
          else if second_byte a (of_char (hd rest))
                  \<and> (\<forall>d \<in> set (take (n - 2) (tl rest)). continuation (of_char d))
          then n else 0)"

abbreviation RuneError :: string where
  "RuneError \<equiv> [CHR 0xEF, CHR 0xBF, CHR 0xBD]"

function runes :: "string \<Rightarrow> string list" where
  "runes s =
     (if s = [] then []
      else if rune_width s = 0 then RuneError # runes (drop 1 s)
      else take (rune_width s) s # runes (drop (rune_width s) s))"
  by pat_completeness auto
termination
  by (relation "measure length") auto

declare runes.simps [simp del]

abbreviation RuneCountInString :: "string \<Rightarrow> nat" where
  "RuneCountInString s \<equiv> length (runes s)"

text \<open>An encoding: a string that is exactly one rune wide.\<close>

definition encodes_rune :: "string \<Rightarrow> bool" where
  "encodes_rune e \<longleftrightarrow> e \<noteq> [] \<and> rune_width e = length e"

lemma rune_width_append:
  assumes "encodes_rune e"
  shows "rune_width (e @ s) = length e"
proof -
  from assms obtain c rest where e: "e = c # rest" "rune_width (c # rest) = Suc (length rest)"
    by (cases e) (auto simp: encodes_rune_def)
  define n where "n = sequence_length (of_char c)"
  from e(2) have n: "n = Suc (length rest)"
    by (auto simp: rune_width_def Let_def n_def [symmetric] split: if_splits)
  show ?thesis
  proof (cases rest)
    case Nil
    with n e(1) show ?thesis by (simp add: rune_width_def Let_def n_def [symmetric])
  next
    case (Cons d more)
    with e(2) n have "second_byte (of_char c) (of_char d)"
        "\<forall>d \<in> set (take (n - 2) more). continuation (of_char d)"
      by (auto simp: rune_width_def Let_def n_def [symmetric] split: if_splits)
    with Cons n e(1) show ?thesis by (simp add: rune_width_def Let_def n_def [symmetric])
  qed
qed

lemma runes_append:
  assumes "encodes_rune e"
  shows "runes (e @ s) = e # runes s"
  using rune_width_append [OF assms, of s] assms
  by (subst runes.simps) (simp add: encodes_rune_def)

lemma runes_concat: "\<forall>e \<in> set es. encodes_rune e \<Longrightarrow> runes (concat es @ s) = es @ runes s"
  by (induction es) (simp_all add: runes_append)

lemma rune_width_le: "rune_width s \<le> length s"
  by (auto simp: rune_width_def Let_def split: list.splits)

lemma rune_width_take:
  assumes "rune_width s \<noteq> 0"
  shows "encodes_rune (take (rune_width s) s)"
proof -
  from assms obtain c rest where s: "s = c # rest" by (cases s) (auto simp: rune_width_def)
  define n where "n = sequence_length (of_char c)"
  have w: "rune_width s = n"
    using assms by (auto simp: rune_width_def Let_def s n_def [symmetric] split: if_splits)
  show ?thesis
  proof (cases "n = 1")
    case True
    with s w show ?thesis by (simp add: encodes_rune_def rune_width_def n_def [symmetric])
  next
    case False
    with assms s have more: "n \<noteq> 0" "\<not> length rest < n - 1" "second_byte (of_char c) (of_char (hd rest))"
        "\<forall>d \<in> set (take (n - 2) (tl rest)). continuation (of_char d)"
      by (auto simp: rune_width_def Let_def n_def [symmetric] split: if_splits)
    from False more(1,2) obtain d tail m where m: "rest = d # tail" "n = Suc (Suc m)"
      by (cases rest; cases n; cases "n - 1") auto
    with more have "rune_width (take n s) = n"
      by (simp add: rune_width_def Let_def s n_def [symmetric])
    with w more(1,2) s m show ?thesis by (simp add: encodes_rune_def)
  qed
qed

lemma encodes_RuneError: "encodes_rune RuneError"
  by (simp add: encodes_rune_def rune_width_def sequence_length_def second_byte_def continuation_def)

lemma runes_encode: "\<forall>e \<in> set (runes s). encodes_rune e"
proof (induction s rule: runes.induct)
  case (1 s)
  show ?case
    using "1.IH" rune_width_take [of s] encodes_RuneError by (subst runes.simps) auto
qed

lemma ascii_encodes: "(of_char c :: nat) < 128 \<Longrightarrow> encodes_rune [c]"
  by (simp add: encodes_rune_def rune_width_def sequence_length_def)

lemma RuneCount_le_length: "RuneCountInString s \<le> length s"
proof (induction s rule: runes.induct)
  case (1 s)
  then show ?case
    using rune_width_le [of s] by (subst runes.simps) (auto simp: Suc_le_eq intro: le_less_trans)
qed

end
