(* ===== verification/AuditRecord.thy ===== *)
theory AuditRecord
  imports GoStrings Storage
begin

text \<open>
  The audit record of \<^verbatim>\<open>internal/audit\<close>: actors, targets, outcomes and events, and how an
  event is bounded and stripped of credentials before it is written.
\<close>

section \<open>Events\<close>

datatype ActorKind = ActorUser | ActorSystem

fun ActorKind_String :: "ActorKind \<Rightarrow> string" where
  "ActorKind_String ActorUser = ''user''"
| "ActorKind_String ActorSystem = ''system''"

datatype Outcome = OutcomeAllowed | OutcomeDenied | OutcomeFailed

fun Outcome_String :: "Outcome \<Rightarrow> string" where
  "Outcome_String OutcomeAllowed = ''allowed''"
| "Outcome_String OutcomeDenied = ''denied''"
| "Outcome_String OutcomeFailed = ''failed''"

record Actor =
  actor_Kind :: ActorKind
  actor_ID :: string
  actor_DisplayName :: string

definition System :: "string \<Rightarrow> Actor" where
  "System what = \<lparr>actor_Kind = ActorSystem, actor_ID = [], actor_DisplayName = what\<rparr>"

record Target =
  target_Kind :: string
  target_ID :: string

text \<open>
  A detail value, by the dynamic types \<open>boundedValue\<close> tells apart: a string; a nested detail
  (\<^verbatim>\<open>Detail\<close>, \<^verbatim>\<open>map[string]any\<close> or \<^verbatim>\<open>map[string]string\<close>, which the code treats
  alike); and every other value, which passes as it is: integers, booleans, lists of strings.
  A Go map is a list of pairs with distinct keys, whose order means nothing; \<open>[]\<close> is the nil
  detail, since the code never builds an empty one that is not nil.
\<close>

datatype detail_value =
    DString string
  | DNested "(string \<times> detail_value) list"
  | DInt int
  | DBool bool
  | DStrings "string list"

type_synonym Detail = "(string \<times> detail_value) list"

record Event =
  ev_Organization :: string
  ev_Actor :: Actor
  ev_Action :: string
  ev_Target :: Target
  ev_Outcome :: Outcome
  ev_SourceAddress :: string
  ev_RequestID :: string
  ev_OccurredAt :: "instant option"
  ev_Detail :: Detail

section \<open>Bounding\<close>

abbreviation maxAuditTextLength :: nat where
  "maxAuditTextLength \<equiv> 512"

abbreviation maxAuditMetadataLength :: nat where
  "maxAuditMetadataLength \<equiv> 128"

abbreviation maxAuditDetailEntries :: nat where
  "maxAuditDetailEntries \<equiv> 32"

definition truncate_text :: "string \<Rightarrow> nat \<Rightarrow> string" where
  "truncate_text value limit =
     (let value = TrimSpace value in
      if RuneCountInString value \<le> limit then value
      else if limit \<le> 3 then concat (take limit (runes value))
      else concat (take (limit - 3) (runes value)) @ ''...'')"

definition credentialWords :: "string list" where
  "credentialWords =
     [''secret'', ''token'', ''password'', ''passwd'', ''credential'', ''apikey'', ''api_key'',
      ''privatekey'', ''private_key'', ''authorization'', ''cookie'', ''digest'', ''signature'',
      ''assertion'']"

text \<open>\<open>unicode_lower\<close> is Go's Unicode lower-casing of a string that is not ASCII.\<close>

definition namesACredential :: "(string \<Rightarrow> string) \<Rightarrow> string \<Rightarrow> bool" where
  "namesACredential unicode_lower key =
     (let folded = ToLower unicode_lower (filter (\<lambda>c. c \<notin> {CHR ''-'', CHR ''_'', CHR '' ''}) key) in
      \<exists>word \<in> set credentialWords. Contains folded (filter (\<lambda>c. c \<noteq> CHR ''_'') word))"

definition kept_keys :: "(string \<Rightarrow> string) \<Rightarrow> Detail \<Rightarrow> string list" where
  "kept_keys unicode_lower d =
     take maxAuditDetailEntries
       (sort (filter (\<lambda>key. \<not> namesACredential unicode_lower key) (map fst d)))"

text \<open>
  \<open>Safe\<close> keeps the first 32 keys, in order, that do not name a credential, and bounds their
  values; \<open>boundedValue\<close> is the type switch that \<open>Safe\<close> calls and that calls \<open>Safe\<close>.
\<close>

lemma size_detail_entry: "(key, v) \<in> set d \<Longrightarrow> size v < size (DNested d)"
  by (induction d) auto

function (sequential) boundedValue :: "(string \<Rightarrow> string) \<Rightarrow> detail_value \<Rightarrow> detail_value" where
  "boundedValue unicode_lower (DString s) = DString (truncate_text s maxAuditTextLength)"
| "boundedValue unicode_lower (DNested d) =
     DNested (concat (map (\<lambda>key. case map_of d key of
                                    None \<Rightarrow> []
                                  | Some v \<Rightarrow> [(key, boundedValue unicode_lower v)])
                          (kept_keys unicode_lower d)))"
| "boundedValue unicode_lower v = v"
  by pat_completeness auto

termination
  by (relation "measure (size \<circ> snd)") (auto dest!: map_of_SomeD size_detail_entry)

definition Safe :: "(string \<Rightarrow> string) \<Rightarrow> Detail \<Rightarrow> Detail" where
  "Safe unicode_lower d =
     concat (map (\<lambda>key. case map_of d key of
                           None \<Rightarrow> []
                         | Some v \<Rightarrow> [(key, boundedValue unicode_lower v)])
                 (kept_keys unicode_lower d))"

definition Bounded :: "(string \<Rightarrow> string) \<Rightarrow> Event \<Rightarrow> Event" where
  "Bounded unicode_lower e =
     e\<lparr>ev_Actor := (ev_Actor e)
          \<lparr>actor_DisplayName := truncate_text (actor_DisplayName (ev_Actor e)) maxAuditTextLength,
           actor_ID := truncate_text (actor_ID (ev_Actor e)) maxAuditTextLength\<rparr>,
       ev_Target := (ev_Target e)
          \<lparr>target_ID := truncate_text (target_ID (ev_Target e)) maxAuditTextLength\<rparr>,
       ev_SourceAddress := truncate_text (ev_SourceAddress e) maxAuditMetadataLength,
       ev_RequestID := truncate_text (ev_RequestID e) maxAuditMetadataLength,
       ev_Detail := Safe unicode_lower (ev_Detail e)\<rparr>"

section \<open>What bounding guarantees\<close>

lemma truncate_text_bound: "RuneCountInString (truncate_text txt limit) \<le> limit"
proof -
  let ?trimmed = "TrimSpace txt"
  have cut: "RuneCountInString (concat (take n (runes ?trimmed)) @ s) = min n (RuneCountInString ?trimmed) + RuneCountInString s"
    for n s
  proof -
    have "\<forall>e \<in> set (take n (runes ?trimmed)). encodes_rune e"
      using runes_encode [of ?trimmed] by (meson in_set_takeD)
    from runes_concat [OF this, of s] show ?thesis by simp
  qed
  have nil: "runes [] = []" by (simp add: runes.simps)
  have "RuneCountInString ''...'' \<le> 3" using RuneCount_le_length [of "''...''"] by simp
  then show ?thesis
    using cut [of "limit - 3" "''...''"] cut [of limit "[]"] nil
    by (auto simp: truncate_text_def Let_def)
qed

text \<open>
  A value fit for the audit trail, at every depth: no key names a credential, no detail has
  more than 32 entries, no string is longer than 512 runes, in a list of strings either, and no
  list has more than 32 of them.
\<close>

abbreviation list_fit :: "string list \<Rightarrow> bool" where
  "list_fit ss \<equiv> length ss \<le> maxAuditDetailEntries \<and> (\<forall>s \<in> set ss. RuneCountInString s \<le> maxAuditTextLength)"

primrec value_fit :: "(string \<Rightarrow> string) \<Rightarrow> detail_value \<Rightarrow> bool" where
  "value_fit unicode_lower (DString s) \<longleftrightarrow> RuneCountInString s \<le> maxAuditTextLength"
| "value_fit unicode_lower (DNested d) \<longleftrightarrow>
     length d \<le> maxAuditDetailEntries
     \<and> (\<forall>(key, fit) \<in> set (map (map_prod id (value_fit unicode_lower)) d).
          \<not> namesACredential unicode_lower key \<and> fit)"
| "value_fit unicode_lower (DInt i) \<longleftrightarrow> True"
| "value_fit unicode_lower (DBool b) \<longleftrightarrow> True"
| "value_fit unicode_lower (DStrings ss) \<longleftrightarrow> list_fit ss"

text \<open>The lists of strings in a value, at every depth.\<close>

primrec string_lists :: "detail_value \<Rightarrow> string list list" where
  "string_lists (DString s) = []"
| "string_lists (DNested d) = concat (map snd (map (map_prod id string_lists) d))"
| "string_lists (DInt i) = []"
| "string_lists (DBool b) = []"
| "string_lists (DStrings ss) = [ss]"

lemma string_lists_nested: "ss \<in> set (string_lists (DNested d)) \<longleftrightarrow> (\<exists>(key, v) \<in> set d. ss \<in> set (string_lists v))"
  by (force simp: map_prod_def)

lemma Safe_nested: "boundedValue unicode_lower (DNested d) = DNested (Safe unicode_lower d)"
  by (simp add: Safe_def)

lemma kept_keys_distinct: "distinct (map fst d) \<Longrightarrow> distinct (kept_keys unicode_lower d)"
  by (simp add: kept_keys_def)

lemma Safe_keys: "map fst (Safe unicode_lower d) = kept_keys unicode_lower d"
proof -
  have "map fst (concat (map (\<lambda>key. case map_of d key of None \<Rightarrow> [] | Some v \<Rightarrow> [(key, f v)]) keys)) = keys"
    if "set keys \<subseteq> fst ` set d" for keys and f :: "detail_value \<Rightarrow> detail_value"
    using that
  proof (induction keys)
    case (Cons key keys)
    then have "map_of d key \<noteq> None" by (simp add: map_of_eq_None_iff)
    with Cons show ?case by auto
  qed simp
  moreover have "set (kept_keys unicode_lower d) \<subseteq> fst ` set d"
    by (auto simp: kept_keys_def dest!: in_set_takeD)
  ultimately show ?thesis by (simp add: Safe_def)
qed

lemma length_Safe: "length (Safe unicode_lower d) \<le> maxAuditDetailEntries"
  using arg_cong [OF Safe_keys, of length unicode_lower d] by (simp add: kept_keys_def)

lemma Safe_entry:
  assumes "(key, w) \<in> set (Safe unicode_lower d)"
  shows "\<not> namesACredential unicode_lower key \<and> (\<exists>v. map_of d key = Some v \<and> w = boundedValue unicode_lower v)"
proof -
  from assms have "key \<in> set (kept_keys unicode_lower d)"
      "\<exists>v. map_of d key = Some v \<and> w = boundedValue unicode_lower v"
    by (auto simp: Safe_def split: option.splits intro: sym)
  then show ?thesis by (auto simp: kept_keys_def dest: in_set_takeD)
qed

text \<open>Bounding adds no list of strings, and but for these lists it leaves a fit value.\<close>

lemma boundedValue_lists: "set (string_lists (boundedValue unicode_lower v)) \<subseteq> set (string_lists v)"
proof (induction v rule: measure_induct_rule [of size])
  case (less v)
  show ?case
  proof (cases v)
    case (DNested d)
    have "ss \<in> set (string_lists v)" if ss: "(key, w) \<in> set (Safe unicode_lower d)" "ss \<in> set (string_lists w)" for ss key w
    proof -
      from Safe_entry [OF ss(1)] obtain u where u: "map_of d key = Some u" "w = boundedValue unicode_lower u" by blast
      from map_of_SomeD [OF u(1)] have "(key, u) \<in> set d" .
      moreover from size_detail_entry [OF this] less [of u] u(2) ss(2) have "ss \<in> set (string_lists u)" by (auto simp: DNested)
      ultimately show ?thesis unfolding DNested string_lists_nested by blast
    qed
    then show ?thesis by (auto simp: DNested Safe_nested string_lists_nested simp del: boundedValue.simps string_lists.simps)
  qed simp_all
qed

lemma boundedValue_fit:
  "value_fit unicode_lower (boundedValue unicode_lower v) \<longleftrightarrow>
     (\<forall>ss \<in> set (string_lists (boundedValue unicode_lower v)). list_fit ss)"
proof (induction v rule: measure_induct_rule [of size])
  case (less v)
  show ?case
  proof (cases v)
    case (DString s)
    then show ?thesis by (simp add: truncate_text_bound)
  next
    case (DNested d)
    have entry: "\<not> namesACredential unicode_lower key
        \<and> (value_fit unicode_lower w \<longleftrightarrow> (\<forall>ss \<in> set (string_lists w). list_fit ss))"
      if "(key, w) \<in> set (Safe unicode_lower d)" for key w
    proof -
      from Safe_entry [OF that] obtain u where
        u: "\<not> namesACredential unicode_lower key" "map_of d key = Some u" "w = boundedValue unicode_lower u"
        by blast
      from u(2) have "size u < size v" by (auto simp: DNested dest!: map_of_SomeD size_detail_entry)
      from less [OF this] u show ?thesis by simp
    qed
    have "value_fit unicode_lower (DNested (Safe unicode_lower d)) \<longleftrightarrow>
        (\<forall>(key, w) \<in> set (Safe unicode_lower d). \<not> namesACredential unicode_lower key \<and> value_fit unicode_lower w)"
      using length_Safe [of unicode_lower d] by auto
    also have "\<dots> \<longleftrightarrow> (\<forall>ss \<in> set (string_lists (DNested (Safe unicode_lower d))). list_fit ss)"
      unfolding string_lists_nested Ball_def [of "set (string_lists (DNested _))"] using entry by fast
    finally show ?thesis by (simp only: DNested Safe_nested)
  qed simp_all
qed


definition sample_event :: Event where
  "sample_event =
     \<lparr>ev_Organization = ''o'', ev_Actor = System ''guard'', ev_Action = ''relay.bootstrap-issued'',
      ev_Target = \<lparr>target_Kind = ''relay'', target_ID = ''r''\<rparr>, ev_Outcome = OutcomeAllowed,
      ev_SourceAddress = [], ev_RequestID = [], ev_OccurredAt = None,
      ev_Detail = [(''Session-Token'', DString ''t''), (''effect'', DNested [(''API_KEY'', DInt 1), (''n'', DInt 2)])]\<rparr>"

lemma namesACredential_samples [simp]:
  "namesACredential id ''Session-Token''" "\<not> namesACredential id ''effect''"
  by (simp_all add: namesACredential_def credentialWords_def ToLower_def lower_byte_def HasPrefix_def
      char_of_def bit_0 Let_def)


end
