(* ===== verification/Authz.thy ===== *)
theory Authz
  imports AuditRecord
begin

text \<open>
  Authorization (\<^verbatim>\<open>internal/auth/authz\<close>): the permission table of the three roles, the
  principal a request acts as, and the guard in front of every protected route.
  Permissions and roles are strings in the code and in the model, so an undeclared one is a
  value the model can be given. The guard's identity resolver, \<^verbatim>\<open>url.Parse\<close> and
  Unicode case folding are arguments, about which nothing is assumed.
\<close>

section \<open>Permissions and roles\<close>

type_synonym Permission = string
type_synonym Role = string

definition estateReads :: "Permission list" where
  "estateReads = [''integration.read'', ''relay.read'', ''incident.read'', ''postmortem.read'',
     ''investigation.read'', ''conversation.read'', ''audit.read'']"

definition allPermissions :: "Permission list" where
  "allPermissions =
     [''integration.read'', ''integration.create'', ''integration.update'', ''integration.delete'',
      ''integration.verify'', ''integration.webhook-secret.rotate'', ''relay.read'',
      ''relay.conflict.clear'', ''relay.bootstrap-token.issue'', ''incident.read'', ''incident.merge'',
      ''postmortem.read'', ''postmortem.write'', ''investigation.read'',
      ''investigation.observation.read'', ''investigation.open'', ''investigation.cancel'',
      ''slack-message.recover'', ''conversation.read'', ''conversation.write'', ''identity.read'',
      ''identity.configure'', ''member.read'', ''member.manage'', ''audit.read'']"

definition Declared :: "Permission \<Rightarrow> bool" where
  "Declared permission \<longleftrightarrow> permission \<in> set allPermissions"

abbreviation Admin :: Role where
  "Admin \<equiv> ''admin''"

abbreviation Editor :: Role where
  "Editor \<equiv> ''editor''"

abbreviation Viewer :: Role where
  "Viewer \<equiv> ''viewer''"

definition roles :: "Role list" where
  "roles = [Admin, Editor, Viewer]"

definition KnownRole :: "Role \<Rightarrow> bool" where
  "KnownRole role \<longleftrightarrow> role \<in> set roles"

definition ParseRole :: "string \<Rightarrow> Role \<times> bool" where
  "ParseRole value = (let role = TrimSpace value in (role, KnownRole role))"

definition granted :: "(Role \<times> Permission list) list" where
  "granted =
     [(Admin, allPermissions),
      (Editor, estateReads @ [''integration.verify'', ''integration.update'', ''incident.merge'',
         ''investigation.open'', ''investigation.observation.read'', ''investigation.cancel'',
         ''conversation.write'', ''postmortem.write'']),
      (Viewer, estateReads)]"

definition Grants :: "Role \<Rightarrow> Permission \<Rightarrow> bool" where
  "Grants role permission \<longleftrightarrow>
     (case map_of granted role of None \<Rightarrow> False | Some permissions \<Rightarrow> permission \<in> set permissions)"

section \<open>Principals\<close>

record Membership =
  mem_Organization :: uuid
  mem_DisplayName :: string
  mem_Role :: Role

record Principal =
  pr_userID :: uuid
  pr_sessionID :: uuid
  pr_displayName :: string
  pr_membership :: Membership
  pr_sourceAddress :: string
  pr_requestID :: string
  pr_email :: string

datatype principal_error = MissingIdentifiers | MissingMembership | DisplayNameTooLong

abbreviation maxIdentifierLength :: nat where
  "maxIdentifierLength \<equiv> 256"

definition NewPrincipal ::
  "uuid \<Rightarrow> uuid \<Rightarrow> string \<Rightarrow> string \<Rightarrow> Membership \<Rightarrow> principal_error + Principal"
where
  "NewPrincipal userID sessionID displayName email membership =
     (if userID = uuid_Nil \<or> sessionID = uuid_Nil then Inl MissingIdentifiers
      else if mem_Organization membership = uuid_Nil \<or> \<not> KnownRole (mem_Role membership)
      then Inl MissingMembership
      else if length displayName > maxIdentifierLength then Inl DisplayNameTooLong
      else Inr \<lparr>pr_userID = userID, pr_sessionID = sessionID, pr_displayName = TrimSpace displayName,
                pr_membership = membership, pr_sourceAddress = [], pr_requestID = [],
                pr_email = TrimSpace email\<rparr>)"

definition WithRequest :: "Principal \<Rightarrow> string \<Rightarrow> string \<Rightarrow> Principal" where
  "WithRequest p sourceAddress requestID = p\<lparr>pr_sourceAddress := sourceAddress, pr_requestID := requestID\<rparr>"

definition IsEmpty :: "Principal \<Rightarrow> bool" where
  "IsEmpty p \<longleftrightarrow> pr_userID p = uuid_Nil"

definition Organization :: "Principal \<Rightarrow> uuid" where
  "Organization p = mem_Organization (pr_membership p)"

definition HavePermission :: "Principal \<Rightarrow> Permission \<Rightarrow> bool" where
  "HavePermission p permission = Grants (mem_Role (pr_membership p)) permission"

text \<open>\<open>uuid_string\<close> is the third-party \<^verbatim>\<open>uuid.UUID.String\<close>.\<close>

definition Actor_of :: "(uuid \<Rightarrow> string) \<Rightarrow> Principal \<Rightarrow> Actor" where
  "Actor_of uuid_string p =
     \<lparr>actor_Kind = ActorUser, actor_ID = uuid_string (pr_userID p), actor_DisplayName = pr_displayName p\<rparr>"

section \<open>Origins\<close>

text \<open>A parsed URL, with what its \<^verbatim>\<open>Hostname\<close> and \<^verbatim>\<open>Port\<close> methods report.\<close>

record URL =
  u_Scheme :: string
  u_User :: bool
  u_Opaque :: string
  u_Host :: string
  u_Hostname :: string
  u_Port :: string
  u_Path :: string
  u_RawQuery :: string
  u_Fragment :: string

record url_lib =
  parseURL :: "string \<Rightarrow> URL option"
  equalFold :: "string \<Rightarrow> string \<Rightarrow> bool"

definition isOrigin :: "url_lib \<Rightarrow> URL \<Rightarrow> bool" where
  "isOrigin lib u \<longleftrightarrow>
     \<not> u_User u \<and> u_Opaque u = [] \<and> u_Host u \<noteq> []
     \<and> (equalFold lib (u_Scheme u) ''http'' \<or> equalFold lib (u_Scheme u) ''https'')
     \<and> (u_Path u = [] \<or> u_Path u = ''/'') \<and> u_RawQuery u = [] \<and> u_Fragment u = []"

definition portOf :: "url_lib \<Rightarrow> URL \<Rightarrow> string" where
  "portOf lib u =
     (if u_Port u \<noteq> [] then u_Port u
      else if equalFold lib (u_Scheme u) ''https'' then ''443'' else ''80'')"

definition sameOrigin :: "url_lib \<Rightarrow> string \<Rightarrow> string \<Rightarrow> bool" where
  "sameOrigin lib presented allowed =
     (case parseURL lib presented of
        None \<Rightarrow> False
      | Some first \<Rightarrow>
          if \<not> isOrigin lib first then False
          else (case parseURL lib (TrimSpace allowed) of
                  None \<Rightarrow> False
                | Some second \<Rightarrow>
                    isOrigin lib second
                    \<and> equalFold lib (u_Scheme first) (u_Scheme second)
                    \<and> equalFold lib (u_Hostname first) (u_Hostname second)
                    \<and> portOf lib first = portOf lib second))"

record request =
  rq_Method :: string
  rq_Path :: string
  rq_Origin :: string
  rq_RemoteAddr :: string

definition CookieOriginAllowed :: "url_lib \<Rightarrow> request \<Rightarrow> string \<Rightarrow> bool" where
  "CookieOriginAllowed lib request allowed =
     (let origin = TrimSpace (rq_Origin request) in
      if origin = [] then False else sameOrigin lib origin allowed)"

definition originIsAllowed :: "url_lib \<Rightarrow> string \<Rightarrow> request \<Rightarrow> bool" where
  "originIsAllowed lib origin request =
     (if rq_Method request \<in> {''GET'', ''HEAD'', ''OPTIONS''} then True
      else CookieOriginAllowed lib request origin)"

section \<open>The guard\<close>

record 'h Route =
  rt_Method :: string
  rt_Pattern :: string
  rt_Permission :: Permission
  rt_Handler :: "'h option"

definition routeID :: "'h Route \<Rightarrow> string" where
  "routeID route = rt_Method route @ '' '' @ rt_Pattern route"

text \<open>
  An error of the resolver, by what \<^verbatim>\<open>errors.Is\<close> and \<^verbatim>\<open>errors.As\<close> find in it:
  the sentinels, a \<^verbatim>\<open>Refusal\<close> with its reason, or anything else.
\<close>

datatype auth_error = ErrNoCredential | ErrAuthenticationUnavailable | Refusal string | OtherAuthError

definition reasonOf :: "auth_error option \<Rightarrow> string" where
  "reasonOf err =
     (case err of Some (Refusal reason) \<Rightarrow> if reason \<noteq> [] then reason else ''credential_rejected''
      | _ \<Rightarrow> ''credential_rejected'')"

record errorView =
  view_Error :: string
  view_Reason :: string
  view_Requires :: string

text \<open>What a request comes to: an error reply with its status, or the handler's turn.\<close>

datatype 'h reply = Reply nat errorView | Serve 'h Principal

definition unauthenticatedReply :: "auth_error option \<Rightarrow> 'h reply" where
  "unauthenticatedReply because =
     Reply 401 \<lparr>view_Error = ''unauthorized'',
       view_Reason = (if because = Some ErrNoCredential then ''credential_rejected'' else reasonOf because),
       view_Requires = []\<rparr>"

text \<open>
  The guard: the identity resolver, whether a \<^verbatim>\<open>Record\<close> function is configured, and the
  one origin whose pages may send state-changing requests.
\<close>

record Guard =
  g_Resolve :: "request \<Rightarrow> Principal \<times> auth_error option"
  g_Record :: bool
  g_Origin :: string

definition refusalEvent ::
  "(uuid \<Rightarrow> string) \<Rightarrow> request \<Rightarrow> Principal \<Rightarrow> 'h Route \<Rightarrow> string \<Rightarrow> Event"
where
  "refusalEvent uuid_string request p route because =
     \<lparr>ev_Organization = uuid_string (Organization p), ev_Actor = Actor_of uuid_string p,
      ev_Action = ''authorization.refused'',
      ev_Target = \<lparr>target_Kind = ''route'', target_ID = routeID route\<rparr>,
      ev_Outcome = OutcomeDenied, ev_SourceAddress = rq_RemoteAddr request,
      ev_RequestID = pr_requestID p, ev_OccurredAt = None,
      ev_Detail = [(''reason'', DString because), (''requires'', DString (rt_Permission route))]\<rparr>"

definition recordRefusal ::
  "(uuid \<Rightarrow> string) \<Rightarrow> Guard \<Rightarrow> request \<Rightarrow> Principal \<Rightarrow> 'h Route \<Rightarrow> string \<Rightarrow> Event list"
where
  "recordRefusal uuid_string g request p route because =
     (if \<not> g_Record g then [] else [refusalEvent uuid_string request p route because])"

text \<open>
  \<open>protect\<close> returns the reply and the events handed to \<^verbatim>\<open>Record\<close>. A served request
  runs its handler under a context that carries the principal, which
  \<open>MustPrincipal\<close> reads back; \<open>None\<close> is its panic.
\<close>

definition protect ::
  "url_lib \<Rightarrow> (uuid \<Rightarrow> string) \<Rightarrow> Guard \<Rightarrow> 'h Route \<Rightarrow> 'h \<Rightarrow> request \<Rightarrow> 'h reply \<times> Event list"
where
  "protect lib uuid_string g route handler request =
     (let (principal, err) = g_Resolve g request in
      if err \<noteq> None \<or> IsEmpty principal then
        (if err = Some ErrAuthenticationUnavailable
         then (Reply 503 \<lparr>view_Error = ''authentication unavailable'', view_Reason = [], view_Requires = []\<rparr>, [])
         else (unauthenticatedReply err, []))
      else if \<not> originIsAllowed lib (g_Origin g) request then
        (Reply 403 \<lparr>view_Error = ''origin not allowed'', view_Reason = [], view_Requires = []\<rparr>,
         recordRefusal uuid_string g request principal route ''origin not allowed'')
      else if rt_Permission route \<noteq> [] \<and> \<not> HavePermission principal (rt_Permission route) then
        (Reply 403 \<lparr>view_Error = ''forbidden'', view_Reason = [], view_Requires = rt_Permission route\<rparr>,
         recordRefusal uuid_string g request principal route ''role does not grant it'')
      else (Serve handler principal, []))"

definition MustPrincipal :: "Principal option \<Rightarrow> Principal option" where
  "MustPrincipal context_value =
     (case context_value of None \<Rightarrow> None | Some p \<Rightarrow> if IsEmpty p then None else Some p)"

datatype router_error =
    EmptyTable
  | NoResolver
  | NoHandler string
  | NotAMethodAndPattern string
  | UndeclaredPermission string Permission
  | RegisteredTwice string

fun route_loop :: "string list \<Rightarrow> 'h Route list \<Rightarrow> router_error + (string \<times> 'h Route \<times> 'h) list" where
  "route_loop seen [] = Inr []"
| "route_loop seen (route # routes) =
     (let id = routeID route in
      case rt_Handler route of
        None \<Rightarrow> Inl (NoHandler id)
      | Some handler \<Rightarrow>
          if rt_Method route = [] \<or> \<not> HasPrefix (rt_Pattern route) ''/'' then Inl (NotAMethodAndPattern id)
          else if rt_Permission route \<noteq> [] \<and> \<not> Declared (rt_Permission route)
          then Inl (UndeclaredPermission id (rt_Permission route))
          else if id \<in> set seen then Inl (RegisteredTwice id)
          else (case route_loop (id # seen) routes of
                  Inl e \<Rightarrow> Inl e
                | Inr table \<Rightarrow> Inr ((id, route, handler) # table)))"

text \<open>
  The route table of a router: each entry is handed to the standard library's mux and served
  through \<open>protect\<close>. The flag says whether the guard has a resolver. The mux's own panics on
  patterns that overlap without one being more specific are not modelled.
\<close>

definition Router :: "'h Route list \<Rightarrow> bool \<Rightarrow> router_error + (string \<times> 'h Route \<times> 'h) list" where
  "Router routes hasResolver =
     (if routes = [] then Inl EmptyTable
      else if \<not> hasResolver then Inl NoResolver
      else route_loop [] routes)"

section \<open>Lemmas\<close>

lemma Grants_admin: "Grants Admin permission \<longleftrightarrow> Declared permission"
  by (simp add: Grants_def granted_def Declared_def)

lemma estateReads_declared: "set estateReads \<subseteq> set allPermissions"
  by (simp add: estateReads_def allPermissions_def)

lemma Grants_known: "Grants role permission \<Longrightarrow> KnownRole role"
  by (auto simp: Grants_def granted_def KnownRole_def roles_def split: option.splits if_splits)

lemma route_loop_table:
  assumes "route_loop seen routes = Inr table"
  shows "map fst table = map routeID routes \<and> distinct (map fst table) \<and> set (map fst table) \<inter> set seen = {}
    \<and> (\<forall>(id, route, handler) \<in> set table. route \<in> set routes \<and> rt_Handler route = Some handler
         \<and> (rt_Permission route = [] \<or> Declared (rt_Permission route)))"
  using assms
proof (induction seen routes arbitrary: table rule: route_loop.induct)
  case (2 seen route routes)
  from "2.prems" obtain handler rest where step:
      "rt_Handler route = Some handler" "routeID route \<notin> set seen"
      "rt_Permission route = [] \<or> Declared (rt_Permission route)"
      "route_loop (routeID route # seen) routes = Inr rest"
      "table = (routeID route, route, handler) # rest"
      "\<not> (rt_Method route = [] \<or> \<not> HasPrefix (rt_Pattern route) ''/'')"
    by (auto simp: Let_def split: option.splits if_splits sum.splits)
  have IH: "map fst rest = map routeID routes" "distinct (map fst rest)"
      "set (map fst rest) \<inter> set (routeID route # seen) = {}"
      "\<forall>(id, r, handler) \<in> set rest. r \<in> set routes \<and> rt_Handler r = Some handler
         \<and> (rt_Permission r = [] \<or> Declared (rt_Permission r))"
    using "2.IH" [OF refl step(1) step(6) _ step(2) step(4)] step(3) by blast+
  from IH(1) step(5) have "map fst table = map routeID (route # routes)" by simp
  moreover from IH(2,3) step(5) have "distinct (map fst table)" by auto
  moreover from IH(3) step(2,5) have "set (map fst table) \<inter> set seen = {}" by auto
  moreover from IH(4) step(1,3,5) have "\<forall>(id, r, handler) \<in> set table. r \<in> set (route # routes)
      \<and> rt_Handler r = Some handler \<and> (rt_Permission r = [] \<or> Declared (rt_Permission r))" by auto
  ultimately show ?case by blast
qed simp


section \<open>Properties\<close>

text \<open>A guard that resolves every request to one viewer, and a route and request to try it on.\<close>

definition sample_guard :: Guard where
  "sample_guard =
     \<lparr>g_Resolve = (\<lambda>_. (\<lparr>pr_userID = 7, pr_sessionID = 8, pr_displayName = ''v'',
        pr_membership = \<lparr>mem_Organization = 3, mem_DisplayName = ''org'', mem_Role = Viewer\<rparr>,
        pr_sourceAddress = [], pr_requestID = [], pr_email = []\<rparr>, None)),
      g_Record = True, g_Origin = ''https://oc''\<rparr>"

definition sample_route :: "string \<Rightarrow> Permission \<Rightarrow> unit Route" where
  "sample_route verb permission =
     \<lparr>rt_Method = verb, rt_Pattern = ''/x'', rt_Permission = permission, rt_Handler = Some ()\<rparr>"

definition sample_request :: request where
  "sample_request = \<lparr>rq_Method = ''GET'', rq_Path = ''/x'', rq_Origin = [], rq_RemoteAddr = ''a''\<rparr>"



text \<open>
  The permission table is monotone along viewer, editor, admin; admin holds exactly the
  declared permissions, so no role grants an undeclared one; a string that is not one of the
  three roles grants nothing; and a principal that \<open>NewPrincipal\<close> builds has a known role, an
  organization, and a bounded display name.
\<close>

theorem grants_are_graded:
  "(Grants Viewer permission \<longrightarrow> Grants Editor permission)
   \<and> (Grants Editor permission \<longrightarrow> Grants Admin permission)
   \<and> (Grants role permission \<longrightarrow> KnownRole role \<and> Declared permission)
   \<and> (Grants Admin permission \<longleftrightarrow> Declared permission)
   \<and> (NewPrincipal userID sessionID displayName email membership = Inr p \<longrightarrow>
        KnownRole (mem_Role (pr_membership p)) \<and> Organization p \<noteq> uuid_Nil \<and> \<not> IsEmpty p
        \<and> length (pr_displayName p) \<le> maxIdentifierLength)"
proof -
  have editor: "Grants Editor permission \<longrightarrow> Grants Admin permission"
    by (auto simp: Grants_def granted_def estateReads_def allPermissions_def)
  moreover have viewer: "Grants Viewer permission \<longrightarrow> Grants Editor permission"
    by (simp add: Grants_def granted_def)
  moreover have "Grants role permission \<longrightarrow> KnownRole role \<and> Declared permission"
    using editor viewer Grants_known [of role permission] Grants_admin [of permission]
    by (auto simp: KnownRole_def roles_def)
  moreover have "NewPrincipal userID sessionID displayName email membership = Inr p \<longrightarrow>
        KnownRole (mem_Role (pr_membership p)) \<and> Organization p \<noteq> uuid_Nil \<and> \<not> IsEmpty p
        \<and> length (pr_displayName p) \<le> maxIdentifierLength"
    using length_TrimSpace [of displayName]
    by (auto simp: NewPrincipal_def Organization_def IsEmpty_def split: if_splits)
  ultimately show ?thesis using Grants_admin by blast
qed

theorem grants_are_graded_witness:
  "Grants Viewer ''audit.read'' \<and> Grants Editor ''audit.read'' \<and> Grants Admin ''audit.read''
   \<and> \<not> Grants ''root'' ''audit.read'' \<and> \<not> Grants Editor ''member.manage''"
proof -
  have "Grants Viewer ''audit.read''" by (simp add: Grants_def granted_def estateReads_def)
  moreover have "\<not> KnownRole ''root''" by (simp add: KnownRole_def roles_def)
  moreover have "\<not> Grants Editor ''member.manage''" by (simp add: Grants_def granted_def estateReads_def)
  ultimately show ?thesis
    using grants_are_graded [of "''audit.read''" "''root''" 0 0 "[]" "[]" undefined undefined] by blast
qed

text \<open>
  A router that builds serves every route of its table under a distinct method and pattern,
  each with its own handler, and asks only for declared permissions; a table with two routes of
  the same method and pattern, or with a route that has no handler or an undeclared permission,
  does not build.
\<close>

theorem router_table_is_sound:
  assumes "Router routes hasResolver = Inr table"
  shows "hasResolver \<and> map fst table = map routeID routes \<and> distinct (map routeID routes)
    \<and> (\<forall>(id, route, handler) \<in> set table. route \<in> set routes \<and> rt_Handler route = Some handler
         \<and> (rt_Permission route = [] \<or> Declared (rt_Permission route)))"
proof -
  from assms have loop: "hasResolver" "route_loop [] routes = Inr table"
    by (auto simp: Router_def split: if_splits)
  note table = route_loop_table [OF loop(2)]
  then have "distinct (map routeID routes)" by metis
  with loop(1) table show ?thesis by blast
qed

theorem router_table_is_sound_witness:
  "distinct (map routeID [sample_route ''GET'' ''audit.read'', sample_route ''PUT'' []])"
proof -
  have "Router [sample_route ''GET'' ''audit.read'', sample_route ''PUT'' []] True =
      Inr [(''GET /x'', sample_route ''GET'' ''audit.read'', ()), (''PUT /x'', sample_route ''PUT'' [], ())]"
    by (simp add: Router_def sample_route_def routeID_def HasPrefix_def Declared_def allPermissions_def)
  from router_table_is_sound [OF this] show ?thesis by blast
qed

end
