(* ===== verification/Retention.thy ===== *)
theory Retention
  imports Storage "HOL-Library.Product_Lexorder"
begin

text \<open>
  Deleting expired rows in bounded batches: the \<^verbatim>\<open>DELETE ... WHERE key IN (SELECT ... ORDER BY
  ... LIMIT n)\<close> statement both retention schedules use, the loop that repeats it, and the
  interface between the two. The loop is the body of \<^verbatim>\<open>Pruner.prune\<close> of
  \<^verbatim>\<open>internal/audit/retention.go\<close> and of \<^verbatim>\<open>Pruner.Sweep\<close> of
  \<^verbatim>\<open>internal/changes/retention.go\<close>, which are the same loop over different tables.
\<close>

section \<open>The statement\<close>

definition delete_oldest ::
  "('r \<Rightarrow> 'k) \<Rightarrow> ('r \<Rightarrow> 'o::linorder) \<Rightarrow> ('r \<Rightarrow> bool) \<Rightarrow> nat \<Rightarrow> 'r list \<Rightarrow> nat \<times> 'r list"
where
  "delete_oldest key order expired limit t =
     (let chosen = key ` set (take limit (sort_key order (filter expired t)));
          p = (\<lambda>r. key r \<in> chosen) in
      (rows_affected p t, filter (\<lambda>r. \<not> p r) t))"

lemma filter_mem_length:
  assumes "distinct t" "set s \<subseteq> set t" "distinct s"
  shows "length (filter (\<lambda>r. r \<in> set s) t) = length s"
proof -
  have "set (filter (\<lambda>r. r \<in> set s) t) = set s" using assms(2) by auto
  then show ?thesis using assms by (metis distinct_card distinct_filter)
qed

lemma delete_oldest_deletes:
  assumes "distinct (map key t)" "delete_oldest key order expired limit t = (n, t')"
  shows "n = min limit (rows_affected expired t)"
    and "filter (\<lambda>r. \<not> expired r) t' = filter (\<lambda>r. \<not> expired r) t"
    and "rows_affected expired t' + n = rows_affected expired t"
    and "distinct (map key t')"
    and "set t' \<subseteq> set t"
proof -
  define chosen where "chosen = take limit (sort_key order (filter expired t))"
  have sub: "set chosen \<subseteq> {r \<in> set t. expired r}"
    by (auto simp: chosen_def dest!: in_set_takeD)
  have mem: "key r \<in> key ` set chosen \<longleftrightarrow> r \<in> set chosen" if "r \<in> set t" for r
    using key_in_sublist [OF assms(1) _ that] sub by blast
  have eq: "n = length (filter (\<lambda>r. r \<in> set chosen) t)" "t' = filter (\<lambda>r. r \<notin> set chosen) t"
    using assms(2) mem
    by (auto simp: delete_oldest_def Let_def rows_affected_def chosen_def [symmetric] cong: filter_cong)
  have dt: "distinct t" using assms(1) by (simp add: distinct_map)
  then have dc: "distinct chosen" by (simp add: chosen_def)
  have n: "n = length chosen"
    using filter_mem_length [OF dt _ dc] sub eq(1) by auto
  then show "n = min limit (rows_affected expired t)"
    by (simp add: chosen_def rows_affected_def min.commute)
  show "filter (\<lambda>r. \<not> expired r) t' = filter (\<lambda>r. \<not> expired r) t"
    unfolding eq(2) filter_filter using sub by (intro filter_cong) auto
  have "filter expired t' = filter (\<lambda>r. r \<notin> set chosen) (filter expired t)"
    unfolding eq(2) filter_filter by (intro filter_cong) auto
  moreover have "filter (\<lambda>r. r \<in> set chosen) (filter expired t) = filter (\<lambda>r. r \<in> set chosen) t"
    unfolding filter_filter using sub by (intro filter_cong) auto
  ultimately show "rows_affected expired t' + n = rows_affected expired t"
    using sum_length_filter_compl [of "\<lambda>r. r \<in> set chosen" "filter expired t"] eq(1)
    by (simp add: rows_affected_def)
  show "distinct (map key t')" using assms(1) eq(2) by (simp add: distinct_map_filter)
  show "set t' \<subseteq> set t" using eq(2) by auto
qed

section \<open>The loop\<close>

text \<open>
  Each of the at most 50 rounds first looks whether the context is done and then asks for one
  batch of 1000; an error ends the loop, a short batch ends it, and so does the last round.
  What the surroundings do in a round is given by \<open>attempts\<close>, indexed by the number of rounds
  after it. The result is the number of rows the loop counted, whether it ended with an
  error, and the table.
\<close>

abbreviation pruneBatch :: nat where
  "pruneBatch \<equiv> 1000"

abbreviation maxBatchesPerSweep :: nat where
  "maxBatchesPerSweep \<equiv> 50"

datatype attempt = CtxDone | Attempt db_fate

fun prune_loop ::
  "('t \<Rightarrow> store_error + nat \<times> 't) \<Rightarrow> (nat \<Rightarrow> attempt) \<Rightarrow> nat \<Rightarrow> 't \<Rightarrow> nat \<times> bool \<times> 't"
where
  "prune_loop prune attempts 0 t = (0, False, t)"
| "prune_loop prune attempts (Suc rounds) t =
     (case attempts rounds of
        CtxDone \<Rightarrow> (0, True, t)
      | Attempt fate \<Rightarrow>
          (case prune t of
             Inl e \<Rightarrow> (0, True, t)
           | Inr (batch, t') \<Rightarrow>
               (case fate of
                  Lost \<Rightarrow> (0, True, t)
                | Unreported \<Rightarrow> (0, True, t')
                | Reported \<Rightarrow>
                    if batch < pruneBatch then (batch, False, t')
                    else (let (removed, failed, t'') = prune_loop prune attempts rounds t'
                          in (batch + removed, failed, t'')))))"

text \<open>What a retention schedule promises the loop about one batch.\<close>

locale batch_retention =
  fixes prune :: "'r list \<Rightarrow> store_error + nat \<times> 'r list"
    and expired :: "'r \<Rightarrow> bool"
    and well_formed :: "'r list \<Rightarrow> bool"
  assumes prune_count: "well_formed t \<Longrightarrow> prune t = Inr (n, t') \<Longrightarrow> n = min pruneBatch (rows_affected expired t)"
    and prune_keeps: "well_formed t \<Longrightarrow> prune t = Inr (n, t') \<Longrightarrow>
          filter (\<lambda>r. \<not> expired r) t' = filter (\<lambda>r. \<not> expired r) t"
    and prune_leaves: "well_formed t \<Longrightarrow> prune t = Inr (n, t') \<Longrightarrow>
          rows_affected expired t' + n = rows_affected expired t"
    and prune_wf: "well_formed t \<Longrightarrow> prune t = Inr (n, t') \<Longrightarrow> well_formed t'"
begin

lemma loop_keeps:
  assumes "well_formed t" "prune_loop prune attempts rounds t = (removed, failed, t')"
  shows "well_formed t' \<and> filter (\<lambda>r. \<not> expired r) t' = filter (\<lambda>r. \<not> expired r) t"
  using assms
proof (induction rounds arbitrary: t removed failed t')
  case (Suc rounds)
  show ?case
  proof (cases "prune t")
    case (Inl e)
    with Suc.prems show ?thesis by (auto split: attempt.splits)
  next
    case (Inr ok)
    obtain batch u where ok: "prune t = Inr (batch, u)" using Inr by (cases ok) auto
    note step = prune_keeps [OF Suc.prems(1) ok] prune_wf [OF Suc.prems(1) ok]
    obtain rest rfail w where loop: "prune_loop prune attempts rounds u = (rest, rfail, w)"
      by (cases "prune_loop prune attempts rounds u") auto
    from Suc.IH [OF step(2) loop] step Suc.prems ok loop show ?thesis
      by (auto split: attempt.splits db_fate.splits if_splits)
  qed
qed simp

lemma loop_removes:
  assumes "well_formed t" "\<And>i. attempts i = Attempt Reported" "\<And>u. \<exists>r. prune u = Inr r"
    and "prune_loop prune attempts rounds t = (removed, failed, t')"
  shows "\<not> failed \<and> removed = min (rounds * pruneBatch) (rows_affected expired t)
    \<and> rows_affected expired t' + removed = rows_affected expired t"
  using assms(1,4)
proof (induction rounds arbitrary: t removed failed t')
  case (Suc rounds)
  from assms(3) obtain batch u where ok: "prune t = Inr (batch, u)" by (metis surj_pair)
  note step = prune_count [OF Suc.prems(1) ok] prune_leaves [OF Suc.prems(1) ok]
    prune_wf [OF Suc.prems(1) ok]
  obtain rest rfail w where loop: "prune_loop prune attempts rounds u = (rest, rfail, w)"
    by (cases "prune_loop prune attempts rounds u") auto
  from Suc.IH [OF step(3) loop] step(1,2) Suc.prems(2) ok loop assms(2) [of rounds] show ?case
    by (auto simp: min_def split: if_splits)
qed simp

end

end
