(* ===== verification/Cursors.thy ===== *)
theory Cursors
  imports GoStrings Storage
begin

text \<open>
  Page positions: Go's unpadded URL base64 and decimal integers, the cursors of
  \<^verbatim>\<open>internal/store/postgres/page.go\<close>, and the round trips that make a cursor name the
  position it was made from, in the ordering it was made for, and no other.
\<close>

section \<open>Unpadded URL base64\<close>

text \<open>The alphabet: A to Z, a to z, 0 to 9, hyphen, underscore.\<close>

definition enc6 :: "nat \<Rightarrow> char" where
  "enc6 n =
     (if n < 26 then char_of (65 + n)
      else if n < 52 then char_of (71 + n)
      else if n < 62 then char_of (n - 4)
      else if n = 62 then CHR ''-'' else CHR ''_'')"

definition dec6 :: "char \<Rightarrow> nat option" where
  "dec6 c =
     (let n = of_char c :: nat in
      if 65 \<le> n \<and> n \<le> 90 then Some (n - 65)
      else if 97 \<le> n \<and> n \<le> 122 then Some (n - 71)
      else if 48 \<le> n \<and> n \<le> 57 then Some (n + 4)
      else if n = 45 then Some 62
      else if n = 95 then Some 63
      else None)"

fun sextets :: "nat list \<Rightarrow> nat list" where
  "sextets [] = []"
| "sextets [a] = [a div 4, a mod 4 * 16]"
| "sextets [a, b] = [a div 4, a mod 4 * 16 + b div 16, b mod 16 * 4]"
| "sextets (a # b # c # rest) =
     a div 4 # (a mod 4 * 16 + b div 16) # (b mod 16 * 4 + c div 64) # c mod 64 # sextets rest"

fun octets :: "nat list \<Rightarrow> nat list option" where
  "octets [] = Some []"
| "octets [x] = None"
| "octets [x, y] = Some [x * 4 + y div 16]"
| "octets [x, y, z] = Some [x * 4 + y div 16, y mod 16 * 16 + z div 4]"
| "octets (x # y # z # w # rest) =
     map_option (\<lambda>more. (x * 4 + y div 16) # (y mod 16 * 16 + z div 4) # (z mod 4 * 64 + w) # more) (octets rest)"

definition EncodeToString :: "string \<Rightarrow> string" where
  "EncodeToString s = map enc6 (sextets (map of_char s))"

text \<open>The decoder skips carriage returns and line feeds and ignores the unused trailing bits.\<close>

definition DecodeString :: "string \<Rightarrow> string option" where
  "DecodeString s =
     (let digits = map dec6 (filter (\<lambda>c. c \<notin> {CHR 0x0A, CHR 0x0D}) s) in
      if None \<in> set digits then None
      else map_option (map char_of) (octets (map the digits)))"

lemma dec6_enc6: "n < 64 \<Longrightarrow> dec6 (enc6 n) = Some n"
  by (auto simp: dec6_def enc6_def Let_def)

lemma dec6_line_break [simp]: "dec6 CHR 0x0A = None" "dec6 CHR 0x0D = None"
  by (simp_all add: dec6_def)

lemma octet_parts:
  fixes a b c :: nat
  shows "b < 256 \<Longrightarrow> (a div 4) * 4 + (a mod 4 * 16 + b div 16) div 16 = a"
    and "b < 256 \<Longrightarrow> c < 256 \<Longrightarrow> (a mod 4 * 16 + b div 16) mod 16 * 16 + (b mod 16 * 4 + c div 64) div 4 = b"
    and "c < 256 \<Longrightarrow> (b mod 16 * 4 + c div 64) mod 4 * 64 + c mod 64 = c"
  by (simp_all add: div_less_iff_less_mult)

lemma octets_sextets: "\<forall>b \<in> set bs. b < 256 \<Longrightarrow> octets (sextets bs) = Some bs"
proof (induction bs rule: sextets.induct)
  case (2 a)
  then show ?case using octet_parts(1) [of 0 a] by simp
next
  case (3 a b)
  then show ?case using octet_parts(1) [of b a] octet_parts(2) [of b 0 a] by simp
next
  case (4 a b c rest)
  then show ?case using octet_parts(1) [of b a] octet_parts(2) [of b c a] octet_parts(3) [of c b] by simp
qed simp

lemma sextets_bound: "\<forall>b \<in> set bs. b < 256 \<Longrightarrow> \<forall>x \<in> set (sextets bs). x < 64"
proof (induction bs rule: sextets.induct)
  case (2 a)
  then show ?case by (auto simp: div_less_iff_less_mult)
next
  case (3 a b)
  then have "b div 16 < 16" "a div 4 < 64" by (auto simp: div_less_iff_less_mult)
  moreover have "a mod 4 \<le> 3" "b mod 16 \<le> 15" by auto
  ultimately show ?case by auto
next
  case (4 a b c rest)
  then have "b div 16 < 16" "a div 4 < 64" "c div 64 < 4" by (auto simp: div_less_iff_less_mult)
  moreover have "a mod 4 \<le> 3" "b mod 16 \<le> 15" by auto
  ultimately show ?case using 4 by auto
qed simp

theorem base64_round_trip [simp]: "DecodeString (EncodeToString s) = Some s"
proof -
  define xs where "xs = sextets (map of_char s)"
  have bytes: "\<forall>b \<in> set (map of_char s). (b :: nat) < 256" by auto
  have small: "\<forall>x \<in> set xs. x < 64" unfolding xs_def by (rule sextets_bound [OF bytes])
  have skip: "filter (\<lambda>c. c \<notin> {CHR 0x0A, CHR 0x0D}) (map enc6 xs) = map enc6 xs"
  proof (rule filter_True, rule ballI)
    show "c \<notin> {CHR 0x0A, CHR 0x0D}" if "c \<in> set (map enc6 xs)" for c
      using that small dec6_enc6 by force
  qed
  have digits: "map dec6 (map enc6 xs) = map Some xs"
    using small dec6_enc6 by simp
  have "map the (map Some xs) = xs" by (simp add: comp_def)
  then show ?thesis
    using octets_sextets [OF bytes]
    by (simp only: DecodeString_def EncodeToString_def Let_def xs_def [symmetric] skip digits)
       (simp add: xs_def image_iff comp_def)
qed

lemma EncodeToString_Nil [simp]: "EncodeToString s = [] \<longleftrightarrow> s = []"
  by (cases "map of_char s :: nat list" rule: sextets.cases) (auto simp: EncodeToString_def)

section \<open>Decimal integers\<close>

abbreviation digit :: "nat \<Rightarrow> char" where
  "digit n \<equiv> char_of (48 + n)"

fun decimal :: "nat \<Rightarrow> string" where
  "decimal n = (if n < 10 then [digit n] else decimal (n div 10) @ [digit (n mod 10)])"

declare decimal.simps [simp del]

definition FormatInt :: "int \<Rightarrow> string" where
  "FormatInt i = (if i < 0 then CHR ''-'' # decimal (nat (- i)) else decimal (nat i))"

definition digit_value :: "char \<Rightarrow> nat option" where
  "digit_value c = (let n = of_char c :: nat in if 48 \<le> n \<and> n \<le> 57 then Some (n - 48) else None)"

fun digits_value :: "nat \<Rightarrow> string \<Rightarrow> nat option" where
  "digits_value acc [] = Some acc"
| "digits_value acc (c # s) =
     (case digit_value c of None \<Rightarrow> None | Some d \<Rightarrow> digits_value (acc * 10 + d) s)"

text \<open>\<^verbatim>\<open>strconv.ParseInt(s, 10, 64)\<close>, which is \<^verbatim>\<open>strconv.Atoi\<close> on a 64-bit platform.\<close>

definition ParseInt :: "string \<Rightarrow> int option" where
  "ParseInt s =
     (let negative = (case s of c # _ \<Rightarrow> c = CHR ''-'' | [] \<Rightarrow> False);
          body = (case s of c # rest \<Rightarrow> if c = CHR ''-'' \<or> c = CHR ''+'' then rest else s | [] \<Rightarrow> []) in
      if body = [] then None
      else (case digits_value 0 body of
              None \<Rightarrow> None
            | Some n \<Rightarrow> let i = (if negative then - int n else int n) in
                        if in_int64 i then Some i else None))"

lemma digits_value_append:
  "digits_value acc (s @ u) = (case digits_value acc s of None \<Rightarrow> None | Some n \<Rightarrow> digits_value n u)"
  by (induction s arbitrary: acc) (auto split: option.splits)

lemma digit_value_digit [simp]: "n < 10 \<Longrightarrow> digit_value (digit n) = Some n"
  by (simp add: digit_value_def)

lemma digits_value_decimal: "digits_value 0 (decimal n) = Some n"
proof (induction n rule: decimal.induct)
  case (1 n)
  then show ?case by (subst decimal.simps) (simp add: digits_value_append)
qed

lemma decimal_digits: "c \<in> set (decimal n) \<Longrightarrow> digit_value c \<noteq> None"
proof (induction n rule: decimal.induct)
  case (1 n)
  then show ?case by (subst (asm) decimal.simps) (auto split: if_splits)
qed

lemma decimal_not_Nil [simp]: "decimal n \<noteq> []"
  by (subst decimal.simps) simp

lemma digit_value_signs [simp]:
  "digit_value CHR ''-'' = None" "digit_value CHR ''+'' = None" "digit_value CHR '':'' = None"
  by (simp_all add: digit_value_def)

lemma ParseInt_FormatInt [simp]:
  assumes "in_int64 i"
  shows "ParseInt (FormatInt i) = Some i"
proof (cases "i < 0")
  case True
  then show ?thesis
    using assms by (simp add: ParseInt_def FormatInt_def digits_value_decimal Let_def)
next
  case False
  obtain c rest where d: "decimal (nat i) = c # rest" by (cases "decimal (nat i)") auto
  with decimal_digits [of c "nat i"] have "c \<noteq> CHR ''-''" "c \<noteq> CHR ''+''" by auto
  with False d show ?thesis
    using assms digits_value_decimal [of "nat i"] by (simp add: ParseInt_def FormatInt_def Let_def)
qed

lemma FormatInt_no_colon: "CHR '':'' \<notin> set (FormatInt i)"
  using decimal_digits [of "CHR '':''"] by (auto simp: FormatInt_def)

lemma digits_value_colon: "CHR '':'' \<in> set s \<Longrightarrow> digits_value acc s = None"
  by (induction s arbitrary: acc) (auto split: option.splits)

lemma ParseInt_colon: "CHR '':'' \<in> set s \<Longrightarrow> ParseInt s = None"
  by (auto simp: ParseInt_def Let_def digits_value_colon split: list.splits option.splits if_splits)

section \<open>Keyset cursors\<close>

text \<open>The third-party \<^verbatim>\<open>uuid\<close> package, and what the cursors rely on of it.\<close>

record uuid_lib =
  uuid_String :: "uuid \<Rightarrow> string"
  uuid_Parse :: "string \<Rightarrow> uuid option"

definition uuid_ok :: "uuid_lib \<Rightarrow> uuid \<Rightarrow> bool" where
  "uuid_ok lib u \<longleftrightarrow>
     uuid_Parse lib (uuid_String lib u) = Some u \<and> length (uuid_String lib u) = 36"

record Page =
  page_Limit :: int
  page_After :: string

definition pageLimit :: "int \<Rightarrow> nat" where
  "pageLimit asked = (if asked \<le> 0 then 50 else nat (min asked 200))"

text \<open>An instant's \<^verbatim>\<open>UnixNano\<close> is kept to 64 bits.\<close>

definition UnixNano :: "instant \<Rightarrow> int" where
  "UnixNano i = int64_of_uint64 (uint64_of_int64 i)"

definition encodeCursor :: "uuid_lib \<Rightarrow> string \<Rightarrow> instant \<Rightarrow> uuid \<Rightarrow> string" where
  "encodeCursor lib scope i u =
     EncodeToString (''@'' @ scope @ '':'' @ FormatInt (UnixNano i) @ '':'' @ uuid_String lib u)"

fun Cut :: "char \<Rightarrow> string \<Rightarrow> (string \<times> string) option" where
  "Cut sep [] = None"
| "Cut sep (c # s) =
     (if c = sep then Some ([], s) else map_option (\<lambda>(before, after). (c # before, after)) (Cut sep s))"

definition decodeCursor ::
  "uuid_lib \<Rightarrow> string \<Rightarrow> string \<Rightarrow> store_error + (instant \<times> uuid) option"
where
  "decodeCursor lib cursor scope =
     (if cursor = [] then Inr None
      else case DecodeString cursor of
        None \<Rightarrow> Inl ErrBadCursor
      | Some raw \<Rightarrow>
          (case CutPrefix raw (''@'' @ scope @ '':'') of
             None \<Rightarrow> Inl ErrBadCursor
           | Some body \<Rightarrow>
               (case Cut CHR '':'' body of
                  None \<Rightarrow> Inl ErrBadCursor
                | Some (nanos, identifier) \<Rightarrow>
                    (case ParseInt nanos of
                       None \<Rightarrow> Inl ErrBadCursor
                     | Some unixNano \<Rightarrow>
                         (case uuid_Parse lib identifier of
                            None \<Rightarrow> Inl ErrBadCursor
                          | Some u \<Rightarrow> Inr (Some (unixNano, u)))))))"

definition sortScope :: "string \<Rightarrow> bool \<Rightarrow> string" where
  "sortScope field descending = (if descending then ''-'' @ field else field)"

definition encodeSortCursor :: "uuid_lib \<Rightarrow> string \<Rightarrow> string \<Rightarrow> uuid \<Rightarrow> string" where
  "encodeSortCursor lib scope value u =
     EncodeToString (''~'' @ scope @ '':'' @ value @ uuid_String lib u)"

definition decodeSortCursor :: "uuid_lib \<Rightarrow> string \<Rightarrow> string \<Rightarrow> store_error + (string \<times> uuid) option" where
  "decodeSortCursor lib cursor scope =
     (if cursor = [] then Inr None
      else case DecodeString cursor of
        None \<Rightarrow> Inl ErrBadCursor
      | Some raw \<Rightarrow>
          (case CutPrefix raw (''~'' @ scope @ '':'') of
             None \<Rightarrow> Inl ErrBadCursor
           | Some body \<Rightarrow>
               if length body < 36 then Inl ErrBadCursor
               else (case uuid_Parse lib (drop (length body - 36) body) of
                       None \<Rightarrow> Inl ErrBadCursor
                     | Some u \<Rightarrow> Inr (Some (take (length body - 36) body, u)))))"

lemma Cut_first: "sep \<notin> set s \<Longrightarrow> Cut sep (s @ sep # rest) = Some (s, rest)"
  by (induction s) auto

text \<open>
  Two scopes without a colon: a cursor of one has the other's prefix only when they are the
  same scope.
\<close>

lemma scope_prefix:
  assumes "CHR '':'' \<notin> set scope" "CHR '':'' \<notin> set scope'"
  shows "CutPrefix (scope @ '':'' @ body) (scope' @ '':'') = (if scope' = scope then Some body else None)"
proof (cases "scope' = scope")
  case True
  then show ?thesis using CutPrefix_append [of "scope @ '':''" body] by simp
next
  case False
  have "\<not> HasPrefix (scope @ '':'' @ body) (scope' @ '':'')"
  proof
    assume "HasPrefix (scope @ '':'' @ body) (scope' @ '':'')"
    then obtain rest where "scope @ CHR '':'' # body = scope' @ CHR '':'' # rest"
      unfolding HasPrefix_def by (metis append.assoc append_Cons append_Nil append_take_drop_id)
    then have "Cut CHR '':'' (scope @ CHR '':'' # body) = Cut CHR '':'' (scope' @ CHR '':'' # rest)" by simp
    with assms False show False by (simp add: Cut_first)
  qed
  with False show ?thesis by (simp add: CutPrefix_def)
qed

lemma CutPrefix_Cons: "CutPrefix (c # s) (c # p) = CutPrefix s p"
  by (simp add: CutPrefix_def HasPrefix_def)

lemma UnixNano_int64 [simp]: "in_int64 i \<Longrightarrow> UnixNano i = i"
  by (simp add: UnixNano_def)

lemma in_int64_UnixNano: "in_int64 (UnixNano i)"
  by (simp add: UnixNano_def int64_of_uint64_range)

lemma decode_encodeCursor:
  assumes "uuid_ok lib u" "CHR '':'' \<notin> set scope" "CHR '':'' \<notin> set scope'"
  shows "decodeCursor lib (encodeCursor lib scope i u) scope' =
    (if scope' = scope then Inr (Some (UnixNano i, u)) else Inl ErrBadCursor)"
proof -
  let ?body = "FormatInt (UnixNano i) @ CHR '':'' # uuid_String lib u"
  have "CutPrefix (CHR ''@'' # scope @ CHR '':'' # ?body) (CHR ''@'' # scope' @ '':'') =
      (if scope' = scope then Some ?body else None)"
    using scope_prefix [OF assms(2,3), of ?body] by (simp add: CutPrefix_Cons)
  moreover have "Cut CHR '':'' ?body = Some (FormatInt (UnixNano i), uuid_String lib u)"
    by (rule Cut_first [OF FormatInt_no_colon])
  ultimately show ?thesis
    using assms(1) in_int64_UnixNano [of i] by (simp add: decodeCursor_def encodeCursor_def uuid_ok_def)
qed

lemma encodeCursor_not_Nil [simp]: "encodeCursor lib scope i u \<noteq> []"
  by (simp add: encodeCursor_def)

text \<open>
  A cursor comes back as the position it was made from, for the ordering it was made for,
  and as nothing else: decoding an encoded cursor under the same scope gives the instant and
  identifier (or the sort value and identifier) exactly; under any other scope, or read as the
  other kind of cursor, it is refused as a bad cursor.
\<close>

theorem cursors_name_one_position:
  assumes "uuid_ok lib u" "in_int64 i" "CHR '':'' \<notin> set scope" "CHR '':'' \<notin> set scope'"
  shows "decodeCursor lib (encodeCursor lib scope i u) scope' =
      (if scope' = scope then Inr (Some (i, u)) else Inl ErrBadCursor)
    \<and> decodeSortCursor lib (encodeSortCursor lib scope value u) scope' =
      (if scope' = scope then Inr (Some (value, u)) else Inl ErrBadCursor)
    \<and> decodeCursor lib (encodeSortCursor lib scope value u) scope' = Inl ErrBadCursor
    \<and> decodeSortCursor lib (encodeCursor lib scope i u) scope' = Inl ErrBadCursor"
proof -
  have sort: "CutPrefix (CHR ''~'' # scope @ CHR '':'' # value @ uuid_String lib u) (CHR ''~'' # scope' @ '':'') =
      (if scope' = scope then Some (value @ uuid_String lib u) else None)"
    using scope_prefix [OF assms(3,4), of "value @ uuid_String lib u"] by (simp add: CutPrefix_Cons)
  have other: "CutPrefix (c # s) (d # p) = None" if "c \<noteq> d" for c d s p
    using that by (simp add: CutPrefix_def HasPrefix_def)
  from assms(1,2) decode_encodeCursor [OF assms(1,3,4), of i] sort show ?thesis
    by (simp add: decodeSortCursor_def encodeSortCursor_def uuid_ok_def decodeCursor_def encodeCursor_def other)
qed

definition sample_uuid_lib :: uuid_lib where
  "sample_uuid_lib = \<lparr>uuid_String = (\<lambda>u. replicate (36 - u) CHR ''0'' @ replicate u CHR ''1''),
     uuid_Parse = (\<lambda>s. Some (length (filter (\<lambda>c. c = CHR ''1'') s)))\<rparr>"

lemma sample_uuid_ok: "u \<le> 36 \<Longrightarrow> uuid_ok sample_uuid_lib u"
  by (simp add: uuid_ok_def sample_uuid_lib_def)

theorem cursors_name_one_position_witness:
  "decodeCursor sample_uuid_lib (encodeCursor sample_uuid_lib ''-at'' 1700000000000000000 7) ''-at''
     = Inr (Some (1700000000000000000, 7))
   \<and> decodeCursor sample_uuid_lib (encodeCursor sample_uuid_lib ''-at'' 1700000000000000000 7) ''name'' = Inl ErrBadCursor"
proof -
  have ok: "uuid_ok sample_uuid_lib 7" by (simp add: sample_uuid_ok)
  have i: "in_int64 1700000000000000000" by (simp add: in_int64_def)
  from cursors_name_one_position [OF ok i, of "''-at''" "''-at''"]
    cursors_name_one_position [OF ok i, of "''-at''" "''name''"]
  show ?thesis by simp
qed

end
