(* ===== verification/Listing.thy ===== *)
theory Listing
  imports Cursors
begin

text \<open>
  Listings: the query parameters of \<^verbatim>\<open>internal/api/listing/listing.go\<close>, the pages cut out of
  a list already in memory, the loop the stores collect a page with, and the contract of a
  paged listing as an interface: following the \<open>next\<close> cursors from the first page returns
  every item once, in order, and ends.
\<close>

section \<open>Query parameters\<close>

record Sort =
  sort_Field :: string
  sort_Descending :: bool

record Spec =
  spec_Searchable :: bool
  spec_Sortable :: "string list"
  spec_DefaultSort :: Sort
  spec_Filters :: "string list"

record Query =
  q_Search :: string
  q_Sort :: Sort
  q_Cursor :: string
  q_Limit :: int
  q_filters :: "(string \<times> string) list"

datatype listing_error = ErrUnknownSort | ErrUnknownFilter | ErrInvalidLimit | ErrInvalidQuery | ErrBadOrdinal

text \<open>
  \<^verbatim>\<open>url.Values\<close> as a list of distinct names with their vals, in the order in which the map
  iteration happens to visit them.
\<close>

type_synonym Values = "(string \<times> string list) list"

definition Get :: "Values \<Rightarrow> string \<Rightarrow> string" where
  "Get vals name = (case map_of vals name of Some (v # _) \<Rightarrow> v | _ \<Rightarrow> [])"

definition Filter :: "Query \<Rightarrow> string \<Rightarrow> string" where
  "Filter q name = (case map_of (q_filters q) name of Some v \<Rightarrow> v | None \<Rightarrow> [])"

definition limitFrom :: "Values \<Rightarrow> listing_error + int" where
  "limitFrom vals =
     (case map_of vals ''limit'' of
        None \<Rightarrow> Inr 50
      | Some asked \<Rightarrow>
          if length asked \<noteq> 1 then Inl ErrInvalidLimit
          else (case ParseInt (hd asked) of
                  None \<Rightarrow> Inl ErrInvalidLimit
                | Some n \<Rightarrow> if n < 1 \<or> 200 < n then Inl ErrInvalidLimit else Inr n))"

definition sortFrom :: "string \<Rightarrow> Spec \<Rightarrow> listing_error + Sort" where
  "sortFrom asked spec =
     (let sort = (if HasPrefix asked ''-'' then \<lparr>sort_Field = drop 1 asked, sort_Descending = True\<rparr>
                  else \<lparr>sort_Field = asked, sort_Descending = False\<rparr>) in
      if sort_Field sort \<notin> set (spec_Sortable spec) then Inl ErrUnknownSort else Inr sort)"

definition reserved :: "string list" where
  "reserved = [''search'', ''sort'', ''cursor'', ''limit'']"

fun scalar_loop :: "Values \<Rightarrow> bool" where
  "scalar_loop [] = True"
| "scalar_loop ((name, given) # vals) =
     (if length given \<noteq> 1 then False else if TrimSpace (hd given) = [] then False else scalar_loop vals)"

fun filter_loop :: "Spec \<Rightarrow> Values \<Rightarrow> (string \<times> string) list \<Rightarrow> listing_error + (string \<times> string) list" where
  "filter_loop spec [] filters = Inr filters"
| "filter_loop spec ((name, given) # vals) filters =
     (if name \<in> set reserved then
        (if name = ''search'' \<and> \<not> spec_Searchable spec then Inl ErrUnknownFilter
         else filter_loop spec vals filters)
      else if name \<in> set (spec_Filters spec) then filter_loop spec vals (filters @ [(name, hd given)])
      else Inl ErrUnknownFilter)"

definition ParseQuery :: "Values \<Rightarrow> Spec \<Rightarrow> listing_error + Query" where
  "ParseQuery vals spec =
     (if \<not> scalar_loop vals then Inl ErrInvalidQuery
      else case limitFrom vals of
        Inl e \<Rightarrow> Inl e
      | Inr limit \<Rightarrow>
          let search = TrimSpace (Get vals ''search''); cursor = Get vals ''cursor'' in
          if 256 < length search then Inl ErrInvalidQuery
          else if 512 < length cursor \<or> cursor \<noteq> TrimSpace cursor then Inl ErrInvalidQuery
          else (case (case map_of vals ''sort'' of
                        None \<Rightarrow> Inr (spec_DefaultSort spec)
                      | Some asked \<Rightarrow>
                          if length asked \<noteq> 1 then Inl ErrUnknownSort else sortFrom (hd asked) spec) of
                  Inl e \<Rightarrow> Inl e
                | Inr chosen \<Rightarrow>
                    (case filter_loop spec vals [] of
                       Inl e \<Rightarrow> Inl e
                     | Inr filters \<Rightarrow>
                         Inr \<lparr>q_Search = search, q_Sort = chosen, q_Cursor = cursor, q_Limit = limit,
                              q_filters = filters\<rparr>)))"

section \<open>Pages of a list in memory\<close>

definition encodeOrdinal :: "string \<Rightarrow> int \<Rightarrow> string" where
  "encodeOrdinal scope n = EncodeToString (''#'' @ scope @ '':'' @ FormatInt n)"

definition decodeOrdinal :: "string \<Rightarrow> string \<Rightarrow> listing_error + int" where
  "decodeOrdinal cursor scope =
     (if cursor = [] then Inr 0
      else case DecodeString cursor of
        None \<Rightarrow> Inl ErrBadOrdinal
      | Some raw \<Rightarrow>
          (case CutPrefix raw (''#'' @ scope @ '':'') of
             None \<Rightarrow> Inl ErrBadOrdinal
           | Some digits \<Rightarrow>
               (case ParseInt digits of
                  None \<Rightarrow> Inl ErrBadOrdinal
                | Some n \<Rightarrow> if n < 0 then Inl ErrBadOrdinal else Inr n)))"

definition SlicePage :: "'a list \<Rightarrow> Query \<Rightarrow> listing_error + 'a list \<times> string" where
  "SlicePage items query =
     (let scope = (if sort_Descending (q_Sort query) then ''-'' @ sort_Field (q_Sort query)
                   else sort_Field (q_Sort query)) in
      case decodeOrdinal (q_Cursor query) scope of
        Inl e \<Rightarrow> Inl e
      | Inr from \<Rightarrow>
          if int (length items) \<le> from then Inr ([], [])
          else (let rest = drop (nat from) items in
                if int (length rest) \<le> q_Limit query then Inr (rest, [])
                else Inr (take (nat (q_Limit query)) rest, encodeOrdinal scope (from + q_Limit query))))"

record 'a Envelope =
  env_Items :: "'a list"
  env_Next :: "string option"
  env_Total :: "int option"

definition CursorPtr :: "string \<Rightarrow> string option" where
  "CursorPtr next = (if next = [] then None else Some next)"

definition NewPage :: "'a list \<Rightarrow> string \<Rightarrow> int option \<Rightarrow> 'a Envelope" where
  "NewPage items next count =
     \<lparr>env_Items = items, env_Next = (if next \<noteq> [] then Some next else None), env_Total = count\<rparr>"

section \<open>Collecting a page of rows\<close>

text \<open>
  The loop over a result set asked for \<open>limit + 1\<close> rows: it appends rows until there are
  \<open>limit\<close> of them; when one more comes, the last appended row is the next page's position.
\<close>

fun collect_page :: "nat \<Rightarrow> 'r list \<Rightarrow> 'r list \<Rightarrow> 'r list \<times> 'r option" where
  "collect_page limit taken [] = (taken, None)"
| "collect_page limit taken (r # rows) =
     (if length taken = limit then (taken, Some (last taken))
      else collect_page limit (taken @ [r]) rows)"

lemma collect_page_taken:
  "length taken \<le> limit \<Longrightarrow>
   collect_page limit taken rows =
     (taken @ take (limit - length taken) rows,
      if limit < length taken + length rows then Some (last (taken @ take (limit - length taken) rows)) else None)"
proof (induction limit taken rows rule: collect_page.induct)
  case (2 limit taken r rows)
  show ?case
  proof (cases "length taken = limit")
    case False
    with "2.prems" have "limit - length taken = Suc (limit - Suc (length taken))" by simp
    with 2 False show ?thesis by auto
  qed simp
qed simp

text \<open>
  The rows such a query returns: those it selects whose key is below the position, in
  descending key order, one more than the page holds.
\<close>

definition keyset_rows ::
  "('r \<Rightarrow> 'k::linorder) \<Rightarrow> ('r \<Rightarrow> bool) \<Rightarrow> 'k option \<Rightarrow> nat \<Rightarrow> 'r list \<Rightarrow> 'r list"
where
  "keyset_rows key p after limit t =
     take (Suc limit)
       (rev (sort_key key (filter (\<lambda>r. p r \<and> (case after of None \<Rightarrow> True | Some k \<Rightarrow> key r < k)) t)))"

abbreviation descending :: "('r \<Rightarrow> 'k::linorder) \<Rightarrow> 'r list \<Rightarrow> 'r list" where
  "descending key rows \<equiv> rev (sort_key key rows)"

lemma filter_descending: "filter q (descending key rows) = descending key (filter q rows)"
  by (simp add: rev_filter [symmetric] filter_sort)

lemma sorted_below_nth:
  fixes key :: "'r \<Rightarrow> 'k::linorder"
  assumes "sorted_wrt (>) (map key xs)" "n < length xs"
  shows "filter (\<lambda>r. key r < key (xs ! n)) xs = drop (Suc n) xs"
  using assms
proof (induction xs arbitrary: n)
  case (Cons x xs)
  show ?case
  proof (cases n)
    case 0
    with Cons.prems(1) have "filter (\<lambda>r. key r < key x) xs = xs" by (intro filter_True) auto
    with 0 show ?thesis by simp
  next
    case (Suc m)
    with Cons.prems have "\<not> key x < key (xs ! m)" by (simp add: not_less less_imp_le)
    with Suc Cons show ?thesis by simp
  qed
qed simp

lemma descending_strict:
  assumes "distinct (map key rows)"
  shows "sorted_wrt (>) (map key (descending key rows))"
proof -
  have "sorted (map key (sort_key key rows))" by simp
  moreover have "distinct (map key (sort_key key rows))"
    using assms by (simp add: distinct_map)
  ultimately have "sorted_wrt (<) (map key (sort_key key rows))" by (simp add: strict_sorted_iff)
  then show ?thesis by (simp add: rev_map [symmetric] sorted_wrt_rev)
qed

lemma collect_keyset:
  assumes "distinct (map key (filter p t))" "0 < limit" "n < length (filter p t) \<or> n = 0"
    and "after = (if n = 0 then None else Some (key (descending key (filter p t) ! (n - 1))))"
  shows "collect_page limit [] (keyset_rows key p after limit t) =
    (take limit (drop n (descending key (filter p t))),
     if n + limit < length (filter p t) then Some (descending key (filter p t) ! (n + limit - 1)) else None)"
proof -
  let ?all = "descending key (filter p t)"
  have rows: "keyset_rows key p after limit t = take (Suc limit) (drop n ?all)"
  proof (cases n)
    case 0
    with assms(4) show ?thesis by (simp add: keyset_rows_def)
  next
    case (Suc m)
    with assms(3) have m: "m < length ?all" by simp
    have "filter (\<lambda>r. p r \<and> key r < key (?all ! m)) t = filter (\<lambda>r. key r < key (?all ! m)) (filter p t)"
      by (simp add: conj_commute)
    moreover have "descending key (filter (\<lambda>r. key r < key (?all ! m)) (filter p t)) =
        filter (\<lambda>r. key r < key (?all ! m)) ?all"
      by (rule filter_descending [symmetric])
    ultimately show ?thesis
      using assms(4) Suc sorted_below_nth [OF descending_strict [OF assms(1)] m]
      by (simp add: keyset_rows_def)
  qed
  have "last (take limit (drop n ?all)) = ?all ! (n + limit - 1)" if "n + limit < length ?all"
    using that assms(2) by (simp add: last_conv_nth)
  then show ?thesis by (simp add: rows collect_page_taken less_diff_conv add.commute)
qed

section \<open>The contract of a paged listing\<close>

text \<open>
  \<open>fetch s cursor\<close> is one page of a listing in the state \<open>s\<close>: an error, or items and the next
  cursor, empty on the last page. \<open>items s\<close> is what the listing is a listing of, and
  \<open>position s n\<close> the cursor behind its first \<open>n\<close> items.
\<close>

fun follow_pages :: "nat \<Rightarrow> (string \<Rightarrow> 'e + 'r list \<times> string) \<Rightarrow> string \<Rightarrow> 'r list option" where
  "follow_pages 0 fetch cursor = None"
| "follow_pages (Suc fuel) fetch cursor =
     (case fetch cursor of
        Inl e \<Rightarrow> None
      | Inr (page, next) \<Rightarrow>
          if next = [] then Some page
          else map_option ((@) page) (follow_pages fuel fetch next))"

definition serve :: "(nat \<Rightarrow> string) \<Rightarrow> nat \<Rightarrow> 'r list \<Rightarrow> nat \<Rightarrow> 'r list \<times> string" where
  "serve position limit items n =
     (take limit (drop n items), if n + limit < length items then position (n + limit) else [])"

locale page_chain =
  fixes fetch :: "'s \<Rightarrow> string \<Rightarrow> 'e + 'r list \<times> string"
    and ok :: "'s \<Rightarrow> bool"
    and items :: "'s \<Rightarrow> 'r list"
    and limit :: "'s \<Rightarrow> nat"
    and position :: "'s \<Rightarrow> nat \<Rightarrow> string"
  assumes limit_positive: "ok s \<Longrightarrow> 0 < limit s"
    and first_page: "ok s \<Longrightarrow> fetch s [] = Inr (serve (position s) (limit s) (items s) 0)"
    and next_page: "ok s \<Longrightarrow> 0 < n \<Longrightarrow> n < length (items s) \<Longrightarrow>
          fetch s (position s n) = Inr (serve (position s) (limit s) (items s) n)"
    and position_not_empty: "ok s \<Longrightarrow> 0 < n \<Longrightarrow> n < length (items s) \<Longrightarrow> position s n \<noteq> []"
begin

lemma follow_from:
  assumes "ok s" "fetch s cursor = Inr (serve (position s) (limit s) (items s) n)"
    and "length (items s) - n < fuel"
  shows "follow_pages fuel (fetch s) cursor = Some (drop n (items s))"
  using assms(2,3)
proof (induction fuel arbitrary: cursor n)
  case (Suc fuel)
  show ?case
  proof (cases "n + limit s < length (items s)")
    case True
    note step = limit_positive [OF assms(1)] next_page [OF assms(1), of "n + limit s"]
      position_not_empty [OF assms(1), of "n + limit s"]
    have "follow_pages fuel (fetch s) (position s (n + limit s)) = Some (drop (n + limit s) (items s))"
      using step Suc.prems(2) True by (intro Suc.IH) auto
    moreover have "take (limit s) (drop n (items s)) @ drop (n + limit s) (items s) = drop n (items s)"
      by (metis add.commute append_take_drop_id drop_drop)
    ultimately show ?thesis
      using Suc.prems(1) True step by (simp add: serve_def)
  next
    case False
    then show ?thesis using Suc.prems(1) by (simp add: serve_def)
  qed
qed simp

lemma follow_all: "ok s \<Longrightarrow> length (items s) < fuel \<Longrightarrow> follow_pages fuel (fetch s) [] = Some (items s)"
  using follow_from [OF _ first_page] by simp

end

section \<open>Pages of a list in memory keep the contract\<close>

definition slice_scope :: "Query \<Rightarrow> string" where
  "slice_scope q =
     (if sort_Descending (q_Sort q) then ''-'' @ sort_Field (q_Sort q) else sort_Field (q_Sort q))"

lemma slice_scope_cursor [simp]: "slice_scope (q\<lparr>q_Cursor := c\<rparr>) = slice_scope q"
  by (simp add: slice_scope_def)

lemma SlicePage_alt:
  "SlicePage items q =
     (case decodeOrdinal (q_Cursor q) (slice_scope q) of
        Inl e \<Rightarrow> Inl e
      | Inr from \<Rightarrow>
          if int (length items) \<le> from then Inr ([], [])
          else if int (length (drop (nat from) items)) \<le> q_Limit q then Inr (drop (nat from) items, [])
          else Inr (take (nat (q_Limit q)) (drop (nat from) items), encodeOrdinal (slice_scope q) (from + q_Limit q)))"
  unfolding SlicePage_def slice_scope_def Let_def by (rule refl)

lemma decode_encodeOrdinal:
  assumes "0 \<le> n" "n \<le> int64_max"
  shows "decodeOrdinal (encodeOrdinal scope n) scope = Inr n"
proof -
  have "CutPrefix (CHR ''#'' # scope @ CHR '':'' # FormatInt n) (CHR ''#'' # scope @ '':'') = Some (FormatInt n)"
    using CutPrefix_append [of "scope @ '':''" "FormatInt n"] by (simp add: CutPrefix_Cons)
  moreover have "in_int64 n" using assms by (simp add: in_int64_def)
  ultimately show ?thesis using assms(1) by (simp add: decodeOrdinal_def encodeOrdinal_def)
qed

lemma encodeOrdinal_not_Nil [simp]: "encodeOrdinal scope n \<noteq> []"
  by (simp add: encodeOrdinal_def)

definition slice_ok :: "'a list \<times> Query \<Rightarrow> bool" where
  "slice_ok = (\<lambda>(items, q). 0 < q_Limit q \<and> int (length items) \<le> int64_max)"

definition slice_fetch :: "'a list \<times> Query \<Rightarrow> string \<Rightarrow> listing_error + 'a list \<times> string" where
  "slice_fetch = (\<lambda>(items, q) cursor. SlicePage items (q\<lparr>q_Cursor := cursor\<rparr>))"

lemma slice_page_at:
  assumes "slice_ok (items, q)" "n < length items \<or> n = 0"
    and "decodeOrdinal cursor (slice_scope q) = Inr (int n)"
  shows "slice_fetch (items, q) cursor =
    Inr (serve (\<lambda>n. encodeOrdinal (slice_scope q) (int n)) (nat (q_Limit q)) items n)"
  using assms
  by (cases items) (auto simp: slice_fetch_def SlicePage_alt serve_def slice_ok_def of_nat_diff split: if_splits)

interpretation slices: page_chain slice_fetch slice_ok fst "\<lambda>(items, q). nat (q_Limit q)"
  "\<lambda>(items, q) n. encodeOrdinal (slice_scope q) (int n)"
proof (unfold_locales, goal_cases)
  case (1 s)
  then show ?case by (auto simp: slice_ok_def split: prod.splits)
next
  case (2 s)
  then show ?case
    using slice_page_at [of "fst s" "snd s" 0 "[]"] by (cases s) (simp add: decodeOrdinal_def)
next
  case (3 s n)
  obtain items q where s: "s = (items, q)" by (cases s)
  have "decodeOrdinal (encodeOrdinal (slice_scope q) (int n)) (slice_scope q) = Inr (int n)"
    using 3 by (intro decode_encodeOrdinal) (auto simp: slice_ok_def s)
  with 3 slice_page_at [of items q n] show ?case by (simp add: s)
next
  case (4 s n)
  then show ?case by (cases s) simp
qed

section \<open>Properties\<close>

text \<open>
  C37. Following the cursors of a listing cut from a list, page after page from the first,
  returns every item exactly once and in order, and ends after at most one request more than
  there are items; a cursor that was made under another sort order is refused.
\<close>

theorem slice_pages_cover_the_list:
  assumes "0 < q_Limit q" "int (length items) \<le> int64_max"
  shows "follow_pages (Suc (length items)) (\<lambda>cursor. SlicePage items (q\<lparr>q_Cursor := cursor\<rparr>)) [] = Some items
    \<and> (q_Cursor q = encodeOrdinal scope n \<and> scope \<noteq> slice_scope q
         \<and> CHR '':'' \<notin> set scope \<and> CHR '':'' \<notin> set (slice_scope q)
       \<longrightarrow> SlicePage items q = Inl ErrBadOrdinal)"
proof (intro conjI impI)
  have "slice_ok (items, q)" using assms by (simp add: slice_ok_def)
  from slices.follow_all [OF this, of "Suc (length items)"]
  show "follow_pages (Suc (length items)) (\<lambda>cursor. SlicePage items (q\<lparr>q_Cursor := cursor\<rparr>)) [] = Some items"
    by (simp add: slice_fetch_def)
next
  assume other: "q_Cursor q = encodeOrdinal scope n \<and> scope \<noteq> slice_scope q
    \<and> CHR '':'' \<notin> set scope \<and> CHR '':'' \<notin> set (slice_scope q)"
  then have "CutPrefix (CHR ''#'' # scope @ CHR '':'' # FormatInt n) (CHR ''#'' # slice_scope q @ '':'') = None"
    using scope_prefix [of scope "slice_scope q" "FormatInt n"] by (auto simp: CutPrefix_Cons)
  with other show "SlicePage items q = Inl ErrBadOrdinal"
    by (simp add: SlicePage_alt decodeOrdinal_def encodeOrdinal_def)
qed

definition sample_query :: Query where
  "sample_query = \<lparr>q_Search = [], q_Sort = \<lparr>sort_Field = ''name'', sort_Descending = True\<rparr>, q_Cursor = [],
     q_Limit = 2, q_filters = []\<rparr>"

theorem slice_pages_cover_the_list_witness:
  "follow_pages 4 (\<lambda>cursor. SlicePage [10 :: nat, 20, 30] (sample_query\<lparr>q_Cursor := cursor\<rparr>)) [] = Some [10, 20, 30]"
  using conjunct1 [OF slice_pages_cover_the_list [of sample_query "[10 :: nat, 20, 30]"]]
  by (simp add: sample_query_def numeral_eq_Suc)

text \<open>
  A listing query is accepted only whole: every parameter given has one non-blank value and
  is a reserved name or a filter the listing declares; the limit is between 1 and 200; the
  search text and the cursor are bounded, and search text is given only where the listing is
  searchable; the order is the default one or over a sortable field; and the filters
  read back are exactly those given. Nothing a caller sent is silently dropped.
\<close>

lemma filter_loop_Inr:
  assumes "filter_loop spec vals filters = Inr result"
  shows "result = filters @ map (\<lambda>(name, given). (name, hd given)) (filter (\<lambda>(name, given). name \<notin> set reserved) vals)
    \<and> (\<forall>(name, given) \<in> set vals. name \<in> set reserved \<or> name \<in> set (spec_Filters spec))
    \<and> (''search'' \<in> fst ` set vals \<longrightarrow> spec_Searchable spec)"
  using assms
proof (induction spec vals filters rule: filter_loop.induct)
  case (2 spec name given vals filters)
  have "''search'' \<in> set reserved" by (simp add: reserved_def)
  with 2 show ?case by (auto split: if_splits)
qed simp

lemma scalar_loop_iff: "scalar_loop vals \<longleftrightarrow> (\<forall>(name, given) \<in> set vals. \<exists>v. given = [v] \<and> TrimSpace v \<noteq> [])"
proof (induction vals rule: scalar_loop.induct)
  case (2 name given vals)
  then show ?case by (cases given) auto
qed simp

lemma map_of_hd_filter:
  "map_of (map (\<lambda>(name, given). (name, hd given)) (filter (\<lambda>(name, given). p name) vals)) name =
     (if p name then map_option hd (map_of vals name) else None)"
  by (induction vals) auto

theorem listing_query_is_accepted_whole:
  assumes "ParseQuery vals spec = Inr q"
  shows "(\<forall>(name, given) \<in> set vals. (\<exists>v. given = [v] \<and> TrimSpace v \<noteq> [])
         \<and> (name \<in> set reserved \<or> name \<in> set (spec_Filters spec)))
    \<and> 1 \<le> q_Limit q \<and> q_Limit q \<le> 200
    \<and> length (q_Search q) \<le> 256 \<and> length (q_Cursor q) \<le> 512
    \<and> (''search'' \<in> fst ` set vals \<longrightarrow> spec_Searchable spec)
    \<and> (q_Sort q = spec_DefaultSort spec \<or> sort_Field (q_Sort q) \<in> set (spec_Sortable spec))
    \<and> (\<forall>name. name \<notin> set reserved \<longrightarrow>
         Filter q name = (case map_of vals name of Some given \<Rightarrow> hd given | None \<Rightarrow> []))"
proof -
  from assms have scalar: "scalar_loop vals" and "\<exists>limit. limitFrom vals = Inr limit \<and> q_Limit q = limit"
    and size: "length (q_Search q) \<le> 256" "length (q_Cursor q) \<le> 512"
    and filters: "filter_loop spec vals [] = Inr (q_filters q)"
    and sort: "(case map_of vals ''sort'' of None \<Rightarrow> Inr (spec_DefaultSort spec)
        | Some asked \<Rightarrow> if length asked \<noteq> 1 then Inl ErrUnknownSort else sortFrom (hd asked) spec) = Inr (q_Sort q)"
    by (auto simp: ParseQuery_def Let_def split: if_splits sum.splits)
  then have "1 \<le> q_Limit q \<and> q_Limit q \<le> 200"
    by (auto simp: limitFrom_def split: option.splits if_splits)
  moreover from sort have "q_Sort q = spec_DefaultSort spec \<or> sort_Field (q_Sort q) \<in> set (spec_Sortable spec)"
    by (auto simp: sortFrom_def Let_def split: option.splits if_splits)
  moreover have "Filter q name = (case map_of vals name of Some given \<Rightarrow> hd given | None \<Rightarrow> [])"
    if "name \<notin> set reserved" for name
    using filter_loop_Inr [OF filters] that
    by (simp add: Filter_def map_of_hd_filter [of "\<lambda>n. n \<notin> set reserved"] split: option.split)
  ultimately show ?thesis
    using scalar size filter_loop_Inr [OF filters] unfolding scalar_loop_iff by blast
qed

theorem listing_query_is_accepted_whole_witness:
  "\<exists>q. ParseQuery [(''state'', [''revoked'']), (''sort'', [''-name''])]
      \<lparr>spec_Searchable = False, spec_Sortable = [''name''], spec_DefaultSort = \<lparr>sort_Field = ''name'', sort_Descending = False\<rparr>,
       spec_Filters = [''state'']\<rparr> = Inr q
    \<and> Filter q ''state'' = ''revoked'' \<and> sort_Field (q_Sort q) \<in> {''name''}"
proof -
  let ?spec = "\<lparr>spec_Searchable = False, spec_Sortable = [''name''],
    spec_DefaultSort = \<lparr>sort_Field = ''name'', sort_Descending = False\<rparr>, spec_Filters = [''state'']\<rparr>"
  have trim: "TrimSpace ''revoked'' = ''revoked''" "TrimSpace ''-name'' = ''-name''" "TrimSpace [] = []"
    by (simp_all add: TrimSpace_graphic graphic_def)
  obtain q where q: "ParseQuery [(''state'', [''revoked'']), (''sort'', [''-name''])] ?spec = Inr q"
    by (simp add: ParseQuery_def limitFrom_def sortFrom_def Get_def HasPrefix_def reserved_def trim Let_def)
  note whole = listing_query_is_accepted_whole [OF q]
  from whole have "\<forall>name. name \<notin> set reserved \<longrightarrow> Filter q name =
      (case map_of [(''state'', [''revoked'']), (''sort'', [''-name''])] name of Some given \<Rightarrow> hd given | None \<Rightarrow> [])"
    by blast
  from this [rule_format, of "''state''"] have state: "Filter q ''state'' = ''revoked''"
    by (simp add: reserved_def)
  from whole have "q_Sort q = spec_DefaultSort ?spec \<or> sort_Field (q_Sort q) \<in> set (spec_Sortable ?spec)"
    by blast
  then have "sort_Field (q_Sort q) \<in> {''name''}" by auto
  with q state show ?thesis by blast
qed

end
