(* ===== verification/AuditTrail.thy ===== *)
theory AuditTrail
  imports Authz Retention Listing
begin

text \<open>
  The audit trail in the database (\<^verbatim>\<open>internal/store/postgres/audit.go\<close>) and its retention
  (\<^verbatim>\<open>internal/audit/retention.go\<close>): writing an event, committing a mutation together with
  its event, and removing what a tenant's schedule lets go. The table's trigger refuses every
  update and every delete outside a pruning transaction, so inserts and \<open>PruneEventsBefore\<close>
  are all that happens to it.
\<close>

section \<open>Writing events\<close>

record audit_row =
  ae_id :: uuid
  ae_org :: "string option"
  ae_event :: Event
  ae_occurred_at :: instant

text \<open>The column constraint: only these actions may belong to no organization.\<close>

definition deployment_actions :: "string list" where
  "deployment_actions =
     [''session.signed-out'', ''session.revoked'', ''local.password-changed'', ''local.password-recovered'',
      ''local.bootstrap-completed'']"

definition nullableOrganization :: "string \<Rightarrow> string option" where
  "nullableOrganization organization = (if organization = [] then None else Some organization)"

text \<open>\<open>clock\<close> is what \<^verbatim>\<open>time.Now\<close> returns and \<open>eventID\<close> what \<^verbatim>\<open>uuid.New\<close> does.\<close>

definition writeEvent ::
  "(string \<Rightarrow> string) \<Rightarrow> instant \<Rightarrow> uuid \<Rightarrow> Event \<Rightarrow> audit_row list \<Rightarrow> store_error + audit_row list"
where
  "writeEvent unicode_lower clock eventID event t =
     (let bounded = Bounded unicode_lower event;
          occurred = (case ev_OccurredAt bounded of None \<Rightarrow> clock | Some i \<Rightarrow> i);
          org = nullableOrganization (ev_Organization bounded) in
      if eventID \<in> ae_id ` set t then Inl (ErrAuditFailed (UniqueViolation ''audit_event_pkey''))
      else if org = None \<and> ev_Action bounded \<notin> set deployment_actions
      then Inl (ErrAuditFailed (CheckViolation ''audit_event_deployment_action_check''))
      else Inr (t @ [\<lparr>ae_id = eventID, ae_org = org, ae_event = bounded\<lparr>ev_OccurredAt := Some occurred\<rparr>,
                      ae_occurred_at = occurred\<rparr>]))"

definition RecordEvent ::
  "(string \<Rightarrow> string) \<Rightarrow> instant \<Rightarrow> uuid \<Rightarrow> uuid \<Rightarrow> Event \<Rightarrow> audit_row list \<Rightarrow> store_error + audit_row list"
where
  "RecordEvent unicode_lower clock eventID organization event t =
     in_organization organization (writeEvent unicode_lower clock eventID event t)"

text \<open>
  A transaction that changes some tables \<open>'s\<close> and records who did it. An error on the way
  rolls everything back, which is the error value: the caller keeps the state it had.
\<close>

definition auditedWithAction ::
  "(string \<Rightarrow> string) \<Rightarrow> (uuid \<Rightarrow> string) \<Rightarrow> instant \<Rightarrow> uuid \<Rightarrow> Principal \<Rightarrow> uuid
     \<Rightarrow> ('s \<Rightarrow> store_error + 't \<times> string \<times> Target \<times> Detail \<times> 's)
     \<Rightarrow> 's \<times> audit_row list \<Rightarrow> store_error + 't \<times> 's \<times> audit_row list"
where
  "auditedWithAction unicode_lower uuid_string clock eventID who organization mutate db =
     (if Organization who \<noteq> organization then Inl ErrNotAMember
      else in_organization organization
        (case mutate (fst db) of
           Inl e \<Rightarrow> Inl e
         | Inr (result, action, target, detail, s) \<Rightarrow>
             (case writeEvent unicode_lower clock eventID
                     \<lparr>ev_Organization = uuid_string organization, ev_Actor = Actor_of uuid_string who,
                      ev_Action = action, ev_Target = target, ev_Outcome = OutcomeAllowed,
                      ev_SourceAddress = pr_sourceAddress who, ev_RequestID = pr_requestID who,
                      ev_OccurredAt = None, ev_Detail = detail\<rparr> (snd db) of
                Inl e \<Rightarrow> Inl e
              | Inr trail \<Rightarrow> Inr (result, s, trail))))"

definition audited ::
  "(string \<Rightarrow> string) \<Rightarrow> (uuid \<Rightarrow> string) \<Rightarrow> instant \<Rightarrow> uuid \<Rightarrow> Principal \<Rightarrow> uuid \<Rightarrow> string
     \<Rightarrow> ('s \<Rightarrow> store_error + 't \<times> Target \<times> Detail \<times> 's)
     \<Rightarrow> 's \<times> audit_row list \<Rightarrow> store_error + 't \<times> 's \<times> audit_row list"
where
  "audited unicode_lower uuid_string clock eventID who organization action mutate db =
     auditedWithAction unicode_lower uuid_string clock eventID who organization
       (\<lambda>s. case mutate s of
              Inl e \<Rightarrow> Inl e
            | Inr (result, target, detail, s') \<Rightarrow> Inr (result, action, target, detail, s')) db"

section \<open>Reading the trail\<close>

text \<open>
  One page of an organization's trail, newest first. The stored detail is read back as it was
  written; what JSON does to the Go types of numbers is not modelled.
\<close>

record Recorded =
  rec_ID :: string
  rec_Event :: Event

definition recorded_row :: "uuid_lib \<Rightarrow> uuid \<Rightarrow> audit_row \<Rightarrow> Recorded" where
  "recorded_row lib organization r =
     \<lparr>rec_ID = uuid_String lib (ae_id r),
      rec_Event = (ae_event r)\<lparr>ev_Organization := uuid_String lib organization,
                                ev_OccurredAt := Some (ae_occurred_at r)\<rparr>\<rparr>"

definition AuditEvents ::
  "uuid_lib \<Rightarrow> Principal \<Rightarrow> uuid \<Rightarrow> Page \<Rightarrow> audit_row list \<Rightarrow> store_error + Recorded list \<times> string"
where
  "AuditEvents lib who organization page t =
     (if Organization who \<noteq> organization then Inl ErrNotAMember
      else in_organization organization
        (case decodeCursor lib (page_After page) ''-occurredAt'' of
           Inl e \<Rightarrow> Inl e
         | Inr before \<Rightarrow>
             (let limit = pageLimit (page_Limit page);
                  (events, next) =
                    collect_page limit []
                      (keyset_rows (\<lambda>r. (ae_occurred_at r, ae_id r))
                         (\<lambda>r. ae_org r = Some (uuid_String lib organization)) before limit t) in
              Inr (map (recorded_row lib organization) events,
                   case next of
                     None \<Rightarrow> []
                   | Some r \<Rightarrow> encodeCursor lib ''-occurredAt'' (ae_occurred_at r) (ae_id r)))))"

section \<open>Retention\<close>

record AuditRetention =
  retention_Organization :: uuid
  retention_Days :: nat

text \<open>The columns of \<^verbatim>\<open>organization\<close> the schedule reads: identifier and days.\<close>

definition DeclaredRetentions :: "(uuid \<times> nat) list \<Rightarrow> AuditRetention list" where
  "DeclaredRetentions organizations =
     map (\<lambda>(org, days). \<lparr>retention_Organization = org, retention_Days = days\<rparr>)
       (sort_key fst (filter (\<lambda>(org, days). 0 < days) organizations))"

definition expired_event :: "(uuid \<Rightarrow> string) \<Rightarrow> uuid \<Rightarrow> instant \<Rightarrow> audit_row \<Rightarrow> bool" where
  "expired_event uuid_string organization before r \<longleftrightarrow>
     ae_org r = Some (uuid_string organization) \<and> ae_occurred_at r < before"

definition PruneEventsBefore ::
  "(uuid \<Rightarrow> string) \<Rightarrow> uuid \<Rightarrow> instant \<Rightarrow> int \<Rightarrow> audit_row list \<Rightarrow> store_error + nat \<times> audit_row list"
where
  "PruneEventsBefore uuid_string organization before limit t =
     in_organization organization
       (if limit \<le> 0 then Inr (0, t)
        else Inr (delete_oldest ae_id (\<lambda>r. (ae_occurred_at r, ae_id r))
                    (expired_event uuid_string organization before) (nat limit) t))"

text \<open>
  \<open>addDate\<close> is the calendar arithmetic of \<^verbatim>\<open>time.AddDate(0, 0, -days)\<close> in the location of
  the process; \<open>attempts\<close> says, per organization and round, what the context and the
  connection do.
\<close>

definition Horizon :: "(instant \<Rightarrow> nat \<Rightarrow> instant) \<Rightarrow> AuditRetention \<Rightarrow> instant \<Rightarrow> instant" where
  "Horizon addDate r now = addDate now (retention_Days r)"

definition prune ::
  "(uuid \<Rightarrow> string) \<Rightarrow> (instant \<Rightarrow> nat \<Rightarrow> instant) \<Rightarrow> instant \<Rightarrow> (nat \<Rightarrow> attempt) \<Rightarrow> AuditRetention
     \<Rightarrow> audit_row list \<Rightarrow> nat \<times> bool \<times> audit_row list"
where
  "prune uuid_string addDate now attempts retention t =
     prune_loop (PruneEventsBefore uuid_string (retention_Organization retention)
                   (Horizon addDate retention now) (int pruneBatch))
       attempts maxBatchesPerSweep t"

text \<open>A failed schedule is logged and the sweep goes on with the next one.\<close>

fun sweep_schedules ::
  "(uuid \<Rightarrow> string) \<Rightarrow> (instant \<Rightarrow> nat \<Rightarrow> instant) \<Rightarrow> instant \<Rightarrow> (uuid \<Rightarrow> nat \<Rightarrow> attempt)
     \<Rightarrow> AuditRetention list \<Rightarrow> audit_row list \<Rightarrow> audit_row list"
where
  "sweep_schedules uuid_string addDate now attempts [] t = t"
| "sweep_schedules uuid_string addDate now attempts (retention # rest) t =
     (let (removed, failed, t') =
            prune uuid_string addDate now (attempts (retention_Organization retention)) retention t
      in sweep_schedules uuid_string addDate now attempts rest t')"

definition Sweep ::
  "(uuid \<Rightarrow> string) \<Rightarrow> (instant \<Rightarrow> nat \<Rightarrow> instant) \<Rightarrow> instant \<Rightarrow> (uuid \<Rightarrow> nat \<Rightarrow> attempt) \<Rightarrow> db_fate
     \<Rightarrow> (uuid \<times> nat) list \<Rightarrow> audit_row list \<Rightarrow> audit_row list"
where
  "Sweep uuid_string addDate now attempts fate organizations t =
     (if fate \<noteq> Reported then t
      else sweep_schedules uuid_string addDate now attempts (DeclaredRetentions organizations) t)"

section \<open>Lemmas\<close>

definition trail_wf :: "audit_row list \<Rightarrow> bool" where
  "trail_wf t \<longleftrightarrow> distinct (map ae_id t)"

lemma PruneEventsBefore_batch:
  assumes "trail_wf t" "PruneEventsBefore uuid_string organization before (int pruneBatch) t = Inr (n, t')"
  shows "n = min pruneBatch (rows_affected (expired_event uuid_string organization before) t)
    \<and> filter (\<lambda>r. \<not> expired_event uuid_string organization before r) t'
        = filter (\<lambda>r. \<not> expired_event uuid_string organization before r) t
    \<and> rows_affected (expired_event uuid_string organization before) t' + n
        = rows_affected (expired_event uuid_string organization before) t
    \<and> trail_wf t'"
proof -
  from assms(2) have "delete_oldest ae_id (\<lambda>r. (ae_occurred_at r, ae_id r))
      (expired_event uuid_string organization before) pruneBatch t = (n, t')"
    by (simp add: PruneEventsBefore_def)
  from delete_oldest_deletes [OF _ this] assms(1) show ?thesis by (simp add: trail_wf_def)
qed

interpretation audit_retention:
  batch_retention "PruneEventsBefore uuid_string organization before (int pruneBatch)"
    "expired_event uuid_string organization before" trail_wf
  for uuid_string organization before
  by unfold_locales (use PruneEventsBefore_batch in blast)+

lemma sweep_schedules_keeps:
  assumes "trail_wf t" "r \<in> set t"
    and "\<And>s. s \<in> set schedules \<Longrightarrow>
          \<not> expired_event uuid_string (retention_Organization s) (Horizon addDate s now) r"
  shows "r \<in> set (sweep_schedules uuid_string addDate now attempts schedules t)"
  using assms
proof (induction schedules arbitrary: t)
  case (Cons s rest)
  obtain removed failed t' where loop:
      "prune uuid_string addDate now (attempts (retention_Organization s)) s t = (removed, failed, t')"
    by (cases "prune uuid_string addDate now (attempts (retention_Organization s)) s t") auto
  have kept: "trail_wf t'" "filter (\<lambda>r. \<not> expired_event uuid_string (retention_Organization s) (Horizon addDate s now) r) t'
      = filter (\<lambda>r. \<not> expired_event uuid_string (retention_Organization s) (Horizon addDate s now) r) t"
    using audit_retention.loop_keeps [OF Cons.prems(1) loop [unfolded prune_def]] by simp_all
  have "r \<in> set (filter (\<lambda>r. \<not> expired_event uuid_string (retention_Organization s) (Horizon addDate s now) r) t)"
    using Cons.prems(2,3) by simp
  then have "r \<in> set t'" unfolding kept(2) [symmetric] by simp
  with Cons kept(1) loop show ?case by simp
qed simp

lemma DeclaredRetentions_mem:
  "s \<in> set (DeclaredRetentions organizations) \<longleftrightarrow>
     0 < retention_Days s \<and> (retention_Organization s, retention_Days s) \<in> set organizations"
  by (cases s) (auto simp: DeclaredRetentions_def image_iff)

lemma writeEvent_Inr:
  assumes "writeEvent unicode_lower clock eventID event t = Inr t'"
  shows "\<exists>r. t' = t @ [r] \<and> eventID \<notin> ae_id ` set t \<and> ae_id r = eventID
    \<and> ae_org r = nullableOrganization (ev_Organization event)
    \<and> ae_event r = (Bounded unicode_lower event)\<lparr>ev_OccurredAt := Some (ae_occurred_at r)\<rparr>"
  using assms by (auto simp: writeEvent_def Let_def Bounded_def split: if_splits)

lemma audited_Inr:
  assumes "audited unicode_lower uuid_string clock eventID who organization action mutate (s, trail)
             = Inr (result, s', trail')"
  shows "Organization who = organization \<and> organization \<noteq> uuid_Nil
    \<and> (\<exists>target detail event. mutate s = Inr (result, target, detail, s')
        \<and> writeEvent unicode_lower clock eventID event trail = Inr trail'
        \<and> ev_Organization event = uuid_string organization \<and> ev_Actor event = Actor_of uuid_string who
        \<and> ev_Action event = action \<and> ev_Outcome event = OutcomeAllowed \<and> ev_Detail event = detail)"
proof -
  from assms have guards: "Organization who = organization" "organization \<noteq> uuid_Nil"
    by (auto simp: audited_def auditedWithAction_def split: if_splits)
  with assms obtain target detail where run: "mutate s = Inr (result, target, detail, s')"
    by (auto simp: audited_def auditedWithAction_def split: sum.splits)
  with assms guards obtain event where "writeEvent unicode_lower clock eventID event trail = Inr trail'"
      "ev_Organization event = uuid_string organization" "ev_Actor event = Actor_of uuid_string who"
      "ev_Action event = action" "ev_Outcome event = OutcomeAllowed" "ev_Detail event = detail"
    by (auto simp: audited_def auditedWithAction_def split: sum.splits)
  with guards run show ?thesis by auto
qed

text \<open>The trail of an organization keeps the contract of a paged listing.\<close>

definition trail_of :: "uuid_lib \<Rightarrow> uuid \<Rightarrow> audit_row list \<Rightarrow> audit_row list" where
  "trail_of lib organization t = filter (\<lambda>r. ae_org r = Some (uuid_String lib organization)) t"

definition trail_listing :: "uuid_lib \<Rightarrow> uuid \<Rightarrow> audit_row list \<Rightarrow> audit_row list" where
  "trail_listing lib organization t =
     descending (\<lambda>r. (ae_occurred_at r, ae_id r)) (trail_of lib organization t)"

type_synonym trail_reading = "uuid_lib \<times> Principal \<times> int \<times> audit_row list"

definition reading_ok :: "trail_reading \<Rightarrow> bool" where
  "reading_ok = (\<lambda>(lib, who, asked, t).
     Organization who \<noteq> uuid_Nil \<and> trail_wf t
     \<and> (\<forall>r \<in> set t. in_int64 (ae_occurred_at r) \<and> uuid_ok lib (ae_id r)))"

definition reading_fetch :: "trail_reading \<Rightarrow> string \<Rightarrow> store_error + Recorded list \<times> string" where
  "reading_fetch = (\<lambda>(lib, who, asked, t) cursor.
     AuditEvents lib who (Organization who) \<lparr>page_Limit = asked, page_After = cursor\<rparr> t)"

definition reading_items :: "trail_reading \<Rightarrow> Recorded list" where
  "reading_items = (\<lambda>(lib, who, asked, t).
     map (recorded_row lib (Organization who)) (trail_listing lib (Organization who) t))"

definition reading_limit :: "trail_reading \<Rightarrow> nat" where
  "reading_limit = (\<lambda>(lib, who, asked, t). pageLimit asked)"

definition reading_position :: "trail_reading \<Rightarrow> nat \<Rightarrow> string" where
  "reading_position = (\<lambda>(lib, who, asked, t) n.
     let r = trail_listing lib (Organization who) t ! (n - 1) in
     encodeCursor lib ''-occurredAt'' (ae_occurred_at r) (ae_id r))"

lemma pageLimit_positive [simp]: "0 < pageLimit asked"
  by (simp add: pageLimit_def)

lemma trail_listing_mem: "r \<in> set (trail_listing lib organization t) \<Longrightarrow> r \<in> set t"
  by (simp add: trail_listing_def trail_of_def)

lemma length_trail_listing [simp]:
  "length (trail_listing lib organization t) = length (trail_of lib organization t)"
  by (simp add: trail_listing_def)

lemma reading_page:
  assumes ok: "reading_ok (lib, who, asked, t)"
    and n: "n < length (trail_of lib (Organization who) t) \<or> n = 0"
    and cursor: "cursor = (if n = 0 then [] else reading_position (lib, who, asked, t) n)"
  shows "reading_fetch (lib, who, asked, t) cursor =
    Inr (serve (reading_position (lib, who, asked, t)) (pageLimit asked) (reading_items (lib, who, asked, t)) n)"
proof -
  let ?org = "Organization who"
  let ?all = "trail_listing lib ?org t"
  let ?key = "\<lambda>r. (ae_occurred_at r, ae_id r)"
  let ?after = "if n = 0 then None else Some (?key (?all ! (n - 1)))"
  have keys: "distinct (map ?key (trail_of lib ?org t))"
    using ok by (auto simp: reading_ok_def trail_wf_def trail_of_def distinct_map inj_on_def)
  have page: "collect_page (pageLimit asked) [] (keyset_rows ?key (\<lambda>r. ae_org r = Some (uuid_String lib ?org))
        ?after (pageLimit asked) t) =
      (take (pageLimit asked) (drop n ?all),
       if n + pageLimit asked < length (trail_of lib ?org t) then Some (?all ! (n + pageLimit asked - 1)) else None)"
    unfolding trail_listing_def trail_of_def
    by (rule collect_keyset [OF keys [unfolded trail_of_def] pageLimit_positive n [unfolded trail_of_def] refl])
  have decoded: "decodeCursor lib cursor ''-occurredAt'' = Inr ?after"
  proof (cases "n = 0")
    case True
    then show ?thesis by (simp add: cursor decodeCursor_def)
  next
    case False
    with n have "?all ! (n - 1) \<in> set t"
      by (intro trail_listing_mem [of _ lib ?org t]) (simp add: less_imp_diff_less)
    with ok have "uuid_ok lib (ae_id (?all ! (n - 1)))" "in_int64 (ae_occurred_at (?all ! (n - 1)))"
      by (auto simp: reading_ok_def)
    with False show ?thesis
      using decode_encodeCursor [of lib "ae_id (?all ! (n - 1))" "''-occurredAt''" "''-occurredAt''"
          "ae_occurred_at (?all ! (n - 1))"]
      by (simp add: cursor reading_position_def Let_def)
  qed
  have "?org \<noteq> uuid_Nil" using ok by (simp add: reading_ok_def)
  with page decoded show ?thesis
    by (simp add: reading_fetch_def AuditEvents_def serve_def reading_items_def reading_position_def
        take_map drop_map Let_def)
qed

interpretation trail_pages: page_chain reading_fetch reading_ok reading_items reading_limit reading_position
proof (unfold_locales, goal_cases)
  case (1 s)
  then show ?case by (simp add: reading_limit_def split: prod.splits)
next
  case (2 s)
  then show ?case
    using reading_page [of _ _ _ _ 0 "[]"] by (cases s) (simp add: reading_limit_def)
next
  case (3 s n)
  then show ?case
    using reading_page [of _ _ _ _ n] by (cases s) (simp add: reading_limit_def reading_items_def)
next
  case (4 s n)
  then show ?case by (cases s) (simp add: reading_position_def Let_def)
qed

section \<open>Properties\<close>

text \<open>
  C33. A mutation and the event that says who made it commit together or not at all: an audited
  operation that succeeds ran its mutation for a principal of that organization and appended
  exactly one event, with that principal as the actor, the declared action and the outcome
  "allowed"; an operation that returns an error leaves the tables as they were. In
  particular a mutation whose event cannot be written does not happen.
\<close>

theorem audited_commits_with_its_event:
  assumes "audited unicode_lower uuid_string clock eventID who organization action mutate (s, trail)
             = Inr (result, s', trail')"
  shows "Organization who = organization \<and> organization \<noteq> uuid_Nil
    \<and> (\<exists>target detail r. mutate s = Inr (result, target, detail, s') \<and> trail' = trail @ [r]
         \<and> ae_id r \<notin> ae_id ` set trail
         \<and> ae_org r = nullableOrganization (uuid_string organization)
         \<and> ev_Action (ae_event r) = action \<and> ev_Outcome (ae_event r) = OutcomeAllowed
         \<and> actor_ID (ev_Actor (ae_event r)) = truncate_text (uuid_string (pr_userID who)) 512
         \<and> ev_Detail (ae_event r) = Safe unicode_lower detail)"
proof -
  from audited_Inr [OF assms] obtain target detail event where
      guards: "Organization who = organization" "organization \<noteq> uuid_Nil"
      and run: "mutate s = Inr (result, target, detail, s')"
      and ev: "writeEvent unicode_lower clock eventID event trail = Inr trail'"
      "ev_Organization event = uuid_string organization" "ev_Actor event = Actor_of uuid_string who"
      "ev_Action event = action" "ev_Outcome event = OutcomeAllowed" "ev_Detail event = detail"
    by blast
  from writeEvent_Inr [OF ev(1)] obtain r where r: "trail' = trail @ [r]"
      "eventID \<notin> ae_id ` set trail" "ae_id r = eventID"
      "ae_org r = nullableOrganization (ev_Organization event)"
      "ae_event r = (Bounded unicode_lower event)\<lparr>ev_OccurredAt := Some (ae_occurred_at r)\<rparr>"
    by blast
  have fields: "ev_Action (ae_event r) = action" "ev_Outcome (ae_event r) = OutcomeAllowed"
      "actor_ID (ev_Actor (ae_event r)) = truncate_text (uuid_string (pr_userID who)) 512"
      "ev_Detail (ae_event r) = Safe unicode_lower detail"
    using r(5) ev(3-6) by (simp_all add: Bounded_def Actor_of_def)
  from guards run r(1-4) ev(2) fields show ?thesis by auto
qed

definition sample_principal :: Principal where
  "sample_principal = fst (g_Resolve sample_guard sample_request)"

definition sample_trail :: "audit_row list" where
  "sample_trail =
     [\<lparr>ae_id = 1, ae_org = Some (uuid_String sample_uuid_lib 3), ae_event = sample_event, ae_occurred_at = 10\<rparr>,
      \<lparr>ae_id = 2, ae_org = Some (uuid_String sample_uuid_lib 4), ae_event = sample_event, ae_occurred_at = 10\<rparr>,
      \<lparr>ae_id = 3, ae_org = Some (uuid_String sample_uuid_lib 3), ae_event = sample_event, ae_occurred_at = 90\<rparr>]"

theorem audited_commits_with_its_event_witness:
  "\<exists>trail'. audited id (uuid_String sample_uuid_lib) 5 9 sample_principal 3 ''relay.bootstrap-issued''
      (\<lambda>n. Inr ((), \<lparr>target_Kind = ''relay'', target_ID = ''x''\<rparr>, [], n + 1)) (0 :: nat, sample_trail)
      = Inr ((), 1, trail')
    \<and> Organization sample_principal = 3 \<and> (\<exists>r. trail' = sample_trail @ [r] \<and> ev_Outcome (ae_event r) = OutcomeAllowed)"
proof -
  have name: "uuid_String sample_uuid_lib 3 \<noteq> []" by (simp add: sample_uuid_lib_def)
  obtain trail' where run: "audited id (uuid_String sample_uuid_lib) 5 9 sample_principal 3 ''relay.bootstrap-issued''
      (\<lambda>n. Inr ((), \<lparr>target_Kind = ''relay'', target_ID = ''x''\<rparr>, [], n + 1)) (0 :: nat, sample_trail)
      = Inr ((), 1, trail')"
    by (simp add: audited_def auditedWithAction_def sample_principal_def sample_guard_def Organization_def
        writeEvent_def Bounded_def nullableOrganization_def sample_trail_def Let_def name)
  from audited_commits_with_its_event [OF run] run show ?thesis by blast
qed

text \<open>
  C35. A retention sweep removes only what a schedule lets go. Whatever the connection and the
  context do, an event survives unless its organization declares a positive number of days
  and the event is older than that horizon. When every call succeeds, one schedule's pass
  removes its expired events, all of them or 50000, whichever is less.
\<close>

theorem audit_retention_is_exact:
  assumes "trail_wf t"
  shows "(r \<in> set t \<and> (\<forall>(org, days) \<in> set organizations. days = 0
            \<or> ae_org r \<noteq> Some (uuid_string org) \<or> addDate now days \<le> ae_occurred_at r)
          \<longrightarrow> r \<in> set (Sweep uuid_string addDate now attempts fate organizations t))
    \<and> (retention_Organization s \<noteq> uuid_Nil
        \<and> prune uuid_string addDate now (\<lambda>_. Attempt Reported) s t = (removed, failed, t')
        \<longrightarrow> \<not> failed
          \<and> removed = min 50000 (rows_affected (expired_event uuid_string (retention_Organization s) (Horizon addDate s now)) t)
          \<and> rows_affected (expired_event uuid_string (retention_Organization s) (Horizon addDate s now)) t' + removed
            = rows_affected (expired_event uuid_string (retention_Organization s) (Horizon addDate s now)) t)"
proof (intro conjI impI)
  assume r: "r \<in> set t \<and> (\<forall>(org, days) \<in> set organizations. days = 0
            \<or> ae_org r \<noteq> Some (uuid_string org) \<or> addDate now days \<le> ae_occurred_at r)"
  have "r \<in> set (sweep_schedules uuid_string addDate now attempts (DeclaredRetentions organizations) t)"
  proof (rule sweep_schedules_keeps [OF assms])
    show "r \<in> set t" using r by blast
    show "\<not> expired_event uuid_string (retention_Organization s) (Horizon addDate s now) r"
      if "s \<in> set (DeclaredRetentions organizations)" for s
      using that r by (auto simp: DeclaredRetentions_mem expired_event_def Horizon_def)
  qed
  with r show "r \<in> set (Sweep uuid_string addDate now attempts fate organizations t)"
    by (simp add: Sweep_def)
next
  assume run: "retention_Organization s \<noteq> uuid_Nil
        \<and> prune uuid_string addDate now (\<lambda>_. Attempt Reported) s t = (removed, failed, t')"
  note all = audit_retention.loop_removes [OF assms, of "\<lambda>_. Attempt Reported" uuid_string
      "retention_Organization s" "Horizon addDate s now" 50 removed failed t']
  from run all show "\<not> failed"
      "removed = min 50000 (rows_affected (expired_event uuid_string (retention_Organization s) (Horizon addDate s now)) t)"
      "rows_affected (expired_event uuid_string (retention_Organization s) (Horizon addDate s now)) t' + removed
            = rows_affected (expired_event uuid_string (retention_Organization s) (Horizon addDate s now)) t"
    by (simp_all add: prune_def PruneEventsBefore_def)
qed

theorem audit_retention_is_exact_witness:
  "sample_trail ! 2 \<in> set (Sweep (uuid_String sample_uuid_lib) (\<lambda>now days. now - int days) 100
      (\<lambda>_ _. Attempt Unreported) Reported [(3, 30), (4, 0)] sample_trail)"
proof -
  have wf: "trail_wf sample_trail" by (simp add: trail_wf_def sample_trail_def)
  show ?thesis
    using conjunct1 [OF audit_retention_is_exact [OF wf, of "sample_trail ! 2" "[(3, 30), (4, 0)]"
        "uuid_String sample_uuid_lib" "\<lambda>now days. now - int days" 100 "\<lambda>_ _. Attempt Unreported" Reported]]
    by (simp add: sample_trail_def)
qed

text \<open>
  C36. Reading an organization's audit trail page by page, from the first page along the cursors,
  returns every event of the organization exactly once, newest first, and no event of another
  organization, within one request more than there are events. A principal of another
  organization gets none of it.
\<close>

theorem audit_trail_pages_cover_it:
  assumes "trail_wf t" "\<forall>r \<in> set t. in_int64 (ae_occurred_at r) \<and> uuid_ok lib (ae_id r)"
    and "Organization who \<noteq> uuid_Nil"
  shows "follow_pages (Suc (length (trail_of lib (Organization who) t)))
      (\<lambda>cursor. AuditEvents lib who (Organization who) \<lparr>page_Limit = asked, page_After = cursor\<rparr> t) []
      = Some (map (recorded_row lib (Organization who)) (trail_listing lib (Organization who) t))
    \<and> sorted_wrt (>) (map (\<lambda>r. (ae_occurred_at r, ae_id r)) (trail_listing lib (Organization who) t))
    \<and> set (trail_listing lib (Organization who) t)
        = {r \<in> set t. ae_org r = Some (uuid_String lib (Organization who))}
    \<and> (organization \<noteq> Organization who \<longrightarrow> AuditEvents lib who organization page t = Inl ErrNotAMember)"
proof (intro conjI impI)
  have ok: "reading_ok (lib, who, asked, t)" using assms by (simp add: reading_ok_def)
  from trail_pages.follow_all [OF ok, of "Suc (length (trail_of lib (Organization who) t))"]
  show "follow_pages (Suc (length (trail_of lib (Organization who) t)))
      (\<lambda>cursor. AuditEvents lib who (Organization who) \<lparr>page_Limit = asked, page_After = cursor\<rparr> t) []
      = Some (map (recorded_row lib (Organization who)) (trail_listing lib (Organization who) t))"
    by (simp add: reading_fetch_def reading_items_def)
  have "distinct (map (\<lambda>r. (ae_occurred_at r, ae_id r)) (trail_of lib (Organization who) t))"
    using assms(1) by (auto simp: trail_wf_def trail_of_def distinct_map inj_on_def)
  from descending_strict [OF this]
  show "sorted_wrt (>) (map (\<lambda>r. (ae_occurred_at r, ae_id r)) (trail_listing lib (Organization who) t))"
    by (simp only: trail_listing_def)
  show "set (trail_listing lib (Organization who) t)
        = {r \<in> set t. ae_org r = Some (uuid_String lib (Organization who))}"
    by (auto simp: trail_listing_def trail_of_def)
  show "AuditEvents lib who organization page t = Inl ErrNotAMember" if "organization \<noteq> Organization who"
    using that by (simp add: AuditEvents_def)
qed

theorem audit_trail_pages_cover_it_witness:
  "follow_pages 3
      (\<lambda>cursor. AuditEvents sample_uuid_lib sample_principal 3 \<lparr>page_Limit = 1, page_After = cursor\<rparr> sample_trail) []
      = Some (map (recorded_row sample_uuid_lib 3) [sample_trail ! 2, sample_trail ! 0])"
proof -
  have org: "Organization sample_principal = 3"
    by (simp add: sample_principal_def sample_guard_def Organization_def)
  have other: "uuid_String sample_uuid_lib 4 \<noteq> uuid_String sample_uuid_lib 3"
    by (simp add: sample_uuid_lib_def numeral_eq_Suc)
  have wf: "trail_wf sample_trail" by (simp add: trail_wf_def sample_trail_def)
  have rows: "\<forall>r \<in> set sample_trail. in_int64 (ae_occurred_at r) \<and> uuid_ok sample_uuid_lib (ae_id r)"
    by (simp add: sample_trail_def in_int64_def sample_uuid_ok)
  have known: "Organization sample_principal \<noteq> uuid_Nil" by (simp add: org)
  have own: "trail_of sample_uuid_lib 3 sample_trail = [sample_trail ! 0, sample_trail ! 2]"
    by (simp add: trail_of_def sample_trail_def other)
  have "trail_listing sample_uuid_lib 3 sample_trail = [sample_trail ! 2, sample_trail ! 0]"
    unfolding trail_listing_def own by (simp add: sample_trail_def)
  with conjunct1 [OF audit_trail_pages_cover_it [OF wf rows known, of 1]] show ?thesis
    by (simp only: org own list.size) (simp add: eval_nat_numeral)
qed

end
