(* ===== verification/RelayLimits.thy ===== *)
theory RelayLimits
  imports Prelude
begin

text \<open>
  The two in-memory guards of the relay service: the flood limiter in front of registration
  (\<^verbatim>\<open>internal/relay/flood.go\<close>) and the watch on session takeovers
  (\<^verbatim>\<open>internal/relay/churn.go\<close>). Both hold a mutex for the whole of each call, so
  each call is one function on the state. A Go map is an association list with distinct keys;
  the order of its entries is never observed.
\<close>

section \<open>Association lists as Go maps\<close>

fun put :: "'k \<Rightarrow> 'v \<Rightarrow> ('k \<times> 'v) list \<Rightarrow> ('k \<times> 'v) list" where
  "put k v [] = [(k, v)]"
| "put k v ((k', v') # m) = (if k' = k then (k, v) # m else (k', v') # put k v m)"

lemma map_of_put [simp]: "map_of (put k v m) = (map_of m)(k \<mapsto> v)"
  by (induction m) auto

lemma keys_put [simp]: "fst ` set (put k v m) = insert k (fst ` set m)"
  by (induction k v m rule: put.induct) (simp_all add: insert_commute)

lemma distinct_put [simp]: "distinct (map fst (put k v m)) \<longleftrightarrow> distinct (map fst m)"
proof (induction k v m rule: put.induct)
  case (2 k v k' v' m)
  then show ?case using keys_put [of k v m] by simp
qed simp

lemma length_put: "length (put k v m) = (if k \<in> fst ` set m then length m else Suc (length m))"
  by (induction k v m rule: put.induct) simp_all

lemma put_values: "(k', v') \<in> set (put k v m) \<Longrightarrow> (k', v') = (k, v) \<or> (k', v') \<in> set m"
  by (induction m) (auto split: if_splits)

section \<open>The flood limiter\<close>

record FloodLimits =
  Window :: duration
  PerOrganization :: int
  Global :: int
  MaxTrackedOrganizations :: int

record floodLimiter =
  fl_limits :: FloodLimits
  fl_windowStart :: instant
  fl_globalCount :: int
  fl_perOrgCount :: "(string \<times> int) list"

text \<open>The zero \<open>time.Time\<close> (the first of January of year 1), in nanoseconds from 1970.\<close>

definition time_Zero :: instant where
  "time_Zero = - 62135596800 * Second"

definition DefaultFloodLimits :: FloodLimits where
  "DefaultFloodLimits = \<lparr>Window = Minute, PerOrganization = 20, Global = 200, MaxTrackedOrganizations = 10000\<rparr>"

definition newFloodLimiter :: "FloodLimits \<Rightarrow> floodLimiter" where
  "newFloodLimiter limits =
     \<lparr>fl_limits = limits, fl_windowStart = time_Zero, fl_globalCount = 0, fl_perOrgCount = []\<rparr>"

definition flood_roll :: "instant \<Rightarrow> floodLimiter \<Rightarrow> floodLimiter" where
  "flood_roll now l =
     (if now - fl_windowStart l \<ge> Window (fl_limits l)
      then l\<lparr>fl_windowStart := now, fl_globalCount := 0, fl_perOrgCount := []\<rparr> else l)"

definition flood_allow :: "instant \<Rightarrow> string \<Rightarrow> floodLimiter \<Rightarrow> bool \<times> floodLimiter" where
  "flood_allow now organization l0 =
     (let l = flood_roll now l0; limits = fl_limits l in
      if fl_globalCount l \<ge> Global limits then (False, l)
      else let seen = map_of (fl_perOrgCount l) organization;
               count = (case seen of Some n \<Rightarrow> n | None \<Rightarrow> 0) in
      if seen = None \<and> int (length (fl_perOrgCount l)) \<ge> MaxTrackedOrganizations limits then (False, l)
      else if count \<ge> PerOrganization limits then (False, l)
      else (True, l\<lparr>fl_perOrgCount := put organization (count + 1) (fl_perOrgCount l),
                    fl_globalCount := fl_globalCount l + 1\<rparr>))"

text \<open>A sequence of calls, each at its own moment.\<close>

fun flood_run :: "(instant \<times> string) list \<Rightarrow> floodLimiter \<Rightarrow> bool list \<times> floodLimiter" where
  "flood_run [] l = ([], l)"
| "flood_run ((now, organization) # calls) l =
     (let (ok, l') = flood_allow now organization l; (oks, l'') = flood_run calls l' in (ok # oks, l''))"

definition flood_count :: "string \<Rightarrow> floodLimiter \<Rightarrow> int" where
  "flood_count organization l =
     (case map_of (fl_perOrgCount l) organization of Some n \<Rightarrow> n | None \<Rightarrow> 0)"

definition flood_inv :: "floodLimiter \<Rightarrow> bool" where
  "flood_inv l \<longleftrightarrow> distinct (map fst (fl_perOrgCount l))
     \<and> 0 \<le> fl_globalCount l \<and> fl_globalCount l \<le> max 0 (Global (fl_limits l))
     \<and> (\<forall>(organization, n) \<in> set (fl_perOrgCount l). 1 \<le> n \<and> n \<le> max 0 (PerOrganization (fl_limits l)))
     \<and> int (length (fl_perOrgCount l)) \<le> max 0 (MaxTrackedOrganizations (fl_limits l))"

lemma flood_inv_new: "flood_inv (newFloodLimiter limits)"
  by (simp add: flood_inv_def newFloodLimiter_def)

lemma flood_roll_inv: "flood_inv l \<Longrightarrow> flood_inv (flood_roll now l)"
  by (simp add: flood_roll_def flood_inv_def)

lemma flood_allow_limits [simp]: "fl_limits (snd (flood_allow now organization l)) = fl_limits l"
  by (simp add: flood_allow_def flood_roll_def Let_def)

lemma flood_allow_inv:
  assumes "flood_inv l"
  shows "flood_inv (snd (flood_allow now organization l))"
proof -
  define m where "m = flood_roll now l"
  have inv: "flood_inv m" using flood_roll_inv [OF assms] by (simp add: m_def)
  define count where "count = (case map_of (fl_perOrgCount m) organization of Some n \<Rightarrow> n | None \<Rightarrow> 0)"
  have count: "0 \<le> count"
    using inv by (auto simp: count_def flood_inv_def dest!: map_of_SomeD split: option.splits)
  show ?thesis
  proof (cases "fst (flood_allow now organization l)")
    case False
    then have "snd (flood_allow now organization l) = m"
      by (simp add: flood_allow_def m_def Let_def split: if_splits)
    with inv show ?thesis by simp
  next
    case True
    then have res: "snd (flood_allow now organization l) =
        m\<lparr>fl_perOrgCount := put organization (count + 1) (fl_perOrgCount m),
          fl_globalCount := fl_globalCount m + 1\<rparr>"
      and ok: "fl_globalCount m < Global (fl_limits m)" "count < PerOrganization (fl_limits m)"
        "map_of (fl_perOrgCount m) organization \<noteq> None
           \<or> int (length (fl_perOrgCount m)) < MaxTrackedOrganizations (fl_limits m)"
      by (auto simp: flood_allow_def m_def count_def Let_def split: if_splits)
    have "int (length (put organization (count + 1) (fl_perOrgCount m)))
        \<le> max 0 (MaxTrackedOrganizations (fl_limits m))"
      using ok(3) inv
      by (auto simp: length_put flood_inv_def map_of_eq_None_iff)
    then show ?thesis
      unfolding res using inv ok count by (auto simp: flood_inv_def dest!: put_values)
  qed
qed

lemma flood_run_limits [simp]: "fl_limits (snd (flood_run calls l)) = fl_limits l"
proof (induction calls l rule: flood_run.induct)
  case (2 now organization calls l)
  obtain ok l' where a: "flood_allow now organization l = (ok, l')" by fastforce
  then show ?case
    using "2.IH" [OF a [symmetric]] flood_allow_limits [of now organization l] by (simp add: split_def Let_def)
qed simp

lemma flood_run_inv: "flood_inv l \<Longrightarrow> flood_inv (snd (flood_run calls l))"
proof (induction calls l rule: flood_run.induct)
  case (2 now organization calls l)
  obtain ok l' where a: "flood_allow now organization l = (ok, l')" by fastforce
  with flood_allow_inv [OF "2.prems", of now organization] have "flood_inv l'" by simp
  then show ?case using "2.IH" a by (simp add: split_def Let_def)
qed simp

text \<open>One call inside the current window either admits and counts, or changes nothing.\<close>

lemma flood_allow_in_window:
  assumes "now - fl_windowStart l < Window (fl_limits l)"
  shows "fl_windowStart (snd (flood_allow now organization l)) = fl_windowStart l"
    and "fl_globalCount (snd (flood_allow now organization l)) =
      fl_globalCount l + (if fst (flood_allow now organization l) then 1 else 0)"
    and "flood_count other (snd (flood_allow now organization l)) = flood_count other l
      + (if fst (flood_allow now organization l) \<and> other = organization then 1 else 0)"
  using assms by (auto simp: flood_allow_def flood_roll_def flood_count_def Let_def split: option.splits)

lemma flood_run_in_window:
  assumes "\<forall>call \<in> set calls. fst call - fl_windowStart l < Window (fl_limits l)"
  shows "fl_globalCount (snd (flood_run calls l)) =
      fl_globalCount l + int (count_list (fst (flood_run calls l)) True)
    \<and> flood_count other (snd (flood_run calls l)) = flood_count other l
      + int (length (filter (\<lambda>(ok, call). ok \<and> snd call = other) (zip (fst (flood_run calls l)) calls)))"
  using assms
proof (induction calls l rule: flood_run.induct)
  case (2 now organization calls l)
  obtain ok l' where a: "flood_allow now organization l = (ok, l')" by fastforce
  have w: "now - fl_windowStart l < Window (fl_limits l)" using "2.prems" by simp
  note step = flood_allow_in_window(1,2) [OF w, of organization, unfolded a, simplified]
    flood_allow_in_window(3) [OF w, of other organization, unfolded a, simplified]
  have "fl_limits l' = fl_limits l" using flood_allow_limits [of now organization l] a by simp
  then have "\<forall>call \<in> set calls. fst call - fl_windowStart l' < Window (fl_limits l')"
    using "2.prems" step(1) by simp
  with "2.IH" [OF a [symmetric]] have IH:
    "fl_globalCount (snd (flood_run calls l')) = fl_globalCount l' + int (count_list (fst (flood_run calls l')) True)"
    "flood_count other (snd (flood_run calls l')) = flood_count other l'
      + int (length (filter (\<lambda>(ok, call). ok \<and> snd call = other) (zip (fst (flood_run calls l')) calls)))"
    by auto
  show ?case using IH step a by (auto simp: split_def Let_def)
qed simp

section \<open>The takeover watch\<close>

text \<open>Constants of \<^verbatim>\<open>session.go\<close> and \<^verbatim>\<open>churn.go\<close>.\<close>

definition heartbeatInterval :: duration where
  "heartbeatInterval = 15 * Second"

definition sessionIdleTimeout :: duration where
  "sessionIdleTimeout = 3 * heartbeatInterval"

definition churnWindow :: duration where
  "churnWindow = 2 * sessionIdleTimeout"

abbreviation churnThreshold :: nat where
  "churnThreshold \<equiv> 3"

abbreviation contendingHosts :: nat where
  "contendingHosts \<equiv> 2"

abbreviation churnMemory :: nat where
  "churnMemory \<equiv> 8"

abbreviation maxTrackedRegistrations :: nat where
  "maxTrackedRegistrations \<equiv> 4096"

record takeover =
  tk_at :: instant
  tk_host :: string

type_synonym takeovers = "takeover list"

record churnWatch =
  cw_byRegistration :: "(uuid \<times> takeovers) list"
  cw_lastSwept :: instant

record churnVerdict =
  cv_contested :: bool
  cv_takeovers :: nat
  cv_distinctHosts :: nat
  cv_backoff :: duration
  cv_untracked :: bool

definition newChurnWatch :: churnWatch where
  "newChurnWatch = \<lparr>cw_byRegistration = [], cw_lastSwept = time_Zero\<rparr>"

definition forgetBefore :: "instant \<Rightarrow> takeovers \<Rightarrow> takeovers" where
  "forgetBefore cutoff recent = dropWhile (\<lambda>t. tk_at t \<le> cutoff) recent"

definition takeovers_add :: "instant \<Rightarrow> string \<Rightarrow> takeovers \<Rightarrow> takeovers" where
  "takeovers_add now host recent =
     (let kept = forgetBefore (now - churnWindow) recent;
          room = (if length kept = churnMemory then drop 1 kept else kept) in
      room @ [\<lparr>tk_at = now, tk_host = host\<rparr>])"

definition takeovers_hosts :: "takeovers \<Rightarrow> nat" where
  "takeovers_hosts recent = length (remdups (map tk_host recent))"

definition takeovers_verdict :: "takeovers \<Rightarrow> churnVerdict" where
  "takeovers_verdict recent =
     (let hosts = takeovers_hosts recent in
      \<lparr>cv_contested = (length recent \<ge> churnThreshold
          \<or> (hosts \<ge> contendingHosts \<and> length recent \<ge> contendingHosts)),
       cv_takeovers = length recent, cv_distinctHosts = hosts,
       cv_backoff = (if length recent \<ge> contendingHosts then sessionIdleTimeout else 0),
       cv_untracked = False\<rparr>)"

definition churn_sweep :: "instant \<Rightarrow> churnWatch \<Rightarrow> churnWatch" where
  "churn_sweep now c =
     (if now - cw_lastSwept c < churnWindow then c
      else c\<lparr>cw_lastSwept := now,
        cw_byRegistration := filter (\<lambda>(r, h). h \<noteq> [])
          (map (\<lambda>(r, h). (r, forgetBefore (now - churnWindow) h)) (cw_byRegistration c))\<rparr>)"

text \<open>
  \<^verbatim>\<open>net.SplitHostPort\<close>, as far as \<open>hostOf\<close> uses it: the host, or nothing when
  the address does not split.
\<close>

definition index_of :: "char \<Rightarrow> string \<Rightarrow> nat option" where
  "index_of c s = (let n = length (takeWhile (\<lambda>x. x \<noteq> c) s) in if n < length s then Some n else None)"

definition last_index_of :: "char \<Rightarrow> string \<Rightarrow> nat option" where
  "last_index_of c s = map_option (\<lambda>n. length s - 1 - n) (index_of c (rev s))"

definition split_host :: "string \<Rightarrow> string option" where
  "split_host hostport =
     (case last_index_of CHR '':'' hostport of
        None \<Rightarrow> None
      | Some i \<Rightarrow>
          if hd hostport = CHR ''['' then
            (case index_of CHR '']'' hostport of
               None \<Rightarrow> None
             | Some e \<Rightarrow>
                 if e + 1 = i \<and> CHR ''['' \<notin> set (drop 1 hostport) \<and> CHR '']'' \<notin> set (drop (e + 1) hostport)
                 then Some (take (e - 1) (drop 1 hostport)) else None)
          else if CHR '':'' \<in> set (take i hostport) \<or> CHR ''['' \<in> set hostport \<or> CHR '']'' \<in> set hostport
          then None
          else Some (take i hostport))"

definition hostOf :: "string \<Rightarrow> string" where
  "hostOf peer = (case split_host peer of None \<Rightarrow> peer | Some host \<Rightarrow> host)"

definition churn_record :: "instant \<Rightarrow> uuid \<Rightarrow> string \<Rightarrow> churnWatch \<Rightarrow> churnVerdict \<times> churnWatch" where
  "churn_record now registration peer c0 =
     (let c = churn_sweep now c0; known = map_of (cw_byRegistration c) registration in
      if known = None \<and> length (cw_byRegistration c) \<ge> maxTrackedRegistrations
      then (\<lparr>cv_contested = False, cv_takeovers = 0, cv_distinctHosts = 0, cv_backoff = 0, cv_untracked = True\<rparr>, c)
      else let history = takeovers_add now (hostOf peer) (case known of Some h \<Rightarrow> h | None \<Rightarrow> []) in
        (takeovers_verdict history,
         c\<lparr>cw_byRegistration := put registration history (cw_byRegistration c)\<rparr>))"

fun churn_run :: "(instant \<times> uuid \<times> string) list \<Rightarrow> churnWatch \<Rightarrow> churnWatch" where
  "churn_run [] c = c"
| "churn_run ((now, registration, peer) # events) c =
     churn_run events (snd (churn_record now registration peer c))"

subsection \<open>What the watch remembers\<close>

definition churn_inv :: "churnWatch \<Rightarrow> bool" where
  "churn_inv c \<longleftrightarrow> distinct (map fst (cw_byRegistration c))
     \<and> length (cw_byRegistration c) \<le> maxTrackedRegistrations
     \<and> (\<forall>(r, h) \<in> set (cw_byRegistration c). length h \<le> churnMemory)"

text \<open>The watch holds these takeovers of a registration as its most recent ones.\<close>

definition remembers :: "churnWatch \<Rightarrow> uuid \<Rightarrow> takeovers \<Rightarrow> bool" where
  "remembers c registration es \<longleftrightarrow> (\<exists>xs. map_of (cw_byRegistration c) registration = Some (xs @ es))"

lemma forgetBefore_suffix:
  assumes "\<forall>e \<in> set es. cutoff < tk_at e"
  shows "\<exists>ys. forgetBefore cutoff (xs @ es) = ys @ es"
proof (induction xs)
  case Nil
  show ?case using assms by (cases es) (auto simp: forgetBefore_def)
next
  case (Cons x xs)
  then obtain ys where "forgetBefore cutoff (xs @ es) = ys @ es" ..
  then show ?case
    by (cases "tk_at x \<le> cutoff") (auto simp: forgetBefore_def intro: exI [of _ "x # xs"])
qed

lemma length_forgetBefore: "length (forgetBefore cutoff h) \<le> length h"
  by (simp add: forgetBefore_def length_dropWhile_le)

lemma takeovers_add_suffix:
  assumes "\<forall>e \<in> set es. now - churnWindow < tk_at e" "length es < churnMemory"
  shows "\<exists>ys. takeovers_add now host (xs @ es) = ys @ es @ [\<lparr>tk_at = now, tk_host = host\<rparr>]"
proof -
  obtain ys where ys: "forgetBefore (now - churnWindow) (xs @ es) = ys @ es"
    using forgetBefore_suffix [OF assms(1)] by blast
  show ?thesis
  proof (cases "length (ys @ es) = churnMemory")
    case True
    with assms(2) obtain y zs where "ys = y # zs" by (cases ys) auto
    with True ys show ?thesis by (simp add: takeovers_add_def)
  next
    case False
    with ys show ?thesis by (simp add: takeovers_add_def)
  qed
qed

lemma length_takeovers_add:
  assumes "length h \<le> churnMemory"
  shows "length (takeovers_add now host h) \<le> churnMemory"
  using length_forgetBefore [of "now - churnWindow" h] assms by (auto simp: takeovers_add_def Let_def)

lemma map_of_swept:
  assumes "distinct (map fst m)"
  shows "map_of (filter (\<lambda>(r, h). h \<noteq> []) (map (\<lambda>(r, h). (r, f h)) m)) k =
    (case map_of m k of None \<Rightarrow> None | Some h \<Rightarrow> if f h = [] then None else Some (f h))"
  using assms
proof (induction m)
  case (Cons e m)
  obtain r h where e: "e = (r, h)" by fastforce
  have "map_of m r = None" using Cons.prems by (simp add: e map_of_eq_None_iff)
  with Cons show ?case by (auto simp: e split: option.splits)
qed simp

lemma sweep_remembers:
  assumes "churn_inv c" "remembers c registration es" "es \<noteq> []" "\<forall>e \<in> set es. now - churnWindow < tk_at e"
  shows "remembers (churn_sweep now c) registration es"
proof -
  from assms(2) obtain xs where xs: "map_of (cw_byRegistration c) registration = Some (xs @ es)"
    by (auto simp: remembers_def)
  obtain ys where "forgetBefore (now - churnWindow) (xs @ es) = ys @ es"
    using forgetBefore_suffix [OF assms(4)] by blast
  then show ?thesis
    using assms(1,3) xs by (auto simp: churn_sweep_def remembers_def churn_inv_def map_of_swept)
qed

lemma churn_sweep_inv:
  assumes "churn_inv c"
  shows "churn_inv (churn_sweep now c)"
proof -
  let ?m = "map (\<lambda>(r, h). (r, forgetBefore (now - churnWindow) h)) (cw_byRegistration c)"
  have "map fst ?m = map fst (cw_byRegistration c)" by (simp add: split_def)
  then have "distinct (map fst (filter (\<lambda>(r, h). h \<noteq> []) ?m))"
    using assms by (metis churn_inv_def distinct_map_filter)
  moreover have "length (filter (\<lambda>(r, h). h \<noteq> []) ?m) \<le> maxTrackedRegistrations"
    using assms by (intro le_trans [OF length_filter_le]) (simp add: churn_inv_def)
  moreover have "length (forgetBefore (now - churnWindow) h) \<le> churnMemory"
    if "(r, h) \<in> set (cw_byRegistration c)" for r h
    using that assms le_trans [OF length_forgetBefore] by (fastforce simp: churn_inv_def)
  ultimately show ?thesis
    using assms unfolding churn_sweep_def churn_inv_def by auto
qed

lemma churn_record_inv:
  assumes "churn_inv c"
  shows "churn_inv (snd (churn_record now registration peer c))"
proof -
  define s where "s = churn_sweep now c"
  have inv: "churn_inv s" using churn_sweep_inv [OF assms] by (simp add: s_def)
  define known where "known = map_of (cw_byRegistration s) registration"
  define h where "h = takeovers_add now (hostOf peer) (case known of Some h \<Rightarrow> h | None \<Rightarrow> [])"
  have "length (case known of Some h \<Rightarrow> h | None \<Rightarrow> []) \<le> churnMemory"
    using inv by (auto simp: known_def churn_inv_def dest!: map_of_SomeD split: option.splits)
  then have len: "length h \<le> churnMemory" unfolding h_def by (rule length_takeovers_add)
  have room: "length (put registration h (cw_byRegistration s)) \<le> maxTrackedRegistrations"
    if "known \<noteq> None \<or> length (cw_byRegistration s) < maxTrackedRegistrations"
    using that inv by (auto simp: length_put known_def churn_inv_def map_of_eq_None_iff)
  have "churn_inv (s\<lparr>cw_byRegistration := put registration h (cw_byRegistration s)\<rparr>)"
    if "known \<noteq> None \<or> length (cw_byRegistration s) < maxTrackedRegistrations"
    using inv len room [OF that] by (auto simp: churn_inv_def dest!: put_values)
  then show ?thesis
    using inv by (auto simp: churn_record_def Let_def s_def [symmetric] known_def [symmetric] h_def [symmetric]
        not_le)
qed

lemma churn_run_inv: "churn_inv c \<Longrightarrow> churn_inv (churn_run events c)"
  by (induction events c rule: churn_run.induct) (auto intro: churn_record_inv)

lemma record_other_remembers:
  assumes "churn_inv c" "remembers c registration es" "es \<noteq> []"
    and "\<forall>e \<in> set es. now - churnWindow < tk_at e" "other \<noteq> registration"
  shows "remembers (snd (churn_record now other peer c)) registration es"
  using sweep_remembers [OF assms(1-4)] assms(5)
  by (auto simp: churn_record_def Let_def remembers_def)

lemma record_remembers:
  assumes "churn_inv c" "remembers c registration es" "es \<noteq> []" "length es < churnMemory"
    and "\<forall>e \<in> set es. now - churnWindow < tk_at e"
  shows "remembers (snd (churn_record now registration peer c)) registration
      (es @ [\<lparr>tk_at = now, tk_host = hostOf peer\<rparr>])"
    and "\<exists>ys. fst (churn_record now registration peer c)
      = takeovers_verdict (ys @ es @ [\<lparr>tk_at = now, tk_host = hostOf peer\<rparr>])"
proof -
  obtain xs where xs: "map_of (cw_byRegistration (churn_sweep now c)) registration = Some (xs @ es)"
    using sweep_remembers [OF assms(1-3,5)] by (auto simp: remembers_def)
  obtain ys where ys: "takeovers_add now (hostOf peer) (xs @ es) = ys @ es @ [\<lparr>tk_at = now, tk_host = hostOf peer\<rparr>]"
    using takeovers_add_suffix [OF assms(5,4)] by blast
  show "remembers (snd (churn_record now registration peer c)) registration
      (es @ [\<lparr>tk_at = now, tk_host = hostOf peer\<rparr>])"
    using xs ys by (simp add: churn_record_def Let_def remembers_def)
  show "\<exists>ys. fst (churn_record now registration peer c)
      = takeovers_verdict (ys @ es @ [\<lparr>tk_at = now, tk_host = hostOf peer\<rparr>])"
    using xs ys by (auto simp: churn_record_def Let_def)
qed

lemma record_first_remembers:
  assumes "\<not> cv_untracked (fst (churn_record now registration peer c))"
  shows "remembers (snd (churn_record now registration peer c)) registration [\<lparr>tk_at = now, tk_host = hostOf peer\<rparr>]"
  using assms by (auto simp: churn_record_def Let_def remembers_def takeovers_add_def split: if_splits)

lemma run_others_remembers:
  assumes "churn_inv c" "remembers c registration es" "es \<noteq> []"
    and "\<forall>(now, other, peer) \<in> set events. other \<noteq> registration \<and> (\<forall>e \<in> set es. now - churnWindow < tk_at e)"
  shows "remembers (churn_run events c) registration es"
  using assms
proof (induction events c rule: churn_run.induct)
  case (2 now other peer events c)
  have "remembers (snd (churn_record now other peer c)) registration es"
    using "2.prems" by (intro record_other_remembers) auto
  with "2.IH" [OF churn_record_inv [OF "2.prems"(1)]] "2.prems" show ?case by simp
qed simp

section \<open>Properties\<close>

text \<open>
  C26. The flood limiter bounds what reaches enrolment: over any sequence of registration
  calls inside one window, the calls admitted together with those already counted number at
  most the global limit, those of one organization at most the limit per organization, and the
  organizations tracked at most their limit. The limits are the ones the limiter was made with.
\<close>

theorem flood_limits_hold:
  assumes "flood_inv l" "0 \<le> Global (fl_limits l)" "0 \<le> PerOrganization (fl_limits l)"
    and "\<forall>call \<in> set calls. fst call - fl_windowStart l < Window (fl_limits l)"
  shows "fl_globalCount l + int (count_list (fst (flood_run calls l)) True) \<le> Global (fl_limits l)
    \<and> flood_count organization l
        + int (length (filter (\<lambda>(ok, call). ok \<and> snd call = organization) (zip (fst (flood_run calls l)) calls)))
        \<le> PerOrganization (fl_limits l)
    \<and> flood_inv (snd (flood_run calls l))"
proof -
  note inv = flood_run_inv [OF assms(1), of calls]
  have "fl_globalCount (snd (flood_run calls l)) \<le> Global (fl_limits l)"
    using inv assms(2) by (simp add: flood_inv_def)
  moreover have "flood_count organization (snd (flood_run calls l)) \<le> PerOrganization (fl_limits l)"
    using inv assms(3)
    by (auto simp: flood_inv_def flood_count_def dest!: map_of_SomeD split: option.splits)
  ultimately show ?thesis using flood_run_in_window [OF assms(4), of organization] inv by simp
qed

theorem flood_limits_hold_witness:
  "int (count_list (fst (flood_run [(time_Zero, ''a''), (time_Zero + 1, ''a'')]
      (newFloodLimiter DefaultFloodLimits))) True) \<le> 200"
  using flood_limits_hold [OF flood_inv_new [of DefaultFloodLimits],
      of "[(time_Zero, ''a''), (time_Zero + 1, ''a'')]" "''a''"]
  by (simp add: newFloodLimiter_def DefaultFloodLimits_def)

text \<open>
  Three takeovers of one registration within the churn window are reported as contested,
  and the session that takes over is held back, whatever other registrations do in between and
  however often the watch sweeps; two takeovers from different hosts are enough.
\<close>

theorem repeated_takeovers_are_contested:
  assumes "churn_inv c" "\<not> cv_untracked (fst (churn_record n1 registration p1 c))"
    and "c1 = churn_run others1 (snd (churn_record n1 registration p1 c))"
    and "c2 = churn_run others2 (snd (churn_record n2 registration p2 c1))"
    and "\<forall>(now, other, peer) \<in> set (others1 @ others2).
           other \<noteq> registration \<and> now < n1 + churnWindow \<and> now < n2 + churnWindow"
    and "n2 < n1 + churnWindow" "n3 < n1 + churnWindow" "n3 < n2 + churnWindow"
  shows "(hostOf p1 \<noteq> hostOf p2 \<longrightarrow> cv_contested (fst (churn_record n2 registration p2 c1)))
    \<and> cv_contested (fst (churn_record n3 registration p3 c2))
    \<and> cv_backoff (fst (churn_record n3 registration p3 c2)) = sessionIdleTimeout"
proof -
  let ?e1 = "\<lparr>tk_at = n1, tk_host = hostOf p1\<rparr>" and ?e2 = "\<lparr>tk_at = n2, tk_host = hostOf p2\<rparr>"
  have i1: "churn_inv c1" using assms(1,3) churn_record_inv churn_run_inv by simp
  have i2: "churn_inv c2" using i1 assms(4) churn_record_inv churn_run_inv by simp
  have o1: "\<forall>(now, other, peer) \<in> set others1. other \<noteq> registration \<and> (\<forall>e \<in> set [?e1]. now - churnWindow < tk_at e)"
    and o2: "\<forall>(now, other, peer) \<in> set others2. other \<noteq> registration \<and> (\<forall>e \<in> set [?e1, ?e2]. now - churnWindow < tk_at e)"
    using assms(5) by (fastforce simp: ball_Un)+
  have m1: "remembers c1 registration [?e1]"
    unfolding assms(3)
    by (rule run_others_remembers [OF churn_record_inv [OF assms(1)] record_first_remembers [OF assms(2)] _ o1]) simp
  have fresh: "\<forall>e \<in> set [?e1]. n2 - churnWindow < tk_at e" using assms(6) by simp
  note second = record_remembers [OF i1 m1, of n2 p2]
  have m2: "remembers c2 registration [?e1, ?e2]"
    unfolding assms(4)
    by (rule run_others_remembers [OF churn_record_inv [OF i1]])
       (use second(1) fresh o2 in auto)
  obtain ys where v2: "fst (churn_record n2 registration p2 c1) = takeovers_verdict (ys @ [?e1] @ [?e2])"
    using second(2) fresh by auto
  have two: "2 \<le> length (remdups (map tk_host (ys @ [?e1] @ [?e2])))" if "hostOf p1 \<noteq> hostOf p2"
  proof -
    have "card {hostOf p1, hostOf p2} \<le> card (set (map tk_host (ys @ [?e1] @ [?e2])))"
      by (rule card_mono) auto
    then show ?thesis using that by (simp add: length_remdups_card_conv)
  qed
  obtain zs p where "fst (churn_record n3 registration p3 c2) = takeovers_verdict (zs @ [?e1, ?e2] @ [p])"
    using record_remembers(2) [OF i2 m2, of n3 p3] assms(7,8) by auto
  then show ?thesis
    using v2 two by (auto simp: takeovers_verdict_def takeovers_hosts_def Let_def)
qed

theorem repeated_takeovers_are_contested_witness:
  "cv_contested (fst (churn_record 3 5 ''10.0.0.1:7''
     (churn_run [] (snd (churn_record 2 5 ''10.0.0.1:8''
        (churn_run [(2, 6, ''10.0.0.9:1'')] (snd (churn_record 1 5 ''10.0.0.1:9'' newChurnWatch))))))))"
proof -
  have inv: "churn_inv newChurnWatch" by (simp add: newChurnWatch_def churn_inv_def)
  have known: "\<not> cv_untracked (fst (churn_record 1 5 ''10.0.0.1:9'' newChurnWatch))"
    by (simp add: churn_record_def newChurnWatch_def churn_sweep_def takeovers_verdict_def Let_def)
  show ?thesis
    by (rule repeated_takeovers_are_contested [OF inv known refl refl, THEN conjunct2, THEN conjunct1])
       (simp_all add: churnWindow_def sessionIdleTimeout_def heartbeatInterval_def)
qed

text \<open>
  The watch is bounded whatever registrations connect: after any sequence of takeovers it
  tracks at most 4096 registrations with at most 8 takeovers each, and a single remembered
  takeover is never reported as contested nor held back.
\<close>

theorem takeover_watch_is_bounded:
  assumes "churn_inv c" "c' = churn_run events c"
  shows "length (cw_byRegistration c') \<le> 4096
    \<and> (\<forall>(r, h) \<in> set (cw_byRegistration c'). length h \<le> 8)
    \<and> (cv_takeovers (fst (churn_record now registration peer c')) = 1 \<longrightarrow>
         \<not> cv_contested (fst (churn_record now registration peer c'))
         \<and> cv_backoff (fst (churn_record now registration peer c')) = 0)"
  using churn_run_inv [OF assms(1), of events] assms(2)
  by (auto simp: churn_inv_def churn_record_def takeovers_verdict_def Let_def split: if_splits)

theorem takeover_watch_is_bounded_witness:
  "length (cw_byRegistration (churn_run [(1, 5, ''a''), (2, 6, ''b'')] newChurnWatch)) \<le> 4096"
  using takeover_watch_is_bounded [of newChurnWatch _ "[(1, 5, ''a''), (2, 6, ''b'')]"]
  by (auto simp: newChurnWatch_def churn_inv_def)

end
