(* ===== verification/RelayRegistry.thy ===== *)
theory RelayRegistry
  imports AuditTrail RelayLimits RelayFencing
begin

text \<open>
  The relays an organization has: enrolment against single-use bootstrap tokens
  (\<^verbatim>\<open>internal/store/postgres/relay.go\<close> and \<^verbatim>\<open>internal/relay/registration.go\<close>), the
  session columns of a registration (\<^verbatim>\<open>relays.go\<close>), and the credential-theft finding on it
  (\<^verbatim>\<open>conflict.go\<close>). A token obeys the generation contract of \<open>fenced_rows\<close>: spending it
  closes it for good.
\<close>

section \<open>Rows\<close>

record bootstrap_token =
  tok_digest :: bytes
  tok_org :: uuid
  tok_expires_at :: instant
  tok_consumed_at :: "instant option"
  tok_revoked_at :: "instant option"

record relay_registration =
  reg_id :: uuid
  reg_org :: uuid
  reg_credential_digest :: bytes
  reg_cluster_fingerprint :: string
  reg_relay_version :: string
  reg_protocol_version :: "int option"
  reg_capabilities :: bytes
  reg_revoked_at :: "instant option"
  reg_conflict_at :: "instant option"
  reg_conflict_hosts :: int
  reg_session_id :: "uuid option"
  reg_session_started_at :: "instant option"
  reg_session_ended_at :: "instant option"
  reg_last_seen_at :: "instant option"
  reg_session_peer :: "string option"
  reg_created_at :: instant

record registry =
  tokens :: "bootstrap_token list"
  registrations :: "relay_registration list"
  trail :: "audit_row list"

record RelayEnrolment =
  enr_TokenDigest :: bytes
  enr_CredentialDigest :: bytes
  enr_ClusterFingerprint :: string
  enr_RelayVersion :: string
  enr_ProtocolVersion :: "32 word"
  enr_Capabilities :: bytes

fun EnrolmentRefusal_String :: "EnrolmentRefusal \<Rightarrow> string" where
  "EnrolmentRefusal_String RefusalNone = ''none''"
| "EnrolmentRefusal_String RefusalTokenUnknown = ''token unknown''"
| "EnrolmentRefusal_String RefusalTokenExpired = ''token expired''"
| "EnrolmentRefusal_String RefusalTokenAlreadyConsumed = ''token already consumed''"
| "EnrolmentRefusal_String RefusalTokenRevoked = ''token revoked''"
| "EnrolmentRefusal_String RefusalOrganizationMismatch = ''token issued for another organization''"

section \<open>Enrolment\<close>

definition spendable :: "instant \<Rightarrow> uuid \<Rightarrow> bytes \<Rightarrow> bootstrap_token \<Rightarrow> bool" where
  "spendable now organization digest k \<longleftrightarrow>
     tok_digest k = digest \<and> tok_org k = organization \<and> tok_consumed_at k = None
     \<and> tok_revoked_at k = None \<and> now < tok_expires_at k"

definition spendBootstrapToken ::
  "instant \<Rightarrow> uuid \<Rightarrow> bytes \<Rightarrow> bootstrap_token list \<Rightarrow> bool \<times> bootstrap_token list"
where
  "spendBootstrapToken now organization digest ks =
     (rows_affected (spendable now organization digest) ks = 1,
      update_where (spendable now organization digest) (\<lambda>k. k\<lparr>tok_consumed_at := Some now\<rparr>) ks)"

definition explainUnspendableToken ::
  "instant \<Rightarrow> uuid \<Rightarrow> bytes \<Rightarrow> bootstrap_token list \<Rightarrow> EnrolmentRefusal"
where
  "explainUnspendableToken now organization digest ks =
     (case row_of tok_digest digest ks of
        None \<Rightarrow> RefusalTokenUnknown
      | Some k \<Rightarrow>
          if tok_org k \<noteq> organization then RefusalOrganizationMismatch
          else if tok_revoked_at k \<noteq> None then RefusalTokenRevoked
          else if tok_consumed_at k \<noteq> None then RefusalTokenAlreadyConsumed
          else if tok_expires_at k \<le> now then RefusalTokenExpired
          else RefusalTokenAlreadyConsumed)"

definition insertRegistration ::
  "instant \<Rightarrow> uuid \<Rightarrow> uuid \<Rightarrow> RelayEnrolment \<Rightarrow> relay_registration list
     \<Rightarrow> store_error + relay_registration list"
where
  "insertRegistration now registrationID organization e rs =
     (if length (enr_CredentialDigest e) \<noteq> 32
      then Inl (ErrSql (CheckViolation ''relay_registration_credential_digest_check''))
      else if registrationID \<in> reg_id ` set rs
      then Inl (ErrSql (UniqueViolation ''relay_registration_pkey''))
      else Inr (rs @ [\<lparr>reg_id = registrationID, reg_org = organization,
             reg_credential_digest = enr_CredentialDigest e,
             reg_cluster_fingerprint = enr_ClusterFingerprint e,
             reg_relay_version = enr_RelayVersion e,
             reg_protocol_version =
               (if enr_ProtocolVersion e \<noteq> 0 then Some (uint (enr_ProtocolVersion e)) else None),
             reg_capabilities = enr_Capabilities e, reg_revoked_at = None,
             reg_conflict_at = None, reg_conflict_hosts = 0, reg_session_id = None,
             reg_session_started_at = None, reg_session_ended_at = None, reg_last_seen_at = None,
             reg_session_peer = None, reg_created_at = now\<rparr>]))"

text \<open>
  The enrolment transaction. \<open>registrationID\<close> is what \<^verbatim>\<open>uuid.New\<close> returns; a refusal or an
  error rolls the spent token back.
\<close>

definition EnrolRelay ::
  "instant \<Rightarrow> uuid \<Rightarrow> uuid \<Rightarrow> RelayEnrolment \<Rightarrow> registry \<Rightarrow> store_error + uuid \<times> registry"
where
  "EnrolRelay now registrationID organization e db =
     in_organization organization
       (let (spent, ks) = spendBootstrapToken now organization (enr_TokenDigest e) (tokens db) in
        if \<not> spent
        then Inl (ErrEnrolmentRefused (explainUnspendableToken now organization (enr_TokenDigest e) (tokens db)))
        else (case insertRegistration now registrationID organization e (registrations db) of
                Inl err \<Rightarrow> Inl err
              | Inr rs \<Rightarrow> Inr (registrationID, db\<lparr>tokens := ks, registrations := rs\<rparr>)))"

definition VerifyRelayCredential ::
  "uuid \<Rightarrow> uuid \<Rightarrow> bytes \<Rightarrow> registry \<Rightarrow> store_error + bool"
where
  "VerifyRelayCredential organization registrationID digest db =
     in_organization organization
       (Inr (case filter (\<lambda>r. reg_id r = registrationID \<and> reg_org r = organization \<and> reg_revoked_at r = None)
                    (registrations db) of
               [] \<Rightarrow> False
             | r # _ \<Rightarrow> reg_credential_digest r = digest))"

text \<open>\<open>formatTime\<close> is the standard library's RFC 3339 rendering of an instant.\<close>

definition insertBootstrapToken ::
  "(instant \<Rightarrow> string) \<Rightarrow> uuid \<Rightarrow> bytes \<Rightarrow> instant \<Rightarrow> bootstrap_token list
     \<Rightarrow> store_error + unit \<times> Target \<times> Detail \<times> bootstrap_token list"
where
  "insertBootstrapToken formatTime organization digest expiresAt ks =
     (if length digest \<noteq> 32
      then Inl (ErrSql (CheckViolation ''relay_bootstrap_token_bootstrap_digest_check''))
      else if digest \<in> tok_digest ` set ks
      then Inl (ErrSql (UniqueViolation ''relay_bootstrap_token_pkey''))
      else Inr ((), \<lparr>target_Kind = ''relay'', target_ID = ''bootstrap-token''\<rparr>,
             [(''expiresAt'', DString (formatTime expiresAt)),
              (''effect'', DString (''a single-use relay enrolment token was issued and shown once; ''
                                    @ ''it cannot be read back''))],
             ks @ [\<lparr>tok_digest = digest, tok_org = organization, tok_expires_at = expiresAt,
                    tok_consumed_at = None, tok_revoked_at = None\<rparr>]))"

definition IssueOperatorBootstrapToken ::
  "(string \<Rightarrow> string) \<Rightarrow> (uuid \<Rightarrow> string) \<Rightarrow> (instant \<Rightarrow> string) \<Rightarrow> instant \<Rightarrow> uuid \<Rightarrow> Principal \<Rightarrow> uuid
     \<Rightarrow> bytes \<Rightarrow> instant \<Rightarrow> registry \<Rightarrow> store_error + registry"
where
  "IssueOperatorBootstrapToken unicode_lower uuid_string formatTime clock eventID who organization digest expiresAt db =
     (case audited unicode_lower uuid_string clock eventID who organization ''relay.bootstrap-token.issued''
             (insertBootstrapToken formatTime organization digest expiresAt) (tokens db, trail db) of
       Inl err \<Rightarrow> Inl err
     | Inr (_, ks, events) \<Rightarrow> Inr (db\<lparr>tokens := ks, trail := events\<rparr>))"

section \<open>Sessions of a registration\<close>

definition boundedPeer :: "string \<Rightarrow> string" where
  "boundedPeer peer = (if 256 < length peer then take 256 peer else peer)"

definition of_registration :: "uuid \<Rightarrow> uuid \<Rightarrow> relay_registration \<Rightarrow> bool" where
  "of_registration organization registration r \<longleftrightarrow> reg_org r = organization \<and> reg_id r = registration"

definition RelaySessionOpened ::
  "instant \<Rightarrow> uuid \<Rightarrow> uuid \<Rightarrow> uuid \<Rightarrow> string \<Rightarrow> registry \<Rightarrow> store_error + registry"
where
  "RelaySessionOpened now organization registration session peer db =
     in_organization organization
       (Inr (db\<lparr>registrations :=
          update_where (of_registration organization registration)
            (\<lambda>r. r\<lparr>reg_session_id := Some session, reg_session_started_at := Some now,
                   reg_session_ended_at := None, reg_last_seen_at := Some now,
                   reg_session_peer := Some (boundedPeer peer)\<rparr>) (registrations db)\<rparr>))"

definition RelaySessionHeard ::
  "instant \<Rightarrow> uuid \<Rightarrow> uuid \<Rightarrow> uuid \<Rightarrow> registry \<Rightarrow> store_error + registry"
where
  "RelaySessionHeard now organization registration session db =
     in_organization organization
       (Inr (db\<lparr>registrations :=
          update_where (\<lambda>r. of_registration organization registration r \<and> reg_session_id r = Some session)
            (\<lambda>r. r\<lparr>reg_last_seen_at := Some now\<rparr>) (registrations db)\<rparr>))"

definition RelaySessionClosed ::
  "instant \<Rightarrow> uuid \<Rightarrow> uuid \<Rightarrow> uuid \<Rightarrow> registry \<Rightarrow> store_error + registry"
where
  "RelaySessionClosed now organization registration session db =
     in_organization organization
       (Inr (db\<lparr>registrations :=
          update_where (\<lambda>r. of_registration organization registration r \<and> reg_session_id r = Some session
                            \<and> reg_session_ended_at r = None)
            (\<lambda>r. r\<lparr>reg_session_ended_at := Some now\<rparr>) (registrations db)\<rparr>))"

record RelayCounts =
  count_Total :: nat
  count_Connected :: nat
  count_Disconnected :: nat
  count_Revoked :: nat
  count_Degraded :: nat
  count_ActiveRequests :: nat
  count_LivenessWindow :: duration

definition relayConnectedExpression :: "instant \<Rightarrow> duration \<Rightarrow> relay_registration \<Rightarrow> bool" where
  "relayConnectedExpression now liveness r \<longleftrightarrow>
     reg_revoked_at r = None \<and> reg_session_ended_at r = None
     \<and> (case reg_last_seen_at r of None \<Rightarrow> False | Some seen \<Rightarrow> now - liveness < seen)"

definition CountRelays ::
  "instant \<Rightarrow> Principal \<Rightarrow> uuid \<Rightarrow> duration \<Rightarrow> relay_job list \<Rightarrow> registry \<Rightarrow> store_error + RelayCounts"
where
  "CountRelays now who organization liveness jobs db =
     (if Organization who \<noteq> organization then Inl ErrNotAMember
      else in_organization organization
        (let rs = filter (\<lambda>r. reg_org r = organization) (registrations db) in
         Inr \<lparr>count_Total = length rs,
              count_Connected = rows_affected (relayConnectedExpression now liveness) rs,
              count_Disconnected =
                rows_affected (\<lambda>r. \<not> relayConnectedExpression now liveness r \<and> reg_revoked_at r = None) rs,
              count_Revoked = rows_affected (\<lambda>r. reg_revoked_at r \<noteq> None) rs,
              count_Degraded = rows_affected (\<lambda>r. reg_conflict_at r \<noteq> None) rs,
              count_ActiveRequests = rows_affected (\<lambda>j. job_org j = organization \<and> job_status j = JobLeased) jobs,
              count_LivenessWindow = liveness\<rparr>))"

section \<open>Session conflicts\<close>

record SessionConflict =
  conflict_DetectedAt :: "instant option"
  conflict_DistinctHosts :: int

definition RecordSessionConflict ::
  "(string \<Rightarrow> string) \<Rightarrow> (uuid \<Rightarrow> string) \<Rightarrow> instant \<Rightarrow> uuid \<Rightarrow> uuid \<Rightarrow> uuid \<Rightarrow> int \<Rightarrow> registry
     \<Rightarrow> store_error + registry"
where
  "RecordSessionConflict unicode_lower uuid_string now eventID organization registrationID distinctHosts db =
     in_organization organization
       (let p = of_registration organization registrationID in
        if rows_affected p (registrations db) = 0 then Inl ErrRegistrationNotFound
        else (case writeEvent unicode_lower now eventID
                \<lparr>ev_Organization = uuid_string organization, ev_Actor = System ''relay session guard'',
                 ev_Action = ''relay.session_conflict.detected'',
                 ev_Target = \<lparr>target_Kind = ''relay'', target_ID = uuid_string registrationID\<rparr>,
                 ev_Outcome = OutcomeAllowed, ev_SourceAddress = [], ev_RequestID = [], ev_OccurredAt = None,
                 ev_Detail = [(''distinctHosts'', DInt distinctHosts)]\<rparr> (trail db) of
                Inl err \<Rightarrow> Inl err
              | Inr events \<Rightarrow>
                  Inr (db\<lparr>registrations :=
                         update_where p
                           (\<lambda>r. r\<lparr>reg_conflict_at := Some now,
                                  reg_conflict_hosts := max (reg_conflict_hosts r) distinctHosts\<rparr>)
                           (registrations db),
                         trail := events\<rparr>)))"

definition SessionConflict_of :: "uuid \<Rightarrow> uuid \<Rightarrow> registry \<Rightarrow> store_error + SessionConflict" where
  "SessionConflict_of organization registrationID db =
     in_organization organization
       (Inr (case filter (of_registration organization registrationID) (registrations db) of
               [] \<Rightarrow> \<lparr>conflict_DetectedAt = None, conflict_DistinctHosts = 0\<rparr>
             | r # _ \<Rightarrow>
                 (case reg_conflict_at r of
                    None \<Rightarrow> \<lparr>conflict_DetectedAt = None, conflict_DistinctHosts = 0\<rparr>
                  | Some detected \<Rightarrow>
                      \<lparr>conflict_DetectedAt = Some detected, conflict_DistinctHosts = reg_conflict_hosts r\<rparr>)))"

datatype ConflictWithdrawal = WithdrawalRelayUnknown | WithdrawalNothingMarked | WithdrawalRecorded

definition explainUnwithdrawn :: "uuid \<Rightarrow> uuid \<Rightarrow> registry \<Rightarrow> store_error + ConflictWithdrawal" where
  "explainUnwithdrawn organization registrationID db =
     in_organization organization
       (Inr (if rows_affected (of_registration organization registrationID) (registrations db) = 0
             then WithdrawalRelayUnknown else WithdrawalNothingMarked))"

definition ClearSessionConflict ::
  "(string \<Rightarrow> string) \<Rightarrow> (uuid \<Rightarrow> string) \<Rightarrow> instant \<Rightarrow> uuid \<Rightarrow> Principal \<Rightarrow> uuid \<Rightarrow> uuid \<Rightarrow> registry
     \<Rightarrow> store_error + ConflictWithdrawal \<times> registry"
where
  "ClearSessionConflict unicode_lower uuid_string clock eventID who organization registrationID db =
     (if Organization who \<noteq> organization then Inl ErrNotAMember
      else in_organization organization
        (let p = (\<lambda>r. of_registration organization registrationID r \<and> reg_conflict_at r \<noteq> None) in
         if rows_affected p (registrations db) = 0
         then (case explainUnwithdrawn organization registrationID db of
                 Inl err \<Rightarrow> Inl err | Inr why \<Rightarrow> Inr (why, db))
         else (case writeEvent unicode_lower clock eventID
                 \<lparr>ev_Organization = uuid_string organization, ev_Actor = Actor_of uuid_string who,
                  ev_Action = ''relay.session_conflict.cleared'',
                  ev_Target = \<lparr>target_Kind = ''relay'', target_ID = uuid_string registrationID\<rparr>,
                  ev_Outcome = OutcomeAllowed, ev_SourceAddress = pr_sourceAddress who,
                  ev_RequestID = pr_requestID who, ev_OccurredAt = None,
                  ev_Detail = [(''severity'', DString ''warning''),
                               (''effect'', DString ''a relay credential-theft finding was destroyed'')]\<rparr>
                 (trail db) of
                 Inl err \<Rightarrow> Inl err
               | Inr events \<Rightarrow>
                   Inr (WithdrawalRecorded,
                        db\<lparr>registrations :=
                             update_where p (\<lambda>r. r\<lparr>reg_conflict_at := None, reg_conflict_hosts := 0\<rparr>) (registrations db),
                           trail := events\<rparr>))))"

section \<open>Steps\<close>

inductive registry_step :: "registry \<Rightarrow> registry \<Rightarrow> bool" where
  enrol: "EnrolRelay now i organization e db = Inr (i', db') \<Longrightarrow> registry_step db db'"
| issue: "IssueOperatorBootstrapToken unicode_lower uuid_string formatTime clock eventID who organization digest expiresAt db
            = Inr db' \<Longrightarrow> registry_step db db'"
| opened: "RelaySessionOpened now organization i session peer db = Inr db' \<Longrightarrow> registry_step db db'"
| heard: "RelaySessionHeard now organization i session db = Inr db' \<Longrightarrow> registry_step db db'"
| closed: "RelaySessionClosed now organization i session db = Inr db' \<Longrightarrow> registry_step db db'"
| conflict: "RecordSessionConflict unicode_lower uuid_string now eventID organization i hosts db = Inr db'
            \<Longrightarrow> registry_step db db'"
| clear: "ClearSessionConflict unicode_lower uuid_string now eventID who organization i db = Inr (why, db')
            \<Longrightarrow> registry_step db db'"

section \<open>What every step keeps\<close>

definition registry_inv :: "registry \<Rightarrow> bool" where
  "registry_inv db \<longleftrightarrow>
     distinct (map tok_digest (tokens db)) \<and> distinct (map reg_id (registrations db)) \<and> trail_wf (trail db)"

definition identity_of :: "relay_registration \<Rightarrow> uuid \<times> uuid \<times> bytes \<times> instant option" where
  "identity_of r = (reg_id r, reg_org r, reg_credential_digest r, reg_revoked_at r)"

lemma identity_update:
  assumes "\<And>r. identity_of (f r) = identity_of r"
  shows "map identity_of (update_where p f rs) = map identity_of rs"
  using assms by (simp add: update_where_def)

lemma Issue_Inr:
  assumes "IssueOperatorBootstrapToken unicode_lower uuid_string formatTime clock eventID who organization digest expiresAt db = Inr db'"
  shows "\<exists>k r. db' = db\<lparr>tokens := tokens db @ [k], trail := trail db @ [r]\<rparr>
    \<and> tok_digest k = digest \<and> digest \<notin> tok_digest ` set (tokens db) \<and> ae_id r \<notin> ae_id ` set (trail db)"
proof -
  from assms obtain u ks events where run: "audited unicode_lower uuid_string clock eventID who organization
        ''relay.bootstrap-token.issued'' (insertBootstrapToken formatTime organization digest expiresAt)
        (tokens db, trail db) = Inr (u, ks, events)"
      and db': "db' = db\<lparr>tokens := ks, trail := events\<rparr>"
    by (auto simp: IssueOperatorBootstrapToken_def split: sum.splits)
  from audited_Inr [OF run] obtain target detail event where
      mutate: "insertBootstrapToken formatTime organization digest expiresAt (tokens db) = Inr (u, target, detail, ks)"
      and wrote: "writeEvent unicode_lower clock eventID event (trail db) = Inr events"
    by blast
  from writeEvent_Inr [OF wrote] obtain r where "events = trail db @ [r]" "ae_id r \<notin> ae_id ` set (trail db)"
    by blast
  moreover from mutate obtain k where "ks = tokens db @ [k]" "tok_digest k = digest"
      "digest \<notin> tok_digest ` set (tokens db)"
    by (auto simp: insertBootstrapToken_def split: if_splits)
  ultimately show ?thesis using db' by blast
qed

lemma Enrol_Inr:
  assumes "EnrolRelay now i organization e db = Inr (i', db')"
  shows "\<exists>r. i' = i \<and> organization \<noteq> uuid_Nil
    \<and> rows_affected (spendable now organization (enr_TokenDigest e)) (tokens db) = 1
    \<and> db' = db\<lparr>tokens := update_where (spendable now organization (enr_TokenDigest e))
                  (\<lambda>k. k\<lparr>tok_consumed_at := Some now\<rparr>) (tokens db),
                registrations := registrations db @ [r]\<rparr>
    \<and> i \<notin> reg_id ` set (registrations db)
    \<and> identity_of r = (i, organization, enr_CredentialDigest e, None)
    \<and> length (enr_CredentialDigest e) = 32 \<and> reg_conflict_at r = None"
  using assms
  by (auto simp: EnrolRelay_def spendBootstrapToken_def insertRegistration_def identity_of_def
      split: if_splits sum.splits)

lemma Conflict_Inr:
  assumes "RecordSessionConflict unicode_lower uuid_string now eventID organization i hosts db = Inr db'"
  shows "\<exists>event row. organization \<noteq> uuid_Nil
    \<and> rows_affected (of_registration organization i) (registrations db) \<noteq> 0
    \<and> db' = db\<lparr>registrations := update_where (of_registration organization i)
            (\<lambda>r. r\<lparr>reg_conflict_at := Some now, reg_conflict_hosts := max (reg_conflict_hosts r) hosts\<rparr>)
            (registrations db), trail := trail db @ [row]\<rparr>
    \<and> ae_id row \<notin> ae_id ` set (trail db)
    \<and> ev_Action (ae_event row) = ''relay.session_conflict.detected''"
proof -
  from assms obtain event events where w: "writeEvent unicode_lower now eventID event (trail db) = Inr events"
      "ev_Action event = ''relay.session_conflict.detected''" "organization \<noteq> uuid_Nil"
      "rows_affected (of_registration organization i) (registrations db) \<noteq> 0"
      "db' = db\<lparr>registrations := update_where (of_registration organization i)
            (\<lambda>r. r\<lparr>reg_conflict_at := Some now, reg_conflict_hosts := max (reg_conflict_hosts r) hosts\<rparr>)
            (registrations db), trail := events\<rparr>"
    by (auto simp: RecordSessionConflict_def Let_def split: if_splits sum.splits)
  from writeEvent_Inr [OF w(1)] obtain row where "events = trail db @ [row]" "ae_id row \<notin> ae_id ` set (trail db)"
      "ev_Action (ae_event row) = ev_Action event"
    by (auto simp: Bounded_def)
  with w(2-5) show ?thesis by auto
qed

lemma Clear_Inr:
  assumes "ClearSessionConflict unicode_lower uuid_string now eventID who organization i db = Inr (why, db')"
  shows "(db' = db \<and> why \<noteq> WithdrawalRecorded
      \<and> rows_affected (\<lambda>r. of_registration organization i r \<and> reg_conflict_at r \<noteq> None) (registrations db) = 0)
    \<or> (\<exists>row. why = WithdrawalRecorded
        \<and> db' = db\<lparr>registrations := update_where (\<lambda>r. of_registration organization i r \<and> reg_conflict_at r \<noteq> None)
              (\<lambda>r. r\<lparr>reg_conflict_at := None, reg_conflict_hosts := 0\<rparr>) (registrations db),
            trail := trail db @ [row]\<rparr>
        \<and> ae_id row \<notin> ae_id ` set (trail db)
        \<and> ev_Action (ae_event row) = ''relay.session_conflict.cleared''
        \<and> actor_ID (ev_Actor (ae_event row)) = truncate_text (uuid_string (pr_userID who)) 512
        \<and> target_ID (ev_Target (ae_event row)) = truncate_text (uuid_string i) 512)"
proof (cases "rows_affected (\<lambda>r. of_registration organization i r \<and> reg_conflict_at r \<noteq> None) (registrations db) = 0")
  case True
  with assms have "db' = db \<and> why \<noteq> WithdrawalRecorded"
    unfolding ClearSessionConflict_def explainUnwithdrawn_def Let_def
    by (simp only: True if_True) (auto split: if_splits sum.splits)
  with True show ?thesis by blast
next
  case False
  with assms obtain event events where w: "writeEvent unicode_lower now eventID event (trail db) = Inr events"
      "ev_Action event = ''relay.session_conflict.cleared''" "why = WithdrawalRecorded"
      "ev_Actor event = Actor_of uuid_string who" "target_ID (ev_Target event) = uuid_string i"
      "db' = db\<lparr>registrations := update_where (\<lambda>r. of_registration organization i r \<and> reg_conflict_at r \<noteq> None)
              (\<lambda>r. r\<lparr>reg_conflict_at := None, reg_conflict_hosts := 0\<rparr>) (registrations db), trail := events\<rparr>"
    unfolding ClearSessionConflict_def Let_def
    by (simp only: False if_False) (auto split: if_splits sum.splits)
  from writeEvent_Inr [OF w(1)] obtain row where "events = trail db @ [row]" "ae_id row \<notin> ae_id ` set (trail db)"
      "ev_Action (ae_event row) = ev_Action event"
      "actor_ID (ev_Actor (ae_event row)) = truncate_text (actor_ID (ev_Actor event)) 512"
      "target_ID (ev_Target (ae_event row)) = truncate_text (target_ID (ev_Target event)) 512"
    by (auto simp: Bounded_def)
  with w(2-6) show ?thesis by (auto simp: Actor_of_def)
qed

lemmas session_statement_defs = RelaySessionOpened_def RelaySessionHeard_def RelaySessionClosed_def

text \<open>The three components change in these ways only.\<close>

definition tokens_step :: "bootstrap_token list \<Rightarrow> bootstrap_token list \<Rightarrow> bool" where
  "tokens_step ks ks' \<longleftrightarrow>
     (\<exists>new p now. ks' = update_where p (\<lambda>k. k\<lparr>tok_consumed_at := Some now\<rparr>) ks @ new
        \<and> (\<forall>k. p k \<longrightarrow> tok_consumed_at k = None)
        \<and> distinct (map tok_digest new) \<and> tok_digest ` set new \<inter> tok_digest ` set ks = {})"

definition registrations_step :: "relay_registration list \<Rightarrow> relay_registration list \<Rightarrow> bool" where
  "registrations_step rs rs' \<longleftrightarrow>
     (\<exists>new. map identity_of rs' = map identity_of rs @ new
        \<and> distinct (map fst new) \<and> fst ` set new \<inter> reg_id ` set rs = {})"

definition trail_step :: "audit_row list \<Rightarrow> audit_row list \<Rightarrow> bool" where
  "trail_step t t' \<longleftrightarrow>
     (\<exists>rows. t' = t @ rows \<and> distinct (map ae_id rows) \<and> ae_id ` set rows \<inter> ae_id ` set t = {})"

lemma step_refl [simp]: "tokens_step ks ks" "registrations_step rs rs" "trail_step t t"
  by (auto simp: tokens_step_def registrations_step_def trail_step_def
      intro!: exI [of _ "[]"] exI [of _ "\<lambda>_. False"] simp: update_where_no_match)

lemma registrations_step_update [simp]:
  "(\<And>r. identity_of (f r) = identity_of r) \<Longrightarrow> registrations_step rs (update_where p f rs)"
  by (auto simp: registrations_step_def identity_update)

lemma trail_step_append [simp]: "ae_id row \<notin> ae_id ` set t \<Longrightarrow> trail_step t (t @ [row])"
  by (auto simp: trail_step_def)

lemma tokens_step_append: "tok_digest k \<notin> tok_digest ` set ks \<Longrightarrow> tokens_step ks (ks @ [k])"
  unfolding tokens_step_def
  by (intro exI [of _ "[k]"] exI [of _ "\<lambda>_. False"]) (simp add: update_where_no_match)

lemma tokens_step_spend:
  "tokens_step ks (update_where (spendable now organization digest) (\<lambda>k. k\<lparr>tok_consumed_at := Some now\<rparr>) ks)"
  unfolding tokens_step_def
  by (intro exI [of _ "[]"] exI [of _ "spendable now organization digest"] exI [of _ now])
     (simp add: spendable_def)

lemma registry_step_components:
  assumes "registry_step db db'"
  shows "tokens_step (tokens db) (tokens db') \<and> registrations_step (registrations db) (registrations db')
    \<and> trail_step (trail db) (trail db')"
  using assms
proof (cases rule: registry_step.cases)
  case (enrol now i organization e i')
  from Enrol_Inr [OF enrol] show ?thesis
    by (auto simp: registrations_step_def tokens_step_spend)
next
  case (issue unicode_lower uuid_string formatTime clock eventID who organization digest expiresAt)
  from Issue_Inr [OF issue] show ?thesis by (auto intro: tokens_step_append)
next
  case (conflict unicode_lower uuid_string now eventID organization i hosts)
  from Conflict_Inr [OF conflict] show ?thesis by (auto simp: identity_of_def)
next
  case (clear unicode_lower uuid_string now eventID who organization i why)
  from Clear_Inr [OF clear] show ?thesis by (auto simp: identity_of_def)
qed (auto simp: session_statement_defs identity_of_def)

lemma registry_step_inv: "registry_inv db \<Longrightarrow> registry_step db db' \<Longrightarrow> registry_inv db'"
proof -
  assume inv: "registry_inv db" and step: "registry_step db db'"
  note parts = registry_step_components [OF step]
  from parts obtain new p now where ks:
      "tokens db' = update_where p (\<lambda>k. k\<lparr>tok_consumed_at := Some now\<rparr>) (tokens db) @ new"
      "distinct (map tok_digest new)" "tok_digest ` set new \<inter> tok_digest ` set (tokens db) = {}"
    unfolding tokens_step_def by blast
  have old: "map tok_digest (update_where p (\<lambda>k. k\<lparr>tok_consumed_at := Some now\<rparr>) (tokens db)) = map tok_digest (tokens db)"
    by (simp add: update_where_def)
  have "distinct (map tok_digest (tokens db'))"
    using inv ks(2,3) arg_cong [OF old, of set] unfolding ks(1) map_append old by (auto simp: registry_inv_def)
  moreover from parts obtain fresh where rs: "map identity_of (registrations db') = map identity_of (registrations db) @ fresh"
      "distinct (map fst fresh)" "fst ` set fresh \<inter> reg_id ` set (registrations db) = {}"
    unfolding registrations_step_def by blast
  from arg_cong [OF rs(1), of "map fst"] have "map reg_id (registrations db') = map reg_id (registrations db) @ map fst fresh"
    by (simp add: comp_def identity_of_def)
  with inv rs(2,3) have "distinct (map reg_id (registrations db'))" by (auto simp: registry_inv_def)
  moreover have "trail_wf (trail db')"
    using inv parts unfolding registry_inv_def trail_wf_def trail_step_def
    by (metis distinct_append inf_commute list.set_map map_append)
  ultimately show "registry_inv db'" by (simp add: registry_inv_def)
qed

lemma tokens_step_row:
  assumes "tokens_step ks ks'" "row_of tok_digest d ks = Some k"
  shows "\<exists>k'. row_of tok_digest d ks' = Some k' \<and> tok_org k' = tok_org k
    \<and> tok_revoked_at k' = tok_revoked_at k \<and> (tok_consumed_at k \<noteq> None \<longrightarrow> k' = k)"
proof -
  from assms(1) obtain new p now where ks:
      "ks' = update_where p (\<lambda>k. k\<lparr>tok_consumed_at := Some now\<rparr>) ks @ new" "\<forall>k. p k \<longrightarrow> tok_consumed_at k = None"
    unfolding tokens_step_def by blast
  have "row_of tok_digest d (update_where p (\<lambda>k. k\<lparr>tok_consumed_at := Some now\<rparr>) ks) =
      Some (if p k then k\<lparr>tok_consumed_at := Some now\<rparr> else k)"
    using assms(2) by (subst row_of_update_where) auto
  with ks show ?thesis by auto
qed

text \<open>Spending a token is a generation step: 0 before, 1 after, and a spent token is closed.\<close>

definition token_generation :: "bootstrap_token \<Rightarrow> int" where
  "token_generation k = (if tok_consumed_at k = None then 0 else 1)"

interpretation bootstrap_tokens:
  fenced_rows registry_step registry_inv "\<lambda>db d. row_of tok_digest d (tokens db)" token_generation
    "\<lambda>k. tok_consumed_at k \<noteq> None" "\<lambda>(now, organization) k. spendable now organization (tok_digest k) k" "\<lambda>_. 0"
proof (unfold_locales, goal_cases)
  case (1 s s')
  then show ?case by (rule registry_step_inv)
next
  case (2 s s' k r)
  then show ?case
    using tokens_step_row [of "tokens s" "tokens s'" k r] registry_step_components [of s s']
    by (auto simp: token_generation_def)
next
  case (3 f r)
  then show ?case by (auto simp: spendable_def token_generation_def split: prod.splits)
next
  case (4 f r)
  then show ?case by (auto simp: spendable_def split: prod.splits)
qed

lemma spendable_count:
  assumes "distinct (map tok_digest ks)"
  shows "rows_affected (spendable now organization digest) ks =
    (case row_of tok_digest digest ks of None \<Rightarrow> 0 | Some k \<Rightarrow> if spendable now organization digest k then 1 else 0)"
  using assms
proof (induction ks)
  case (Cons k ks)
  have "rows_affected (spendable now organization digest) ks = 0" if "tok_digest k = digest"
    using Cons.prems that by (auto simp: rows_affected_0 spendable_def image_iff)
  moreover have "\<not> spendable now organization digest k" if "tok_digest k \<noteq> digest"
    using that by (simp add: spendable_def)
  ultimately show ?case using Cons by auto
qed simp

lemma spendable_row:
  assumes "distinct (map tok_digest ks)" "rows_affected (spendable now organization digest) ks = 1"
  shows "\<exists>k. row_of tok_digest digest ks = Some k \<and> spendable now organization digest k"
proof (cases "row_of tok_digest digest ks")
  case None
  with spendable_count [OF assms(1), of now organization digest] assms(2) show ?thesis by simp
next
  case (Some k)
  with spendable_count [OF assms(1), of now organization digest] assms(2) show ?thesis
    by (cases "spendable now organization digest k") simp_all
qed

lemma verify_iff:
  assumes "registry_inv db" "organization \<noteq> uuid_Nil"
  shows "VerifyRelayCredential organization i digest db =
    Inr ((i, organization, digest, None) \<in> identity_of ` set (registrations db))"
proof -
  let ?p = "\<lambda>r. reg_id r = i \<and> reg_org r = organization \<and> reg_revoked_at r = None"
  have uniq: "distinct (map reg_id (registrations db))" using assms(1) by (simp add: registry_inv_def)
  show ?thesis
  proof (cases "filter ?p (registrations db)")
    case Nil
    then have "(i, organization, digest, None) \<notin> identity_of ` set (registrations db)"
      by (auto simp: filter_empty_conv identity_of_def)
    with Nil assms(2) show ?thesis by (simp add: VerifyRelayCredential_def)
  next
    case (Cons r rest)
    from filter_Cons_mem [OF Cons] have r: "r \<in> set (registrations db)" "?p r" by auto
    have "(i, organization, digest, None) \<in> identity_of ` set (registrations db) \<longleftrightarrow> reg_credential_digest r = digest"
    proof
      assume "(i, organization, digest, None) \<in> identity_of ` set (registrations db)"
      then obtain r' where "r' \<in> set (registrations db)" "reg_id r' = i" "reg_credential_digest r' = digest"
        by (auto simp: identity_of_def)
      with r uniq show "reg_credential_digest r = digest" by (metis inj_onD distinct_map)
    next
      assume "reg_credential_digest r = digest"
      with r show "(i, organization, digest, None) \<in> identity_of ` set (registrations db)"
        by (auto simp: identity_of_def image_iff)
    qed
    with Cons assms(2) show ?thesis by (simp add: VerifyRelayCredential_def)
  qed
qed

lemma registry_run_identities:
  assumes "registry_step\<^sup>*\<^sup>* db db'"
  shows "identity_of ` set (registrations db) \<subseteq> identity_of ` set (registrations db')"
  using assms
proof (induction rule: rtranclp_induct)
  case (step y z)
  from registry_step_components [OF step.hyps(2)] obtain new where
    "map identity_of (registrations z) = map identity_of (registrations y) @ new"
    unfolding registrations_step_def by blast
  from arg_cong [OF this, of set] step.IH show ?case by auto
qed simp

lemma EnrolRelay_alt:
  assumes "organization \<noteq> uuid_Nil"
  shows "EnrolRelay now i organization e db =
    (if rows_affected (spendable now organization (enr_TokenDigest e)) (tokens db) \<noteq> 1
     then Inl (ErrEnrolmentRefused (explainUnspendableToken now organization (enr_TokenDigest e) (tokens db)))
     else (case insertRegistration now i organization e (registrations db) of
             Inl err \<Rightarrow> Inl err
           | Inr rs \<Rightarrow> Inr (i, db\<lparr>tokens := snd (spendBootstrapToken now organization (enr_TokenDigest e) (tokens db)),
                                     registrations := rs\<rparr>)))"
  using assms unfolding EnrolRelay_def spendBootstrapToken_def by (simp split: sum.split)

lemma explain_true:
  assumes "distinct (map tok_digest ks)" "rows_affected (spendable now organization digest) ks \<noteq> 1"
  shows "case row_of tok_digest digest ks of
      None \<Rightarrow> explainUnspendableToken now organization digest ks = RefusalTokenUnknown
    | Some k \<Rightarrow>
        (explainUnspendableToken now organization digest ks = RefusalOrganizationMismatch \<and> tok_org k \<noteq> organization)
        \<or> (explainUnspendableToken now organization digest ks = RefusalTokenRevoked \<and> tok_revoked_at k \<noteq> None)
        \<or> (explainUnspendableToken now organization digest ks = RefusalTokenAlreadyConsumed \<and> tok_consumed_at k \<noteq> None)
        \<or> (explainUnspendableToken now organization digest ks = RefusalTokenExpired \<and> tok_expires_at k \<le> now)"
proof (cases "row_of tok_digest digest ks")
  case None
  then show ?thesis by (simp add: explainUnspendableToken_def)
next
  case (Some k)
  with row_of_Some [OF Some] spendable_count [OF assms(1), of now organization digest] assms(2)
  have "\<not> (tok_org k = organization \<and> tok_consumed_at k = None \<and> tok_revoked_at k = None \<and> now < tok_expires_at k)"
    by (auto simp: spendable_def)
  with Some show ?thesis by (auto simp: explainUnspendableToken_def)
qed

lemma conflict_row:
  assumes "SessionConflict_of organization i db = Inr c" "conflict_DetectedAt c \<noteq> None"
  shows "\<exists>r \<in> set (registrations db). of_registration organization i r
    \<and> reg_conflict_at r \<noteq> None \<and> conflict_DistinctHosts c = reg_conflict_hosts r"
proof (cases "filter (of_registration organization i) (registrations db)")
  case Nil
  with assms show ?thesis by (auto simp: SessionConflict_of_def)
next
  case (Cons r rest)
  with assms filter_Cons_mem [OF Cons] show ?thesis
    by (auto simp: SessionConflict_of_def split: option.splits intro!: bexI [of _ r])
qed

lemma conflict_of_row:
  assumes "registry_inv db" "r \<in> set (registrations db)" "of_registration organization i r"
    and "reg_conflict_at r \<noteq> None" "SessionConflict_of organization i db = Inr c"
  shows "conflict_DetectedAt c = reg_conflict_at r \<and> conflict_DistinctHosts c = reg_conflict_hosts r"
proof (cases "filter (of_registration organization i) (registrations db)")
  case Nil
  with assms(2,3) show ?thesis by (auto simp: filter_empty_conv)
next
  case (Cons r' rest)
  have "r' = r"
    using filter_Cons_mem [OF Cons] assms(1-3)
    by (auto simp: registry_inv_def of_registration_def distinct_map inj_on_def)
  with Cons assms(4,5) show ?thesis by (auto simp: SessionConflict_of_def split: option.splits)
qed

text \<open>A row of a table, followed through an update that leaves it fit.\<close>

lemma update_where_follow:
  assumes "r \<in> set rs" "q r" "\<And>x. q x \<Longrightarrow> p x \<Longrightarrow> q (f x)"
  shows "\<exists>r' \<in> set (update_where p f rs). q r'"
proof (rule bexI [of _ "if p r then f r else r"])
  show "q (if p r then f r else r)" using assms(2,3) by simp
  show "(if p r then f r else r) \<in> set (update_where p f rs)"
    unfolding set_update_where using assms(1) by (intro image_eqI [of _ _ r]) simp_all
qed

lemma step_conflict_row:
  assumes "registry_step db db'" "r \<in> set (registrations db)" "of_registration organization i r"
    and "reg_conflict_at r \<noteq> None"
  shows "(\<exists>r' \<in> set (registrations db'). of_registration organization i r' \<and> reg_conflict_at r' \<noteq> None
      \<and> reg_conflict_hosts r \<le> reg_conflict_hosts r')
    \<or> (\<exists>unicode_lower uuid_string now eventID who.
      ClearSessionConflict unicode_lower uuid_string now eventID who organization i db = Inr (WithdrawalRecorded, db'))"
proof -
  define q where "q = (\<lambda>r'. of_registration organization i r' \<and> reg_conflict_at r' \<noteq> None
      \<and> reg_conflict_hosts r \<le> reg_conflict_hosts r')"
  have q: "q r" using assms by (simp add: q_def)
  note follow = update_where_follow [where q = q, OF assms(2) q]
  have "(\<exists>r' \<in> set (registrations db'). q r') \<or> (\<exists>unicode_lower uuid_string now eventID who.
      ClearSessionConflict unicode_lower uuid_string now eventID who organization i db = Inr (WithdrawalRecorded, db'))"
    using assms(1)
  proof (cases rule: registry_step.cases)
    case (enrol now i organization e i')
    from Enrol_Inr [OF enrol] assms(2) q show ?thesis by auto
  next
    case (issue unicode_lower uuid_string formatTime clock eventID who organization digest expiresAt)
    from Issue_Inr [OF issue] assms(2) q show ?thesis by auto
  next
    case (opened now organization' i' session peer)
    then have "registrations db' = update_where (of_registration organization' i')
        (\<lambda>r. r\<lparr>reg_session_id := Some session, reg_session_started_at := Some now, reg_session_ended_at := None,
              reg_last_seen_at := Some now, reg_session_peer := Some (boundedPeer peer)\<rparr>) (registrations db)"
      by (auto simp: RelaySessionOpened_def)
    then show ?thesis by (simp only:) (intro disjI1 follow, simp add: q_def of_registration_def)
  next
    case (heard now organization' i' session)
    then have "registrations db' = update_where (\<lambda>r. of_registration organization' i' r \<and> reg_session_id r = Some session)
        (\<lambda>r. r\<lparr>reg_last_seen_at := Some now\<rparr>) (registrations db)"
      by (auto simp: RelaySessionHeard_def)
    then show ?thesis by (simp only:) (intro disjI1 follow, simp add: q_def of_registration_def)
  next
    case (closed now organization' i' session)
    then have "registrations db' = update_where (\<lambda>r. of_registration organization' i' r \<and> reg_session_id r = Some session
        \<and> reg_session_ended_at r = None) (\<lambda>r. r\<lparr>reg_session_ended_at := Some now\<rparr>) (registrations db)"
      by (auto simp: RelaySessionClosed_def)
    then show ?thesis by (simp only:) (intro disjI1 follow, simp add: q_def of_registration_def)
  next
    case (conflict unicode_lower uuid_string now eventID organization' i' hosts)
    from Conflict_Inr [OF conflict] have "registrations db' = update_where (of_registration organization' i')
        (\<lambda>r. r\<lparr>reg_conflict_at := Some now, reg_conflict_hosts := max (reg_conflict_hosts r) hosts\<rparr>) (registrations db)"
      by auto
    then show ?thesis by (simp only:) (intro disjI1 follow, auto simp: q_def of_registration_def)
  next
    case (clear unicode_lower uuid_string now eventID who organization' i' why)
    show ?thesis
    proof (cases "organization' = organization \<and> i' = i \<and> why = WithdrawalRecorded")
      case True
      with clear show ?thesis by blast
    next
      case False
      from Clear_Inr [OF clear] consider "db' = db"
        | "why = WithdrawalRecorded" "registrations db' = update_where
            (\<lambda>r. of_registration organization' i' r \<and> reg_conflict_at r \<noteq> None)
            (\<lambda>r. r\<lparr>reg_conflict_at := None, reg_conflict_hosts := 0\<rparr>) (registrations db)"
        by auto
      then show ?thesis
      proof cases
        case 1
        with assms(2) q show ?thesis by auto
      next
        case 2
        have "\<exists>r' \<in> set (registrations db'). q r'"
          unfolding 2(2) using False 2(1) by (intro follow) (auto simp: q_def of_registration_def)
        then show ?thesis by blast
      qed
    qed
  qed
  then show ?thesis by (simp only: q_def)
qed

section \<open>Properties\<close>

text \<open>
  An enrolment that succeeds spends exactly one token, which was issued for that
  organization and was neither consumed, revoked nor expired, and creates exactly one
  registration, whose credential is from then on accepted for that organization. An
  enrolment that is refused names a true reason and changes nothing.
\<close>

theorem enrolment_spends_one_token:
  assumes "registry_inv db" "organization \<noteq> uuid_Nil"
  shows "case EnrolRelay now i organization e db of
      Inr (i', db') \<Rightarrow>
        i' = i \<and> (\<exists>k \<in> set (tokens db). spendable now organization (enr_TokenDigest e) k
          \<and> tokens db' = map (\<lambda>k'. if k' = k then k\<lparr>tok_consumed_at := Some now\<rparr> else k') (tokens db))
        \<and> (\<exists>r. registrations db' = registrations db @ [r])
        \<and> VerifyRelayCredential organization i (enr_CredentialDigest e) db' = Inr True
    | Inl (ErrEnrolmentRefused why) \<Rightarrow>
        (case row_of tok_digest (enr_TokenDigest e) (tokens db) of
           None \<Rightarrow> why = RefusalTokenUnknown
         | Some k \<Rightarrow>
             (why = RefusalOrganizationMismatch \<and> tok_org k \<noteq> organization)
             \<or> (why = RefusalTokenRevoked \<and> tok_revoked_at k \<noteq> None)
             \<or> (why = RefusalTokenAlreadyConsumed \<and> tok_consumed_at k \<noteq> None)
             \<or> (why = RefusalTokenExpired \<and> tok_expires_at k \<le> now))
    | Inl _ \<Rightarrow> length (enr_CredentialDigest e) \<noteq> 32 \<or> i \<in> reg_id ` set (registrations db)"
proof -
  have uniq: "distinct (map tok_digest (tokens db))" using assms(1) by (simp add: registry_inv_def)
  show ?thesis
  proof (cases "EnrolRelay now i organization e db")
    case (Inr res)
    then obtain i' db' where run: "EnrolRelay now i organization e db = Inr (i', db')" by (cases res) auto
    from Enrol_Inr [OF run] obtain r where r: "i' = i"
        "rows_affected (spendable now organization (enr_TokenDigest e)) (tokens db) = 1"
        "db' = db\<lparr>tokens := update_where (spendable now organization (enr_TokenDigest e))
                  (\<lambda>k. k\<lparr>tok_consumed_at := Some now\<rparr>) (tokens db), registrations := registrations db @ [r]\<rparr>"
        "identity_of r = (i, organization, enr_CredentialDigest e, None)"
      by blast
    from spendable_row [OF uniq r(2)] obtain k where k: "row_of tok_digest (enr_TokenDigest e) (tokens db) = Some k"
        "spendable now organization (enr_TokenDigest e) k"
      by blast
    then have mem: "k \<in> set (tokens db)" using row_of_Some by fastforce
    have only: "spendable now organization (enr_TokenDigest e) k' \<longleftrightarrow> k' = k" if "k' \<in> set (tokens db)" for k'
      using that mem k(2) uniq by (auto simp: spendable_def distinct_map inj_on_def)
    have "update_where (spendable now organization (enr_TokenDigest e)) (\<lambda>k. k\<lparr>tok_consumed_at := Some now\<rparr>) (tokens db)
        = map (\<lambda>k'. if k' = k then k\<lparr>tok_consumed_at := Some now\<rparr> else k') (tokens db)"
      unfolding update_where_def by (intro map_cong refl) (simp add: only)
    moreover have "registry_inv db'" by (rule registry_step_inv [OF assms(1) registry_step.enrol [OF run]])
    then have "VerifyRelayCredential organization i (enr_CredentialDigest e) db' = Inr True"
      using verify_iff [of db' organization i] assms(2) r(3,4) by auto
    ultimately show ?thesis using run r(1,3) mem k(2) by auto
  next
    case (Inl err)
    show ?thesis
    proof (cases "rows_affected (spendable now organization (enr_TokenDigest e)) (tokens db) = 1")
      case True
      with Inl have "insertRegistration now i organization e (registrations db) = Inl err"
        using assms(2) by (simp add: EnrolRelay_alt split: sum.splits)
      with Inl show ?thesis by (auto simp: insertRegistration_def split: if_splits)
    next
      case False
      then have refused: "EnrolRelay now i organization e db = Inl (ErrEnrolmentRefused
          (explainUnspendableToken now organization (enr_TokenDigest e) (tokens db)))"
        using assms(2) by (simp add: EnrolRelay_alt)
      show ?thesis unfolding refused using explain_true [OF uniq False] by simp
    qed
  qed
qed

text \<open>
  C29. A bootstrap token enrols one relay, ever: once an enrolment with it has succeeded, every
  later enrolment with the same token, in any organization and after any further statements,
  is refused, as already consumed in its own organization and as another organization's
  token elsewhere.
\<close>

theorem bootstrap_token_is_single_use:
  assumes "registry_inv db" "EnrolRelay now i organization e db = Inr (i', db1)"
    and "registry_step\<^sup>*\<^sup>* db1 db2" "enr_TokenDigest e2 = enr_TokenDigest e"
    and "organization2 \<noteq> uuid_Nil"
  shows "EnrolRelay now2 i2 organization2 e2 db2 =
    Inl (ErrEnrolmentRefused (if organization2 = organization then RefusalTokenAlreadyConsumed
                              else RefusalOrganizationMismatch))"
proof -
  have uniq: "distinct (map tok_digest (tokens db))" using assms(1) by (simp add: registry_inv_def)
  from Enrol_Inr [OF assms(2)] have one: "rows_affected (spendable now organization (enr_TokenDigest e)) (tokens db) = 1"
      and ks: "tokens db1 = update_where (spendable now organization (enr_TokenDigest e))
                  (\<lambda>k. k\<lparr>tok_consumed_at := Some now\<rparr>) (tokens db)"
    by auto
  from spendable_row [OF uniq one] obtain k where
      k: "row_of tok_digest (enr_TokenDigest e) (tokens db) = Some k" "spendable now organization (enr_TokenDigest e) k"
    by blast
  let ?k = "k\<lparr>tok_consumed_at := Some now\<rparr>"
  have spent: "row_of tok_digest (enr_TokenDigest e) (tokens db1) = Some ?k"
    unfolding ks using k by (subst row_of_update_where) auto
  have inv1: "registry_inv db1" by (rule registry_step_inv [OF assms(1) registry_step.enrol [OF assms(2)]])
  have still: "row_of tok_digest (enr_TokenDigest e) (tokens db2) = Some ?k"
    using bootstrap_tokens.closed_forever [OF assms(3) inv1 spent] by simp
  have "registry_inv db2" using bootstrap_tokens.run_invariant [OF assms(3) inv1] .
  then have "rows_affected (spendable now2 organization2 (enr_TokenDigest e)) (tokens db2) = 0"
    using spendable_count [of "tokens db2"] still by (simp add: registry_inv_def spendable_def)
  moreover have "explainUnspendableToken now2 organization2 (enr_TokenDigest e) (tokens db2) =
      (if organization2 = organization then RefusalTokenAlreadyConsumed else RefusalOrganizationMismatch)"
    using still k(2) by (simp add: explainUnspendableToken_def spendable_def)
  ultimately show ?thesis by (simp only: EnrolRelay_alt [OF assms(5)] assms(4)) simp
qed

definition sample_digest :: bytes where
  "sample_digest = replicate 32 CHR ''d''"

definition sample_registry :: registry where
  "sample_registry =
     \<lparr>tokens = [\<lparr>tok_digest = sample_digest, tok_org = 3, tok_expires_at = 100, tok_consumed_at = None,
                 tok_revoked_at = None\<rparr>],
      registrations = [], trail = []\<rparr>"

definition sample_enrolment :: RelayEnrolment where
  "sample_enrolment =
     \<lparr>enr_TokenDigest = sample_digest, enr_CredentialDigest = replicate 32 CHR ''c'', enr_ClusterFingerprint = ''f'',
      enr_RelayVersion = ''v1'', enr_ProtocolVersion = 1, enr_Capabilities = ''[]''\<rparr>"

lemma sample_registry_inv: "registry_inv sample_registry"
  by (simp add: registry_inv_def sample_registry_def trail_wf_def)

lemma sample_enrol: "\<exists>db. EnrolRelay 50 8 3 sample_enrolment sample_registry = Inr (8, db)"
  by (simp add: EnrolRelay_def spendBootstrapToken_def insertRegistration_def sample_registry_def
      sample_enrolment_def spendable_def)

theorem enrolment_spends_one_token_witness:
  "\<exists>db. EnrolRelay 50 8 3 sample_enrolment sample_registry = Inr (8, db)
    \<and> VerifyRelayCredential 3 8 (replicate 32 CHR ''c'') db = Inr True
    \<and> EnrolRelay 100 8 3 sample_enrolment sample_registry = Inl (ErrEnrolmentRefused RefusalTokenExpired)"
proof -
  obtain db where db: "EnrolRelay 50 8 3 sample_enrolment sample_registry = Inr (8, db)" using sample_enrol by blast
  have "VerifyRelayCredential 3 8 (replicate 32 CHR ''c'') db = Inr True"
    using enrolment_spends_one_token [OF sample_registry_inv, where organization = 3 and now = 50 and i = 8
        and e = sample_enrolment] db
    by (simp add: sample_enrolment_def)
  moreover have "EnrolRelay 100 8 3 sample_enrolment sample_registry = Inl (ErrEnrolmentRefused RefusalTokenExpired)"
    by (simp add: EnrolRelay_def spendBootstrapToken_def explainUnspendableToken_def sample_registry_def
        sample_enrolment_def spendable_def)
  ultimately show ?thesis using db by blast
qed

theorem bootstrap_token_is_single_use_witness:
  "\<exists>db. EnrolRelay 50 8 3 sample_enrolment sample_registry = Inr (8, db)
    \<and> EnrolRelay 60 9 3 sample_enrolment db = Inl (ErrEnrolmentRefused RefusalTokenAlreadyConsumed)
    \<and> EnrolRelay 60 9 4 sample_enrolment db = Inl (ErrEnrolmentRefused RefusalOrganizationMismatch)"
proof -
  obtain db where db: "EnrolRelay 50 8 3 sample_enrolment sample_registry = Inr (8, db)" using sample_enrol by blast
  note again = bootstrap_token_is_single_use [OF sample_registry_inv db rtranclp.rtrancl_refl refl]
  from again [where ?organization2.0 = 3 and ?now2.0 = 60 and ?i2.0 = 9]
    again [where ?organization2.0 = 4 and ?now2.0 = 60 and ?i2.0 = 9] db show ?thesis by simp
qed

text \<open>
  A relay credential that is accepted stays accepted after any statements, and it is accepted
  for its registration and organization only: another organization or another secret is turned
  down at every later moment.
\<close>

theorem credential_is_bound_to_its_registration:
  assumes "registry_inv db" "VerifyRelayCredential organization i digest db = Inr True"
    and "registry_step\<^sup>*\<^sup>* db db'" "organization' \<noteq> uuid_Nil"
  shows "VerifyRelayCredential organization' i digest' db' = Inr (organization' = organization \<and> digest' = digest)"
proof -
  from assms(2) have known: "organization \<noteq> uuid_Nil" by (auto simp: VerifyRelayCredential_def)
  have inv: "registry_inv db'" using bootstrap_tokens.run_invariant [OF assms(3,1)] .
  from verify_iff [OF assms(1) known, of i digest] assms(2)
  have "(i, organization, digest, None) \<in> identity_of ` set (registrations db)" by simp
  with registry_run_identities [OF assms(3)] have mem: "(i, organization, digest, None) \<in> identity_of ` set (registrations db')"
    by blast
  have "(i, organization', digest', None) \<in> identity_of ` set (registrations db') \<longleftrightarrow> organization' = organization \<and> digest' = digest"
  proof
    assume "(i, organization', digest', None) \<in> identity_of ` set (registrations db')"
    with mem inv show "organization' = organization \<and> digest' = digest"
      by (auto simp: registry_inv_def identity_of_def distinct_map inj_on_def)
  next
    assume "organization' = organization \<and> digest' = digest"
    with mem show "(i, organization', digest', None) \<in> identity_of ` set (registrations db')" by simp
  qed
  with verify_iff [OF inv assms(4), of i digest'] show ?thesis by simp
qed

theorem credential_is_bound_to_its_registration_witness:
  "\<exists>db. EnrolRelay 50 8 3 sample_enrolment sample_registry = Inr (8, db)
    \<and> VerifyRelayCredential 3 8 (replicate 32 CHR ''c'') db = Inr True
    \<and> VerifyRelayCredential 4 8 (replicate 32 CHR ''c'') db = Inr False
    \<and> VerifyRelayCredential 3 8 (replicate 32 CHR ''x'') db = Inr False"
proof -
  obtain db where db: "EnrolRelay 50 8 3 sample_enrolment sample_registry = Inr (8, db)" using sample_enrol by blast
  have inv: "registry_inv db" by (rule registry_step_inv [OF sample_registry_inv registry_step.enrol [OF db]])
  from Enrol_Inr [OF db] obtain r where "registrations db = [r]"
      "identity_of r = (8, 3, enr_CredentialDigest sample_enrolment, None)"
    by (auto simp: sample_registry_def)
  then have ok: "VerifyRelayCredential 3 8 (replicate 32 CHR ''c'') db = Inr True"
    using verify_iff [OF inv, of 3 8 "replicate 32 CHR ''c''"] by (simp add: sample_enrolment_def)
  note bound = credential_is_bound_to_its_registration [OF inv ok rtranclp.rtrancl_refl]
  from bound [of 4 "replicate 32 CHR ''c''"] bound [of 3 "replicate 32 CHR ''x''"] ok db show ?thesis
    by simp
qed

text \<open>
  A session that has been replaced cannot speak for its registration: once a new session of
  the registration is opened, a heartbeat or a close of any other session leaves every row
  as it is, and the registration counts as connected until its own session is closed or
  the liveness window passes. The relay counts of an organization partition its registrations
  into connected, disconnected and revoked ones.
\<close>

theorem replaced_session_is_silent:
  assumes "registry_inv db" "RelaySessionOpened now organization i session peer db = Inr db'"
    and "stale \<noteq> session"
  shows "RelaySessionHeard later organization i stale db' = Inr db'
    \<and> RelaySessionClosed later organization i stale db' = Inr db'
    \<and> (\<forall>r \<in> set (registrations db'). of_registration organization i r \<longrightarrow>
         (relayConnectedExpression later liveness r \<longleftrightarrow> reg_revoked_at r = None \<and> later < now + liveness))
    \<and> (CountRelays later who organization liveness jobs db' = Inr counts \<longrightarrow>
         count_Total counts = count_Connected counts + count_Disconnected counts + count_Revoked counts)"
proof -
  from assms(2) have known: "organization \<noteq> uuid_Nil"
      and db': "db' = db\<lparr>registrations := update_where (of_registration organization i)
            (\<lambda>r. r\<lparr>reg_session_id := Some session, reg_session_started_at := Some now,
                   reg_session_ended_at := None, reg_last_seen_at := Some now,
                   reg_session_peer := Some (boundedPeer peer)\<rparr>) (registrations db)\<rparr>"
    by (auto simp: RelaySessionOpened_def)
  have own: "reg_session_id r = Some session \<and> reg_session_ended_at r = None \<and> reg_last_seen_at r = Some now"
    if r: "r \<in> set (registrations db')" "of_registration organization i r" for r
  proof -
    let ?f = "\<lambda>r. r\<lparr>reg_session_id := Some session, reg_session_started_at := Some now,
                   reg_session_ended_at := None, reg_last_seen_at := Some now,
                   reg_session_peer := Some (boundedPeer peer)\<rparr>"
    have "registrations db' = update_where (of_registration organization i) ?f (registrations db)"
      by (simp add: db')
    from update_where_mem [OF r(1) [unfolded this]]
    obtain x where "r = (if of_registration organization i x then ?f x else x)" by blast
    with r(2) show ?thesis by (cases "of_registration organization i x") simp_all
  qed
  have other: "\<not> (of_registration organization i r \<and> reg_session_id r = Some stale)"
    if "r \<in> set (registrations db')" for r
    using own [OF that] assms(3) by auto
  then have other': "\<not> (of_registration organization i r \<and> reg_session_id r = Some stale \<and> reg_session_ended_at r = None)"
    if "r \<in> set (registrations db')" for r
    using that by blast
  have "RelaySessionHeard later organization i stale db' = Inr db'"
    using known update_where_no_match [where p = "\<lambda>r. of_registration organization i r \<and> reg_session_id r = Some stale", OF other]
    by (simp add: RelaySessionHeard_def)
  moreover have "RelaySessionClosed later organization i stale db' = Inr db'"
    using known update_where_no_match [where p = "\<lambda>r. of_registration organization i r \<and> reg_session_id r = Some stale
        \<and> reg_session_ended_at r = None", OF other']
    by (simp add: RelaySessionClosed_def)
  moreover have "relayConnectedExpression later liveness r \<longleftrightarrow> reg_revoked_at r = None \<and> later < now + liveness"
    if "r \<in> set (registrations db')" "of_registration organization i r" for r
    using own [OF that] by (auto simp: relayConnectedExpression_def)
  moreover have "count_Total counts = count_Connected counts + count_Disconnected counts + count_Revoked counts"
    if "CountRelays later who organization liveness jobs db' = Inr counts"
  proof -
    have "length rs = rows_affected (relayConnectedExpression later liveness) rs
        + rows_affected (\<lambda>r. \<not> relayConnectedExpression later liveness r \<and> reg_revoked_at r = None) rs
        + rows_affected (\<lambda>r. reg_revoked_at r \<noteq> None) rs" for rs
      by (induction rs) (auto simp: relayConnectedExpression_def)
    with that show ?thesis by (auto simp: CountRelays_def Let_def split: if_splits)
  qed
  ultimately show ?thesis by blast
qed

theorem replaced_session_is_silent_witness:
  "\<exists>db. RelaySessionOpened 70 3 8 21 ''10.0.0.1:5'' sample_registry = Inr db
    \<and> RelaySessionClosed 80 3 8 20 db = Inr db"
proof -
  obtain db where db: "RelaySessionOpened 70 3 8 21 ''10.0.0.1:5'' sample_registry = Inr db"
    by (simp add: RelaySessionOpened_def)
  from conjunct1 [OF conjunct2 [OF replaced_session_is_silent [OF sample_registry_inv db, of 20 80]]] db
  show ?thesis by simp
qed

text \<open>
  A session conflict on a registration, the sign of a stolen credential, never fades: while
  any statements run, the finding stays and the number of hosts seen never falls, until an
  operator withdraws it, and the withdrawal commits together with an audit event that names
  the operator and the relay.
\<close>

theorem conflict_stays_until_withdrawn:
  assumes "registry_inv db" "registry_step db db'"
    and "SessionConflict_of organization i db = Inr c" "conflict_DetectedAt c \<noteq> None"
    and "SessionConflict_of organization i db' = Inr c'"
  shows "(conflict_DetectedAt c' \<noteq> None \<and> conflict_DistinctHosts c \<le> conflict_DistinctHosts c')
    \<or> (\<exists>unicode_lower uuid_string now eventID who row.
         ClearSessionConflict unicode_lower uuid_string now eventID who organization i db = Inr (WithdrawalRecorded, db')
         \<and> Organization who = organization \<and> trail db' = trail db @ [row]
         \<and> ev_Action (ae_event row) = ''relay.session_conflict.cleared''
         \<and> actor_ID (ev_Actor (ae_event row)) = truncate_text (uuid_string (pr_userID who)) 512
         \<and> target_ID (ev_Target (ae_event row)) = truncate_text (uuid_string i) 512)"
proof -
  from conflict_row [OF assms(3,4)] obtain r where r: "r \<in> set (registrations db)"
      "of_registration organization i r" "reg_conflict_at r \<noteq> None" "conflict_DistinctHosts c = reg_conflict_hosts r"
    by blast
  have inv: "registry_inv db'" by (rule registry_step_inv [OF assms(1,2)])
  from step_conflict_row [OF assms(2) r(1-3)] show ?thesis
  proof (elim disjE)
    assume "\<exists>r' \<in> set (registrations db'). of_registration organization i r' \<and> reg_conflict_at r' \<noteq> None
      \<and> reg_conflict_hosts r \<le> reg_conflict_hosts r'"
    then obtain r' where r': "r' \<in> set (registrations db')" "of_registration organization i r'"
        "reg_conflict_at r' \<noteq> None" "reg_conflict_hosts r \<le> reg_conflict_hosts r'"
      by blast
    with conflict_of_row [OF inv r'(1,2) _ assms(5)] r(4) assms(5) show ?thesis by auto
  next
    assume "\<exists>unicode_lower uuid_string now eventID who.
      ClearSessionConflict unicode_lower uuid_string now eventID who organization i db = Inr (WithdrawalRecorded, db')"
    then obtain unicode_lower uuid_string now eventID who where
      clear: "ClearSessionConflict unicode_lower uuid_string now eventID who organization i db = Inr (WithdrawalRecorded, db')"
      by blast
    from Clear_Inr [OF clear] obtain row where "trail db' = trail db @ [row]"
        "ev_Action (ae_event row) = ''relay.session_conflict.cleared''"
        "actor_ID (ev_Actor (ae_event row)) = truncate_text (uuid_string (pr_userID who)) 512"
        "target_ID (ev_Target (ae_event row)) = truncate_text (uuid_string i) 512"
      by auto
    moreover have "Organization who = organization"
      using clear by (auto simp: ClearSessionConflict_def split: if_splits)
    ultimately show ?thesis using clear by blast
  qed
qed

theorem conflict_stays_until_withdrawn_witness:
  "\<exists>db1 db2. EnrolRelay 50 8 3 sample_enrolment sample_registry = Inr (8, db1)
    \<and> RecordSessionConflict id (uuid_String sample_uuid_lib) 60 1 3 8 4 db1 = Inr db2
    \<and> (\<forall>db3 c. RecordSessionConflict id (uuid_String sample_uuid_lib) 70 2 3 8 2 db2 = Inr db3
          \<and> SessionConflict_of 3 8 db3 = Inr c
        \<longrightarrow> conflict_DetectedAt c \<noteq> None \<and> 4 \<le> conflict_DistinctHosts c
          \<or> (\<exists>row. trail db3 = trail db2 @ [row] \<and> ev_Action (ae_event row) = ''relay.session_conflict.cleared''))"
proof -
  obtain db1 where db1: "EnrolRelay 50 8 3 sample_enrolment sample_registry = Inr (8, db1)" using sample_enrol by blast
  from Enrol_Inr [OF db1] obtain r where r: "registrations db1 = [r]" "trail db1 = []"
      "of_registration 3 8 r" "reg_conflict_hosts r = 0 \<or> True"
    by (auto simp: sample_registry_def identity_of_def of_registration_def)
  have name: "uuid_String sample_uuid_lib 3 \<noteq> []" by (simp add: sample_uuid_lib_def)
  obtain db2 where db2: "RecordSessionConflict id (uuid_String sample_uuid_lib) 60 1 3 8 4 db1 = Inr db2"
    by (simp add: RecordSessionConflict_def r writeEvent_def nullableOrganization_def Bounded_def name Let_def)
  from Conflict_Inr [OF db2] r have "registrations db2 = [r\<lparr>reg_conflict_at := Some 60, reg_conflict_hosts := max (reg_conflict_hosts r) 4\<rparr>]"
    by auto
  with r(3) obtain c2 where c2: "SessionConflict_of 3 8 db2 = Inr c2" "conflict_DetectedAt c2 \<noteq> None"
      "4 \<le> conflict_DistinctHosts c2"
    by (simp add: SessionConflict_of_def of_registration_def)
  have inv: "registry_inv db2"
    by (rule registry_step_inv [OF registry_step_inv [OF sample_registry_inv registry_step.enrol [OF db1]]
          registry_step.conflict [OF db2]])
  have "conflict_DetectedAt c \<noteq> None \<and> 4 \<le> conflict_DistinctHosts c
      \<or> (\<exists>row. trail db3 = trail db2 @ [row] \<and> ev_Action (ae_event row) = ''relay.session_conflict.cleared'')"
    if "RecordSessionConflict id (uuid_String sample_uuid_lib) 70 2 3 8 2 db2 = Inr db3"
      "SessionConflict_of 3 8 db3 = Inr c" for db3 c
    using conflict_stays_until_withdrawn [OF inv registry_step.conflict [OF that(1)] c2(1,2) that(2)] c2(3) by force
  with db1 db2 show ?thesis by blast
qed

end
