(* ===== verification/RelayRegister.thy ===== *)
theory RelayRegister
  imports RelayRegistry
begin

text \<open>
  The registration service (\<^verbatim>\<open>internal/relay/registration.go\<close>): who calls, whether the flood
  limiter lets the call through, and the enrolment behind it. The service's environment is an
  argument: SHA-256, the JSON encoder, the \<^verbatim>\<open>uuid\<close> package, the random bytes it reads and how
  the database call ends.
\<close>

section \<open>The service\<close>

text \<open>gRPC metadata: lower-case keys with their values.\<close>

type_synonym MD = "(string \<times> string list) list"

definition metadataOrganization :: string where
  "metadataOrganization = ''opencluster-org-id''"

definition metadataBootstrapToken :: string where
  "metadataBootstrapToken = ''opencluster-bootstrap-token''"

definition firstValue :: "MD \<Rightarrow> string \<Rightarrow> string" where
  "firstValue incoming key =
     (case map_of incoming key of Some (v # _) \<Rightarrow> v | _ \<Rightarrow> [])"

datatype caller_error = NoCallMetadata | NoBootstrapToken | InvalidOrganizationIdentifier

definition callerIdentity :: "uuid_lib \<Rightarrow> MD option \<Rightarrow> caller_error + uuid \<times> string" where
  "callerIdentity lib ctx =
     (case ctx of
        None \<Rightarrow> Inl NoCallMetadata
      | Some incoming \<Rightarrow>
          let token = firstValue incoming metadataBootstrapToken in
          if token = [] then Inl NoBootstrapToken
          else (case uuid_Parse lib (TrimSpace (firstValue incoming metadataOrganization)) of
                  None \<Rightarrow> Inl InvalidOrganizationIdentifier
                | Some organization \<Rightarrow>
                    if organization = uuid_Nil then Inl InvalidOrganizationIdentifier
                    else Inr (organization, token)))"

abbreviation protocolVersion :: "32 word" where
  "protocolVersion \<equiv> 1"

definition supportsProtocol :: "32 word \<Rightarrow> bool" where
  "supportsProtocol v \<longleftrightarrow> protocolVersion \<le> v"

text \<open>Padded standard base64, which differs from the URL alphabet in its last two digits.\<close>

definition StdEncoding :: "string \<Rightarrow> string" where
  "StdEncoding s =
     map (\<lambda>c. if c = CHR ''-'' then CHR ''+'' else if c = CHR ''_'' then CHR ''/'' else c) (EncodeToString s)
     @ replicate ((3 - length s mod 3) mod 3) CHR ''=''"

text \<open>\<open>sha256\<close> is the digest and \<open>raw\<close> the 32 bytes \<^verbatim>\<open>rand.Read\<close> gave, if it did.\<close>

definition mintCredential :: "(string \<Rightarrow> bytes) \<Rightarrow> bytes option \<Rightarrow> (string \<times> bytes) option" where
  "mintCredential sha256 raw =
     map_option (\<lambda>raw. let credential = StdEncoding raw in (credential, sha256 credential)) raw"

record RegisterRequest =
  rreq_ProtocolVersion :: "32 word"
  rreq_ClusterFingerprint :: string
  rreq_RelayVersion :: string
  rreq_Capabilities :: "(string \<times> 32 word) list"

definition encodeCapabilities ::
  "((string \<times> 32 word) list \<Rightarrow> bytes option) \<Rightarrow> (string \<times> 32 word) list \<Rightarrow> bytes option"
where
  "encodeCapabilities json_Marshal descriptors = json_Marshal (map (\<lambda>d. (fst d, snd d)) descriptors)"

datatype code =
    FailedPrecondition | ResourceExhausted | Internal | Unavailable | Unauthenticated
  | InvalidArgument | Aborted | DeadlineExceeded

definition refusalMessage :: string where
  "refusalMessage = ''registration refused''"

record RegisterResponse =
  rresp_OrgId :: string
  rresp_RegistrationId :: string
  rresp_Credential :: string
  rresp_SpkiPins :: "string list"
  rresp_ProtocolVersion :: "32 word"

record registration_env =
  env_uuid :: uuid_lib
  env_sha256 :: "string \<Rightarrow> bytes"
  env_json :: "(string \<times> 32 word) list \<Rightarrow> bytes option"
  env_raw :: "bytes option"
  env_newID :: uuid
  env_fate :: db_fate
  env_spkiPins :: "string list"

text \<open>
  One call: the reply, the reason written to the log, and the new state. The database call's
  fate decides what the handler learns of it: a result, or an error that leaves open whether the
  transaction committed.
\<close>

definition enrol_call ::
  "db_fate \<Rightarrow> instant \<Rightarrow> uuid \<Rightarrow> uuid \<Rightarrow> RelayEnrolment \<Rightarrow> registry \<Rightarrow> (store_error + uuid) \<times> registry"
where
  "enrol_call fate now newID organization e db =
     (case EnrolRelay now newID organization e db of
        Inl err \<Rightarrow> (Inl (if fate = Reported then err else ErrDatabase), db)
      | Inr (i, db') \<Rightarrow>
          (case fate of
             Reported \<Rightarrow> (Inr i, db')
           | Lost \<Rightarrow> (Inl ErrDatabase, db)
           | Unreported \<Rightarrow> (Inl ErrDatabase, db')))"

definition Register ::
  "registration_env \<Rightarrow> instant \<Rightarrow> MD option \<Rightarrow> RegisterRequest \<Rightarrow> floodLimiter \<times> registry
     \<Rightarrow> (code \<times> string + RegisterResponse) \<times> string \<times> floodLimiter \<times> registry"
where
  "Register env now ctx request state =
     (let (flood, db) = state; lib = env_uuid env in
      case callerIdentity lib ctx of
        Inl _ \<Rightarrow> (Inl (FailedPrecondition, refusalMessage), ''malformed registration metadata'', flood, db)
      | Inr (organization, token) \<Rightarrow>
        let (ok, flood') = flood_allow now (uuid_String lib organization) flood in
        if \<not> ok then (Inl (ResourceExhausted, ''registration temporarily unavailable''), ''shed by flood control'', flood', db)
        else if \<not> supportsProtocol (rreq_ProtocolVersion request)
        then (Inl (FailedPrecondition, refusalMessage), ''unsupported protocol version'', flood', db)
        else case mintCredential (env_sha256 env) (env_raw env) of
          None \<Rightarrow> (Inl (Internal, ''registration unavailable''), [], flood', db)
        | Some (credential, digest) \<Rightarrow>
          case encodeCapabilities (env_json env) (rreq_Capabilities request) of
            None \<Rightarrow> (Inl (FailedPrecondition, refusalMessage), ''unencodable capability roster'', flood', db)
          | Some capabilities \<Rightarrow>
            let (result, db') = enrol_call (env_fate env) now (env_newID env) organization
                  \<lparr>enr_TokenDigest = env_sha256 env token, enr_CredentialDigest = digest,
                   enr_ClusterFingerprint = rreq_ClusterFingerprint request,
                   enr_RelayVersion = rreq_RelayVersion request,
                   enr_ProtocolVersion = rreq_ProtocolVersion request, enr_Capabilities = capabilities\<rparr> db in
            case result of
              Inl (ErrEnrolmentRefused why) \<Rightarrow>
                (Inl (FailedPrecondition, refusalMessage), EnrolmentRefusal_String why, flood', db')
            | Inl ErrUnknownOrganization \<Rightarrow>
                (Inl (FailedPrecondition, refusalMessage), ''organization has no database'', flood', db')
            | Inl _ \<Rightarrow> (Inl (Unavailable, ''registration unavailable''), ''relay enrolment failed'', flood', db')
            | Inr registrationID \<Rightarrow>
                (Inr \<lparr>rresp_OrgId = uuid_String lib organization,
                      rresp_RegistrationId = uuid_String lib registrationID, rresp_Credential = credential,
                      rresp_SpkiPins = env_spkiPins env, rresp_ProtocolVersion = protocolVersion\<rparr>,
                 [], flood', db'))"

section \<open>Properties\<close>

lemma callerIdentity_Inr: "callerIdentity lib ctx = Inr (organization, token) \<Longrightarrow> organization \<noteq> uuid_Nil"
  by (auto simp: callerIdentity_def Let_def split: option.splits if_splits)

lemma enrol_call_Inr:
  "enrol_call fate now newID organization e db = (Inr i, db') \<Longrightarrow>
   EnrolRelay now newID organization e db = Inr (i, db')"
  by (auto simp: enrol_call_def split: sum.splits db_fate.splits)

lemma enrol_call_refused:
  "enrol_call fate now newID organization e db = (Inl (ErrEnrolmentRefused why), db') \<Longrightarrow>
   EnrolRelay now newID organization e db = Inl (ErrEnrolmentRefused why) \<and> db' = db"
  by (auto simp: enrol_call_def split: sum.splits db_fate.splits if_splits)

lemma enrolled_credential_holds:
  assumes "registry_inv db" and run: "EnrolRelay now i organization e db = Inr (i', db')"
  shows "\<exists>k \<in> set (tokens db). spendable now organization (enr_TokenDigest e) k"
    and "VerifyRelayCredential organization i (enr_CredentialDigest e) db' = Inr True"
proof -
  from Enrol_Inr [OF run] obtain r where known: "organization \<noteq> uuid_Nil"
    and one: "rows_affected (spendable now organization (enr_TokenDigest e)) (tokens db) = 1"
    and added: "registrations db' = registrations db @ [r]" "identity_of r = (i, organization, enr_CredentialDigest e, None)"
    by auto
  have "distinct (map tok_digest (tokens db))" using assms(1) by (simp add: registry_inv_def)
  from spendable_row [OF this one] show "\<exists>k \<in> set (tokens db). spendable now organization (enr_TokenDigest e) k"
    using row_of_Some by fastforce
  show "VerifyRelayCredential organization i (enr_CredentialDigest e) db' = Inr True"
    using verify_iff [OF registry_step_inv [OF assms(1) registry_step.enrol [OF run]] known] added by simp
qed

lemma enrol_call_Inl:
  assumes call: "enrol_call fate now i organization e db = (Inl err, db')" and known: "organization \<noteq> uuid_Nil"
  shows "err \<noteq> ErrUnknownOrganization"
    and "fate = Lost \<longrightarrow> db' = db"
    and "(\<exists>why. err = ErrEnrolmentRefused why) \<longrightarrow> db' = db"
proof -
  show "err \<noteq> ErrUnknownOrganization"
    using call known by (auto simp: enrol_call_def EnrolRelay_def insertRegistration_def Let_def
        split: sum.splits db_fate.splits if_splits prod.splits)
  show "fate = Lost \<longrightarrow> db' = db" using call by (auto simp: enrol_call_def split: sum.splits)
  show "(\<exists>why. err = ErrEnrolmentRefused why) \<longrightarrow> db' = db" using enrol_call_refused call by blast
qed

text \<open>What is the caller's doing: metadata, protocol, roster or token. A shed call is not looked at, and a
  service without random bytes or an answer of its database never gets to judge a token.\<close>

definition callers_fault ::
  "registration_env \<Rightarrow> instant \<Rightarrow> MD option \<Rightarrow> RegisterRequest \<Rightarrow> floodLimiter \<Rightarrow> registry \<Rightarrow> bool"
where
  "callers_fault env now ctx request flood db \<longleftrightarrow>
     (\<forall>organization token. callerIdentity (env_uuid env) ctx = Inr (organization, token) \<longrightarrow>
        fst (flood_allow now (uuid_String (env_uuid env) organization) flood)
        \<and> (\<not> supportsProtocol (rreq_ProtocolVersion request)
           \<or> env_raw env \<noteq> None \<and> encodeCapabilities (env_json env) (rreq_Capabilities request) = None
           \<or> env_raw env \<noteq> None \<and> env_fate env = Reported
             \<and> \<not> (\<exists>k \<in> set (tokens db). spendable now organization (env_sha256 env token) k)))"

text \<open>The enrolment fails for no other reason than the token, a failing database, or a clash of the new row.\<close>

lemma EnrolRelay_Inl:
  assumes "registry_inv db" "organization \<noteq> uuid_Nil" "EnrolRelay now i organization e db = Inl err"
  shows "(\<exists>k \<in> set (tokens db). spendable now organization (enr_TokenDigest e) k) \<Longrightarrow>
      (\<forall>why. err \<noteq> ErrEnrolmentRefused why) \<and> (length (enr_CredentialDigest e) \<noteq> 32 \<or> i \<in> reg_id ` set (registrations db))"
    and "\<not> (\<exists>k \<in> set (tokens db). spendable now organization (enr_TokenDigest e) k) \<Longrightarrow> \<exists>why. err = ErrEnrolmentRefused why"
proof -
  let ?p = "spendable now organization (enr_TokenDigest e)"
  have keyed: "distinct (map tok_digest (tokens db))" using assms(1) by (simp add: registry_inv_def)
  have one: "rows_affected ?p (tokens db) = 1 \<longleftrightarrow> (\<exists>k \<in> set (tokens db). ?p k)"
  proof
    assume "rows_affected ?p (tokens db) = 1"
    from spendable_row [OF keyed this] show "\<exists>k \<in> set (tokens db). ?p k" using row_of_Some by fastforce
  next
    assume "\<exists>k \<in> set (tokens db). ?p k"
    then obtain k where k: "k \<in> set (tokens db)" "?p k" by blast
    then have "row_of tok_digest (enr_TokenDigest e) (tokens db) = Some k"
      using row_of_unique [OF keyed k(1)] by (simp add: spendable_def)
    with k spendable_count [OF keyed, of now organization "enr_TokenDigest e"] show "rows_affected ?p (tokens db) = 1" by simp
  qed
  show "(\<forall>why. err \<noteq> ErrEnrolmentRefused why) \<and> (length (enr_CredentialDigest e) \<noteq> 32 \<or> i \<in> reg_id ` set (registrations db))"
    if "\<exists>k \<in> set (tokens db). ?p k"
    using that assms(2,3) one by (auto simp: EnrolRelay_def spendBootstrapToken_def insertRegistration_def split: if_splits)
  show "\<exists>why. err = ErrEnrolmentRefused why" if "\<not> (\<exists>k \<in> set (tokens db). ?p k)"
    using that assms(2,3) one by (auto simp: EnrolRelay_def spendBootstrapToken_def)
qed

text \<open>A call that gets as far as the database.\<close>

definition enrolment_of :: "registration_env \<Rightarrow> RegisterRequest \<Rightarrow> string \<Rightarrow> bytes \<Rightarrow> bytes \<Rightarrow> RelayEnrolment" where
  "enrolment_of env request token raw capabilities =
     \<lparr>enr_TokenDigest = env_sha256 env token, enr_CredentialDigest = env_sha256 env (StdEncoding raw),
      enr_ClusterFingerprint = rreq_ClusterFingerprint request, enr_RelayVersion = rreq_RelayVersion request,
      enr_ProtocolVersion = rreq_ProtocolVersion request, enr_Capabilities = capabilities\<rparr>"

lemma Register_enrols:
  assumes "Register env now ctx request (flood, db) = (reply, reason, flood', db')"
    and "callerIdentity (env_uuid env) ctx = Inr (organization, token)"
    and "fst (flood_allow now (uuid_String (env_uuid env) organization) flood)" "supportsProtocol (rreq_ProtocolVersion request)"
    and "env_raw env = Some raw" "encodeCapabilities (env_json env) (rreq_Capabilities request) = Some capabilities"
  shows "\<exists>result. enrol_call (env_fate env) now (env_newID env) organization (enrolment_of env request token raw capabilities) db
      = (result, db')
    \<and> reply = (case result of
        Inl (ErrEnrolmentRefused why) \<Rightarrow> Inl (FailedPrecondition, refusalMessage)
      | Inl ErrUnknownOrganization \<Rightarrow> Inl (FailedPrecondition, refusalMessage)
      | Inl _ \<Rightarrow> Inl (Unavailable, ''registration unavailable'')
      | Inr registrationID \<Rightarrow>
          Inr \<lparr>rresp_OrgId = uuid_String (env_uuid env) organization,
                rresp_RegistrationId = uuid_String (env_uuid env) registrationID, rresp_Credential = StdEncoding raw,
                rresp_SpkiPins = env_spkiPins env, rresp_ProtocolVersion = protocolVersion\<rparr>)"
proof -
  obtain result db1 where call: "enrol_call (env_fate env) now (env_newID env) organization
      (enrolment_of env request token raw capabilities) db = (result, db1)" by fastforce
  obtain fl where flood: "flood_allow now (uuid_String (env_uuid env) organization) flood = (True, fl)"
    using assms(3) by (metis prod.collapse)
  show ?thesis
    using assms flood call
    by (auto simp: Register_def mintCredential_def enrolment_of_def Let_def split: sum.splits store_error.splits)
qed

text \<open>
  C30. What a registration is answered, exactly. A credential is answered only when the database
  holds its registration under that credential's digest, in the organization that issued the
  token it spent. Everything that is the caller's doing, whatever is wrong with the metadata, the
  protocol, the roster or the token, gets one and the same code and message and changes no table,
  so a refused caller learns nothing about the token; and nothing else gets that code. The other
  answers are three fixed texts: one for a shed call and one for a service without random bytes,
  neither of which looks at the token, and one for a database that failed or whose new row clashed.
\<close>

theorem registration_reveals_nothing:
  assumes "registry_inv db" "Register env now ctx request (flood, db) = (reply, reason, flood', db')"
  shows "(callers_fault env now ctx request flood db \<longrightarrow> reply = Inl (FailedPrecondition, refusalMessage) \<and> db' = db)
    \<and> (\<not> callers_fault env now ctx request flood db \<longrightarrow>
        (\<exists>organization token. callerIdentity (env_uuid env) ctx = Inr (organization, token)
          \<and> (if \<not> fst (flood_allow now (uuid_String (env_uuid env) organization) flood)
             then reply = Inl (ResourceExhausted, ''registration temporarily unavailable'') \<and> db' = db
             else if env_raw env = None then reply = Inl (Internal, ''registration unavailable'') \<and> db' = db
             else if env_fate env \<noteq> Reported
             then reply = Inl (Unavailable, ''registration unavailable'') \<and> (env_fate env = Lost \<longrightarrow> db' = db)
             else if env_newID env \<in> reg_id ` set (registrations db)
               \<or> length (env_sha256 env (StdEncoding (the (env_raw env)))) \<noteq> 32
             then reply = Inl (Unavailable, ''registration unavailable'') \<and> db' = db
             else \<exists>response. reply = Inr response \<and> rresp_OrgId response = uuid_String (env_uuid env) organization
               \<and> (\<exists>k \<in> set (tokens db). spendable now organization (env_sha256 env token) k)
               \<and> VerifyRelayCredential organization (env_newID env) (env_sha256 env (rresp_Credential response)) db' = Inr True)))"
proof (cases "callerIdentity (env_uuid env) ctx")
  case (Inl bad)
  with assms(2) show ?thesis by (auto simp: Register_def Let_def callers_fault_def)
next
  case (Inr caller)
  obtain organization token where who: "callerIdentity (env_uuid env) ctx = Inr (organization, token)"
    using Inr by (cases caller) auto
  note known = callerIdentity_Inr [OF who]
  show ?thesis
  proof (cases "fst (flood_allow now (uuid_String (env_uuid env) organization) flood)
      \<and> supportsProtocol (rreq_ProtocolVersion request) \<and> env_raw env \<noteq> None
      \<and> encodeCapabilities (env_json env) (rreq_Capabilities request) \<noteq> None")
    case False
    obtain ok fl where "flood_allow now (uuid_String (env_uuid env) organization) flood = (ok, fl)" by fastforce
    with False assms(2) who show ?thesis
      by (auto simp: Register_def mintCredential_def Let_def callers_fault_def split: option.splits if_splits)
  next
    case True
    then obtain raw capabilities where mint: "env_raw env = Some raw"
        "encodeCapabilities (env_json env) (rreq_Capabilities request) = Some capabilities" by auto
    let ?e = "enrolment_of env request token raw capabilities"
    have passed: "fst (flood_allow now (uuid_String (env_uuid env) organization) flood)" using True by blast
    from Register_enrols [OF assms(2) who _ _ mint] True obtain result where
        call: "enrol_call (env_fate env) now (env_newID env) organization ?e db = (result, db')"
      and reply: "reply = (case result of
          Inl (ErrEnrolmentRefused why) \<Rightarrow> Inl (FailedPrecondition, refusalMessage)
        | Inl ErrUnknownOrganization \<Rightarrow> Inl (FailedPrecondition, refusalMessage)
        | Inl _ \<Rightarrow> Inl (Unavailable, ''registration unavailable'')
        | Inr registrationID \<Rightarrow>
            Inr \<lparr>rresp_OrgId = uuid_String (env_uuid env) organization,
                  rresp_RegistrationId = uuid_String (env_uuid env) registrationID, rresp_Credential = StdEncoding raw,
                  rresp_SpkiPins = env_spkiPins env, rresp_ProtocolVersion = protocolVersion\<rparr>)" by blast
    have fault: "callers_fault env now ctx request flood db \<longleftrightarrow>
        env_fate env = Reported \<and> \<not> (\<exists>k \<in> set (tokens db). spendable now organization (enr_TokenDigest ?e) k)"
      using True who mint by (auto simp: callers_fault_def enrolment_of_def)
    have digests: "enr_TokenDigest ?e = env_sha256 env token" "enr_CredentialDigest ?e = env_sha256 env (StdEncoding raw)"
      by (simp_all add: enrolment_of_def)
    show ?thesis
    proof (cases "EnrolRelay now (env_newID env) organization ?e db")
      case refused: (Inl err)
      then have result: "result = Inl (if env_fate env = Reported then err else ErrDatabase)" "db' = db"
        using call by (simp_all add: enrol_call_def)
      show ?thesis
      proof (cases "\<exists>k \<in> set (tokens db). spendable now organization (enr_TokenDigest ?e) k")
        case True
        note why = EnrolRelay_Inl(1) [OF assms(1) known refused True]
        have "reply = Inl (Unavailable, ''registration unavailable'')"
          using reply result why enrol_call_Inl(1) [OF call [unfolded result(1)] known] by (auto split: store_error.splits if_splits)
        then show ?thesis using fault True who passed why result(2) by (auto simp: digests mint)
      next
        case False
        then obtain why where "err = ErrEnrolmentRefused why" using EnrolRelay_Inl(2) [OF assms(1) known refused] by blast
        then show ?thesis using fault False who passed reply result by (auto simp: mint)
      qed
    next
      case (Inr out)
      then obtain i db1 where run: "EnrolRelay now (env_newID env) organization ?e db = Inr (i, db1)" by (cases out) auto
      note held = enrolled_credential_holds [OF assms(1) run]
      have fits: "env_newID env \<notin> reg_id ` set (registrations db)" "length (env_sha256 env (StdEncoding raw)) = 32"
        using Enrol_Inr [OF run] digests by auto
      show ?thesis
        using fault held fits who passed reply call
        by (cases "env_fate env") (auto simp: enrol_call_def run digests mint)
    qed
  qed
qed

definition sample_registration_env :: registration_env where
  "sample_registration_env =
     \<lparr>env_uuid = sample_uuid_lib\<lparr>uuid_Parse := (\<lambda>_. Some 3)\<rparr>, env_sha256 = (\<lambda>_. sample_digest), env_json = (\<lambda>_. Some ''[]''),
      env_raw = Some (replicate 32 CHR ''r''), env_newID = 8, env_fate = Reported, env_spkiPins = []\<rparr>"

definition sample_register_request :: RegisterRequest where
  "sample_register_request =
     \<lparr>rreq_ProtocolVersion = 1, rreq_ClusterFingerprint = ''f'', rreq_RelayVersion = ''v1'', rreq_Capabilities = []\<rparr>"

theorem registration_reveals_nothing_witness:
  "\<exists>response reason flood db.
     Register sample_registration_env 50 (Some [(metadataBootstrapToken, [''t'']), (metadataOrganization, [''o''])])
       sample_register_request (newFloodLimiter DefaultFloodLimits, sample_registry) = (Inr response, reason, flood, db)
     \<and> VerifyRelayCredential 3 8 sample_digest db = Inr True"
proof -
  let ?ctx = "Some [(metadataBootstrapToken, [''t'']), (metadataOrganization, [''o''])]"
  have who: "callerIdentity (env_uuid sample_registration_env) ?ctx = Inr (3, ''t'')"
    by (simp add: callerIdentity_def firstValue_def sample_registration_env_def metadataBootstrapToken_def
        metadataOrganization_def)
  have ok: "fst (flood_allow 50 org (newFloodLimiter DefaultFloodLimits))" for org
    by (simp add: flood_allow_def flood_roll_def newFloodLimiter_def DefaultFloodLimits_def time_Zero_def Let_def)
  obtain fl where flood: "flood_allow 50 (uuid_String (env_uuid sample_registration_env) 3) (newFloodLimiter DefaultFloodLimits) = (True, fl)"
    using ok [of "uuid_String (env_uuid sample_registration_env) 3"] by (metis prod.exhaust_sel)
  obtain response reason db where run:
      "Register sample_registration_env 50 ?ctx sample_register_request (newFloodLimiter DefaultFloodLimits, sample_registry)
         = (Inr response, reason, fl, db)"
    unfolding Register_def
    by (simp add: who flood Let_def)
       (simp add: sample_registration_env_def sample_register_request_def supportsProtocol_def mintCredential_def
        encodeCapabilities_def enrol_call_def EnrolRelay_def spendBootstrapToken_def insertRegistration_def
        sample_registry_def spendable_def sample_digest_def)
  have "\<not> callers_fault sample_registration_env 50 ?ctx sample_register_request (newFloodLimiter DefaultFloodLimits) sample_registry"
    using registration_reveals_nothing [OF sample_registry_inv run] by blast
  with registration_reveals_nothing [OF sample_registry_inv run] who ok
  have "VerifyRelayCredential 3 8 sample_digest db = Inr True"
    by (auto simp: sample_registration_env_def split: if_splits)
  with run show ?thesis by blast
qed

end
