(* ===== verification/Capability.thy ===== *)
theory Capability
  imports GoStrings "HOL-Library.Product_Lexorder"
begin

text \<open>
  The closed set of reads a relay may be asked for, and the validation of their arguments
  (\<^verbatim>\<open>internal/relay/capability/capability.go\<close>). The four regular expressions are modelled as
  regular expressions with a derivative matcher, and shown to accept what the Kubernetes naming
  rules say. Protobuf decoding is an argument.
\<close>

section \<open>Regular expressions\<close>

datatype rexp = Zero | One | Class "char \<Rightarrow> bool" | Alt rexp rexp | Seq rexp rexp | Star rexp

fun lang :: "rexp \<Rightarrow> string set" where
  "lang Zero = {}"
| "lang One = {[]}"
| "lang (Class c) = {s. \<exists>x. s = [x] \<and> c x}"
| "lang (Alt r q) = lang r \<union> lang q"
| "lang (Seq r q) = {s. \<exists>u v. s = u @ v \<and> u \<in> lang r \<and> v \<in> lang q}"
| "lang (Star r) = {s. \<exists>us. s = concat us \<and> set us \<subseteq> lang r}"

fun nullable :: "rexp \<Rightarrow> bool" where
  "nullable Zero = False"
| "nullable One = True"
| "nullable (Class c) = False"
| "nullable (Alt r q) = (nullable r \<or> nullable q)"
| "nullable (Seq r q) = (nullable r \<and> nullable q)"
| "nullable (Star r) = True"

fun deriv :: "char \<Rightarrow> rexp \<Rightarrow> rexp" where
  "deriv x Zero = Zero"
| "deriv x One = Zero"
| "deriv x (Class c) = (if c x then One else Zero)"
| "deriv x (Alt r q) = Alt (deriv x r) (deriv x q)"
| "deriv x (Seq r q) =
     (if nullable r then Alt (Seq (deriv x r) q) (deriv x q) else Seq (deriv x r) q)"
| "deriv x (Star r) = Seq (deriv x r) (Star r)"

text \<open>\<^verbatim>\<open>MatchString\<close> of an expression anchored at both ends.\<close>

fun MatchString :: "rexp \<Rightarrow> string \<Rightarrow> bool" where
  "MatchString r [] = nullable r"
| "MatchString r (x # s) = MatchString (deriv x r) s"

lemma nullable_lang: "nullable r \<longleftrightarrow> [] \<in> lang r"
proof (induction r)
  case (Star r)
  show ?case by (auto intro!: exI [of _ "[]"])
qed auto

lemma star_Cons:
  "x # s \<in> lang (Star r) \<longleftrightarrow> (\<exists>u v. s = u @ v \<and> x # u \<in> lang r \<and> v \<in> lang (Star r))"
proof
  assume "x # s \<in> lang (Star r)"
  then obtain us where us: "x # s = concat us" "set us \<subseteq> lang r" by auto
  then show "\<exists>u v. s = u @ v \<and> x # u \<in> lang r \<and> v \<in> lang (Star r)"
  proof (induction us)
    case (Cons w us)
    then show ?case by (cases w) auto
  qed simp
next
  assume "\<exists>u v. s = u @ v \<and> x # u \<in> lang r \<and> v \<in> lang (Star r)"
  then obtain u us where "s = u @ concat us" "x # u \<in> lang r" "set us \<subseteq> lang r" by auto
  then show "x # s \<in> lang (Star r)" by (auto intro!: exI [of _ "(x # u) # us"])
qed

lemma deriv_lang: "s \<in> lang (deriv x r) \<longleftrightarrow> x # s \<in> lang r"
proof (induction r arbitrary: s)
  case (Seq r q)
  have "x # s \<in> lang (Seq r q) \<longleftrightarrow>
      (\<exists>u v. s = u @ v \<and> x # u \<in> lang r \<and> v \<in> lang q) \<or> ([] \<in> lang r \<and> x # s \<in> lang q)"
    by (auto simp: Cons_eq_append_conv)
  with Seq show ?case by (auto simp: nullable_lang)
next
  case (Star r)
  then show ?case by (simp only: star_Cons) auto
qed auto

lemma MatchString_lang: "MatchString r s \<longleftrightarrow> s \<in> lang r"
  by (induction r s rule: MatchString.induct) (simp_all add: nullable_lang deriv_lang)

section \<open>The four expressions\<close>

definition between :: "char \<Rightarrow> char \<Rightarrow> char \<Rightarrow> bool" where
  "between a b c \<longleftrightarrow> (of_char a :: nat) \<le> of_char c \<and> (of_char c :: nat) \<le> of_char b"

definition lower_alnum :: "char \<Rightarrow> bool" where
  "lower_alnum c \<longleftrightarrow> between CHR ''a'' CHR ''z'' c \<or> between CHR ''0'' CHR ''9'' c"

definition label_byte :: "char \<Rightarrow> bool" where
  "label_byte c \<longleftrightarrow> c = CHR ''-'' \<or> lower_alnum c"

definition letter :: "char \<Rightarrow> bool" where
  "letter c \<longleftrightarrow> between CHR ''A'' CHR ''Z'' c \<or> between CHR ''a'' CHR ''z'' c"

definition alnum :: "char \<Rightarrow> bool" where
  "alnum c \<longleftrightarrow> letter c \<or> between CHR ''0'' CHR ''9'' c"

abbreviation Optional :: "rexp \<Rightarrow> rexp" where
  "Optional r \<equiv> Alt r One"

definition dns1123Label :: rexp where
  "dns1123Label = Seq (Class lower_alnum) (Optional (Seq (Star (Class label_byte)) (Class lower_alnum)))"

definition dns1123Subdomain :: rexp where
  "dns1123Subdomain =
     Seq (Class lower_alnum) (Seq (Optional (Seq (Star (Class label_byte)) (Class lower_alnum)))
       (Star (Seq (Class (\<lambda>c. c = CHR ''.''))
         (Seq (Class lower_alnum) (Optional (Seq (Star (Class label_byte)) (Class lower_alnum)))))))"

definition kindLiteral :: rexp where
  "kindLiteral = Seq (Class letter) (Star (Class alnum))"

definition uidLiteral :: rexp where
  "uidLiteral = Seq (Class (\<lambda>c. alnum c \<or> c = CHR ''-'')) (Star (Class (\<lambda>c. alnum c \<or> c = CHR ''-'')))"

definition validNamespace :: "string \<Rightarrow> bool" where
  "validNamespace value \<longleftrightarrow> 0 < length value \<and> length value \<le> 63 \<and> MatchString dns1123Label value"

definition validObjectName :: "string \<Rightarrow> bool" where
  "validObjectName value \<longleftrightarrow> 0 < length value \<and> length value \<le> 253 \<and> MatchString dns1123Subdomain value"

section \<open>Arguments\<close>

datatype WorkloadKind = WORKLOAD_KIND_UNSPECIFIED | WorkloadKindValue nat

record KubernetesInvolvedObject =
  io_Kind :: string
  io_Name :: string
  io_Uid :: string

record KubernetesWorkloadRuntimeV1 =
  wr_WorkloadKind :: WorkloadKind
  wr_Namespace :: string
  wr_WorkloadName :: string
  wr_MaxPods :: "32 word"

record KubernetesNamespaceEventsV1 =
  ne_Namespace :: string
  ne_WindowStart :: "instant option"
  ne_WindowEnd :: "instant option"
  ne_MaxEvents :: "32 word"
  ne_InvolvedObject :: "KubernetesInvolvedObject option"

record KubernetesContainerLogsV1 =
  cl_Namespace :: string
  cl_PodName :: string
  cl_ContainerName :: string
  cl_MaxLines :: "32 word"
  cl_MaxBytes :: "32 word"

datatype CapabilityArguments =
    WorkloadRuntime KubernetesWorkloadRuntimeV1
  | NamespaceEvents KubernetesNamespaceEventsV1
  | ContainerLogs KubernetesContainerLogsV1
  | NoArguments

datatype capability_error = ErrUnknownCapability | ErrInvalidArguments

abbreviation MaxPods :: "32 word" where
  "MaxPods \<equiv> 50"

abbreviation MaxEvents :: "32 word" where
  "MaxEvents \<equiv> 200"

abbreviation MaxLines :: "32 word" where
  "MaxLines \<equiv> 2000"

abbreviation MaxBytes :: "32 word" where
  "MaxBytes \<equiv> 262144"

abbreviation MaxEventWindow :: duration where
  "MaxEventWindow \<equiv> 604800000000000"

definition validateWorkloadRuntime :: "CapabilityArguments \<Rightarrow> capability_error option" where
  "validateWorkloadRuntime arguments =
     (case arguments of
        WorkloadRuntime args \<Rightarrow>
          if wr_WorkloadKind args = WORKLOAD_KIND_UNSPECIFIED then Some ErrInvalidArguments
          else if \<not> validNamespace (wr_Namespace args) then Some ErrInvalidArguments
          else if \<not> validObjectName (wr_WorkloadName args) then Some ErrInvalidArguments
          else if MaxPods < wr_MaxPods args then Some ErrInvalidArguments
          else None
      | _ \<Rightarrow> Some ErrInvalidArguments)"

definition validateNarrowing :: "KubernetesInvolvedObject option \<Rightarrow> capability_error option" where
  "validateNarrowing involved =
     (case involved of
        None \<Rightarrow> None
      | Some i \<Rightarrow>
          if io_Kind i \<noteq> [] \<and> (63 < length (io_Kind i) \<or> \<not> MatchString kindLiteral (io_Kind i))
          then Some ErrInvalidArguments
          else if io_Name i \<noteq> [] \<and> \<not> validObjectName (io_Name i) then Some ErrInvalidArguments
          else if io_Uid i \<noteq> [] \<and> (253 < length (io_Uid i) \<or> \<not> MatchString uidLiteral (io_Uid i))
          then Some ErrInvalidArguments
          else None)"

text \<open>
  The difference of two instants saturates at the largest duration, which is above every bound
  it is compared with.
\<close>

definition validateNamespaceEvents :: "CapabilityArguments \<Rightarrow> capability_error option" where
  "validateNamespaceEvents arguments =
     (case arguments of
        NamespaceEvents args \<Rightarrow>
          if \<not> validNamespace (ne_Namespace args) then Some ErrInvalidArguments
          else (case (ne_WindowStart args, ne_WindowEnd args) of
                  (Some start, Some finish) \<Rightarrow>
                    if \<not> start < finish then Some ErrInvalidArguments
                    else if MaxEventWindow < min int64_max (finish - start) then Some ErrInvalidArguments
                    else if MaxEvents < ne_MaxEvents args then Some ErrInvalidArguments
                    else validateNarrowing (ne_InvolvedObject args)
                | _ \<Rightarrow> Some ErrInvalidArguments)
      | _ \<Rightarrow> Some ErrInvalidArguments)"

definition validateContainerLogs :: "CapabilityArguments \<Rightarrow> capability_error option" where
  "validateContainerLogs arguments =
     (case arguments of
        ContainerLogs args \<Rightarrow>
          if \<not> validNamespace (cl_Namespace args) then Some ErrInvalidArguments
          else if \<not> validObjectName (cl_PodName args) then Some ErrInvalidArguments
          else if \<not> validNamespace (cl_ContainerName args) then Some ErrInvalidArguments
          else if MaxLines < cl_MaxLines args then Some ErrInvalidArguments
          else if MaxBytes < cl_MaxBytes args then Some ErrInvalidArguments
          else None
      | _ \<Rightarrow> Some ErrInvalidArguments)"

definition validators ::
  "((string \<times> 32 word) \<times> (CapabilityArguments \<Rightarrow> capability_error option)) list"
where
  "validators =
     [((''kubernetes.workload.runtime'', 1), validateWorkloadRuntime),
      ((''kubernetes.namespace.events'', 1), validateNamespaceEvents),
      ((''kubernetes.container.logs'', 1), validateContainerLogs)]"

definition Known :: "string \<Rightarrow> 32 word \<Rightarrow> bool" where
  "Known i v \<longleftrightarrow> map_of validators (i, v) \<noteq> None"

definition Registered :: "(string \<times> nat) list" where
  "Registered = sort (map (\<lambda>((i, v), _). (i, unat v)) validators)"

definition Validate ::
  "(bytes \<Rightarrow> CapabilityArguments option) \<Rightarrow> string \<Rightarrow> 32 word \<Rightarrow> bytes \<Rightarrow> capability_error option"
where
  "Validate unmarshal i v arguments =
     (case map_of validators (i, v) of
        None \<Rightarrow> Some ErrUnknownCapability
      | Some validate \<Rightarrow>
          (case unmarshal arguments of None \<Rightarrow> Some ErrInvalidArguments | Some decoded \<Rightarrow> validate decoded))"

section \<open>What the expressions accept\<close>

text \<open>A label: lower-case letters, digits and hyphens, with no hyphen at either end.\<close>

definition label_ok :: "string \<Rightarrow> bool" where
  "label_ok s \<longleftrightarrow> s \<noteq> [] \<and> lower_alnum (hd s) \<and> lower_alnum (last s) \<and> (\<forall>c \<in> set s. label_byte c)"

fun labels :: "string \<Rightarrow> string list" where
  "labels [] = [[]]"
| "labels (c # s) =
     (if c = CHR ''.'' then [] # labels s
      else (case labels s of l # ls \<Rightarrow> (c # l) # ls | [] \<Rightarrow> [[c]]))"

lemma lang_star_class: "lang (Star (Class c)) = {s. \<forall>x \<in> set s. c x}"
proof (intro set_eqI iffI)
  fix s
  assume "s \<in> lang (Star (Class c))"
  then show "s \<in> {s. \<forall>x \<in> set s. c x}" by (fastforce simp: subset_iff)
next
  fix s
  assume "s \<in> {s. \<forall>x \<in> set s. c x}"
  then show "s \<in> lang (Star (Class c))" by (auto intro!: exI [of _ "map (\<lambda>x. [x]) s"])
qed

lemma seq_class:
  "x # s \<in> lang (Seq (Class c) r) \<longleftrightarrow> c x \<and> s \<in> lang r" "[] \<notin> lang (Seq (Class c) r)"
proof -
  show "x # s \<in> lang (Seq (Class c) r) \<longleftrightarrow> c x \<and> s \<in> lang r"
  proof
    assume "c x \<and> s \<in> lang r"
    then show "x # s \<in> lang (Seq (Class c) r)"
      unfolding lang.simps(5) lang.simps(3) mem_Collect_eq by (intro exI [of _ "[x]"] exI [of _ s]) simp
  qed auto
qed simp

lemma star_then_class:
  "s @ [y] \<in> lang (Seq (Star (Class b)) (Class a)) \<longleftrightarrow> (\<forall>c \<in> set s. b c) \<and> a y"
  "[] \<notin> lang (Seq (Star (Class b)) (Class a))"
  unfolding lang.simps(5) lang_star_class lang.simps(3) by auto

lemma lang_label: "s \<in> lang dns1123Label \<longleftrightarrow> label_ok s"
proof (cases s)
  case Nil
  then show ?thesis by (simp add: dns1123Label_def seq_class label_ok_def del: lang.simps)
next
  case (Cons x rest)
  have first: "s \<in> lang dns1123Label \<longleftrightarrow>
      lower_alnum x \<and> (rest = [] \<or> rest \<in> lang (Seq (Star (Class label_byte)) (Class lower_alnum)))"
    unfolding Cons dns1123Label_def seq_class lang.simps(4) lang.simps(2) by blast
  show ?thesis
  proof (cases rest rule: rev_cases)
    case Nil
    with first Cons show ?thesis by (auto simp: label_ok_def label_byte_def)
  next
    case (snoc m y)
    with first Cons show ?thesis unfolding snoc star_then_class by (auto simp: label_ok_def label_byte_def)
  qed
qed

lemma lang_kind: "s \<in> lang kindLiteral \<longleftrightarrow> s \<noteq> [] \<and> letter (hd s) \<and> (\<forall>c \<in> set s. alnum c)"
  by (cases s) (auto simp: kindLiteral_def lang_star_class seq_class alnum_def simp del: lang.simps)

lemma lang_uid: "s \<in> lang uidLiteral \<longleftrightarrow> s \<noteq> [] \<and> (\<forall>c \<in> set s. alnum c \<or> c = CHR ''-'')"
  by (cases s) (auto simp: uidLiteral_def lang_star_class seq_class simp del: lang.simps)

definition join_labels :: "string list \<Rightarrow> string" where
  "join_labels ls = (case ls of [] \<Rightarrow> [] | l # rest \<Rightarrow> l @ concat (map (\<lambda>m. CHR ''.'' # m) rest))"

lemma labels_not_Nil [simp]: "labels s \<noteq> []"
  by (cases s) (auto split: list.splits)

lemma join_labels_labels: "join_labels (labels s) = s"
proof (induction s)
  case (Cons c s)
  obtain l ls where ls: "labels s = l # ls" by (cases "labels s") auto
  with Cons show ?case by (simp add: join_labels_def)
qed (simp add: join_labels_def)

lemma labels_append: "CHR ''.'' \<notin> set l \<Longrightarrow> labels (l @ CHR ''.'' # s) = l # labels s"
  by (induction l) auto

lemma labels_plain: "CHR ''.'' \<notin> set l \<Longrightarrow> labels l = [l]"
  by (induction l) auto

lemma labels_join_labels:
  assumes "\<forall>l \<in> set ls. CHR ''.'' \<notin> set l" "ls \<noteq> []"
  shows "labels (join_labels ls) = ls"
  using assms
proof (induction ls)
  case (Cons l ls)
  show ?case
  proof (cases ls)
    case Nil
    with Cons show ?thesis by (simp add: join_labels_def labels_plain)
  next
    case (Cons m rest)
    with Cons.IH Cons.prems show ?thesis by (simp add: join_labels_def labels_append)
  qed
qed simp

lemma label_ok_no_dot: "label_ok l \<Longrightarrow> CHR ''.'' \<notin> set l"
proof -
  have "\<not> label_byte CHR ''.''" by (simp add: label_byte_def lower_alnum_def between_def)
  then show "label_ok l \<Longrightarrow> CHR ''.'' \<notin> set l" unfolding label_ok_def by blast
qed

lemma lang_dotted:
  "set us \<subseteq> lang (Seq (Class (\<lambda>c. c = CHR ''.'')) dns1123Label) \<longleftrightarrow>
   (\<exists>ls. us = map (\<lambda>m. CHR ''.'' # m) ls \<and> (\<forall>l \<in> set ls. label_ok l))"
proof (induction us)
  case (Cons u us)
  have u: "u \<in> lang (Seq (Class (\<lambda>c. c = CHR ''.'')) dns1123Label) \<longleftrightarrow> (\<exists>l. u = CHR ''.'' # l \<and> label_ok l)"
    by (cases u) (simp_all add: seq_class lang_label del: lang.simps)
  have "set (u # us) \<subseteq> lang (Seq (Class (\<lambda>c. c = CHR ''.'')) dns1123Label) \<longleftrightarrow>
      (\<exists>l. u = CHR ''.'' # l \<and> label_ok l) \<and> (\<exists>ls. us = map (\<lambda>m. CHR ''.'' # m) ls \<and> (\<forall>l \<in> set ls. label_ok l))"
    unfolding Cons.IH [symmetric] u [symmetric] by simp
  also have "\<dots> \<longleftrightarrow> (\<exists>ls. u # us = map (\<lambda>m. CHR ''.'' # m) ls \<and> (\<forall>l \<in> set ls. label_ok l))"
  proof
    assume "(\<exists>l. u = CHR ''.'' # l \<and> label_ok l) \<and> (\<exists>ls. us = map (\<lambda>m. CHR ''.'' # m) ls \<and> (\<forall>l \<in> set ls. label_ok l))"
    then obtain l ls where "u = CHR ''.'' # l" "label_ok l" "us = map (\<lambda>m. CHR ''.'' # m) ls" "\<forall>l \<in> set ls. label_ok l"
      by blast
    then show "\<exists>ls. u # us = map (\<lambda>m. CHR ''.'' # m) ls \<and> (\<forall>l \<in> set ls. label_ok l)"
      by (intro exI [of _ "l # ls"]) simp
  qed auto
  finally show ?case .
qed simp

lemma lang_subdomain: "s \<in> lang dns1123Subdomain \<longleftrightarrow> (\<forall>l \<in> set (labels s). label_ok l)"
proof -
  have "lang (Seq a (Seq b c)) = lang (Seq (Seq a b) c)" for a b c
    by (auto; metis append.assoc)
  then have split: "s \<in> lang dns1123Subdomain \<longleftrightarrow>
      s \<in> lang (Seq dns1123Label (Star (Seq (Class (\<lambda>c. c = CHR ''.'')) dns1123Label)))"
    by (simp add: dns1123Subdomain_def dns1123Label_def del: lang.simps)
  also have "\<dots> \<longleftrightarrow> (\<exists>l us. s = l @ concat us \<and> label_ok l
      \<and> set us \<subseteq> lang (Seq (Class (\<lambda>c. c = CHR ''.'')) dns1123Label))"
    by (auto simp only: lang.simps(5) [of dns1123Label] lang.simps(6) lang_label mem_Collect_eq)
  also have "\<dots> \<longleftrightarrow> (\<exists>ls. ls \<noteq> [] \<and> s = join_labels ls \<and> (\<forall>l \<in> set ls. label_ok l))"
    unfolding lang_dotted
  proof
    assume "\<exists>l us. s = l @ concat us \<and> label_ok l \<and> (\<exists>ls. us = map (\<lambda>m. CHR ''.'' # m) ls \<and> (\<forall>l \<in> set ls. label_ok l))"
    then obtain l ls where "s = l @ concat (map (\<lambda>m. CHR ''.'' # m) ls)" "label_ok l" "\<forall>l \<in> set ls. label_ok l" by blast
    then show "\<exists>ls. ls \<noteq> [] \<and> s = join_labels ls \<and> (\<forall>l \<in> set ls. label_ok l)"
      by (intro exI [of _ "l # ls"]) (simp add: join_labels_def)
  next
    assume "\<exists>ls. ls \<noteq> [] \<and> s = join_labels ls \<and> (\<forall>l \<in> set ls. label_ok l)"
    then obtain l ls where "s = join_labels (l # ls)" "\<forall>m \<in> set (l # ls). label_ok m" by (metis neq_Nil_conv)
    then show "\<exists>l us. s = l @ concat us \<and> label_ok l \<and> (\<exists>ls. us = map (\<lambda>m. CHR ''.'' # m) ls \<and> (\<forall>l \<in> set ls. label_ok l))"
      by (auto simp: join_labels_def)
  qed
  also have "\<dots> \<longleftrightarrow> (\<forall>l \<in> set (labels s). label_ok l)"
    using labels_join_labels label_ok_no_dot join_labels_labels labels_not_Nil by metis
  finally show ?thesis .
qed

section \<open>Properties\<close>

text \<open>The rules for names, said directly.\<close>

definition namespace_ok :: "string \<Rightarrow> bool" where
  "namespace_ok s \<longleftrightarrow> length s \<le> 63 \<and> label_ok s"

definition object_name_ok :: "string \<Rightarrow> bool" where
  "object_name_ok s \<longleftrightarrow> s \<noteq> [] \<and> length s \<le> 253 \<and> (\<forall>l \<in> set (labels s). label_ok l)"

definition narrowing_ok :: "KubernetesInvolvedObject \<Rightarrow> bool" where
  "narrowing_ok i \<longleftrightarrow>
     (io_Kind i = [] \<or> length (io_Kind i) \<le> 63 \<and> letter (hd (io_Kind i)) \<and> (\<forall>c \<in> set (io_Kind i). alnum c))
     \<and> (io_Name i = [] \<or> object_name_ok (io_Name i))
     \<and> (io_Uid i = [] \<or> length (io_Uid i) \<le> 253 \<and> (\<forall>c \<in> set (io_Uid i). alnum c \<or> c = CHR ''-''))"

lemma validNamespace_iff: "validNamespace s \<longleftrightarrow> namespace_ok s"
  by (auto simp: validNamespace_def namespace_ok_def MatchString_lang lang_label label_ok_def)

lemma validObjectName_iff: "validObjectName s \<longleftrightarrow> object_name_ok s"
  by (auto simp: validObjectName_def object_name_ok_def MatchString_lang lang_subdomain)

lemma validateNarrowing_iff: "validateNarrowing (Some i) = None \<longleftrightarrow> narrowing_ok i"
  by (auto simp: validateNarrowing_def narrowing_ok_def MatchString_lang lang_kind lang_uid validObjectName_iff)

lemmas validate_defs = validateWorkloadRuntime_def validateNamespaceEvents_def validateContainerLogs_def

text \<open>
  C31. A job's arguments pass validation exactly when its capability is one of the three this build
  dispatches and the arguments decode to a read of that kind within its bounds: a namespace
  and container are single labels of at most 63 bytes, an object name is dot-separated labels of at
  most 253, a label has no hyphen at either end; at most 50 pods, 200 events over a window of
  at most seven days, 2000 lines and 256 KiB.
\<close>

theorem validation_is_exact:
  "Validate unmarshal i v arguments = None \<longleftrightarrow>
     v = 1 \<and>
     (case unmarshal arguments of
        Some (WorkloadRuntime args) \<Rightarrow>
          i = ''kubernetes.workload.runtime'' \<and> wr_WorkloadKind args \<noteq> WORKLOAD_KIND_UNSPECIFIED
          \<and> namespace_ok (wr_Namespace args) \<and> object_name_ok (wr_WorkloadName args) \<and> wr_MaxPods args \<le> 50
      | Some (NamespaceEvents args) \<Rightarrow>
          i = ''kubernetes.namespace.events'' \<and> namespace_ok (ne_Namespace args)
          \<and> (\<exists>start finish. ne_WindowStart args = Some start \<and> ne_WindowEnd args = Some finish
               \<and> start < finish \<and> finish - start \<le> 7 * 24 * 3600 * Second)
          \<and> ne_MaxEvents args \<le> 200
          \<and> (case ne_InvolvedObject args of None \<Rightarrow> True | Some involved \<Rightarrow> narrowing_ok involved)
      | Some (ContainerLogs args) \<Rightarrow>
          i = ''kubernetes.container.logs'' \<and> namespace_ok (cl_Namespace args)
          \<and> object_name_ok (cl_PodName args) \<and> namespace_ok (cl_ContainerName args)
          \<and> cl_MaxLines args \<le> 2000 \<and> cl_MaxBytes args \<le> 256 * 1024
      | _ \<Rightarrow> False)"
proof (cases "unmarshal arguments")
  case None
  then show ?thesis by (simp add: Validate_def split: option.splits)
next
  case (Some decoded)
  show ?thesis
  proof (cases decoded)
    case (WorkloadRuntime args)
    then show ?thesis
      by (simp add: Validate_def validators_def Some validate_defs validNamespace_iff validObjectName_iff not_less [symmetric])
  next
    case (NamespaceEvents args)
    have "validateNarrowing (ne_InvolvedObject args) = None \<longleftrightarrow>
        (case ne_InvolvedObject args of None \<Rightarrow> True | Some involved \<Rightarrow> narrowing_ok involved)"
      by (cases "ne_InvolvedObject args") (simp_all add: validateNarrowing_iff, simp add: validateNarrowing_def)
    with NamespaceEvents show ?thesis
      by (cases "ne_WindowStart args"; cases "ne_WindowEnd args")
        (simp_all add: Validate_def validators_def Some validate_defs validNamespace_iff not_less [symmetric] min_less_iff_conj)
  next
    case (ContainerLogs args)
    then show ?thesis
      by (simp add: Validate_def validators_def Some validate_defs validNamespace_iff validObjectName_iff not_less [symmetric])
  next
    case NoArguments
    then show ?thesis by (simp add: Validate_def validators_def Some validate_defs)
  qed
qed

theorem validation_is_exact_witness:
  "Validate (\<lambda>_. Some (ContainerLogs \<lparr>cl_Namespace = ''prod'', cl_PodName = ''api-0.web'', cl_ContainerName = ''api'',
      cl_MaxLines = 2000, cl_MaxBytes = 1\<rparr>)) ''kubernetes.container.logs'' 1 [] = None
   \<and> Validate (\<lambda>_. Some (ContainerLogs \<lparr>cl_Namespace = ''-prod'', cl_PodName = ''api'', cl_ContainerName = ''api'',
      cl_MaxLines = 1, cl_MaxBytes = 1\<rparr>)) ''kubernetes.container.logs'' 1 [] \<noteq> None"
  by (simp add: validation_is_exact namespace_ok_def object_name_ok_def label_ok_def label_byte_def
      lower_alnum_def between_def)

end
