(* ===== verification/RelaySession.thy ===== *)
theory RelaySession
  imports RelayQueue RelayRegister Capability
begin

text \<open>
  One relay session: what the control plane does with the messages it receives
  (\<^verbatim>\<open>internal/relay/session.go\<close>, \<^verbatim>\<open>messages.go\<close>, \<^verbatim>\<open>payload.go\<close>) and how it hands out
  work (\<^verbatim>\<open>delivery.go\<close>). An operation maps the session and the job table to the error it
  returns and the new state. The environment decides what is left open: how each database call
  ends (\<open>db_fate\<close>), and whether a message finds room in the outbound queue
  (\<open>send_pick\<close>). Protobuf decoding and encoding and the \<^verbatim>\<open>uuid\<close> package are arguments.
\<close>

section \<open>Messages\<close>

text \<open>
  A protobuf message as reflection shows it: whether it is valid, its unknown bytes, and its
  populated fields.
\<close>

datatype pmessage = PMessage (pm_valid: bool) (pm_unknown: bytes) (pm_fields: "pfield list")
  and pfield =
    ScalarField
  | MessageField pmessage
  | ListField "pmessage list"
  | MapField bool "pmessage list"

fun hasUnknown :: "pmessage \<Rightarrow> bool" and fieldCarriesUnknown :: "pfield \<Rightarrow> bool" where
  "hasUnknown (PMessage valid unknown populated) =
     (if \<not> valid then False else if unknown \<noteq> [] then True else list_ex fieldCarriesUnknown populated)"
| "fieldCarriesUnknown (MapField message_values entries) =
     (if message_values then list_ex hasUnknown entries else False)"
| "fieldCarriesUnknown (ListField items) = list_ex hasUnknown items"
| "fieldCarriesUnknown (MessageField m) = hasUnknown m"
| "fieldCarriesUnknown ScalarField = False"

definition carriesUnreadableFields :: "pmessage option \<Rightarrow> bool" where
  "carriesUnreadableFields m = (case m of None \<Rightarrow> False | Some m \<Rightarrow> hasUnknown m)"

datatype Disposition =
    DISPOSITION_RECORDED
  | DISPOSITION_ALREADY_RECORDED
  | DISPOSITION_STALE_STOP_RESENDING

datatype JobFailure_Kind = KIND_CANCELLED | KIND_UNSUPPORTED_CAPABILITY_VERSION | KIND_ARGUMENTS_REJECTED | KIND_OTHER

datatype result_outcome =
    JobResult_Failure JobFailure_Kind pmessage
  | JobResult_Result pmessage
  | JobResult_None

record JobResult =
  jr_JobId :: string
  jr_LeaseEpoch :: "64 word"
  jr_Outcome :: result_outcome

record DeclaredJob =
  dj_JobId :: string
  dj_LeaseEpoch :: "64 word"

record Hello =
  hello_ProtocolVersion :: "32 word"
  hello_MaxConcurrentJobs :: "32 word"
  hello_InFlight :: "DeclaredJob list"

record JobAssignment =
  ja_JobId :: string
  ja_OrgId :: string
  ja_RegistrationId :: string
  ja_CapabilityId :: string
  ja_CapabilityVersion :: "32 word"
  ja_LeaseEpoch :: "64 word"
  ja_DeadlineBudget :: duration
  ja_IdempotencyKey :: string
  ja_Arguments :: CapabilityArguments

datatype ControlToRelay =
    SessionAccepted string "32 word" duration int int
  | Assignment JobAssignment
  | Cancellation string "64 word"
  | GracefulReconnect duration
  | DrainInstruction duration
  | ResultAck string "64 word" Disposition
  | InventorySynchronizationPolicy string "64 word" duration
  | InventoryDeltaAck string

section \<open>The session\<close>

definition leaseDuration :: duration where
  "leaseDuration = 10 * Minute"

definition executionBudget :: duration where
  "executionBudget = leaseDuration - Minute"

abbreviation maxJobsInFlight :: nat where
  "maxJobsInFlight \<equiv> 16"

abbreviation maxMessageBytes :: int where
  "maxMessageBytes \<equiv> 1048576"

datatype session_error = CtxCanceled | StreamWedged | Status code string | NoError

record sessionState =
  ss_organization :: uuid
  ss_registrationID :: uuid
  ss_id :: uuid
  ss_outbound :: "ControlToRelay list"
  ss_done :: bool
  ss_peer :: string
  ss_delivering :: bool
  ss_policies :: bool
  ss_lastHeard :: instant
  ss_capacity :: int
  ss_draining :: bool
  ss_contested :: bool
  ss_claimAfter :: duration
  ss_ended :: "(code \<times> string) option"

definition session_end :: "code \<Rightarrow> string \<Rightarrow> sessionState \<Rightarrow> sessionState" where
  "session_end c message x =
     x\<lparr>ss_ended := (case ss_ended x of None \<Rightarrow> Some (c, message) | Some e \<Rightarrow> Some e), ss_done := True\<rparr>"

definition ending :: "session_error option \<Rightarrow> sessionState \<Rightarrow> session_error option" where
  "ending err x = (case ss_ended x of Some (c, message) \<Rightarrow> Some (Status c message) | None \<Rightarrow> err)"

text \<open>
  How a \<^verbatim>\<open>send\<close> ends: the message is queued, the context is done, or the queue stays
  full for the whole send deadline.
\<close>

datatype send_pick = SendQueued | SendCtxDone | SendTimedOut

definition send :: "send_pick \<Rightarrow> ControlToRelay \<Rightarrow> sessionState \<Rightarrow> session_error option \<times> sessionState" where
  "send pick message x =
     (case pick of
        SendQueued \<Rightarrow> (None, x\<lparr>ss_outbound := ss_outbound x @ [message]\<rparr>)
      | SendCtxDone \<Rightarrow> (Some CtxCanceled, x)
      | SendTimedOut \<Rightarrow> (Some StreamWedged, session_end DeadlineExceeded ''session wedged'' x))"

text \<open>How a database call looks to its caller.\<close>

definition db_call :: "db_fate \<Rightarrow> (store_error + 'a \<times> 't) \<Rightarrow> 't \<Rightarrow> (store_error + 'a) \<times> 't" where
  "db_call fate result t =
     (case result of
        Inl e \<Rightarrow> (Inl (if fate = Reported then e else ErrDatabase), t)
      | Inr (v, t') \<Rightarrow>
          (case fate of Reported \<Rightarrow> (Inr v, t') | Lost \<Rightarrow> (Inl ErrDatabase, t) | Unreported \<Rightarrow> (Inl ErrDatabase, t')))"

section \<open>Greeting\<close>

definition capacityFrom :: "Hello \<Rightarrow> int" where
  "capacityFrom hello =
     (let declared = uint (hello_MaxConcurrentJobs hello) in
      if declared \<le> 0 then int maxJobsInFlight else min declared (int maxJobsInFlight))"

definition namedJob :: "uuid_lib \<Rightarrow> string \<Rightarrow> uuid option" where
  "namedJob lib identifier = uuid_Parse lib identifier"

fun roster_loop :: "uuid_lib \<Rightarrow> DeclaredJob list \<Rightarrow> bool \<Rightarrow> InFlightJob list \<times> bool" where
  "roster_loop lib [] complete = ([], complete)"
| "roster_loop lib (job # declared) complete =
     (case namedJob lib (dj_JobId job) of
        None \<Rightarrow> roster_loop lib declared False
      | Some jobID \<Rightarrow>
          let (inFlight, complete') = roster_loop lib declared complete in
          (\<lparr>flight_JobID = jobID, flight_LeaseEpoch = int64_of_uint64 (dj_LeaseEpoch job)\<rparr> # inFlight, complete'))"

definition readRoster :: "uuid_lib \<Rightarrow> DeclaredJob list \<Rightarrow> InFlightJob list \<times> bool" where
  "readRoster lib declared =
     (if length declared > maxJobsInFlight then roster_loop lib (take maxJobsInFlight declared) False
      else roster_loop lib declared True)"

definition adopt ::
  "uuid_lib \<Rightarrow> instant \<Rightarrow> db_fate \<Rightarrow> DeclaredJob list \<Rightarrow> sessionState \<Rightarrow> relay_job list \<Rightarrow> bool \<times> relay_job list"
where
  "adopt lib now fate declared x t =
     (let (inFlight, complete) = readRoster lib declared in
      if inFlight = [] then (complete, t)
      else let (result, t') = db_call fate
                 (AdoptInFlightLeases now (ss_organization x)
                    \<lparr>adopt_RegistrationID = ss_registrationID x, adopt_SessionID = ss_id x,
                     adopt_LeaseFor = leaseDuration, adopt_InFlight = inFlight\<rparr> t) t in
           case result of
             Inl e \<Rightarrow> (False, t')
           | Inr taken \<Rightarrow> (complete \<and> length taken = length inFlight, t'))"

definition releaseWhatTheRelayIsNotRunning ::
  "db_fate \<Rightarrow> sessionState \<Rightarrow> relay_job list \<Rightarrow> relay_job list"
where
  "releaseWhatTheRelayIsNotRunning fate x t =
     snd (db_call fate (ReleaseStrandedLeases (ss_organization x) (ss_registrationID x) (ss_id x) t) t)"

definition greet ::
  "uuid_lib \<Rightarrow> instant \<Rightarrow> db_fate \<Rightarrow> db_fate \<Rightarrow> Hello \<Rightarrow> sessionState \<Rightarrow> relay_job list
     \<Rightarrow> session_error option \<times> sessionState \<times> relay_job list"
where
  "greet lib now adopt_fate release_fate hello x t =
     (if \<not> supportsProtocol (hello_ProtocolVersion hello)
      then (Some (Status FailedPrecondition ''unsupported protocol version''), x, t)
      else let x1 = x\<lparr>ss_capacity := capacityFrom hello\<rparr>;
               (whole, t1) = adopt lib now adopt_fate (hello_InFlight hello) x1 t;
               t2 = (if whole \<and> \<not> ss_contested x1 then releaseWhatTheRelayIsNotRunning release_fate x1 t1 else t1) in
           (None, x1\<lparr>ss_delivering := True, ss_policies := True\<rparr>, t2))"

section \<open>Results\<close>

text \<open>\<open>marshal\<close> is the third-party \<^verbatim>\<open>proto.Marshal\<close>; a message it cannot encode is stored as nothing.\<close>

definition outcomeOf :: "(pmessage \<Rightarrow> bytes option) \<Rightarrow> JobResult \<Rightarrow> session_error + JobOutcome" where
  "outcomeOf marshal result =
     (let unreadable = Status InvalidArgument ''capability payload not understood'' in
      case jr_Outcome result of
        JobResult_Failure kind m \<Rightarrow>
          if carriesUnreadableFields (Some m) then Inl unreadable
          else Inr \<lparr>outcome_Status = (if kind = KIND_CANCELLED then JobCancelled else JobFailed),
                    outcome_Result = marshal m\<rparr>
      | JobResult_Result m \<Rightarrow>
          if carriesUnreadableFields (Some m) then Inl unreadable
          else Inr \<lparr>outcome_Status = JobSucceeded, outcome_Result = marshal m\<rparr>
      | JobResult_None \<Rightarrow> Inl unreadable)"

definition acknowledge ::
  "send_pick \<Rightarrow> JobResult \<Rightarrow> (store_error + unit) \<Rightarrow> sessionState \<Rightarrow> session_error option \<times> sessionState"
where
  "acknowledge pick result answer x =
     (let ack = (\<lambda>d. send pick (ResultAck (jr_JobId result) (jr_LeaseEpoch result) d) x) in
      case answer of
        Inr _ \<Rightarrow> ack DISPOSITION_RECORDED
      | Inl (ErrResultRefused ResultLeaseNotHeld) \<Rightarrow> (None, x)
      | Inl (ErrResultRefused ResultAlreadyRecorded) \<Rightarrow> ack DISPOSITION_ALREADY_RECORDED
      | Inl (ErrResultRefused _) \<Rightarrow> ack DISPOSITION_STALE_STOP_RESENDING
      | Inl _ \<Rightarrow> (None, x))"

definition recordAndAcknowledge ::
  "uuid_lib \<Rightarrow> (pmessage \<Rightarrow> bytes option) \<Rightarrow> instant \<Rightarrow> db_fate \<Rightarrow> send_pick \<Rightarrow> JobResult \<Rightarrow> sessionState
     \<Rightarrow> relay_job list \<Rightarrow> relay_job list \<Rightarrow> session_error option \<times> sessionState \<times> relay_job list"
where
  "recordAndAcknowledge lib marshal now fate pick result x t later =
     (case namedJob lib (jr_JobId result) of
        None \<Rightarrow> (None, x, t)
      | Some jobID \<Rightarrow>
          (case outcomeOf marshal result of
             Inl err \<Rightarrow> (Some err, x, t)
           | Inr outcome \<Rightarrow>
               let fence = \<lparr>fence_JobID = jobID, fence_LeaseSession = ss_id x,
                            fence_LeaseEpoch = int64_of_uint64 (jr_LeaseEpoch result)\<rparr>;
                   (answer, t1) = RecordResult now (ss_organization x) fence outcome t later;
                   (seen, t2) = (case fate of Reported \<Rightarrow> (answer, t1) | Lost \<Rightarrow> (Inl ErrDatabase, t)
                                 | Unreported \<Rightarrow> (Inl ErrDatabase, t1));
                   (err, x') = acknowledge pick result seen x in
               (err, x', t2)))"

section \<open>Handing out work\<close>

definition assignmentFor ::
  "uuid_lib \<Rightarrow> (bytes \<Rightarrow> CapabilityArguments option) \<Rightarrow> sessionState \<Rightarrow> RelayJob \<Rightarrow> capability_error + ControlToRelay"
where
  "assignmentFor lib unmarshal x job =
     (case Validate unmarshal (rj_CapabilityID job) (rj_CapabilityVersion job) (rj_Arguments job) of
        Some err \<Rightarrow> Inl err
      | None \<Rightarrow>
          (case unmarshal (rj_Arguments job) of
             None \<Rightarrow> Inl ErrInvalidArguments
           | Some arguments \<Rightarrow>
               Inr (Assignment
                 \<lparr>ja_JobId = uuid_String lib (rj_ID job), ja_OrgId = uuid_String lib (ss_organization x),
                  ja_RegistrationId = uuid_String lib (ss_registrationID x),
                  ja_CapabilityId = rj_CapabilityID job, ja_CapabilityVersion = rj_CapabilityVersion job,
                  ja_LeaseEpoch = uint64_of_int64 (rj_LeaseEpoch job), ja_DeadlineBudget = executionBudget,
                  ja_IdempotencyKey = uuid_String lib (rj_ID job), ja_Arguments = arguments\<rparr>)))"

definition refusalKind :: "capability_error \<Rightarrow> JobFailure_Kind" where
  "refusalKind cause =
     (if cause = ErrUnknownCapability then KIND_UNSUPPORTED_CAPABILITY_VERSION else KIND_ARGUMENTS_REJECTED)"

text \<open>\<open>marshal_failure\<close> encodes a failure message that has nothing but its kind.\<close>

definition failUndeliverable ::
  "(JobFailure_Kind \<Rightarrow> bytes option) \<Rightarrow> instant \<Rightarrow> db_fate \<Rightarrow> sessionState \<Rightarrow> RelayJob \<Rightarrow> capability_error
     \<Rightarrow> relay_job list \<Rightarrow> relay_job list"
where
  "failUndeliverable marshal_failure now fate x job cause t =
     (let outcome = \<lparr>outcome_Status = JobFailed, outcome_Result = marshal_failure (refusalKind cause)\<rparr>;
          fence = \<lparr>fence_JobID = rj_ID job, fence_LeaseSession = ss_id x, fence_LeaseEpoch = rj_LeaseEpoch job\<rparr> in
      if fate = Lost then t else snd (RecordResult now (ss_organization x) fence outcome t t))"

record delivery_env =
  de_lib :: uuid_lib
  de_unmarshal :: "bytes \<Rightarrow> CapabilityArguments option"
  de_marshal_failure :: "JobFailure_Kind \<Rightarrow> bytes option"
  de_now :: instant
  de_locked :: "uuid \<Rightarrow> bool"
  de_fail_fate :: "uuid \<Rightarrow> db_fate"
  de_pick :: "uuid \<Rightarrow> send_pick"

fun dispatch_loop ::
  "delivery_env \<Rightarrow> RelayJob list \<Rightarrow> sessionState \<Rightarrow> relay_job list \<Rightarrow> session_error option \<times> sessionState \<times> relay_job list"
where
  "dispatch_loop env [] x t = (None, x, t)"
| "dispatch_loop env (job # claimed) x t =
     (case assignmentFor (de_lib env) (de_unmarshal env) x job of
        Inl cause \<Rightarrow>
          dispatch_loop env claimed x
            (failUndeliverable (de_marshal_failure env) (de_now env) (de_fail_fate env (rj_ID job)) x job cause t)
      | Inr assignment \<Rightarrow>
          (case send (de_pick env (rj_ID job)) assignment x of
             (Some err, x') \<Rightarrow> (Some err, x', t)
           | (None, x') \<Rightarrow> dispatch_loop env claimed x' t))"

definition dispatchWork ::
  "delivery_env \<Rightarrow> db_fate \<Rightarrow> sessionState \<Rightarrow> relay_job list
     \<Rightarrow> (store_error + session_error) option \<times> sessionState \<times> relay_job list"
where
  "dispatchWork env fate x t =
     (if ss_draining x then (None, x, t)
      else let (result, t') = db_call fate
                 (ClaimJobs (de_now env) (de_locked env) (ss_organization x)
                    \<lparr>claim_RegistrationID = ss_registrationID x, claim_SessionID = ss_id x,
                     claim_LeaseFor = leaseDuration, claim_Capacity = ss_capacity x\<rparr> t) t in
           case result of
             Inl e \<Rightarrow> (Some (Inl e), x, t')
           | Inr claimed \<Rightarrow>
               let (err, x', t'') = dispatch_loop env claimed x t' in (map_option Inr err, x', t''))"

text \<open>
  \<open>told\<close> holds the executions the relay has been told to stop; \<open>picks\<close> how each send ends.
\<close>

definition execution_of :: "JobFence \<Rightarrow> InFlightJob" where
  "execution_of fence = \<lparr>flight_JobID = fence_JobID fence, flight_LeaseEpoch = fence_LeaseEpoch fence\<rparr>"

definition cancelling :: "uuid_lib \<Rightarrow> JobFence \<Rightarrow> ControlToRelay" where
  "cancelling lib fence = Cancellation (uuid_String lib (fence_JobID fence)) (uint64_of_int64 (fence_LeaseEpoch fence))"

fun tell_loop ::
  "uuid_lib \<Rightarrow> (InFlightJob \<Rightarrow> send_pick) \<Rightarrow> JobFence list \<Rightarrow> sessionState \<Rightarrow> InFlightJob list
     \<Rightarrow> session_error option \<times> sessionState \<times> InFlightJob list"
where
  "tell_loop lib picks [] x told = (None, x, told)"
| "tell_loop lib picks (fence # pending) x told =
     (let execution = execution_of fence in
      if execution \<in> set told then tell_loop lib picks pending x told
      else (case send (picks execution) (cancelling lib fence) x of
              (Some err, x') \<Rightarrow> (Some err, x', told)
            | (None, x') \<Rightarrow> tell_loop lib picks pending x' (told @ [execution])))"

definition dispatchCancellations ::
  "uuid_lib \<Rightarrow> (InFlightJob \<Rightarrow> send_pick) \<Rightarrow> db_fate \<Rightarrow> sessionState \<Rightarrow> InFlightJob list \<Rightarrow> relay_job list
     \<Rightarrow> (store_error + session_error) option \<times> sessionState \<times> InFlightJob list"
where
  "dispatchCancellations lib picks fate x told t =
     (case (if fate = Reported then PendingCancellations (ss_organization x) (ss_id x) t else Inl ErrDatabase) of
        Inl e \<Rightarrow> (Some (Inl e), x, told)
      | Inr pending \<Rightarrow>
          let outstanding = map execution_of pending;
              (err, x', told') = tell_loop lib picks pending x (filter (\<lambda>e. e \<in> set outstanding) told) in
          (map_option Inr err, x', told'))"

definition deliverOnce ::
  "delivery_env \<Rightarrow> (InFlightJob \<Rightarrow> send_pick) \<Rightarrow> db_fate \<Rightarrow> db_fate \<Rightarrow> sessionState \<Rightarrow> InFlightJob list \<Rightarrow> relay_job list
     \<Rightarrow> (store_error + session_error) option \<times> sessionState \<times> InFlightJob list \<times> relay_job list"
where
  "deliverOnce env picks claim_fate cancel_fate x told t =
     (case dispatchWork env claim_fate x t of
        (Some err, x', t') \<Rightarrow> (Some err, x', told, t')
      | (None, x', t') \<Rightarrow>
          let (err, x'', told') = dispatchCancellations (de_lib env) picks cancel_fate x' told t' in
          (err, x'', told', t'))"

section \<open>Lemmas\<close>

lemma send_outbound:
  "ss_outbound (snd (send pick m x)) = ss_outbound x @ (if pick = SendQueued then [m] else [])"
  by (cases pick) (simp_all add: send_def session_end_def)

lemma send_keeps [simp]:
  "ss_organization (snd (send pick m x)) = ss_organization x" "ss_id (snd (send pick m x)) = ss_id x"
  "ss_registrationID (snd (send pick m x)) = ss_registrationID x"
  by (cases pick; simp add: send_def session_end_def)+

lemma send_None: "send pick m x = (None, x') \<Longrightarrow> pick = SendQueued \<and> x' = x\<lparr>ss_outbound := ss_outbound x @ [m]\<rparr>"
  by (cases pick) (auto simp: send_def)

lemma capacityFrom_range: "1 \<le> capacityFrom hello \<and> capacityFrom hello \<le> 16"
proof -
  define declared where "declared = uint (hello_MaxConcurrentJobs hello)"
  show ?thesis unfolding capacityFrom_def Let_def declared_def [symmetric] by auto
qed

lemma outcomeOf_terminal: "outcomeOf marshal result = Inr outcome \<Longrightarrow> terminal (outcome_Status outcome)"
  by (auto simp: outcomeOf_def Let_def split: result_outcome.splits if_splits)

lemma acknowledge_outbound:
  assumes "acknowledge pick result answer x = (err, x')"
  shows "ss_outbound x' = ss_outbound x
    \<or> (\<exists>d. ss_outbound x' = ss_outbound x @ [ResultAck (jr_JobId result) (jr_LeaseEpoch result) d]
        \<and> (d = DISPOSITION_RECORDED \<longleftrightarrow> answer = Inr ())
        \<and> (answer \<noteq> Inr () \<longrightarrow> (\<exists>why. answer = Inl (ErrResultRefused why) \<and> why \<noteq> ResultLeaseNotHeld)))"
proof -
  have sent: "ss_outbound (snd (send pick m x)) = ss_outbound x \<or> ss_outbound (snd (send pick m x)) = ss_outbound x @ [m]"
    for m by (simp add: send_outbound)
  from assms have x': "x' = snd (acknowledge pick result answer x)" by simp
  show ?thesis
    unfolding x' acknowledge_def Let_def
    using sent by (auto split: sum.splits store_error.splits ResultRefusal.splits)
qed

lemma RecordResult_outcomes:
  assumes "jobs_inv t" "RecordResult now organization fence outcome t later = (answer, t')"
    and "terminal (outcome_Status outcome)"
  shows "(answer = Inr () \<longrightarrow> (\<exists>r. row_of job_id (fence_JobID fence) t' = Some (finished now outcome r)))
    \<and> (answer = Inl (ErrResultRefused why) \<longrightarrow> t' = t \<and> explainRefusedResult organization fence later = Inl (ErrResultRefused why))"
proof (cases "\<exists>r. row_of job_id (fence_JobID fence) t = Some r \<and> fence_holds organization fence r \<and> organization \<noteq> uuid_Nil")
  case True
  then obtain r where r: "row_of job_id (fence_JobID fence) t = Some r" "fence_holds organization fence r" "organization \<noteq> uuid_Nil"
    by blast
  from RecordResult_accepted [OF assms(1) r(3) assms(3) r(1,2), of now later] assms(2) r
  show ?thesis by (auto simp: row_of_update_where)
next
  case False
  show ?thesis
  proof (cases "organization = uuid_Nil")
    case True
    with assms(2) show ?thesis by (auto simp: RecordResult_def poolForOrganization_def)
  next
    case known: False
    with False have none: "\<And>r. row_of job_id (fence_JobID fence) t = Some r \<Longrightarrow> \<not> fence_holds organization fence r" by blast
    have "answer = fst (RecordResult now organization fence outcome t later)"
      "t' = snd (RecordResult now organization fence outcome t later)" using assms(2) by simp_all
    with RecordResult_refused [OF assms(1) none] have "answer \<noteq> Inr ()" "t' = t" by simp_all
    moreover have "rows_affected (fence_holds organization fence) t = 0"
      using none assms(1) row_of_iff [of job_id t] by (auto simp: rows_affected_0 jobs_inv_def fence_holds_def)
    with assms(2) known have "answer = explainRefusedResult organization fence later"
      by (auto simp: RecordResult_def poolForOrganization_def Let_def)
    ultimately show ?thesis by auto
  qed
qed

lemma explain_unknown:
  assumes "explainRefusedResult organization fence t = Inl (ErrResultRefused ResultJobUnknown)"
  shows "\<forall>r \<in> set t. \<not> (job_id r = fence_JobID fence \<and> job_org r = organization)"
  using assms
  by (auto simp: explainRefusedResult_def in_organization_def poolForOrganization_def filter_empty_conv split: sum.splits list.splits if_splits)

text \<open>A refusal that is not a matter of who holds the lease is final: the job is unknown to the organization,
  or no later state of the queue takes a result under that epoch, whatever session reports it.\<close>

lemma explained_refusal_is_final:
  assumes explain: "explainRefusedResult organization fence later = Inl (ErrResultRefused why)"
    and why: "why \<noteq> ResultLeaseNotHeld" and inv: "jobs_inv later"
  shows "(\<forall>r \<in> set later. \<not> (job_id r = fence_JobID fence \<and> job_org r = organization))
    \<or> (\<forall>t'' now' session outcome later'. job_step\<^sup>*\<^sup>* later t'' \<longrightarrow>
        fst (RecordResult now' organization \<lparr>fence_JobID = fence_JobID fence, fence_LeaseSession = session,
          fence_LeaseEpoch = fence_LeaseEpoch fence\<rparr> outcome t'' later') \<noteq> Inr ())"
proof (cases "why = ResultJobUnknown")
  case True
  with explain_unknown [of organization fence later] explain show ?thesis by simp
next
  case False
  with why have "why = ResultAlreadyRecorded \<or> why = ResultFenceSuperseded" by (cases why) auto
  from explain_stale [OF explain this inv] obtain r where r: "row_of job_id (fence_JobID fence) later = Some r"
      "terminal (job_status r) \<or> fence_LeaseEpoch fence < job_lease_epoch r" by blast
  have "fst (RecordResult now' organization \<lparr>fence_JobID = fence_JobID fence, fence_LeaseSession = session,
      fence_LeaseEpoch = fence_LeaseEpoch fence\<rparr> o' t'' later') \<noteq> Inr ()" (is "fst (RecordResult _ _ ?f _ _ _) \<noteq> _")
    if run: "job_step\<^sup>*\<^sup>* later t''" for now' session o' t'' later'
  proof (rule RecordResult_refused(1) [OF jobs.run_invariant [OF run inv]])
    show "\<not> fence_holds organization ?f r'" if "row_of job_id (fence_JobID ?f) t'' = Some r'" for r'
      using jobs.refused_forever [OF run inv r(1), of ?f r'] r(2) that by simp
  qed
  then show ?thesis by blast
qed

text \<open>What the roster a relay declares is read as, and what adopting it does to one row.\<close>

lemma roster_loop_reads:
  assumes "roster_loop lib declared complete = (inFlight, complete')"
  shows "complete' \<longleftrightarrow> complete \<and> (\<forall>d \<in> set declared. namedJob lib (dj_JobId d) \<noteq> None)"
    and "d \<in> set declared \<Longrightarrow> namedJob lib (dj_JobId d) = Some j \<Longrightarrow>
      \<lparr>flight_JobID = j, flight_LeaseEpoch = int64_of_uint64 (dj_LeaseEpoch d)\<rparr> \<in> set inFlight"
proof -
  have "(complete' \<longleftrightarrow> complete \<and> (\<forall>d \<in> set declared. namedJob lib (dj_JobId d) \<noteq> None))
      \<and> (\<forall>d \<in> set declared. \<forall>j. namedJob lib (dj_JobId d) = Some j \<longrightarrow>
            \<lparr>flight_JobID = j, flight_LeaseEpoch = int64_of_uint64 (dj_LeaseEpoch d)\<rparr> \<in> set inFlight)"
    using assms
    by (induction lib declared complete arbitrary: inFlight complete' rule: roster_loop.induct)
       (fastforce split: option.splits prod.splits)+
  then show "complete' \<longleftrightarrow> complete \<and> (\<forall>d \<in> set declared. namedJob lib (dj_JobId d) \<noteq> None)"
    and "d \<in> set declared \<Longrightarrow> namedJob lib (dj_JobId d) = Some j \<Longrightarrow>
      \<lparr>flight_JobID = j, flight_LeaseEpoch = int64_of_uint64 (dj_LeaseEpoch d)\<rparr> \<in> set inFlight"
    by blast+
qed

lemma readRoster_complete:
  assumes "readRoster lib declared = (inFlight, True)"
  shows "length declared \<le> 16" "\<forall>d \<in> set declared. namedJob lib (dj_JobId d) \<noteq> None"
    and "d \<in> set declared \<Longrightarrow> namedJob lib (dj_JobId d) = Some j \<Longrightarrow>
      \<lparr>flight_JobID = j, flight_LeaseEpoch = int64_of_uint64 (dj_LeaseEpoch d)\<rparr> \<in> set inFlight"
proof -
  have small: "length declared \<le> 16"
    using assms roster_loop_reads(1) [of lib "take 16 declared" False inFlight True]
    by (auto simp: readRoster_def split: if_splits)
  then have "roster_loop lib declared True = (inFlight, True)" using assms by (simp add: readRoster_def)
  from small roster_loop_reads [OF this] show "length declared \<le> 16"
    "\<forall>d \<in> set declared. namedJob lib (dj_JobId d) \<noteq> None"
    "d \<in> set declared \<Longrightarrow> namedJob lib (dj_JobId d) = Some j \<Longrightarrow>
      \<lparr>flight_JobID = j, flight_LeaseEpoch = int64_of_uint64 (dj_LeaseEpoch d)\<rparr> \<in> set inFlight" by auto
qed

lemma adopt_row:
  assumes "adopt lib now fate declared x t = (whole, t')" "row_of job_id i t = Some r"
  obtains r' where "row_of job_id i t' = Some r'" "job_status r' = job_status r"
    "job_lease_epoch r' = job_lease_epoch r" "released r' = released r"
    "whole \<Longrightarrow> \<exists>inFlight. readRoster lib declared = (inFlight, True)
       \<and> (job_status r = JobLeased \<and> job_org r = ss_organization x \<and> job_registration r = ss_registrationID x
          \<and> \<lparr>flight_JobID = i, flight_LeaseEpoch = job_lease_epoch r\<rparr> \<in> set inFlight
          \<longrightarrow> job_lease_session r' = Some (ss_id x))
       \<and> job_org r' = job_org r \<and> job_registration r' = job_registration r"
proof -
  obtain inFlight complete where roster: "readRoster lib declared = (inFlight, complete)" by fastforce
  define a where "a = \<lparr>adopt_RegistrationID = ss_registrationID x, adopt_SessionID = ss_id x,
      adopt_LeaseFor = leaseDuration, adopt_InFlight = inFlight\<rparr>"
  have i: "job_id r = i" using row_of_Some [OF assms(2)] by simp
  have p: "declared_in_flight (ss_organization x) a r"
    if "job_status r = JobLeased" "job_org r = ss_organization x" "job_registration r = ss_registrationID x"
      "\<lparr>flight_JobID = i, flight_LeaseEpoch = job_lease_epoch r\<rparr> \<in> set inFlight"
    using that i by (auto simp: declared_in_flight_def a_def list_ex_iff intro!: bexI)
  let ?r' = "if declared_in_flight (ss_organization x) a r then adopted now a r else r"
  from assms(1) roster consider "t' = t" "whole \<Longrightarrow> inFlight = [] \<and> complete"
    | "t' = update_where (declared_in_flight (ss_organization x) a) (adopted now a) t" "whole \<Longrightarrow> complete"
    by (auto simp: adopt_def a_def [symmetric] db_call_def AdoptInFlightLeases_def
        in_organization_def poolForOrganization_def split: if_splits sum.splits db_fate.splits)
  then show thesis
  proof cases
    case 1
    with assms(2) roster show thesis by (intro that [of r]) auto
  next
    case 2
    have "row_of job_id i t' = Some ?r'" using assms(2) by (simp add: 2(1) row_of_update_where adopted_def)
    with 2 p roster show thesis
      by (intro that [of ?r']) (auto simp: adopted_def released_def a_def)
  qed
qed

lemma releaseWhatTheRelayIsNotRunning_row:
  assumes "row_of job_id i t = Some r"
  shows "row_of job_id i (releaseWhatTheRelayIsNotRunning fate x t) = Some r
    \<or> (stranded (ss_organization x) (ss_registrationID x) (ss_id x) r
       \<and> row_of job_id i (releaseWhatTheRelayIsNotRunning fate x t) = Some (released r))"
proof -
  let ?p = "stranded (ss_organization x) (ss_registrationID x) (ss_id x)"
  have "releaseWhatTheRelayIsNotRunning fate x t \<in> {t, update_where ?p released t}"
    by (auto simp: releaseWhatTheRelayIsNotRunning_def db_call_def ReleaseStrandedLeases_def Let_def
        in_organization_def split: sum.splits db_fate.splits if_splits)
  moreover have "row_of job_id i (update_where ?p released t) = Some (if ?p r then released r else r)"
    using assms by (simp add: row_of_update_where)
  ultimately show ?thesis using assms by (auto split: if_splits)
qed

text \<open>What a pass over the pending cancellations sends.\<close>

lemma tell_loop_sent:
  assumes "tell_loop lib picks pending x told = (None, x', told')"
  obtains sent where "told' = told @ map execution_of sent" "ss_outbound x' = ss_outbound x @ map (cancelling lib) sent"
    "distinct (map execution_of sent)" "set sent \<subseteq> set pending"
    "execution_of ` set sent = execution_of ` set pending - set told"
    "ss_organization x' = ss_organization x" "ss_id x' = ss_id x"
proof -
  have "\<exists>sent. told' = told @ map execution_of sent \<and> ss_outbound x' = ss_outbound x @ map (cancelling lib) sent
      \<and> distinct (map execution_of sent) \<and> set sent \<subseteq> set pending
      \<and> execution_of ` set sent = execution_of ` set pending - set told
      \<and> ss_organization x' = ss_organization x \<and> ss_id x' = ss_id x"
    using assms
  proof (induction lib picks pending x told rule: tell_loop.induct)
    case (2 lib picks fence pending x told)
    show ?case
    proof (cases "execution_of fence \<in> set told")
      case True
      with 2(1) [OF refl True] 2(3) show ?thesis by (auto simp: Let_def insert_absorb)
    next
      case False
      then obtain x1 where s: "send (picks (execution_of fence)) (cancelling lib fence) x = (None, x1)"
        and rest: "tell_loop lib picks pending x1 (told @ [execution_of fence]) = (None, x', told')"
        using 2(3) by (auto simp: Let_def split: prod.splits option.splits)
      note x1 = send_None [OF s]
      from 2(2) [OF refl False s [symmetric] refl rest] obtain sent where sent:
        "told' = (told @ [execution_of fence]) @ map execution_of sent"
        "ss_outbound x' = ss_outbound x1 @ map (cancelling lib) sent"
        "distinct (map execution_of sent)" "set sent \<subseteq> set pending"
        "execution_of ` set sent = execution_of ` set pending - set (told @ [execution_of fence])"
        "ss_organization x' = ss_organization x1" "ss_id x' = ss_id x1"
        by blast
      have "execution_of fence \<notin> execution_of ` set sent" unfolding sent(5) by simp
      with sent False x1 show ?thesis by (intro exI [of _ "fence # sent"]) auto
    qed
  qed simp
  then show thesis using that by blast
qed

lemma tell_loop_all_told:
  "execution_of ` set pending \<subseteq> set told \<Longrightarrow> tell_loop lib picks pending x told = (None, x, told)"
  by (induction pending) (auto simp: Let_def)

text \<open>Claimed work is either on its way or failed when the pass ends without an error.\<close>

lemma assignmentFor_outbound [simp]: "assignmentFor lib unmarshal (x\<lparr>ss_outbound := q\<rparr>) job = assignmentFor lib unmarshal x job"
  by (simp add: assignmentFor_def split: option.splits)

abbreviation lease_fence :: "sessionState \<Rightarrow> RelayJob \<Rightarrow> JobFence" where
  "lease_fence x job \<equiv> \<lparr>fence_JobID = rj_ID job, fence_LeaseSession = ss_id x, fence_LeaseEpoch = rj_LeaseEpoch job\<rparr>"

abbreviation leased_as :: "sessionState \<Rightarrow> relay_job list \<Rightarrow> RelayJob \<Rightarrow> bool" where
  "leased_as x t job \<equiv> \<exists>r. row_of job_id (rj_ID job) t = Some r \<and> fence_holds (ss_organization x) (lease_fence x job) r"

definition handled :: "delivery_env \<Rightarrow> sessionState \<Rightarrow> ControlToRelay list \<Rightarrow> relay_job list \<Rightarrow> relay_job list \<Rightarrow> RelayJob \<Rightarrow> bool" where
  "handled env x sent t t' job \<longleftrightarrow>
     (\<exists>a. assignmentFor (de_lib env) (de_unmarshal env) x job = Inr a \<and> a \<in> set sent
        \<and> row_of job_id (rj_ID job) t' = row_of job_id (rj_ID job) t)
     \<or> (\<exists>cause r. assignmentFor (de_lib env) (de_unmarshal env) x job = Inl cause
        \<and> row_of job_id (rj_ID job) t' = Some r \<and> job_status r = JobFailed)"

lemma failUndeliverable_row:
  assumes "jobs_inv t" "ss_organization x \<noteq> uuid_Nil" "fate \<noteq> Lost" "leased_as x t job"
    and t'_def: "t' = failUndeliverable mf now fate x job cause t"
  shows "\<exists>r. row_of job_id (rj_ID job) t' = Some r \<and> job_status r = JobFailed" "jobs_inv t'"
    and "i \<noteq> rj_ID job \<Longrightarrow> row_of job_id i t' = row_of job_id i t"
proof -
  let ?o = "\<lparr>outcome_Status = JobFailed, outcome_Result = mf (refusalKind cause)\<rparr>"
  let ?p = "fence_holds (ss_organization x) (lease_fence x job)"
  obtain r where r: "row_of job_id (rj_ID job) t = Some r" "?p r" using assms(4) by blast
  have rec: "RecordResult now (ss_organization x) (lease_fence x job) ?o t t = (Inr (), update_where ?p (finished now ?o) t)"
    using RecordResult_accepted [OF assms(1,2), of ?o "lease_fence x job" r now t] r by simp
  then have t': "t' = update_where ?p (finished now ?o) t" using assms(3) by (simp add: t'_def failUndeliverable_def)
  then show "\<exists>r. row_of job_id (rj_ID job) t' = Some r \<and> job_status r = JobFailed"
    using r by (auto simp: row_of_update_where finished_def)
  show "jobs_inv t'" using record_keeps [OF assms(1) rec] t' by blast
  assume "i \<noteq> rj_ID job"
  then show "row_of job_id i t' = row_of job_id i t"
    unfolding t' by (cases "row_of job_id i t") (auto simp: row_of_update_where fence_holds_def dest: row_of_Some)
qed

lemma dispatch_loop_handles:
  assumes "dispatch_loop env claimed x t = (None, x', t')" "jobs_inv t" "ss_organization x \<noteq> uuid_Nil"
    and "\<And>i. de_fail_fate env i \<noteq> Lost" "distinct (map rj_ID claimed)" "\<And>job. job \<in> set claimed \<Longrightarrow> leased_as x t job"
  shows "\<exists>sent. ss_outbound x' = ss_outbound x @ sent \<and> (\<forall>job \<in> set claimed. handled env x sent t t' job)
    \<and> (\<forall>i. i \<notin> rj_ID ` set claimed \<longrightarrow> row_of job_id i t' = row_of job_id i t)"
  using assms
proof (induction env claimed x t rule: dispatch_loop.induct)
  case (2 env job claimed x t)
  show ?case
  proof (cases "assignmentFor (de_lib env) (de_unmarshal env) x job")
    case (Inl cause)
    define t1 where "t1 = failUndeliverable (de_marshal_failure env) (de_now env) (de_fail_fate env (rj_ID job)) x job cause t"
    have rest: "dispatch_loop env claimed x t1 = (None, x', t')" using 2(3) Inl by (simp add: t1_def)
    note row = failUndeliverable_row [OF 2(4,5,6) 2(8) t1_def, simplified]
    have leased: "leased_as x t1 j" if "j \<in> set claimed" for j
    proof -
      have "rj_ID j \<noteq> rj_ID job" using that 2(7) by (metis distinct.simps(2) image_eqI list.simps(9) set_map)
      with row(3) 2(8) [of j] that show ?thesis by simp
    qed
    from 2(1) [OF Inl rest [unfolded t1_def] row(2) [unfolded t1_def] 2(5,6) _ leased [unfolded t1_def]] 2(7)
    obtain sent where sent: "ss_outbound x' = ss_outbound x @ sent" "\<forall>j \<in> set claimed. handled env x sent t1 t' j"
      "\<forall>i. i \<notin> rj_ID ` set claimed \<longrightarrow> row_of job_id i t' = row_of job_id i t1"
      by (auto simp: t1_def)
    have "handled env x sent t t' job" using sent(3) row(1) 2(7) Inl by (auto simp: handled_def)
    moreover have "handled env x sent t t' j" if "j \<in> set claimed" for j
    proof -
      have "rj_ID j \<noteq> rj_ID job" using that 2(7) by (metis distinct.simps(2) image_eqI list.simps(9) set_map)
      then have "row_of job_id (rj_ID j) t1 = row_of job_id (rj_ID j) t" using row(3) by blast
      moreover have "handled env x sent t1 t' j" using sent(2) that by blast
      ultimately show ?thesis unfolding handled_def by presburger
    qed
    ultimately show ?thesis using sent(1,3) row(3) by (intro exI [of _ sent]) auto
  next
    case (Inr a)
    then obtain x1 where s: "send (de_pick env (rj_ID job)) a x = (None, x1)"
      and rest: "dispatch_loop env claimed x1 t = (None, x', t')"
      using 2(3) by (auto split: prod.splits option.splits)
    have x1: "x1 = x\<lparr>ss_outbound := ss_outbound x @ [a]\<rparr>" using send_None [OF s] by simp
    have leased: "leased_as x1 t j" if "j \<in> set claimed" for j using 2(8) [of j] that by (simp add: x1)
    from 2(2) [OF Inr s [symmetric] refl rest 2(4) _ 2(6) _ leased] 2(5,7)
    obtain sent where sent: "ss_outbound x' = ss_outbound x1 @ sent" "\<forall>j \<in> set claimed. handled env x1 sent t t' j"
      "\<forall>i. i \<notin> rj_ID ` set claimed \<longrightarrow> row_of job_id i t' = row_of job_id i t"
      by (auto simp: x1)
    have "handled env x (a # sent) t t' job" using sent(3) 2(7) Inr by (auto simp: handled_def)
    moreover have "handled env x (a # sent) t t' j" if "j \<in> set claimed" for j
      using sent(2) that by (auto simp: handled_def x1)
    ultimately show ?thesis using sent(1,3) by (intro exI [of _ "a # sent"]) (auto simp: x1)
  qed
qed simp

lemma claim_leases:
  assumes "jobs_inv t" "ClaimJobs now locked organization c t = Inr (claimed, t')"
    and "organization = ss_organization x" "claim_SessionID c = ss_id x"
  shows "distinct (map rj_ID claimed)" "job \<in> set claimed \<Longrightarrow> leased_as x t' job"
proof -
  show "distinct (map rj_ID claimed)"
    using assms(1) unfolding ClaimJobs_result(2) [OF assms(2)] jobs_inv_def
    by (simp add: comp_def claimed_job_def lease_to_def distinct_map_filter)
  assume job: "job \<in> set claimed"
  obtain q where q: "q \<in> set t" "job = claimed_job (lease_to now c q)" using claimed_job_row [OF assms(2) job] .
  then have old: "row_of job_id (rj_ID job) t = Some q"
    using row_of_iff [of job_id t] assms(1) by (simp add: jobs_inv_def claimed_job_def lease_to_def)
  have "row_of job_id (rj_ID job) t' = Some (lease_to now c q)"
    using claim_row(1) [OF assms(1,2) old] job by auto
  moreover have "job_org q = ss_organization x"
    using claim_row(2) [OF assms(1,2) old] job assms(3) by (auto simp: claimable_def)
  ultimately show "leased_as x t' job" using q(2) assms(4) by (auto simp: fence_holds_def claimed_job_def lease_to_def)
qed

section \<open>Properties\<close>

text \<open>
  C27. An acknowledgement never lies, so no result is lost. The relay is told its result is
  recorded only when the job's row holds that very outcome. It is told to stop resending only
  when the result can never be recorded any more: from the moment the refusal was explained,
  whatever statements follow, recording it is refused under this session and under any
  other, or the organization has no such job. In every other case, a lost connection
  included, there is silence, and the relay resends.
\<close>

theorem acknowledgement_is_truthful:
  assumes "jobs_inv t" "job_step\<^sup>*\<^sup>* t later" "namedJob lib (jr_JobId result) = Some jobID"
    and "recordAndAcknowledge lib marshal now fate pick result x t later = (err, x', t')"
  shows "ss_outbound x' = ss_outbound x
    \<or> (\<exists>d. ss_outbound x' = ss_outbound x @ [ResultAck (jr_JobId result) (jr_LeaseEpoch result) d]
        \<and> (if d = DISPOSITION_RECORDED
            then \<exists>r outcome. row_of job_id jobID t' = Some r \<and> outcomeOf marshal result = Inr outcome
                   \<and> job_status r = outcome_Status outcome \<and> job_result r = outcome_Result outcome
            else t' = t \<and>
              ((\<forall>r \<in> set later. \<not> (job_id r = jobID \<and> job_org r = ss_organization x))
               \<or> (\<forall>t'' now' session outcome later'. job_step\<^sup>*\<^sup>* later t'' \<longrightarrow>
                    fst (RecordResult now' (ss_organization x)
                      \<lparr>fence_JobID = jobID, fence_LeaseSession = session,
                       fence_LeaseEpoch = int64_of_uint64 (jr_LeaseEpoch result)\<rparr> outcome t'' later') \<noteq> Inr ()))))"
proof (cases "outcomeOf marshal result")
  case (Inl bad)
  with assms(3,4) show ?thesis by (simp add: recordAndAcknowledge_def)
next
  case (Inr outcome)
  note fine = outcomeOf_terminal [OF Inr]
  define fence where "fence = \<lparr>fence_JobID = jobID, fence_LeaseSession = ss_id x,
      fence_LeaseEpoch = int64_of_uint64 (jr_LeaseEpoch result)\<rparr>"
  obtain answer t1 where rec: "RecordResult now (ss_organization x) fence outcome t later = (answer, t1)" by fastforce
  define seen where "seen = (if fate = Reported then answer else Inl ErrDatabase)"
  have ack: "acknowledge pick result seen x = (err, x')" and t': "fate = Reported \<longrightarrow> t' = t1"
    using assms(3,4) Inr rec
    by (auto simp: recordAndAcknowledge_def fence_def [symmetric] seen_def split: db_fate.splits prod.splits)
  have inv: "jobs_inv later" using jobs.run_invariant [OF assms(2,1)] .
  from acknowledge_outbound [OF ack] show ?thesis
  proof (elim disjE exE conjE)
    assume "ss_outbound x' = ss_outbound x"
    then show ?thesis ..
  next
    fix d
    assume d: "ss_outbound x' = ss_outbound x @ [ResultAck (jr_JobId result) (jr_LeaseEpoch result) d]"
      "d = DISPOSITION_RECORDED \<longleftrightarrow> seen = Inr ()"
      "seen \<noteq> Inr () \<longrightarrow> (\<exists>why. seen = Inl (ErrResultRefused why) \<and> why \<noteq> ResultLeaseNotHeld)"
    from d(3) have heard: "fate = Reported" "seen = answer" by (auto simp: seen_def split: if_splits)
    show ?thesis
    proof (cases "seen = Inr ()")
      case True
      with RecordResult_outcomes [OF assms(1) rec fine] heard t' obtain r where
        "row_of job_id jobID t' = Some (finished now outcome r)" by (auto simp: fence_def)
      with True d(1,2) Inr show ?thesis by (auto simp: finished_def)
    next
      case False
      with d(3) obtain why where why: "answer = Inl (ErrResultRefused why)" "why \<noteq> ResultLeaseNotHeld"
        using heard(2) by blast
      with RecordResult_outcomes [OF assms(1) rec fine] heard t' have
        same: "t' = t" and explain: "explainRefusedResult (ss_organization x) fence later = Inl (ErrResultRefused why)"
        by auto
      with explained_refusal_is_final [OF explain why(2) inv] d(1,2) False show ?thesis by (simp add: fence_def)
    qed
  qed
qed

text \<open>The state of the witnesses: session 9 of registration 2, organization 1.\<close>

definition sample_session :: sessionState where
  "sample_session =
     \<lparr>ss_organization = 1, ss_registrationID = 2, ss_id = 9, ss_outbound = [], ss_done = False, ss_peer = ''10.0.0.1'',
      ss_delivering = True, ss_policies = True, ss_lastHeard = 0, ss_capacity = 4, ss_draining = False,
      ss_contested = False, ss_claimAfter = 0, ss_ended = None\<rparr>"

definition sample_result :: JobResult where
  "sample_result = \<lparr>jr_JobId = ''7'', jr_LeaseEpoch = 1, jr_Outcome = JobResult_Result (PMessage True [] [])\<rparr>"

definition sample_ids :: uuid_lib where
  "sample_ids = \<lparr>uuid_String = (\<lambda>_. ''7''), uuid_Parse = (\<lambda>s. if s = ''7'' then Some 7 else None)\<rparr>"

theorem acknowledgement_is_truthful_witness:
  "\<exists>err x' t'. recordAndAcknowledge sample_ids (\<lambda>_. Some ''ok'') 20 Reported SendQueued sample_result sample_session
       [sample_leased] [sample_leased] = (err, x', t')
     \<and> ss_outbound x' = [ResultAck ''7'' 1 DISPOSITION_RECORDED]
     \<and> (\<exists>r. row_of job_id 7 t' = Some r \<and> job_status r = JobSucceeded)"
proof -
  obtain err x' t' where call: "recordAndAcknowledge sample_ids (\<lambda>_. Some ''ok'') 20 Reported SendQueued sample_result
      sample_session [sample_leased] [sample_leased] = (err, x', t')"
    using prod_cases3 by blast
  then have out: "ss_outbound x' = [ResultAck ''7'' 1 DISPOSITION_RECORDED]"
    by (auto simp: recordAndAcknowledge_def namedJob_def sample_ids_def sample_result_def sample_session_def outcomeOf_def
        carriesUnreadableFields_def acknowledge_def send_def RecordResult_def poolForOrganization_def fence_holds_def
        sample_defs int64_of_uint64_def rows_affected_def Let_def)
  have id: "namedJob sample_ids (jr_JobId sample_result) = Some 7"
    by (simp add: namedJob_def sample_ids_def sample_result_def)
  from acknowledgement_is_truthful [OF sample_inv(2) rtranclp.rtrancl_refl id call] out
  have "\<exists>r outcome. row_of job_id 7 t' = Some r \<and> outcomeOf (\<lambda>_. Some ''ok'') sample_result = Inr outcome
      \<and> job_status r = outcome_Status outcome"
    by (auto simp: sample_session_def split: if_splits)
  with call out show ?thesis
    by (auto simp: outcomeOf_def sample_result_def carriesUnreadableFields_def Let_def)
qed

text \<open>
  C28. A greeting never disturbs work the relay is still running. Whatever becomes of its two
  database calls, every job keeps its status and lease epoch, unless the job was leased, the
  registration is not contested, and the relay declared a complete roster (at most sixteen
  entries, each naming a job) in which this execution of the job does not appear; only then is
  the job released, under a higher epoch.
\<close>

theorem greeting_keeps_running_work:
  assumes "row_of job_id i t = Some r" "greet lib now adopt_fate release_fate hello x t = (err, x', t')"
  shows "\<exists>r'. row_of job_id i t' = Some r' \<and>
     ((job_status r' = job_status r \<and> job_lease_epoch r' = job_lease_epoch r)
      \<or> (r' = released r \<and> job_status r = JobLeased \<and> \<not> ss_contested x \<and> length (hello_InFlight hello) \<le> 16
         \<and> (\<forall>d \<in> set (hello_InFlight hello). \<exists>j. namedJob lib (dj_JobId d) = Some j
              \<and> \<not> (j = i \<and> int64_of_uint64 (dj_LeaseEpoch d) = job_lease_epoch r))))"
proof (cases "supportsProtocol (hello_ProtocolVersion hello)")
  case False
  with assms show ?thesis by (auto simp: greet_def)
next
  case True
  let ?x1 = "x\<lparr>ss_capacity := capacityFrom hello\<rparr>"
  obtain whole t1 where ad: "adopt lib now adopt_fate (hello_InFlight hello) ?x1 t = (whole, t1)" by fastforce
  obtain r1 where r1: "row_of job_id i t1 = Some r1" "job_status r1 = job_status r"
      "job_lease_epoch r1 = job_lease_epoch r" "released r1 = released r"
    and whole: "whole \<Longrightarrow> \<exists>inFlight. readRoster lib (hello_InFlight hello) = (inFlight, True)
       \<and> (job_status r = JobLeased \<and> job_org r = ss_organization x \<and> job_registration r = ss_registrationID x
          \<and> \<lparr>flight_JobID = i, flight_LeaseEpoch = job_lease_epoch r\<rparr> \<in> set inFlight
          \<longrightarrow> job_lease_session r1 = Some (ss_id x)) \<and> job_org r1 = job_org r \<and> job_registration r1 = job_registration r"
    by (rule adopt_row [OF ad assms(1)]) auto
  show ?thesis
  proof (cases "whole \<and> \<not> ss_contested x \<and> row_of job_id i t' \<noteq> Some r1")
    case False
    then have "row_of job_id i t' = Some r1" using assms(2) True ad r1(1) by (auto simp: greet_def split: if_splits)
    with r1 show ?thesis by auto
  next
    case gave: True
    then have "t' = releaseWhatTheRelayIsNotRunning release_fate ?x1 t1"
      using assms(2) True ad by (auto simp: greet_def Let_def)
    with releaseWhatTheRelayIsNotRunning_row [OF r1(1), of release_fate ?x1] gave
    have s: "stranded (ss_organization x) (ss_registrationID x) (ss_id x) r1" and t': "row_of job_id i t' = Some (released r)"
      using r1(4) by auto
    from whole gave obtain inFlight where roster: "readRoster lib (hello_InFlight hello) = (inFlight, True)"
      and kept: "\<lparr>flight_JobID = i, flight_LeaseEpoch = job_lease_epoch r\<rparr> \<notin> set inFlight"
      using s r1(2) by (auto simp: stranded_def)
    have "\<exists>j. namedJob lib (dj_JobId d) = Some j \<and> \<not> (j = i \<and> int64_of_uint64 (dj_LeaseEpoch d) = job_lease_epoch r)"
      if "d \<in> set (hello_InFlight hello)" for d
      using readRoster_complete(2,3) [OF roster] that kept by fastforce
    with t' s r1(2) gave readRoster_complete(1) [OF roster] show ?thesis by (auto simp: stranded_def)
  qed
qed

definition sample_hello :: Hello where
  "sample_hello = \<lparr>hello_ProtocolVersion = 1, hello_MaxConcurrentJobs = 4,
     hello_InFlight = [\<lparr>dj_JobId = ''7'', dj_LeaseEpoch = 1\<rparr>]\<rparr>"

theorem greeting_keeps_running_work_witness:
  "\<exists>r'. row_of job_id 7 (snd (snd (greet sample_ids 20 Reported Reported sample_hello
        (sample_session\<lparr>ss_id := 11\<rparr>) [sample_leased]))) = Some r'
     \<and> job_status r' = JobLeased \<and> job_lease_epoch r' = 1"
proof -
  let ?g = "greet sample_ids 20 Reported Reported sample_hello (sample_session\<lparr>ss_id := 11\<rparr>) [sample_leased]"
  have row: "row_of job_id 7 [sample_leased] = Some sample_leased" by (simp add: sample_defs)
  from greeting_keeps_running_work [OF row, of sample_ids 20 Reported Reported sample_hello "sample_session\<lparr>ss_id := 11\<rparr>"
      "fst ?g" "fst (snd ?g)" "snd (snd ?g)"]
  show ?thesis
    by (auto simp: sample_hello_def namedJob_def sample_ids_def sample_defs int64_of_uint64_def)
qed

text \<open>
  A relay is told once to stop an execution. After a pass without an error, the session
  remembers exactly the executions whose cancellation is pending, it has sent one instruction
  for each of them it had not sent before and nothing else, and another pass over the same
  table sends nothing.
\<close>

theorem cancellations_are_told_once:
  assumes "dispatchCancellations lib picks fate x told t = (None, x', told')"
  shows "\<exists>pending sent. PendingCancellations (ss_organization x) (ss_id x) t = Inr pending
    \<and> set told' = execution_of ` set pending
    \<and> ss_outbound x' = ss_outbound x @ map (cancelling lib) sent
    \<and> distinct (map execution_of sent) \<and> set sent \<subseteq> set pending
    \<and> execution_of ` set sent = execution_of ` set pending - set told
    \<and> dispatchCancellations lib picks Reported x' told' t = (None, x', told')"
proof -
  from assms obtain pending where p: "PendingCancellations (ss_organization x) (ss_id x) t = Inr pending"
    and loop: "tell_loop lib picks pending x (filter (\<lambda>e. e \<in> execution_of ` set pending) told) = (None, x', told')"
    by (auto simp: dispatchCancellations_def split: sum.splits if_splits prod.splits)
  obtain sent where sent: "told' = filter (\<lambda>e. e \<in> execution_of ` set pending) told @ map execution_of sent"
      "ss_outbound x' = ss_outbound x @ map (cancelling lib) sent" "distinct (map execution_of sent)" "set sent \<subseteq> set pending"
      "execution_of ` set sent = execution_of ` set pending - set (filter (\<lambda>e. e \<in> execution_of ` set pending) told)"
      "ss_organization x' = ss_organization x" "ss_id x' = ss_id x"
    by (rule tell_loop_sent [OF loop])
  have told': "set told' = execution_of ` set pending" using sent(1,5) by auto
  then have "filter (\<lambda>e. e \<in> execution_of ` set pending) told' = told'" by (simp add: filter_id_conv)
  then have "dispatchCancellations lib picks Reported x' told' t = (None, x', told')"
    using p sent(6,7) told' tell_loop_all_told [of pending told' lib picks x'] by (simp add: dispatchCancellations_def)
  with p told' sent show ?thesis by (intro exI [of _ pending] exI [of _ sent]) auto
qed

theorem cancellations_are_told_once_witness:
  "\<exists>x' told'. dispatchCancellations sample_ids (\<lambda>_. SendQueued) Reported sample_session []
       [sample_leased\<lparr>job_cancel_requested_at := Some 15\<rparr>] = (None, x', told')
     \<and> dispatchCancellations sample_ids (\<lambda>_. SendQueued) Reported x' told'
       [sample_leased\<lparr>job_cancel_requested_at := Some 15\<rparr>] = (None, x', told')"
proof -
  let ?t = "[sample_leased\<lparr>job_cancel_requested_at := Some 15\<rparr>]"
  have p: "PendingCancellations 1 9 ?t = Inr [\<lparr>fence_JobID = 7, fence_LeaseSession = 9, fence_LeaseEpoch = 1\<rparr>]"
    by (simp add: PendingCancellations_def sample_defs)
  have "\<exists>x' told'. dispatchCancellations sample_ids (\<lambda>_. SendQueued) Reported sample_session [] ?t = (None, x', told')"
    using p by (simp add: dispatchCancellations_def sample_session_def send_def)
  then obtain x' told' where d: "dispatchCancellations sample_ids (\<lambda>_. SendQueued) Reported sample_session [] ?t = (None, x', told')"
    by blast
  from cancellations_are_told_once [OF d] have "dispatchCancellations sample_ids (\<lambda>_. SendQueued) Reported x' told' ?t = (None, x', told')"
    by (elim exE conjE)
  with d show ?thesis by (intro exI conjI)
qed

text \<open>
  Claimed work is never forgotten. After a dispatch pass without an error, every row that
  changed had been claimable by this registration, and the job is either leased to this session
  with an assignment queued that names the job and, on the wire, its lease epoch, or recorded as
  failed because the control plane cannot deliver it. A draining session changes nothing.
\<close>

theorem claimed_work_is_dispatched:
  assumes "jobs_inv t" "dispatchWork env fate x t = (None, x', t')" "\<And>j. de_fail_fate env j \<noteq> Lost"
    and "row_of job_id i t = Some r" "row_of job_id i t' = Some r'" "r' \<noteq> r"
  shows "\<not> ss_draining x \<and> claimable (de_now env) (ss_organization x) (ss_registrationID x) r
    \<and> (job_status r' = JobFailed
       \<or> (job_status r' = JobLeased \<and> job_lease_session r' = Some (ss_id x) \<and> job_lease_epoch r' = job_lease_epoch r + 1
          \<and> (\<exists>a. Assignment a \<in> set (drop (length (ss_outbound x)) (ss_outbound x'))
               \<and> ja_JobId a = uuid_String (de_lib env) i
               \<and> ja_LeaseEpoch a = uint64_of_int64 (job_lease_epoch r')
               \<and> ja_CapabilityId a = job_capability_id r)))"
proof -
  define c where "c = \<lparr>claim_RegistrationID = ss_registrationID x, claim_SessionID = ss_id x,
      claim_LeaseFor = leaseDuration, claim_Capacity = ss_capacity x\<rparr>"
  have awake: "\<not> ss_draining x" using assms(2,4-6) by (auto simp: dispatchWork_def)
  with assms(2) obtain claimed t1 where cl: "ClaimJobs (de_now env) (de_locked env) (ss_organization x) c t = Inr (claimed, t1)"
    and loop: "dispatch_loop env claimed x t1 = (None, x', t')"
    by (auto simp: dispatchWork_def c_def [symmetric] db_call_def split: sum.splits prod.splits db_fate.splits)
  have org: "ss_organization x \<noteq> uuid_Nil" using cl by (auto simp: ClaimJobs_def)
  have inv1: "jobs_inv t1" using claim_keeps [OF assms(1) cl] by blast
  have dist: "distinct (map rj_ID claimed)" and leased: "\<And>job. job \<in> set claimed \<Longrightarrow> leased_as x t1 job"
    using claim_leases [OF assms(1) cl, of x] by (auto simp: c_def)
  from dispatch_loop_handles [OF loop inv1 org assms(3) dist leased]
  obtain sent where sent: "ss_outbound x' = ss_outbound x @ sent" "\<forall>job \<in> set claimed. handled env x sent t1 t' job"
    "\<forall>j. j \<notin> rj_ID ` set claimed \<longrightarrow> row_of job_id j t' = row_of job_id j t1" by blast
  have i: "i \<in> rj_ID ` set claimed"
    using sent(3) claim_row(1) [OF assms(1) cl assms(4)] assms(5,6) by (cases "i \<in> rj_ID ` set claimed") simp_all
  then obtain job where job: "job \<in> set claimed" "rj_ID job = i" by blast
  obtain q where q: "q \<in> set t" "job = claimed_job (lease_to (de_now env) c q)" using claimed_job_row [OF cl job(1)] .
  have "row_of job_id i t = Some q"
    using q job(2) assms(1) row_of_iff [of job_id t] by (auto simp: jobs_inv_def claimed_job_def lease_to_def)
  then have "q = r" using assms(4) by simp
  have row1: "row_of job_id i t1 = Some (lease_to (de_now env) c r)" using claim_row(1) [OF assms(1) cl assms(4)] i by simp
  have cand: "claimable (de_now env) (ss_organization x) (ss_registrationID x) r"
    using claim_row(2) [OF assms(1) cl assms(4) i] by (simp add: c_def)
  from sent(2) job(1) have "handled env x sent t1 t' job" by blast
  then consider "job_status r' = JobFailed"
    | a where "assignmentFor (de_lib env) (de_unmarshal env) x job = Inr a" "a \<in> set sent" "r' = lease_to (de_now env) c r"
    using job(2) assms(5) row1 by (auto simp: handled_def)
  then show ?thesis
  proof cases
    case 1
    with awake cand show ?thesis by blast
  next
    case (2 a)
    then obtain b where "a = Assignment b" "ja_JobId b = uuid_String (de_lib env) i"
        "ja_LeaseEpoch b = uint64_of_int64 (job_lease_epoch r')" "ja_CapabilityId b = job_capability_id r"
      using q(2) \<open>q = r\<close> job(2)
      by (auto simp: assignmentFor_def claimed_job_def lease_to_def split: option.splits)
    with 2 sent(1) awake cand show ?thesis by (auto simp: lease_to_def c_def)
  qed
qed

definition sample_env :: delivery_env where
  "sample_env = \<lparr>de_lib = sample_ids, de_unmarshal = (\<lambda>_. None), de_marshal_failure = (\<lambda>_. None), de_now = 10,
     de_locked = (\<lambda>_. False), de_fail_fate = (\<lambda>_. Reported), de_pick = (\<lambda>_. SendQueued)\<rparr>"

theorem claimed_work_is_dispatched_witness:
  "\<exists>x' t' r'. dispatchWork sample_env Reported sample_session [sample_job] = (None, x', t')
     \<and> row_of job_id 7 t' = Some r' \<and> claimable 10 1 2 sample_job \<and> job_status r' = JobFailed"
proof -
  let ?c = "\<lparr>claim_RegistrationID = 2, claim_SessionID = 9, claim_LeaseFor = leaseDuration, claim_Capacity = 4\<rparr>"
  let ?r = "lease_to 10 ?c sample_job" and ?f = "finished 10 \<lparr>outcome_Status = JobFailed, outcome_Result = None\<rparr>"
  have claim: "ClaimJobs 10 (\<lambda>_. False) 1 ?c [sample_job] = Inr ([claimed_job ?r], [?r])"
    by (simp add: ClaimJobs_def claim_selection_def claimable_def holds_def sample_defs)
  have "\<exists>cause. assignmentFor sample_ids (\<lambda>_. None) sample_session job = Inl cause" for job
    by (simp add: assignmentFor_def split: option.splits)
  then obtain cause where refused: "assignmentFor sample_ids (\<lambda>_. None) sample_session (claimed_job ?r) = Inl cause" by blast
  have stored: "RecordResult 10 1 (lease_fence sample_session (claimed_job ?r))
      \<lparr>outcome_Status = JobFailed, outcome_Result = None\<rparr> [?r] [?r] = (Inr (), [?f ?r])"
    by (simp add: RecordResult_def poolForOrganization_def fence_holds_def claimed_job_def lease_to_def sample_defs
        sample_session_def rows_affected_def)
  have d: "dispatchWork sample_env Reported sample_session [sample_job] = (None, sample_session, [?f ?r])"
    using claim refused stored
    by (simp add: dispatchWork_def sample_env_def sample_session_def db_call_def failUndeliverable_def)
  have rows: "row_of job_id 7 [sample_job] = Some sample_job" "row_of job_id 7 [?f ?r] = Some (?f ?r)" "?f ?r \<noteq> sample_job"
    by (simp_all add: sample_defs lease_to_def)
  from claimed_work_is_dispatched [OF sample_inv(1) d _ rows] d rows(2) show ?thesis
    by (auto simp: sample_env_def sample_session_def finished_def)
qed

end
