(* ===== verification/ChangeStore.thy ===== *)
theory ChangeStore
  imports Retention GoStrings Cursors
begin

text \<open>
  The record of what changed in the clusters: the change kinds and their rendering
  (\<^verbatim>\<open>internal/changes/changes.go\<close>), the tables \<^verbatim>\<open>change_scope\<close> and \<^verbatim>\<open>change_event\<close> with their
  statements (\<^verbatim>\<open>internal/store/postgres/changes.go\<close>), and the retention sweep over them
  (\<^verbatim>\<open>internal/changes/retention.go\<close>).
\<close>

section \<open>Changes\<close>

text \<open>Both kinds are Go integers; the last constructor stands for a value no constant names.\<close>

datatype ObjectKind =
    KindDeployment | KindStatefulSet | KindDaemonSet | KindConfigMap | KindSecret | ObjectKindOther int

fun ObjectKind_String :: "ObjectKind \<Rightarrow> string" where
  "ObjectKind_String KindDeployment = ''deployment''"
| "ObjectKind_String KindStatefulSet = ''statefulset''"
| "ObjectKind_String KindDaemonSet = ''daemonset''"
| "ObjectKind_String KindConfigMap = ''configmap''"
| "ObjectKind_String KindSecret = ''secret''"
| "ObjectKind_String (ObjectKindOther _) = ''unknown''"

datatype ChangeKind = ChangeBaseline | ChangeCreated | ChangeModified | ChangeDeleted | ChangeOther int

fun ChangeKind_String :: "ChangeKind \<Rightarrow> string" where
  "ChangeKind_String ChangeBaseline = ''baseline''"
| "ChangeKind_String ChangeCreated = ''created''"
| "ChangeKind_String ChangeModified = ''modified''"
| "ChangeKind_String ChangeDeleted = ''deleted''"
| "ChangeKind_String (ChangeOther _) = ''unknown''"

record FieldChange =
  fc_Field :: string
  fc_Before :: string
  fc_After :: string

record Change =
  ch_Namespace :: string
  ch_Kind :: ObjectKind
  ch_Name :: string
  ch_UID :: string
  ch_ObservedRevision :: string
  ch_Change :: ChangeKind
  ch_Fields :: "FieldChange list"

record Delta =
  delta_IntegrationID :: uuid
  delta_PolicyRevision :: int
  delta_Baseline :: bool
  delta_ObservedAt :: instant
  delta_Changes :: "Change list"

definition field_summary :: "FieldChange \<Rightarrow> string" where
  "field_summary f =
     (if fc_Before f = [] then fc_Field f @ '' set to '' @ fc_After f
      else if fc_After f = [] then fc_Field f @ '' removed (was '' @ fc_Before f @ '')''
      else fc_Field f @ '' '' @ fc_Before f @ '' -> '' @ fc_After f)"

fun summarize_loop :: "nat \<Rightarrow> string \<Rightarrow> FieldChange list \<Rightarrow> string" where
  "summarize_loop i rendered [] = rendered"
| "summarize_loop i rendered (f # rest) =
     (if i = 3 then rendered @ '', and more''
      else summarize_loop (i + 1) ((if i > 0 then rendered @ '', '' else rendered) @ field_summary f) rest)"

definition summarizeFields :: "FieldChange list \<Rightarrow> string" where
  "summarizeFields fs = summarize_loop 0 [] fs"

definition Summary :: "ObjectKind \<Rightarrow> string \<Rightarrow> ChangeKind \<Rightarrow> FieldChange list \<Rightarrow> string" where
  "Summary kind name change fs =
     (let subject = ObjectKind_String kind @ '' '' @ name in
      case change of
        ChangeCreated \<Rightarrow> subject @ '' was created''
      | ChangeDeleted \<Rightarrow> subject @ '' was deleted''
      | ChangeModified \<Rightarrow>
          let detail = summarizeFields fs in
          if detail \<noteq> [] then subject @ '': '' @ detail else subject @ '' changed''
      | _ \<Rightarrow> subject @ '' was first observed'')"

record Freshness =
  fresh_IntegrationID :: uuid
  fresh_PolicyRevision :: int
  fresh_CompletedAt :: "instant option"
  fresh_Faulted :: bool
  fresh_Truncated :: bool

record DeltaRecorded =
  rec_Inserted :: nat
  rec_Refused :: bool

section \<open>The tables\<close>

record change_event =
  ce_id :: int
  ce_org :: uuid
  ce_integration :: uuid
  ce_namespace :: string
  ce_kind :: ObjectKind
  ce_name :: string
  ce_uid :: string
  ce_revision :: string
  ce_change :: ChangeKind
  ce_observed_at :: instant
  ce_received_at :: instant
  ce_fields :: "FieldChange list"

record change_scope =
  cs_integration :: uuid
  cs_org :: uuid
  cs_policy_revision :: int
  cs_interval :: int
  cs_covered_since :: "instant option"
  cs_baseline_at :: "instant option"
  cs_last_confirmed_at :: "instant option"
  cs_faulted :: bool
  cs_truncated :: bool

text \<open>
  \<open>next_event\<close> is the identity sequence. A rolled back transaction burns numbers in
  PostgreSQL and not in the model; no statement looks at the gaps.
\<close>

record change_db =
  events :: "change_event list"
  scopes :: "change_scope list"
  next_event :: int

abbreviation int32_max :: int where
  "int32_max \<equiv> 2147483647"

section \<open>Opening scopes\<close>

definition watched :: "uuid \<Rightarrow> uuid \<Rightarrow> integration \<Rightarrow> bool" where
  "watched organization registrationID i \<longleftrightarrow>
     int_org i = organization \<and> int_relay_id i = Some registrationID
     \<and> int_provider i = ''kubernetes'' \<and> \<not> int_disabled i"

definition reopened :: "int \<Rightarrow> change_scope \<Rightarrow> change_scope" where
  "reopened seconds s =
     s\<lparr>cs_interval := seconds,
       cs_policy_revision := cs_policy_revision s + (if cs_interval s \<noteq> seconds then 1 else 0)\<rparr>"

definition new_scope :: "uuid \<Rightarrow> int \<Rightarrow> uuid \<Rightarrow> change_scope" where
  "new_scope organization seconds i =
     \<lparr>cs_integration = i, cs_org = organization, cs_policy_revision = 1, cs_interval = seconds,
      cs_covered_since = None, cs_baseline_at = None, cs_last_confirmed_at = None,
      cs_faulted = False, cs_truncated = False\<rparr>"

definition upsert_scope :: "uuid \<Rightarrow> int \<Rightarrow> uuid \<Rightarrow> change_scope list \<Rightarrow> change_scope list" where
  "upsert_scope organization seconds i ss =
     (if i \<in> cs_integration ` set ss then update_where (\<lambda>s. cs_integration s = i) (reopened seconds) ss
      else ss @ [new_scope organization seconds i])"

text \<open>What the caller gets of a scope: integration, revision and interval.\<close>

definition OpenInventoryScopes ::
  "uuid \<Rightarrow> uuid \<Rightarrow> duration \<Rightarrow> integration list \<Rightarrow> change_db \<Rightarrow> store_error + change_scope list \<times> change_db"
where
  "OpenInventoryScopes organization registrationID requestedInterval ints db =
     in_organization organization
       (let seconds = requestedInterval div Second;
            served = map int_id (filter (watched organization registrationID) ints) in
        if seconds < 1 then Inl ErrInvalidInterval
        else if seconds > int32_max then Inl (ErrSql NumericOutOfRange)
        else if list_ex (\<lambda>s. cs_integration s \<in> set served \<and> cs_interval s \<noteq> seconds
                             \<and> cs_policy_revision s = int64_max) (scopes db)
        then Inl (ErrSql NumericOutOfRange)
        else let ss = fold (upsert_scope organization seconds) served (scopes db) in
          Inr (filter (\<lambda>s. cs_integration s \<in> set served) ss, db\<lparr>scopes := ss\<rparr>))"

section \<open>Recording a delta\<close>

definition served_by :: "uuid \<Rightarrow> uuid \<Rightarrow> uuid \<Rightarrow> integration \<Rightarrow> bool" where
  "served_by organization registrationID integrationID i \<longleftrightarrow>
     int_id i = integrationID \<and> int_org i = organization \<and> int_relay_id i = Some registrationID \<and> \<not> int_disabled i"

definition compareChanges :: "Change \<Rightarrow> Change \<Rightarrow> int" where
  "compareChanges a b =
     (if ch_UID a \<noteq> ch_UID b then (if ch_UID a < ch_UID b then -1 else 1)
      else if ch_ObservedRevision a = ch_ObservedRevision b then 0
      else if ch_ObservedRevision a < ch_ObservedRevision b then -1 else 1)"

text \<open>
  \<open>sortFunc\<close> is \<^verbatim>\<open>slices.SortedFunc\<close> with \<open>compareChanges\<close>, which does not say in
  which order it leaves equal elements.
\<close>

definition sorts :: "(Change list \<Rightarrow> Change list) \<Rightarrow> bool" where
  "sorts sortFunc \<longleftrightarrow> (\<forall>cs. set (sortFunc cs) = set cs \<and> length (sortFunc cs) = length cs
     \<and> sorted_wrt (\<lambda>a b. compareChanges a b \<le> 0) (sortFunc cs))"

definition known_object_kind :: "ObjectKind \<Rightarrow> bool" where
  "known_object_kind k \<longleftrightarrow> (case k of ObjectKindOther _ \<Rightarrow> False | _ \<Rightarrow> True)"

definition known_change_kind :: "ChangeKind \<Rightarrow> bool" where
  "known_change_kind k \<longleftrightarrow> (case k of ChangeOther _ \<Rightarrow> False | _ \<Rightarrow> True)"

definition recorded_kind :: "Delta \<Rightarrow> Change \<Rightarrow> ChangeKind" where
  "recorded_kind delta c = (if delta_Baseline delta then ChangeBaseline else ch_Change c)"

definition event_key :: "change_event \<Rightarrow> uuid \<times> string \<times> string" where
  "event_key e = (ce_integration e, ce_uid e, ce_revision e)"

text \<open>
  One \<^verbatim>\<open>INSERT ... ON CONFLICT DO NOTHING\<close>. PostgreSQL checks the row's constraints before it
  looks for a conflict. A Go slice that is nil is stored as an empty list.
\<close>

definition insert_change ::
  "instant \<Rightarrow> uuid \<Rightarrow> Delta \<Rightarrow> Change \<Rightarrow> change_db \<Rightarrow> store_error + nat \<times> change_db"
where
  "insert_change now organization delta c db =
     (let kind = recorded_kind delta c;
          e = \<lparr>ce_id = next_event db, ce_org = organization, ce_integration = delta_IntegrationID delta,
               ce_namespace = ch_Namespace c, ce_kind = ch_Kind c, ce_name = ch_Name c, ce_uid = ch_UID c,
               ce_revision = ch_ObservedRevision c, ce_change = kind, ce_observed_at = delta_ObservedAt delta,
               ce_received_at = now, ce_fields = ch_Fields c\<rparr> in
      if \<not> known_change_kind kind then Inl (ErrSql (CheckViolation ''change_event_change_kind_check''))
      else if (kind = ChangeDeleted) \<noteq> (ch_ObservedRevision c = [])
      then Inl (ErrSql (CheckViolation ''change_event_deletion_has_no_revision''))
      else if \<not> known_object_kind (ch_Kind c) then Inl (ErrSql (CheckViolation ''change_event_object_kind_check''))
      else if event_key e \<in> event_key ` set (events db)
      then Inr (0, db\<lparr>next_event := next_event db + 1\<rparr>)
      else Inr (1, db\<lparr>events := events db @ [e], next_event := next_event db + 1\<rparr>))"

fun insert_changes ::
  "instant \<Rightarrow> uuid \<Rightarrow> Delta \<Rightarrow> Change list \<Rightarrow> change_db \<Rightarrow> store_error + nat \<times> change_db"
where
  "insert_changes now organization delta [] db = Inr (0, db)"
| "insert_changes now organization delta (c # cs) db =
     (case insert_change now organization delta c db of
        Inl e \<Rightarrow> Inl e
      | Inr (n, db') \<Rightarrow>
          (case insert_changes now organization delta cs db' of
             Inl e \<Rightarrow> Inl e
           | Inr (m, db'') \<Rightarrow> Inr (n + m, db'')))"

text \<open>SQL's \<^verbatim>\<open>GREATEST(coalesce(x, v), v)\<close>.\<close>

definition at_least :: "instant \<Rightarrow> instant option \<Rightarrow> instant option" where
  "at_least v x = Some (case x of None \<Rightarrow> v | Some y \<Rightarrow> max y v)"

definition baseline_scope :: "Delta \<Rightarrow> nat \<Rightarrow> change_scope \<Rightarrow> change_scope" where
  "baseline_scope delta inserted s =
     (let seen = delta_ObservedAt delta in
      s\<lparr>cs_covered_since :=
          (if cs_covered_since s = None \<or> inserted > 0
              \<or> (case cs_last_confirmed_at s of None \<Rightarrow> True
                 | Some confirmed \<Rightarrow> seen - confirmed > cs_interval s * 2 * Second)
           then Some seen else cs_covered_since s),
        cs_baseline_at := at_least seen (cs_baseline_at s),
        cs_last_confirmed_at := at_least seen (cs_last_confirmed_at s),
        cs_policy_revision := max (cs_policy_revision s) (delta_PolicyRevision delta)\<rparr>)"

definition confirmed_scope :: "Delta \<Rightarrow> change_scope \<Rightarrow> change_scope" where
  "confirmed_scope delta s = s\<lparr>cs_last_confirmed_at := at_least (delta_ObservedAt delta) (cs_last_confirmed_at s)\<rparr>"

definition advanceChangeScope :: "uuid \<Rightarrow> Delta \<Rightarrow> nat \<Rightarrow> change_scope list \<Rightarrow> change_scope list" where
  "advanceChangeScope organization delta inserted ss =
     update_where (\<lambda>s. cs_integration s = delta_IntegrationID delta \<and> cs_org s = organization)
       (if delta_Baseline delta then baseline_scope delta inserted else confirmed_scope delta) ss"

definition RecordInventoryDelta ::
  "(Change list \<Rightarrow> Change list) \<Rightarrow> instant \<Rightarrow> uuid \<Rightarrow> uuid \<Rightarrow> Delta \<Rightarrow> integration list \<Rightarrow> change_db
     \<Rightarrow> store_error + DeltaRecorded \<times> change_db"
where
  "RecordInventoryDelta sortFunc now organization registrationID delta ints db =
     in_organization organization
       (if \<not> list_ex (served_by organization registrationID (delta_IntegrationID delta)) ints
        then Inr (\<lparr>rec_Inserted = 0, rec_Refused = True\<rparr>, db)
        else (case insert_changes now organization delta (sortFunc (delta_Changes delta)) db of
                Inl e \<Rightarrow> Inl e
              | Inr (inserted, db') \<Rightarrow>
                  Inr (\<lparr>rec_Inserted = inserted, rec_Refused = False\<rparr>,
                       db'\<lparr>scopes := advanceChangeScope organization delta inserted (scopes db')\<rparr>)))"

section \<open>Freshness\<close>

definition stamped :: "Freshness \<Rightarrow> change_scope \<Rightarrow> change_scope" where
  "stamped stamp s =
     (let confirmed = (if fresh_Faulted stamp then None else fresh_CompletedAt stamp) in
      s\<lparr>cs_last_confirmed_at :=
          (case confirmed of None \<Rightarrow> cs_last_confirmed_at s | Some v \<Rightarrow> at_least v (cs_last_confirmed_at s)),
        cs_faulted := fresh_Faulted stamp, cs_truncated := fresh_Truncated stamp\<rparr>)"

definition stamps_scope :: "uuid \<Rightarrow> uuid \<Rightarrow> integration list \<Rightarrow> Freshness \<Rightarrow> change_scope \<Rightarrow> bool" where
  "stamps_scope organization registrationID ints stamp s \<longleftrightarrow>
     cs_integration s = fresh_IntegrationID stamp \<and> cs_org s = organization
     \<and> list_ex (\<lambda>i. int_id i = cs_integration s \<and> int_org i = organization \<and> int_relay_id i = Some registrationID) ints"

text \<open>Each stamp is a statement of its own; an error ends the loop and keeps what is done.\<close>

fun stamp_loop ::
  "uuid \<Rightarrow> uuid \<Rightarrow> integration list \<Rightarrow> (Freshness \<times> db_fate) list \<Rightarrow> change_scope list
     \<Rightarrow> store_error option \<times> change_scope list"
where
  "stamp_loop organization registrationID ints [] ss = (None, ss)"
| "stamp_loop organization registrationID ints ((stamp, fate) # rest) ss =
     (let ss' = update_where (stamps_scope organization registrationID ints stamp) (stamped stamp) ss in
      case fate of
        Reported \<Rightarrow> stamp_loop organization registrationID ints rest ss'
      | Lost \<Rightarrow> (Some ErrDatabase, ss)
      | Unreported \<Rightarrow> (Some ErrDatabase, ss'))"

definition RecordInventoryFreshness ::
  "uuid \<Rightarrow> uuid \<Rightarrow> integration list \<Rightarrow> (Freshness \<times> db_fate) list \<Rightarrow> change_db \<Rightarrow> store_error option \<times> change_db"
where
  "RecordInventoryFreshness organization registrationID ints stamps db =
     (if stamps = [] then (None, db)
      else case poolForOrganization organization of
        Inl e \<Rightarrow> (Some e, db)
      | Inr _ \<Rightarrow>
          let (err, ss) = stamp_loop organization registrationID ints stamps (scopes db) in
          (err, db\<lparr>scopes := ss\<rparr>))"

section \<open>Retention\<close>

definition expired_change :: "instant \<Rightarrow> change_event \<Rightarrow> bool" where
  "expired_change before e \<longleftrightarrow> ce_received_at e < before"

definition PruneChangesBefore ::
  "instant \<Rightarrow> int \<Rightarrow> change_event list \<Rightarrow> store_error + nat \<times> change_event list"
where
  "PruneChangesBefore before limit es =
     (if limit \<le> 0 then Inr (0, es)
      else Inr (delete_oldest ce_id (\<lambda>e. (ce_received_at e, ce_id e)) (expired_change before) (nat limit) es))"

definition SweepChanges ::
  "(instant \<Rightarrow> nat \<Rightarrow> instant) \<Rightarrow> instant \<Rightarrow> nat \<Rightarrow> (nat \<Rightarrow> attempt) \<Rightarrow> change_db \<Rightarrow> nat \<times> bool \<times> change_db"
where
  "SweepChanges addDate now days attempts db =
     (let (removed, failed, es) =
            prune_loop (PruneChangesBefore (addDate now days) (int pruneBatch)) attempts maxBatchesPerSweep (events db) in
      (removed, failed, db\<lparr>events := es\<rparr>))"

section \<open>The workload digest\<close>

text \<open>
  \<open>collate\<close> is the sort key of the database's text order and \<open>rfc3339\<close> Go's rendering of a
  time in UTC.
\<close>

definition object_of :: "change_event \<Rightarrow> uuid \<times> string \<times> ObjectKind \<times> string" where
  "object_of e = (ce_integration e, ce_namespace e, ce_kind e, ce_name e)"

definition is_workload :: "uuid \<Rightarrow> change_event \<Rightarrow> bool" where
  "is_workload organization e \<longleftrightarrow>
     ce_org e = organization \<and> ce_kind e \<in> {KindDeployment, KindStatefulSet, KindDaemonSet}"

definition latest :: "change_event list \<Rightarrow> change_event \<Rightarrow> bool" where
  "latest es e \<longleftrightarrow>
     (\<forall>f \<in> set es. object_of f = object_of e \<longrightarrow> (ce_observed_at f, ce_id f) \<le> (ce_observed_at e, ce_id e))"

definition join_strings :: "string \<Rightarrow> string list \<Rightarrow> string" where
  "join_strings sep parts = (case parts of [] \<Rightarrow> [] | p # ps \<Rightarrow> p @ concat (map (\<lambda>q. sep @ q) ps))"

definition inventoryCoverage ::
  "(instant \<Rightarrow> string) \<Rightarrow> instant option \<Rightarrow> instant option \<Rightarrow> bool \<Rightarrow> bool \<Rightarrow> string"
where
  "inventoryCoverage rfc3339 coveredSince lastConfirmed faulted truncated =
     join_strings '' ''
       ((if faulted then [''coverage faulted'']
         else case coveredSince of
                Some since \<Rightarrow> [''covered since '' @ rfc3339 since]
              | None \<Rightarrow> [''coverage unknown''])
        @ (case lastConfirmed of Some confirmed \<Rightarrow> [''last confirmed '' @ rfc3339 confirmed] | None \<Rightarrow> [])
        @ (if truncated then [''truncated''] else []))"

definition digest_line :: "(uuid \<Rightarrow> string) \<Rightarrow> (instant \<Rightarrow> string) \<Rightarrow> change_scope \<Rightarrow> change_event \<Rightarrow> string" where
  "digest_line uuid_string rfc3339 s e =
     ''integration '' @ uuid_string (ce_integration e) @ '' '' @
     inventoryCoverage rfc3339 (cs_covered_since s) (cs_last_confirmed_at s) (cs_faulted s) (cs_truncated s) @ '' '' @
     ce_namespace e @ ''/'' @ ObjectKind_String (ce_kind e) @ '' '' @ ce_name e"

definition WorkloadInventory ::
  "(string \<Rightarrow> string) \<Rightarrow> (uuid \<Rightarrow> string) \<Rightarrow> (instant \<Rightarrow> string) \<Rightarrow> uuid \<Rightarrow> nat \<Rightarrow> change_db \<Rightarrow> store_error + string list"
where
  "WorkloadInventory collate uuid_string rfc3339 organization limit db =
     in_organization organization
       (let workloads = filter (is_workload organization) (events db);
            current = filter (\<lambda>e. latest workloads e \<and> ce_change e \<noteq> ChangeDeleted) workloads;
            joined = concat (map (\<lambda>e. map (\<lambda>s. (s, e))
                       (filter (\<lambda>s. cs_org s = organization \<and> cs_integration s = ce_integration e) (scopes db))) current) in
        Inr (map (\<lambda>(s, e). digest_line uuid_string rfc3339 s e)
              (take limit (sort_key (\<lambda>(s, e). (collate (ce_namespace e), collate (ce_name e), ce_integration e)) joined))))"

section \<open>What every statement keeps\<close>

inductive change_step :: "change_db \<Rightarrow> change_db \<Rightarrow> bool" where
  opened: "OpenInventoryScopes organization registrationID interval ints db = Inr (opened, db') \<Longrightarrow> change_step db db'"
| recorded: "RecordInventoryDelta sortFunc now organization registrationID delta ints db = Inr (r, db') \<Longrightarrow> change_step db db'"
| stamped: "RecordInventoryFreshness organization registrationID ints stamps db = (err, db') \<Longrightarrow> change_step db db'"
| swept: "SweepChanges addDate now days attempts db = (removed, failed, db') \<Longrightarrow> change_step db db'"

definition changes_inv :: "change_db \<Rightarrow> bool" where
  "changes_inv db \<longleftrightarrow>
     distinct (map ce_id (events db)) \<and> (\<forall>e \<in> set (events db). ce_id e < next_event db)
     \<and> distinct (map event_key (events db))
     \<and> (\<forall>e \<in> set (events db). ce_change e = ChangeDeleted \<longleftrightarrow> ce_revision e = [])
     \<and> distinct (map cs_integration (scopes db)) \<and> (\<forall>s \<in> set (scopes db). 0 < cs_interval s)"

definition recordable :: "Delta \<Rightarrow> Change \<Rightarrow> bool" where
  "recordable delta c \<longleftrightarrow>
     known_change_kind (recorded_kind delta c) \<and> known_object_kind (ch_Kind c)
     \<and> (recorded_kind delta c = ChangeDeleted \<longleftrightarrow> ch_ObservedRevision c = [])"

definition change_key :: "Delta \<Rightarrow> Change \<Rightarrow> uuid \<times> string \<times> string" where
  "change_key delta c = (delta_IntegrationID delta, ch_UID c, ch_ObservedRevision c)"

lemma insert_change_Inr:
  assumes "insert_change now organization delta c db = Inr (n, db')"
  shows "recordable delta c \<and> scopes db' = scopes db \<and> next_event db' = next_event db + 1
    \<and> (\<exists>new. events db' = events db @ new \<and> length new = n
        \<and> (\<forall>e \<in> set new. ce_id e = next_event db \<and> ce_org e = organization \<and> event_key e = change_key delta c
              \<and> ce_change e = recorded_kind delta c)
        \<and> (new = [] \<longleftrightarrow> change_key delta c \<in> event_key ` set (events db)) \<and> length new \<le> 1)"
  using assms unfolding insert_change_def Let_def recordable_def
  by (auto simp: event_key_def change_key_def split: if_splits)

lemma insert_change_again:
  assumes "recordable delta c" "change_key delta c \<in> event_key ` set (events db)"
  shows "insert_change now organization delta c db = Inr (0, db\<lparr>next_event := next_event db + 1\<rparr>)"
  using assms by (simp add: insert_change_def Let_def recordable_def event_key_def change_key_def)

lemma insert_changes_Inr:
  assumes "insert_changes now organization delta cs db = Inr (n, db')"
  shows "(\<forall>c \<in> set cs. recordable delta c \<and> change_key delta c \<in> event_key ` set (events db'))
    \<and> scopes db' = scopes db \<and> next_event db \<le> next_event db'
    \<and> (\<exists>new. events db' = events db @ new \<and> length new = n
         \<and> (\<forall>e \<in> set new. next_event db \<le> ce_id e \<and> ce_id e < next_event db')
         \<and> (\<forall>e \<in> set new. \<exists>c \<in> set cs. event_key e = change_key delta c \<and> ce_change e = recorded_kind delta c)
         \<and> distinct (map ce_id new) \<and> distinct (map event_key new)
         \<and> event_key ` set new \<inter> event_key ` set (events db) = {})"
  using assms
proof (induction now organization delta cs db arbitrary: n db' rule: insert_changes.induct)
  case (2 now organization delta c cs db)
  then obtain k db1 m where c: "insert_change now organization delta c db = Inr (k, db1)"
    and rest: "insert_changes now organization delta cs db1 = Inr (m, db')" and n: "n = k + m"
    by (auto split: sum.splits)
  from insert_change_Inr [OF c] obtain first where first: "recordable delta c" "scopes db1 = scopes db"
      "next_event db1 = next_event db + 1" "events db1 = events db @ first" "length first = k" "length first \<le> 1"
      "\<forall>e \<in> set first. ce_id e = next_event db \<and> event_key e = change_key delta c \<and> ce_change e = recorded_kind delta c"
      "first = [] \<longleftrightarrow> change_key delta c \<in> event_key ` set (events db)"
    by blast
  from 2(1) [OF c refl rest] obtain new where new:
      "\<forall>c \<in> set cs. recordable delta c \<and> change_key delta c \<in> event_key ` set (events db')" "scopes db' = scopes db1"
      "next_event db1 \<le> next_event db'" "events db' = events db1 @ new" "length new = m"
      "\<forall>e \<in> set new. next_event db1 \<le> ce_id e \<and> ce_id e < next_event db'"
      "\<forall>e \<in> set new. \<exists>c \<in> set cs. event_key e = change_key delta c \<and> ce_change e = recorded_kind delta c"
      "distinct (map ce_id new)" "distinct (map event_key new)" "event_key ` set new \<inter> event_key ` set (events db1) = {}"
    by blast
  have one: "distinct (map ce_id first)" "distinct (map event_key first)" using first(6) by (cases first; simp)+
  have key: "change_key delta c \<in> event_key ` set (events db1)"
    using first(4,7,8) by (cases first) (auto simp: image_iff)
  have "ce_id ` set first \<inter> ce_id ` set new = {}" using first(3,7) new(6) by fastforce
  moreover have "event_key ` set first \<inter> event_key ` set new = {}" using new(10) first(4) by auto
  moreover have "event_key ` set first \<inter> event_key ` set (events db) = {}"
    using first(7,8) by (cases "first = []") (simp, metis (no_types, lifting) disjoint_iff imageE)
  moreover have "event_key ` set new \<inter> event_key ` set (events db) = {}" using new(10) first(4) by auto
  moreover have "\<forall>e \<in> set first. next_event db \<le> ce_id e \<and> ce_id e < next_event db'" using first(3,7) new(3) by auto
  moreover have "\<forall>e \<in> set new. next_event db \<le> ce_id e \<and> ce_id e < next_event db'" using first(3) new(6) by auto
  ultimately have parts: "distinct (map ce_id (first @ new))" "distinct (map event_key (first @ new))"
      "event_key ` set (first @ new) \<inter> event_key ` set (events db) = {}"
      "\<forall>e \<in> set (first @ new). next_event db \<le> ce_id e \<and> ce_id e < next_event db'"
    using one new(8,9) by (auto simp: Int_Un_distrib2)
  have "\<forall>e \<in> set (first @ new). \<exists>c' \<in> set (c # cs). event_key e = change_key delta c' \<and> ce_change e = recorded_kind delta c'"
    using first(7) new(7) by auto
  with parts show ?case
    using first(1-5) new(1-5) key n by (intro conjI exI [of _ "first @ new"]) auto
qed simp

lemma insert_changes_new:
  assumes "insert_changes now organization delta cs db = Inr (n, db')"
  obtains new where "events db' = events db @ new" "length new = n"
    "\<forall>e \<in> set new. next_event db \<le> ce_id e \<and> ce_id e < next_event db'"
    "\<forall>e \<in> set new. \<exists>c \<in> set cs. event_key e = change_key delta c \<and> ce_change e = recorded_kind delta c"
    "distinct (map ce_id new)" "distinct (map event_key new)" "event_key ` set new \<inter> event_key ` set (events db) = {}"
  using insert_changes_Inr [OF assms] that by (elim conjE exE)

lemma insert_changes_again:
  assumes "\<forall>c \<in> set cs. recordable delta c \<and> change_key delta c \<in> event_key ` set (events db)"
  shows "\<exists>n. insert_changes now organization delta cs db = Inr (0, db\<lparr>next_event := n\<rparr>)"
  using assms
proof (induction cs arbitrary: db)
  case Nil
  show ?case by (rule exI [of _ "next_event db"]) simp
next
  case (Cons c cs)
  let ?db = "db\<lparr>next_event := next_event db + 1\<rparr>"
  have "\<forall>c \<in> set cs. recordable delta c \<and> change_key delta c \<in> event_key ` set (events ?db)" using Cons.prems by simp
  from Cons.IH [OF this] obtain n where "insert_changes now organization delta cs ?db = Inr (0, ?db\<lparr>next_event := n\<rparr>)" by blast
  with insert_change_again [of delta c db now organization] Cons.prems show ?case by auto
qed

lemma at_least_idem [simp]: "at_least v (at_least v x) = at_least v x"
  by (simp add: at_least_def split: option.splits)

lemma advance_again:
  assumes "\<forall>s \<in> set ss. 0 < cs_interval s"
  shows "advanceChangeScope organization delta 0 (advanceChangeScope organization delta inserted ss)
    = advanceChangeScope organization delta inserted ss"
proof -
  have "baseline_scope delta 0 (baseline_scope delta inserted s) = baseline_scope delta inserted s"
    if "0 < cs_interval s" for s
  proof -
    have "delta_ObservedAt delta - (case cs_last_confirmed_at s of None \<Rightarrow> delta_ObservedAt delta
        | Some y \<Rightarrow> max y (delta_ObservedAt delta)) \<le> cs_interval s * 2 * Second"
      using that by (auto split: option.splits)
    then show ?thesis by (auto simp: baseline_scope_def Let_def at_least_def split: option.splits)
  qed
  moreover have "confirmed_scope delta (confirmed_scope delta s) = confirmed_scope delta s" for s
    by (simp add: confirmed_scope_def)
  ultimately show ?thesis
    using assms unfolding advanceChangeScope_def update_where_def by (auto simp: baseline_scope_def confirmed_scope_def Let_def)
qed

text \<open>Times that only move forward; an unset one may become set.\<close>

definition no_earlier :: "instant option \<Rightarrow> instant option \<Rightarrow> bool" where
  "no_earlier x y \<longleftrightarrow> (case x of None \<Rightarrow> True | Some v \<Rightarrow> (case y of None \<Rightarrow> False | Some w \<Rightarrow> v \<le> w))"

lemma no_earlier_refl [simp]: "no_earlier x x"
  by (simp add: no_earlier_def split: option.splits)

lemma no_earlier_trans: "no_earlier x y \<Longrightarrow> no_earlier y z \<Longrightarrow> no_earlier x z"
  by (auto simp: no_earlier_def split: option.splits)

lemma no_earlier_at_least [simp]: "no_earlier x (at_least v x)"
  by (simp add: no_earlier_def at_least_def split: option.splits)

definition scope_advances :: "change_scope \<Rightarrow> change_scope \<Rightarrow> bool" where
  "scope_advances s s' \<longleftrightarrow>
     cs_integration s' = cs_integration s \<and> cs_org s' = cs_org s \<and> cs_policy_revision s \<le> cs_policy_revision s'
     \<and> no_earlier (cs_baseline_at s) (cs_baseline_at s') \<and> no_earlier (cs_last_confirmed_at s) (cs_last_confirmed_at s')
     \<and> (cs_covered_since s \<noteq> None \<longrightarrow> cs_covered_since s' \<noteq> None)
     \<and> (cs_interval s' \<noteq> cs_interval s \<longrightarrow> cs_policy_revision s < cs_policy_revision s')"

lemma scope_advances_refl [simp]: "scope_advances s s"
  by (simp add: scope_advances_def)

lemma scope_advances_trans: "scope_advances s s' \<Longrightarrow> scope_advances s' s'' \<Longrightarrow> scope_advances s s''"
  by (auto simp: scope_advances_def elim: no_earlier_trans)

lemma row_changes_advance [simp]:
  "scope_advances s (reopened seconds s)" "scope_advances s (baseline_scope delta inserted s)"
  "scope_advances s (confirmed_scope delta s)" "scope_advances s (stamped stamp s)"
  by (auto simp: scope_advances_def reopened_def baseline_scope_def confirmed_scope_def stamped_def Let_def split: option.splits)

definition scopes_advance :: "change_scope list \<Rightarrow> change_scope list \<Rightarrow> bool" where
  "scopes_advance ss ss' \<longleftrightarrow>
     (\<forall>i s. row_of cs_integration i ss = Some s \<longrightarrow> (\<exists>s'. row_of cs_integration i ss' = Some s' \<and> scope_advances s s'))"

lemma scopes_advance_refl [simp]: "scopes_advance ss ss"
  by (simp add: scopes_advance_def)

lemma scopes_advance_trans: "scopes_advance ss ss' \<Longrightarrow> scopes_advance ss' ss'' \<Longrightarrow> scopes_advance ss ss''"
  unfolding scopes_advance_def by (meson scope_advances_trans)

lemma scopes_advance_update:
  assumes "\<And>s. p s \<Longrightarrow> scope_advances s (f s)"
  shows "scopes_advance ss (update_where p f ss)"
proof -
  have "row_of cs_integration i (update_where p f ss) = map_option (\<lambda>s. if p s then f s else s) (row_of cs_integration i ss)" for i
    using assms by (intro row_of_update_where) (simp add: scope_advances_def)
  then show ?thesis using assms by (auto simp: scopes_advance_def)
qed

lemma scopes_advance_append [simp]: "scopes_advance ss (ss @ new)"
  by (simp add: scopes_advance_def)

lemma upsert_advances: "scopes_advance ss (upsert_scope organization seconds i ss)"
  by (auto simp: upsert_scope_def intro: scopes_advance_update)

lemma fold_upsert_advances: "scopes_advance ss (fold (upsert_scope organization seconds) served ss)"
  by (induction served arbitrary: ss) (auto intro: scopes_advance_trans [OF upsert_advances])

lemma stamp_loop_advances: "stamp_loop organization registrationID ints stamps ss = (err, ss') \<Longrightarrow> scopes_advance ss ss'"
proof (induction organization registrationID ints stamps ss arbitrary: err ss' rule: stamp_loop.induct)
  case (2 organization registrationID ints stamp fate rest ss)
  have one: "scopes_advance ss (update_where (stamps_scope organization registrationID ints stamp) (stamped stamp) ss)"
    by (intro scopes_advance_update) simp
  with 2 show ?case by (auto simp: Let_def split: db_fate.splits intro: scopes_advance_trans)
qed simp

lemma PruneChangesBefore_batch:
  assumes "distinct (map ce_id es)" "PruneChangesBefore before (int pruneBatch) es = Inr (n, es')"
  shows "n = min pruneBatch (rows_affected (expired_change before) es)
    \<and> filter (\<lambda>e. \<not> expired_change before e) es' = filter (\<lambda>e. \<not> expired_change before e) es
    \<and> rows_affected (expired_change before) es' + n = rows_affected (expired_change before) es
    \<and> distinct (map ce_id es')"
proof -
  from assms(2) have "delete_oldest ce_id (\<lambda>e. (ce_received_at e, ce_id e)) (expired_change before) pruneBatch es = (n, es')"
    by (simp add: PruneChangesBefore_def)
  from delete_oldest_deletes [OF assms(1) this] show ?thesis by simp
qed

interpretation change_retention:
  batch_retention "PruneChangesBefore before (int pruneBatch)" "expired_change before" "\<lambda>es. distinct (map ce_id es)"
  for before
  by unfold_locales (use PruneChangesBefore_batch in blast)+

text \<open>Whatever the loop deletes, what is left is part of what was there.\<close>

lemma prune_loop_subset:
  assumes "prune_loop (PruneChangesBefore before (int pruneBatch)) attempts rounds es = (removed, failed, es')"
    and "distinct (map ce_id es)" "distinct (map event_key es)"
  shows "set es' \<subseteq> set es \<and> distinct (map ce_id es') \<and> distinct (map event_key es')"
  using assms
proof (induction rounds arbitrary: es removed failed es')
  case (Suc rounds)
  obtain batch u where ok: "PruneChangesBefore before (int pruneBatch) es = Inr (batch, u)"
    by (auto simp: PruneChangesBefore_def) (metis surj_pair)
  then have del: "delete_oldest ce_id (\<lambda>e. (ce_received_at e, ce_id e)) (expired_change before) pruneBatch es = (batch, u)"
    by (simp add: PruneChangesBefore_def)
  then have u: "set u \<subseteq> set es" "distinct (map ce_id u)" "distinct (map event_key u)"
    using Suc.prems(2,3) by (auto simp: delete_oldest_def Let_def distinct_map_filter)
  obtain rest rfail w where loop: "prune_loop (PruneChangesBefore before (int pruneBatch)) attempts rounds u = (rest, rfail, w)"
    by (cases "prune_loop (PruneChangesBefore before (int pruneBatch)) attempts rounds u") auto
  from Suc.IH [OF loop u(2,3)] u Suc.prems ok loop show ?case
    by (auto split: attempt.splits db_fate.splits if_splits)
qed simp

lemma upsert_wf:
  assumes "distinct (map cs_integration ss)" "\<forall>s \<in> set ss. 0 < cs_interval s" "0 < seconds"
  shows "distinct (map cs_integration (upsert_scope organization seconds i ss))
    \<and> (\<forall>s \<in> set (upsert_scope organization seconds i ss). 0 < cs_interval s)"
proof -
  have "map cs_integration (update_where (\<lambda>s. cs_integration s = i) (reopened seconds) ss) = map cs_integration ss"
    by (intro map_update_where) (simp add: reopened_def)
  with assms show ?thesis by (auto simp: upsert_scope_def new_scope_def reopened_def set_update_where)
qed

lemma fold_upsert_wf:
  assumes "distinct (map cs_integration ss)" "\<forall>s \<in> set ss. 0 < cs_interval s" "0 < seconds"
  shows "distinct (map cs_integration (fold (upsert_scope organization seconds) served ss))
    \<and> (\<forall>s \<in> set (fold (upsert_scope organization seconds) served ss). 0 < cs_interval s)"
  using assms
proof (induction served arbitrary: ss)
  case (Cons i served)
  have "distinct (map cs_integration (upsert_scope organization seconds i ss))"
      "\<forall>s \<in> set (upsert_scope organization seconds i ss). 0 < cs_interval s"
    using upsert_wf [OF Cons.prems] by blast+
  from Cons.IH [OF this Cons.prems(3)] show ?case by simp
qed simp

lemma scopes_wf_update:
  assumes "distinct (map cs_integration ss)" "\<forall>s \<in> set ss. 0 < cs_interval s"
    and "\<And>s. cs_integration (f s) = cs_integration s \<and> cs_interval (f s) = cs_interval s"
  shows "distinct (map cs_integration (update_where p f ss)) \<and> (\<forall>s \<in> set (update_where p f ss). 0 < cs_interval s)"
proof -
  have "map cs_integration (update_where p f ss) = map cs_integration ss" using assms(3) by (intro map_update_where) simp
  with assms show ?thesis by (auto simp: set_update_where)
qed

lemma stamp_loop_wf:
  assumes "distinct (map cs_integration ss)" "\<forall>s \<in> set ss. 0 < cs_interval s"
    and "stamp_loop organization registrationID ints stamps ss = (err, ss')"
  shows "distinct (map cs_integration ss') \<and> (\<forall>s \<in> set ss'. 0 < cs_interval s)"
  using assms
proof (induction organization registrationID ints stamps ss arbitrary: err ss' rule: stamp_loop.induct)
  case (2 organization registrationID ints stamp fate rest ss)
  have "distinct (map cs_integration (update_where p (stamped stamp) ss))
      \<and> (\<forall>s \<in> set (update_where p (stamped stamp) ss). 0 < cs_interval s)" for p
    using 2(2,3) by (rule scopes_wf_update) (simp add: stamped_def Let_def)
  with 2 show ?case by (auto simp: Let_def split: db_fate.splits)
qed simp

lemma accepted_delta_keeps:
  assumes "changes_inv db"
    and ins: "insert_changes now organization delta cs db = Inr (n, db1)"
  shows "changes_inv (db1\<lparr>scopes := advanceChangeScope organization delta n (scopes db1)\<rparr>)
    \<and> scopes_advance (scopes db) (advanceChangeScope organization delta n (scopes db1))"
proof -
  let ?ss = "advanceChangeScope organization delta n (scopes db)"
  have kept: "scopes db1 = scopes db" "next_event db \<le> next_event db1"
      and fit: "\<forall>c \<in> set cs. recordable delta c"
    using insert_changes_Inr [OF ins] by simp_all
  obtain new where new: "events db1 = events db @ new"
      "\<forall>e \<in> set new. next_event db \<le> ce_id e \<and> ce_id e < next_event db1"
      "\<forall>e \<in> set new. \<exists>c \<in> set cs. event_key e = change_key delta c
         \<and> ce_change e = recorded_kind delta c"
      "distinct (map ce_id new)" "distinct (map event_key new)" "event_key ` set new \<inter> event_key ` set (events db) = {}"
    by (rule insert_changes_new [OF ins])
  note inv = assms(1) [unfolded changes_inv_def]
  have "ce_id ` set (events db) \<inter> ce_id ` set new = {}" using new(2) inv by fastforce
  then have ids: "distinct (map ce_id (events db1))" using new(1,4) inv by simp
  have keys: "distinct (map event_key (events db1))" using new(1,5,6) inv by (simp add: Int_commute)
  have below: "\<forall>e \<in> set (events db1). ce_id e < next_event db1" using new(1,2) inv kept(2) by auto
  have "ce_change e = ChangeDeleted \<longleftrightarrow> ce_revision e = []" if "e \<in> set new" for e
  proof -
    from that obtain c where "recordable delta c" "event_key e = change_key delta c" "ce_change e = recorded_kind delta c"
      using new(3) fit by blast
    then show ?thesis by (simp add: recordable_def event_key_def change_key_def)
  qed
  then have revisions: "\<forall>e \<in> set (events db1). ce_change e = ChangeDeleted \<longleftrightarrow> ce_revision e = []"
    using new(1) inv by auto
  have "distinct (map cs_integration ?ss) \<and> (\<forall>s \<in> set ?ss. 0 < cs_interval s)"
    unfolding advanceChangeScope_def using inv
    by (intro scopes_wf_update) (simp_all add: baseline_scope_def confirmed_scope_def Let_def)
  moreover have "scopes_advance (scopes db) ?ss"
    unfolding advanceChangeScope_def by (intro scopes_advance_update) simp
  ultimately show ?thesis using ids keys below revisions kept(1) unfolding changes_inv_def by simp
qed

lemma change_step_keeps:
  assumes "changes_inv db" "change_step db db'"
  shows "changes_inv db' \<and> scopes_advance (scopes db) (scopes db')"
  using assms(2)
proof cases
  case (opened organization registrationID interval ints opened)
  then have "0 < interval div Second" "db' = db\<lparr>scopes := fold (upsert_scope organization (interval div Second))
      (map int_id (filter (watched organization registrationID) ints)) (scopes db)\<rparr>"
    by (auto simp: OpenInventoryScopes_def Let_def split: if_splits)
  with fold_upsert_wf [of "scopes db" "interval div Second" organization] fold_upsert_advances assms(1) show ?thesis
    by (simp add: changes_inv_def)
next
  case (recorded sortFunc now organization registrationID delta ints r)
  show ?thesis
  proof (cases "list_ex (served_by organization registrationID (delta_IntegrationID delta)) ints")
    case False
    with recorded assms(1) show ?thesis by (auto simp: RecordInventoryDelta_def)
  next
    case True
    with recorded obtain n db1 where ins: "insert_changes now organization delta (sortFunc (delta_Changes delta)) db = Inr (n, db1)"
      and db': "db' = db1\<lparr>scopes := advanceChangeScope organization delta n (scopes db1)\<rparr>"
      by (auto simp: RecordInventoryDelta_def split: sum.splits)
    from accepted_delta_keeps [OF assms(1) ins] show ?thesis by (simp add: db')
  qed
next
  case (stamped organization registrationID ints stamps err)
  obtain e ss where loop: "stamp_loop organization registrationID ints stamps (scopes db) = (e, ss)" by fastforce
  then have "db' = db \<or> db' = db\<lparr>scopes := ss\<rparr>"
    using stamped by (cases "poolForOrganization organization") (auto simp: RecordInventoryFreshness_def split: if_splits)
  then show ?thesis
    using stamp_loop_wf [OF _ _ loop] stamp_loop_advances [OF loop] assms(1) by (auto simp: changes_inv_def)
next
  case (swept addDate now days attempts removed failed)
  then obtain es where loop: "prune_loop (PruneChangesBefore (addDate now days) (int pruneBatch)) attempts maxBatchesPerSweep
      (events db) = (removed, failed, es)" and db': "db' = db\<lparr>events := es\<rparr>"
    by (auto simp: SweepChanges_def split: prod.splits)
  from prune_loop_subset [OF loop] assms(1) show ?thesis by (auto simp: changes_inv_def db')
qed

lemma RecordInventoryDelta_accepted:
  assumes "RecordInventoryDelta sortFunc now organization registrationID delta ints db = Inr (r, db')" "\<not> rec_Refused r"
  obtains db1 where "organization \<noteq> uuid_Nil" "list_ex (served_by organization registrationID (delta_IntegrationID delta)) ints"
    "insert_changes now organization delta (sortFunc (delta_Changes delta)) db = Inr (rec_Inserted r, db1)"
    "db' = db1\<lparr>scopes := advanceChangeScope organization delta (rec_Inserted r) (scopes db)\<rparr>"
proof -
  from assms obtain n db1 where "organization \<noteq> uuid_Nil" "list_ex (served_by organization registrationID (delta_IntegrationID delta)) ints"
    and ins: "insert_changes now organization delta (sortFunc (delta_Changes delta)) db = Inr (n, db1)"
    and "r = \<lparr>rec_Inserted = n, rec_Refused = False\<rparr>"
      "db' = db1\<lparr>scopes := advanceChangeScope organization delta n (scopes db1)\<rparr>"
    by (auto simp: RecordInventoryDelta_def split: if_splits sum.splits)
  moreover have "scopes db1 = scopes db" using insert_changes_Inr [OF ins] by simp
  ultimately show thesis using that by simp
qed

lemma RecordInventoryDelta_found:
  assumes "sorts sortFunc"
    and "RecordInventoryDelta sortFunc now organization registrationID delta ints db = Inr (r, db')" "\<not> rec_Refused r"
    and "c \<in> set (delta_Changes delta)"
  shows "\<exists>e \<in> set (events db'). ce_integration e = delta_IntegrationID delta
    \<and> ce_uid e = ch_UID c \<and> ce_revision e = ch_ObservedRevision c"
proof -
  obtain db1 where ins: "insert_changes now organization delta (sortFunc (delta_Changes delta)) db = Inr (rec_Inserted r, db1)"
    and db': "db' = db1\<lparr>scopes := advanceChangeScope organization delta (rec_Inserted r) (scopes db)\<rparr>"
    by (rule RecordInventoryDelta_accepted [OF assms(2,3)])
  have "c \<in> set (sortFunc (delta_Changes delta))" using assms(1,4) by (simp add: sorts_def)
  with insert_changes_Inr [OF ins] have "change_key delta c \<in> event_key ` set (events db')" by (simp add: db')
  then show ?thesis by (auto simp: event_key_def change_key_def)
qed

section \<open>Properties\<close>

definition sample_change :: Change where
  "sample_change = \<lparr>ch_Namespace = ''shop'', ch_Kind = KindDeployment, ch_Name = ''api'', ch_UID = ''u1'',
     ch_ObservedRevision = ''41'', ch_Change = ChangeModified, ch_Fields = []\<rparr>"

definition sample_delta :: Delta where
  "sample_delta = \<lparr>delta_IntegrationID = 3, delta_PolicyRevision = 1, delta_Baseline = False, delta_ObservedAt = 50,
     delta_Changes = [sample_change]\<rparr>"

definition sample_watched :: integration where
  "sample_watched =
     \<lparr>int_id = 3, int_org = 1, int_provider = ''kubernetes'', int_relay_id = Some 2, int_disabled = False,
      int_verification_status = None, int_verified_at = None, int_verification_grants = []\<rparr>"

definition sample_changes :: change_db where
  "sample_changes = \<lparr>events = [], scopes = [new_scope 1 300 3], next_event = 1\<rparr>"

lemmas sample_change_defs = sample_change_def sample_delta_def sample_watched_def sample_changes_def new_scope_def

lemma sample_changes_inv: "changes_inv sample_changes"
  by (simp add: changes_inv_def sample_change_defs)

text \<open>
  Recording a delta is exact and can be repeated. A delta that is accepted is wholly in the
  table afterwards: each of its changes has an event under its integration, object and revision,
  the events before it are untouched, and exactly the counted ones are new. Recording the same
  delta again, at any moment and as often as the relay resends it, is accepted, inserts nothing and
  leaves the events and the scopes, their coverage included, as they were.
\<close>

theorem inventory_delta_is_idempotent:
  assumes "changes_inv db" "sorts sortFunc"
    and "RecordInventoryDelta sortFunc now organization registrationID delta ints db = Inr (r, db')" "\<not> rec_Refused r"
  shows "\<exists>new. events db' = events db @ new \<and> length new = rec_Inserted r
    \<and> (\<forall>c \<in> set (delta_Changes delta). \<exists>e \<in> set (events db'). ce_integration e = delta_IntegrationID delta
         \<and> ce_uid e = ch_UID c \<and> ce_revision e = ch_ObservedRevision c)
    \<and> (\<forall>later. \<exists>db''. RecordInventoryDelta sortFunc later organization registrationID delta ints db' =
           Inr (\<lparr>rec_Inserted = 0, rec_Refused = False\<rparr>, db'') \<and> events db'' = events db' \<and> scopes db'' = scopes db')"
proof -
  let ?cs = "sortFunc (delta_Changes delta)"
  obtain db1 where org: "organization \<noteq> uuid_Nil"
    and served: "list_ex (served_by organization registrationID (delta_IntegrationID delta)) ints"
    and ins: "insert_changes now organization delta ?cs db = Inr (rec_Inserted r, db1)"
    and db': "db' = db1\<lparr>scopes := advanceChangeScope organization delta (rec_Inserted r) (scopes db)\<rparr>"
    by (rule RecordInventoryDelta_accepted [OF assms(3,4)])
  have there: "\<forall>c \<in> set ?cs. recordable delta c \<and> change_key delta c \<in> event_key ` set (events db')"
    using insert_changes_Inr [OF ins] by (simp add: db')
  obtain new where new: "events db1 = events db @ new" "length new = rec_Inserted r" by (rule insert_changes_new [OF ins])
  note found = RecordInventoryDelta_found [OF assms(2-4)]
  have again: "\<exists>db''. RecordInventoryDelta sortFunc later organization registrationID delta ints db' =
      Inr (\<lparr>rec_Inserted = 0, rec_Refused = False\<rparr>, db'') \<and> events db'' = events db' \<and> scopes db'' = scopes db'" for later
  proof -
    from insert_changes_again [OF there] obtain k where
      k: "insert_changes later organization delta ?cs db' = Inr (0, db'\<lparr>next_event := k\<rparr>)" by blast
    have "advanceChangeScope organization delta 0 (scopes db') = scopes db'"
      unfolding db' using advance_again assms(1) by (simp add: changes_inv_def)
    with org served k show ?thesis by (simp add: RecordInventoryDelta_def)
  qed
  from new found again show ?thesis by (intro exI [of _ new]) (simp add: db')
qed

theorem inventory_delta_is_idempotent_witness:
  "\<exists>r db' e. RecordInventoryDelta (sort_key (\<lambda>c. (ch_UID c, ch_ObservedRevision c))) 60 1 2 sample_delta [sample_watched]
       sample_changes = Inr (r, db') \<and> e \<in> set (events db') \<and> ce_uid e = ''u1'' \<and> ce_revision e = ''41''"
proof -
  let ?sort = "sort_key (\<lambda>c. (ch_UID c, ch_ObservedRevision c))"
  have sorts: "sorts ?sort"
  proof -
    have "sorted_wrt (\<lambda>a b. compareChanges a b \<le> 0) (?sort cs)" for cs
      by (rule sorted_wrt_mono_rel [OF _ sorted_sort_key [unfolded sorted_map]])
         (auto simp: compareChanges_def less_eq_prod_def)
    then show ?thesis by (simp add: sorts_def)
  qed
  obtain r db' where ok: "RecordInventoryDelta ?sort 60 1 2 sample_delta [sample_watched] sample_changes = Inr (r, db')"
      "\<not> rec_Refused r"
    by (simp add: RecordInventoryDelta_def served_by_def insert_change_def recorded_kind_def known_change_kind_def
        known_object_kind_def sample_change_defs)
  from inventory_delta_is_idempotent [OF sample_changes_inv sorts ok] ok show ?thesis
    by (auto simp: sample_change_defs)
qed

text \<open>
  What is known of a cluster only grows. Through any sequence of statements, the tables stay
  well formed (one scope for each integration, one event for each observed revision of an object,
  deletions and only deletions without a revision), and a scope's policy revision, baseline time
  and last confirmation never go back; a change of the requested interval raises the
  revision, so an answer can be told from the answer to an older request.
\<close>

theorem coverage_never_goes_back:
  assumes "changes_inv db" "change_step\<^sup>*\<^sup>* db db'" "row_of cs_integration i (scopes db) = Some s"
  shows "changes_inv db' \<and> (\<exists>s'. row_of cs_integration i (scopes db') = Some s' \<and> scope_advances s s')"
proof -
  from assms(2) have "changes_inv db' \<and> scopes_advance (scopes db) (scopes db')"
  proof (induction rule: rtranclp_induct)
    case (step y z)
    with change_step_keeps [of y z] show ?case by (blast intro: scopes_advance_trans)
  qed (use assms(1) in simp)
  with assms(3) show ?thesis by (simp add: scopes_advance_def)
qed

theorem coverage_never_goes_back_witness:
  "\<exists>db'. OpenInventoryScopes 1 2 (60 * Second) [sample_watched] sample_changes = Inr (scopes db', db')
     \<and> (\<exists>s'. row_of cs_integration 3 (scopes db') = Some s' \<and> scope_advances (new_scope 1 300 3) s')"
proof -
  let ?db = "sample_changes\<lparr>scopes := [reopened 60 (new_scope 1 300 3)]\<rparr>"
  have call: "OpenInventoryScopes 1 2 (60 * Second) [sample_watched] sample_changes = Inr (scopes ?db, ?db)"
    by (simp add: OpenInventoryScopes_def Let_def watched_def upsert_scope_def sample_change_defs reopened_def)
  have row: "row_of cs_integration 3 (scopes sample_changes) = Some (new_scope 1 300 3)" by (simp add: sample_change_defs)
  have run: "change_step\<^sup>*\<^sup>* sample_changes ?db" using change_step.opened [OF call] by (rule r_into_rtranclp)
  from coverage_never_goes_back [OF sample_changes_inv run row] call
  show ?thesis by blast
qed

text \<open>
  The retention of changes removes what is too old and nothing else: whatever the context
  and the connection do, every event received at or after the horizon stays; when every call
  succeeds, a sweep removes the older events, all of them or 50000, whichever is less.
\<close>

theorem change_retention_is_exact:
  assumes "changes_inv db" "SweepChanges addDate now days attempts db = (removed, failed, db')"
  shows "filter (\<lambda>e. \<not> ce_received_at e < addDate now days) (events db') =
      filter (\<lambda>e. \<not> ce_received_at e < addDate now days) (events db)
    \<and> scopes db' = scopes db
    \<and> ((\<forall>i. attempts i = Attempt Reported) \<longrightarrow>
        removed = min 50000 (length (filter (\<lambda>e. ce_received_at e < addDate now days) (events db)))
        \<and> length (events db') + removed = length (events db))"
proof -
  let ?old = "expired_change (addDate now days)"
  obtain es where loop: "prune_loop (PruneChangesBefore (addDate now days) (int pruneBatch)) attempts maxBatchesPerSweep
      (events db) = (removed, failed, es)" and db': "db' = db\<lparr>events := es\<rparr>"
    using assms(2) by (auto simp: SweepChanges_def split: prod.splits)
  have ids: "distinct (map ce_id (events db))" using assms(1) by (simp add: changes_inv_def)
  note keeps = change_retention.loop_keeps [OF ids loop]
  have removes: "removed = min 50000 (rows_affected ?old (events db)) \<and> rows_affected ?old es + removed = rows_affected ?old (events db)"
    if "\<forall>i. attempts i = Attempt Reported"
    using change_retention.loop_removes [OF ids _ _ loop] that by (auto simp: PruneChangesBefore_def)
  have "length (filter ?old xs) + length (filter (\<lambda>e. \<not> ?old e) xs) = length xs" for xs by (rule sum_length_filter_compl)
  note total = this [of es] this [of "events db"]
  have old: "?old = (\<lambda>e. ce_received_at e < addDate now days)" by (simp add: fun_eq_iff expired_change_def)
  from total keeps removes db' show ?thesis by (auto simp: old rows_affected_def)
qed

definition sample_stale :: change_event where
  "sample_stale = \<lparr>ce_id = 1, ce_org = 1, ce_integration = 3, ce_namespace = ''shop'', ce_kind = KindDeployment,
     ce_name = ''api'', ce_uid = ''u1'', ce_revision = ''40'', ce_change = ChangeModified, ce_observed_at = 4,
     ce_received_at = 5, ce_fields = []\<rparr>"

theorem change_retention_is_exact_witness:
  "fst (SweepChanges (\<lambda>t d. t - int d) 10 3 (\<lambda>_. Attempt Reported)
     (sample_changes\<lparr>events := [sample_stale], next_event := 2\<rparr>)) = 1"
proof -
  let ?db = "sample_changes\<lparr>events := [sample_stale], next_event := 2\<rparr>"
  let ?s = "SweepChanges (\<lambda>t d. t - int d) 10 3 (\<lambda>_. Attempt Reported) ?db"
  have inv: "changes_inv ?db" by (simp add: changes_inv_def sample_change_defs sample_stale_def)
  from change_retention_is_exact [OF inv, of "\<lambda>t d. t - int d" 10 3 "\<lambda>_. Attempt Reported" "fst ?s" "fst (snd ?s)" "snd (snd ?s)"]
  show ?thesis by (simp add: sample_stale_def)
qed

end
