(* ===== verification/Inventory.thy ===== *)
theory Inventory
  imports RelaySession ChangeStore
begin

text \<open>
  The inventory half of a relay session (\<^verbatim>\<open>internal/relay/inventory.go\<close>): policies go out,
  deltas and freshness stamps come in and are reduced to what the control plane records.
  A protobuf enumeration value this build does not name is \<open>INVENTORY_OTHER\<close> or
  \<open>CHANGE_OTHER\<close>.
\<close>

section \<open>Messages\<close>

datatype InventoryObjectKind =
    INVENTORY_DEPLOYMENT | INVENTORY_STATEFULSET | INVENTORY_DAEMONSET | INVENTORY_CONFIGMAP | INVENTORY_SECRET
  | INVENTORY_OTHER int

datatype InventoryChangeKind = CHANGE_CREATED | CHANGE_MODIFIED | CHANGE_DELETED | CHANGE_OTHER int

record InventoryObjectChange =
  ioc_Namespace :: string
  ioc_Kind :: InventoryObjectKind
  ioc_Name :: string
  ioc_Uid :: string
  ioc_ObservedRevision :: string
  ioc_Change :: InventoryChangeKind
  ioc_Fields :: "FieldChange list"

record InventoryDelta =
  id_DeltaId :: string
  id_ConnectionId :: string
  id_PolicyRevision :: "64 word"
  id_Baseline :: bool
  id_ObservedAt :: "instant option"
  id_Changes :: "InventoryObjectChange list"

record InventoryScopeState =
  iss_ConnectionId :: string
  iss_PolicyRevision :: "64 word"
  iss_LastCompletedAt :: "instant option"
  iss_Faulted :: bool
  iss_Truncated :: bool

section \<open>Reducing a delta\<close>

fun objectKindOf :: "InventoryObjectKind \<Rightarrow> ObjectKind option" where
  "objectKindOf INVENTORY_DEPLOYMENT = Some KindDeployment"
| "objectKindOf INVENTORY_STATEFULSET = Some KindStatefulSet"
| "objectKindOf INVENTORY_DAEMONSET = Some KindDaemonSet"
| "objectKindOf INVENTORY_CONFIGMAP = Some KindConfigMap"
| "objectKindOf INVENTORY_SECRET = Some KindSecret"
| "objectKindOf (INVENTORY_OTHER _) = None"

fun changeKindOf :: "InventoryChangeKind \<Rightarrow> ChangeKind option" where
  "changeKindOf CHANGE_CREATED = Some ChangeCreated"
| "changeKindOf CHANGE_MODIFIED = Some ChangeModified"
| "changeKindOf CHANGE_DELETED = Some ChangeDeleted"
| "changeKindOf (CHANGE_OTHER _) = None"

definition within :: "string \<Rightarrow> nat \<Rightarrow> nat \<Rightarrow> bool" where
  "within s low high \<longleftrightarrow> low \<le> length s \<and> length s \<le> high"

definition field_within :: "FieldChange \<Rightarrow> bool" where
  "field_within f \<longleftrightarrow> within (fc_Field f) 1 253 \<and> within (fc_Before f) 0 512 \<and> within (fc_After f) 0 512"

definition reduceChange :: "InventoryObjectChange \<Rightarrow> Change option" where
  "reduceChange change =
     (case objectKindOf (ioc_Kind change) of
        None \<Rightarrow> None
      | Some kind \<Rightarrow>
          (case changeKindOf (ioc_Change change) of
             None \<Rightarrow> None
           | Some changeKind \<Rightarrow>
               if \<not> within (ioc_Namespace change) 1 63 \<or> \<not> within (ioc_Name change) 1 253
                  \<or> \<not> within (ioc_Uid change) 1 128 \<or> \<not> within (ioc_ObservedRevision change) 0 128 then None
               else if (changeKind = ChangeDeleted) \<noteq> (ioc_ObservedRevision change = []) then None
               else if \<not> list_all field_within (ioc_Fields change) then None
               else Some \<lparr>ch_Namespace = ioc_Namespace change, ch_Kind = kind, ch_Name = ioc_Name change,
                          ch_UID = ioc_Uid change, ch_ObservedRevision = ioc_ObservedRevision change,
                          ch_Change = changeKind, ch_Fields = ioc_Fields change\<rparr>))"

fun reduce_loop :: "InventoryObjectChange list \<Rightarrow> Change list \<times> nat" where
  "reduce_loop [] = ([], 0)"
| "reduce_loop (change # rest) =
     (let (domain, skipped) = reduce_loop rest in
      case reduceChange change of
        None \<Rightarrow> (domain, skipped + 1)
      | Some c \<Rightarrow> (c # domain, skipped))"

text \<open>A missing timestamp reads as the Unix epoch.\<close>

definition reduceDelta :: "InventoryDelta \<Rightarrow> uuid \<Rightarrow> Delta \<times> nat" where
  "reduceDelta delta integrationID =
     (let (domain, skipped) = reduce_loop (id_Changes delta) in
      (\<lparr>delta_IntegrationID = integrationID, delta_PolicyRevision = int64_of_uint64 (id_PolicyRevision delta),
        delta_Baseline = id_Baseline delta,
        delta_ObservedAt = (case id_ObservedAt delta of None \<Rightarrow> 0 | Some t \<Rightarrow> t),
        delta_Changes = domain\<rparr>, skipped))"

section \<open>Handling\<close>

definition inventoryDeltaAck :: "string \<Rightarrow> ControlToRelay" where
  "inventoryDeltaAck deltaID = InventoryDeltaAck deltaID"

definition inventoryPolicy :: "uuid_lib \<Rightarrow> change_scope \<Rightarrow> ControlToRelay" where
  "inventoryPolicy lib s =
     InventorySynchronizationPolicy (uuid_String lib (cs_integration s)) (uint64_of_int64 (cs_policy_revision s))
       (cs_interval s * Second)"

definition recordInventoryDelta ::
  "uuid_lib \<Rightarrow> (Change list \<Rightarrow> Change list) \<Rightarrow> instant \<Rightarrow> db_fate \<Rightarrow> send_pick \<Rightarrow> integration list \<Rightarrow> InventoryDelta
     \<Rightarrow> sessionState \<Rightarrow> change_db \<Rightarrow> session_error option \<times> sessionState \<times> change_db"
where
  "recordInventoryDelta lib sortFunc now fate pick ints delta x db =
     (let ack = send pick (inventoryDeltaAck (id_DeltaId delta)) x in
      case uuid_Parse lib (id_ConnectionId delta) of
        None \<Rightarrow> (fst ack, snd ack, db)
      | Some integrationID \<Rightarrow>
          let (reduced, skipped) = reduceDelta delta integrationID;
              (recorded, db') = db_call fate
                (RecordInventoryDelta sortFunc now (ss_organization x) (ss_registrationID x) reduced ints db) db in
          case recorded of
            Inl e \<Rightarrow> (None, x, db')
          | Inr r \<Rightarrow> (fst ack, snd ack, db'))"

definition freshness_of :: "uuid_lib \<Rightarrow> InventoryScopeState \<Rightarrow> Freshness option" where
  "freshness_of lib s =
     map_option (\<lambda>integrationID.
       \<lparr>fresh_IntegrationID = integrationID, fresh_PolicyRevision = int64_of_uint64 (iss_PolicyRevision s),
        fresh_CompletedAt = iss_LastCompletedAt s, fresh_Faulted = iss_Faulted s, fresh_Truncated = iss_Truncated s\<rparr>)
       (uuid_Parse lib (iss_ConnectionId s))"

definition recordInventoryFreshness ::
  "uuid_lib \<Rightarrow> (Freshness \<Rightarrow> db_fate) \<Rightarrow> integration list \<Rightarrow> InventoryScopeState list \<Rightarrow> sessionState \<Rightarrow> change_db \<Rightarrow> change_db"
where
  "recordInventoryFreshness lib fates ints heard x db =
     (if heard = [] then db
      else snd (RecordInventoryFreshness (ss_organization x) (ss_registrationID x) ints
                 (map (\<lambda>stamp. (stamp, fates stamp)) (List.map_filter (freshness_of lib) heard)) db))"

fun policy_loop ::
  "uuid_lib \<Rightarrow> (uuid \<Rightarrow> send_pick) \<Rightarrow> change_scope list \<Rightarrow> sessionState \<Rightarrow> sessionState"
where
  "policy_loop lib picks [] x = x"
| "policy_loop lib picks (s # rest) x =
     (case send (picks (cs_integration s)) (inventoryPolicy lib s) x of
        (Some err, x') \<Rightarrow> x'
      | (None, x') \<Rightarrow> policy_loop lib picks rest x')"

definition sendInventoryPolicies ::
  "uuid_lib \<Rightarrow> (uuid \<Rightarrow> send_pick) \<Rightarrow> db_fate \<Rightarrow> duration \<Rightarrow> integration list \<Rightarrow> sessionState \<Rightarrow> change_db
     \<Rightarrow> sessionState \<times> change_db"
where
  "sendInventoryPolicies lib picks fate interval ints x db =
     (let (opened, db') = db_call fate
            (OpenInventoryScopes (ss_organization x) (ss_registrationID x) interval ints db) db in
      case opened of
        Inl e \<Rightarrow> (x, db')
      | Inr ss \<Rightarrow> (policy_loop lib picks ss x, db'))"

section \<open>Lemmas\<close>

lemma reduce_loop_mem: "c \<in> set (fst (reduce_loop cs)) \<longleftrightarrow> (\<exists>change \<in> set cs. reduceChange change = Some c)"
  by (induction cs) (auto simp: Let_def split: prod.splits option.splits)

lemma reduce_loop_skipped: "length (fst (reduce_loop cs)) + snd (reduce_loop cs) = length cs"
  by (induction cs) (auto simp: Let_def split: prod.splits option.splits)

lemma reduceChange_fit:
  assumes "reduceChange change = Some c"
  shows "known_object_kind (ch_Kind c)" "ch_Change c \<in> {ChangeCreated, ChangeModified, ChangeDeleted}"
    "ch_Change c = ChangeDeleted \<longleftrightarrow> ch_ObservedRevision c = []" "ch_UID c = ioc_Uid change"
    "ch_ObservedRevision c = ioc_ObservedRevision change"
proof -
  from assms obtain kind changeKind where k: "objectKindOf (ioc_Kind change) = Some kind" "changeKindOf (ioc_Change change) = Some changeKind"
    and c: "c = \<lparr>ch_Namespace = ioc_Namespace change, ch_Kind = kind, ch_Name = ioc_Name change, ch_UID = ioc_Uid change,
       ch_ObservedRevision = ioc_ObservedRevision change, ch_Change = changeKind, ch_Fields = ioc_Fields change\<rparr>"
    and d: "changeKind = ChangeDeleted \<longleftrightarrow> ioc_ObservedRevision change = []"
    by (auto simp: reduceChange_def split: option.splits if_splits)
  show "known_object_kind (ch_Kind c)" using k(1) by (cases "ioc_Kind change") (auto simp: c known_object_kind_def)
  show "ch_Change c \<in> {ChangeCreated, ChangeModified, ChangeDeleted}"
    using k(2) by (cases "ioc_Change change") (auto simp: c)
  show "ch_Change c = ChangeDeleted \<longleftrightarrow> ch_ObservedRevision c = []" "ch_UID c = ioc_Uid change"
    "ch_ObservedRevision c = ioc_ObservedRevision change" using d by (simp_all add: c)
qed

text \<open>A reduced delta is recordable, unless it is a baseline that carries a deletion.\<close>

lemma reduced_recordable:
  assumes "reduceChange change = Some c" "\<not> (delta_Baseline delta \<and> ioc_Change change = CHANGE_DELETED)"
  shows "recordable delta c"
proof -
  have "ch_Change c = ChangeDeleted \<longleftrightarrow> ioc_Change change = CHANGE_DELETED"
    using assms(1) by (cases "ioc_Change change") (auto simp: reduceChange_def split: option.splits if_splits)
  with reduceChange_fit(1-3) [OF assms(1)] assms(2) show ?thesis
    by (auto simp: recordable_def recorded_kind_def known_change_kind_def split: ChangeKind.splits)
qed

lemma insert_changes_total:
  assumes "\<forall>c \<in> set cs. recordable delta c"
  shows "\<exists>n db'. insert_changes now organization delta cs db = Inr (n, db')"
  using assms
proof (induction cs arbitrary: db)
  case (Cons c cs)
  then have "\<exists>k db1. insert_change now organization delta c db = Inr (k, db1)"
    by (simp add: insert_change_def Let_def recordable_def)
  then obtain k db1 where "insert_change now organization delta c db = Inr (k, db1)" by blast
  moreover from Cons obtain n db' where "insert_changes now organization delta cs db1 = Inr (n, db')" by fastforce
  ultimately show ?case by simp
qed simp

lemma insert_changes_stuck:
  assumes "c \<in> set cs" "\<not> recordable delta c"
  shows "\<exists>e. insert_changes now organization delta cs db = Inl e"
  using insert_changes_Inr [of now organization delta cs db] assms
  by (cases "insert_changes now organization delta cs db") auto

section \<open>Properties\<close>

text \<open>
  C38. An inventory delta is acknowledged only when nothing of it can be lost. The relay keeps a
  delta until it is acknowledged; the acknowledgement is queued only when the delta names no
  integration, or the integration is not served by this relay (and then nothing is written), or
  every change this build can record is in the table. A database error, also one after which the
  transaction had in fact committed, leaves the delta unacknowledged.
\<close>

theorem inventory_ack_means_recorded:
  assumes "sorts sortFunc"
    and "recordInventoryDelta lib sortFunc now fate pick ints delta x db = (err, x', db')" "ss_outbound x' \<noteq> ss_outbound x"
  shows "ss_outbound x' = ss_outbound x @ [InventoryDeltaAck (id_DeltaId delta)]
    \<and> (case uuid_Parse lib (id_ConnectionId delta) of
         None \<Rightarrow> db' = db
       | Some i \<Rightarrow>
           (\<not> list_ex (served_by (ss_organization x) (ss_registrationID x) i) ints \<and> db' = db)
           \<or> (\<forall>change \<in> set (id_Changes delta). reduceChange change \<noteq> None \<longrightarrow>
                (\<exists>e \<in> set (events db'). ce_integration e = i \<and> ce_uid e = ioc_Uid change
                   \<and> ce_revision e = ioc_ObservedRevision change)))"
proof -
  let ?ack = "send pick (inventoryDeltaAck (id_DeltaId delta)) x"
  have x': "x' = snd ?ack" using assms(2,3)
    by (auto simp: recordInventoryDelta_def Let_def split: option.splits prod.splits sum.splits)
  with assms(3) have queued: "ss_outbound x' = ss_outbound x @ [InventoryDeltaAck (id_DeltaId delta)]"
    by (auto simp: send_outbound inventoryDeltaAck_def split: if_splits)
  show ?thesis
  proof (cases "uuid_Parse lib (id_ConnectionId delta)")
    case None
    with queued assms(2) show ?thesis by (simp add: recordInventoryDelta_def Let_def)
  next
    case (Some i)
    obtain reduced skipped where red: "reduceDelta delta i = (reduced, skipped)" by fastforce
    have parts: "delta_IntegrationID reduced = i" "delta_Changes reduced = fst (reduce_loop (id_Changes delta))"
      using red by (auto simp: reduceDelta_def Let_def split: prod.splits)
    from assms(2,3) Some red obtain r where
      rec: "RecordInventoryDelta sortFunc now (ss_organization x) (ss_registrationID x) reduced ints db = Inr (r, db')"
      by (auto simp: recordInventoryDelta_def Let_def db_call_def split: prod.splits sum.splits db_fate.splits)
    show ?thesis
    proof (cases "rec_Refused r")
      case True
      with rec have "\<not> list_ex (served_by (ss_organization x) (ss_registrationID x) i) ints \<and> db' = db"
        by (auto simp: RecordInventoryDelta_def parts(1) split: if_splits sum.splits)
      with queued Some show ?thesis by simp
    next
      case False
      from RecordInventoryDelta_found [OF assms(1) rec False] parts
      have "\<forall>c \<in> set (fst (reduce_loop (id_Changes delta))). \<exists>e \<in> set (events db'). ce_integration e = i
          \<and> ce_uid e = ch_UID c \<and> ce_revision e = ch_ObservedRevision c" by simp
      then have "\<exists>e \<in> set (events db'). ce_integration e = i \<and> ce_uid e = ioc_Uid change
            \<and> ce_revision e = ioc_ObservedRevision change"
        if "change \<in> set (id_Changes delta)" "reduceChange change \<noteq> None" for change
        using that reduce_loop_mem reduceChange_fit(4,5) by (metis option.exhaust)
      with queued Some show ?thesis by simp
    qed
  qed
qed

definition sample_inventory_delta :: InventoryDelta where
  "sample_inventory_delta =
     \<lparr>id_DeltaId = ''d1'', id_ConnectionId = ''7'', id_PolicyRevision = 1, id_Baseline = True, id_ObservedAt = Some 50,
      id_Changes = [\<lparr>ioc_Namespace = ''shop'', ioc_Kind = INVENTORY_SECRET, ioc_Name = ''key'', ioc_Uid = ''u2'',
        ioc_ObservedRevision = [], ioc_Change = CHANGE_DELETED, ioc_Fields = []\<rparr>]\<rparr>"

lemma sample_sorts: "sorts (sort_key (\<lambda>c. (ch_UID c, ch_ObservedRevision c)))"
proof -
  have "sorted_wrt (\<lambda>a b. compareChanges a b \<le> 0) (sort_key (\<lambda>c. (ch_UID c, ch_ObservedRevision c)) cs)" for cs
    by (rule sorted_wrt_mono_rel [OF _ sorted_sort_key [unfolded sorted_map]])
       (auto simp: compareChanges_def less_eq_prod_def)
  then show ?thesis by (simp add: sorts_def)
qed

theorem inventory_ack_means_recorded_witness:
  "\<exists>x'. recordInventoryDelta sample_ids (sort_key (\<lambda>c. (ch_UID c, ch_ObservedRevision c))) 60 Reported SendQueued []
      sample_inventory_delta sample_session sample_changes = (None, x', sample_changes)
    \<and> ss_outbound x' = [InventoryDeltaAck ''d1'']"
proof -
  let ?sort = "sort_key (\<lambda>c. (ch_UID c, ch_ObservedRevision c))"
  obtain reduced skipped where red: "reduceDelta sample_inventory_delta 7 = (reduced, skipped)" by fastforce
  have call: "recordInventoryDelta sample_ids ?sort 60 Reported SendQueued [] sample_inventory_delta sample_session sample_changes
      = (None, sample_session\<lparr>ss_outbound := [InventoryDeltaAck ''d1'']\<rparr>, sample_changes)"
    using red
    by (simp add: recordInventoryDelta_def sample_ids_def sample_inventory_delta_def [THEN arg_cong, of id_ConnectionId, simplified]
        sample_inventory_delta_def [THEN arg_cong, of id_DeltaId, simplified]
        send_def sample_session_def RecordInventoryDelta_def db_call_def inventoryDeltaAck_def)
  from inventory_ack_means_recorded [OF sample_sorts call] call show ?thesis
    by (simp add: sample_session_def sample_ids_def sample_inventory_delta_def)
qed

text \<open>
  C39. Which deltas get through. A delta for an integration the relay serves is acknowledged, when
  the database and the stream work, unless it is a baseline that carries a deletion this build can
  record: such a delta is refused by the table's check that only deletions lack a revision, each
  time the relay resends it.
\<close>

theorem delta_is_stuck_iff_baseline_deletes:
  assumes "sorts sortFunc" "uuid_Parse lib (id_ConnectionId delta) = Some i" "ss_organization x \<noteq> uuid_Nil"
    and "list_ex (served_by (ss_organization x) (ss_registrationID x) i) ints"
  shows "ss_outbound (fst (snd (recordInventoryDelta lib sortFunc now Reported SendQueued ints delta x db))) =
      ss_outbound x @ [InventoryDeltaAck (id_DeltaId delta)]
    \<longleftrightarrow> \<not> (id_Baseline delta \<and>
            (\<exists>change \<in> set (id_Changes delta). reduceChange change \<noteq> None \<and> ioc_Change change = CHANGE_DELETED))"
proof -
  obtain reduced skipped where red: "reduceDelta delta i = (reduced, skipped)" by fastforce
  have parts: "delta_IntegrationID reduced = i" "delta_Changes reduced = fst (reduce_loop (id_Changes delta))"
      "delta_Baseline reduced = id_Baseline delta"
    using red by (auto simp: reduceDelta_def Let_def split: prod.splits)
  have cs: "set (sortFunc (delta_Changes reduced)) = {c. \<exists>change \<in> set (id_Changes delta). reduceChange change = Some c}"
    using assms(1) reduce_loop_mem by (auto simp: sorts_def parts(2))
  show ?thesis
  proof (cases "id_Baseline delta \<and> (\<exists>change \<in> set (id_Changes delta). reduceChange change \<noteq> None \<and> ioc_Change change = CHANGE_DELETED)")
    case True
    then obtain change c where c: "change \<in> set (id_Changes delta)" "reduceChange change = Some c" "ioc_Change change = CHANGE_DELETED"
      by blast
    have "ch_ObservedRevision c = []" using c(2,3) by (auto simp: reduceChange_def split: option.splits if_splits)
    then have "\<not> recordable reduced c" using True by (simp add: recordable_def recorded_kind_def parts(3))
    with insert_changes_stuck cs c(1,2) obtain e where
      "insert_changes now (ss_organization x) reduced (sortFunc (delta_Changes reduced)) db = Inl e" by blast
    with True assms(2-4) red parts(1) show ?thesis
      by (simp add: recordInventoryDelta_def RecordInventoryDelta_def db_call_def)
  next
    case False
    then have "\<forall>c \<in> set (sortFunc (delta_Changes reduced)). recordable reduced c"
      using cs reduced_recordable parts(3) by fastforce
    from insert_changes_total [OF this] obtain n db' where
      "insert_changes now (ss_organization x) reduced (sortFunc (delta_Changes reduced)) db = Inr (n, db')" by blast
    with False assms(2-4) red parts(1) show ?thesis
      by (simp add: recordInventoryDelta_def RecordInventoryDelta_def db_call_def send_def inventoryDeltaAck_def)
  qed
qed

theorem delta_is_stuck_iff_baseline_deletes_witness:
  "ss_outbound (fst (snd (recordInventoryDelta sample_ids (sort_key (\<lambda>c. (ch_UID c, ch_ObservedRevision c))) 60 Reported SendQueued
      [sample_watched\<lparr>int_id := 7\<rparr>] sample_inventory_delta sample_session sample_changes))) \<noteq> [InventoryDeltaAck ''d1'']"
  using delta_is_stuck_iff_baseline_deletes [OF sample_sorts, of sample_ids sample_inventory_delta 7 sample_session
      "[sample_watched\<lparr>int_id := 7\<rparr>]" 60 sample_changes]
  by (simp add: sample_ids_def sample_inventory_delta_def sample_session_def served_by_def sample_watched_def
      reduceChange_def within_def)

end
