(* ===== verification/RelayService.thy ===== *)
theory RelayService
  imports Inventory
begin

text \<open>
  The relay session service: the table of live sessions, taking over from a session that is
  replaced, draining, liveness and presence (\<^verbatim>\<open>internal/relay/sessions.go\<close>,
  \<^verbatim>\<open>presence.go\<close> and the service half of \<^verbatim>\<open>session.go\<close>). A session object is named by its
  identifier, which is fresh when it is opened; \<open>svc_heap\<close> holds the objects and
  \<open>svc_live\<close> the pointers of \<^verbatim>\<open>byRegistration\<close>. Installing a session and superseding the one it
  displaced are two steps, since the table's mutex is released in between;
  \<open>svc_displaced\<close> holds the pairs whose second step is still to come.
\<close>

section \<open>State\<close>

record relayIdentity =
  ri_organization :: uuid
  ri_registrationID :: uuid

record relay_service =
  svc_heap :: "(uuid \<times> sessionState) list"
  svc_live :: "(uuid \<times> uuid) list"
  svc_displaced :: "(uuid \<times> uuid) list"
  svc_churn :: churnWatch
  svc_registry :: registry

definition on_session :: "uuid \<Rightarrow> (sessionState \<Rightarrow> sessionState) \<Rightarrow> relay_service \<Rightarrow> relay_service" where
  "on_session i f s =
     (case map_of (svc_heap s) i of None \<Rightarrow> s | Some x \<Rightarrow> s\<lparr>svc_heap := put i (f x) (svc_heap s)\<rparr>)"

section \<open>Live sessions\<close>

definition live_install :: "uuid \<Rightarrow> uuid \<Rightarrow> (uuid \<times> uuid) list \<Rightarrow> uuid option \<times> (uuid \<times> uuid) list" where
  "live_install registrationID i l = (map_of l registrationID, put registrationID i l)"

definition live_remove :: "uuid \<Rightarrow> uuid \<Rightarrow> (uuid \<times> uuid) list \<Rightarrow> (uuid \<times> uuid) list" where
  "live_remove registrationID i l =
     (if map_of l registrationID = Some i then filter (\<lambda>(k, _). k \<noteq> registrationID) l else l)"

definition live_all :: "(uuid \<times> uuid) list \<Rightarrow> uuid list" where
  "live_all l = map snd l"

text \<open>A send that does not wait: the message is queued when there is room.\<close>

definition offer :: "bool \<Rightarrow> ControlToRelay \<Rightarrow> sessionState \<Rightarrow> sessionState" where
  "offer room message x = (if room then x\<lparr>ss_outbound := ss_outbound x @ [message]\<rparr> else x)"

definition reconnecting :: "duration \<Rightarrow> ControlToRelay" where
  "reconnecting after = GracefulReconnect after"

definition draining :: "duration \<Rightarrow> ControlToRelay" where
  "draining limit = DrainInstruction limit"

definition drain_session :: "bool \<Rightarrow> duration \<Rightarrow> sessionState \<Rightarrow> sessionState" where
  "drain_session room limit x = offer room (draining limit) (x\<lparr>ss_draining := True\<rparr>)"

definition Drain :: "(uuid \<Rightarrow> bool) \<Rightarrow> duration \<Rightarrow> relay_service \<Rightarrow> relay_service" where
  "Drain room limit s = fold (\<lambda>i. on_session i (drain_session (room i) limit)) (live_all (svc_live s)) s"

section \<open>Authenticating\<close>

definition metadataRegistration :: string where
  "metadataRegistration = ''opencluster-registration-id''"

definition metadataCredential :: string where
  "metadataCredential = ''opencluster-relay-credential''"

definition authenticate ::
  "uuid_lib \<Rightarrow> (string \<Rightarrow> bytes) \<Rightarrow> db_fate \<Rightarrow> MD option \<Rightarrow> registry \<Rightarrow> session_error + relayIdentity"
where
  "authenticate lib sha256 fate ctx db =
     (let refused = Status Unauthenticated ''session refused'' in
      case ctx of
        None \<Rightarrow> Inl refused
      | Some incoming \<Rightarrow>
          (case uuid_Parse lib (TrimSpace (firstValue incoming metadataOrganization)) of
             None \<Rightarrow> Inl refused
           | Some organization \<Rightarrow>
               if organization = uuid_Nil then Inl refused
               else (case uuid_Parse lib (firstValue incoming metadataRegistration) of
                       None \<Rightarrow> Inl refused
                     | Some registrationID \<Rightarrow>
                         let credential = firstValue incoming metadataCredential in
                         if credential = [] then Inl refused
                         else (case (if fate = Reported
                                     then VerifyRelayCredential organization registrationID (sha256 credential) db
                                     else Inl ErrDatabase) of
                                 Inl e \<Rightarrow> Inl (Status Unavailable ''session unavailable'')
                               | Inr valid \<Rightarrow>
                                   if valid then Inr \<lparr>ri_organization = organization, ri_registrationID = registrationID\<rparr>
                                   else Inl refused))))"

section \<open>Opening, superseding, closing\<close>

definition new_session :: "uuid \<Rightarrow> string \<Rightarrow> instant \<Rightarrow> relayIdentity \<Rightarrow> sessionState" where
  "new_session i peer now identity =
     \<lparr>ss_organization = ri_organization identity, ss_registrationID = ri_registrationID identity, ss_id = i,
      ss_outbound = [], ss_done = False, ss_peer = peer, ss_delivering = False, ss_policies = False,
      ss_lastHeard = now, ss_capacity = int maxJobsInFlight, ss_draining = False, ss_contested = False,
      ss_claimAfter = 0, ss_ended = None\<rparr>"

definition open_session :: "uuid \<Rightarrow> string \<Rightarrow> instant \<Rightarrow> relayIdentity \<Rightarrow> relay_service \<Rightarrow> relay_service" where
  "open_session i peer now identity s =
     (let (displaced, live) = live_install (ri_registrationID identity) i (svc_live s) in
      s\<lparr>svc_heap := put i (new_session i peer now identity) (svc_heap s), svc_live := live,
        svc_displaced := (case displaced of None \<Rightarrow> svc_displaced s | Some replaced \<Rightarrow> (replaced, i) # svc_displaced s)\<rparr>)"

text \<open>
  \<open>report\<close> is the recording of the conflict, with its audit event, and how that call
  ends; its error is only logged.
\<close>

definition escalate ::
  "(sessionState \<Rightarrow> int \<Rightarrow> registry \<Rightarrow> store_error + registry) \<Rightarrow> db_fate \<Rightarrow> uuid \<Rightarrow> churnVerdict \<Rightarrow> relay_service \<Rightarrow> relay_service"
where
  "escalate report fate i verdict s =
     (case map_of (svc_heap s) i of
        None \<Rightarrow> s
      | Some x \<Rightarrow>
          let s' = on_session i (\<lambda>x. x\<lparr>ss_contested := True\<rparr>) s in
          case report x (int (cv_distinctHosts verdict)) (svc_registry s') of
            Inl e \<Rightarrow> s'
          | Inr db \<Rightarrow> if fate = Lost then s' else s'\<lparr>svc_registry := db\<rparr>)"

definition supersede ::
  "(sessionState \<Rightarrow> int \<Rightarrow> registry \<Rightarrow> store_error + registry) \<Rightarrow> db_fate \<Rightarrow> instant \<Rightarrow> bool \<Rightarrow> uuid \<Rightarrow> uuid
     \<Rightarrow> relay_service \<Rightarrow> relay_service"
where
  "supersede report fate now room replaced successor s =
     (case map_of (svc_heap s) successor of
        None \<Rightarrow> s
      | Some x \<Rightarrow>
          let (verdict, churn) = churn_record now (ss_registrationID x) (ss_peer x) (svc_churn s);
              s1 = on_session successor (\<lambda>x. x\<lparr>ss_claimAfter := cv_backoff verdict\<rparr>) (s\<lparr>svc_churn := churn\<rparr>);
              s2 = (if \<not> cv_untracked verdict \<and> cv_contested verdict then escalate report fate successor verdict s1 else s1) in
          on_session replaced
            (\<lambda>x. session_end Aborted ''session replaced by a reconnection'' (offer room (reconnecting sessionIdleTimeout) x))
            (s2\<lparr>svc_displaced := removeAll (replaced, successor) (svc_displaced s2)\<rparr>))"

definition recordPresence :: "instant \<Rightarrow> db_fate \<Rightarrow> sessionState \<Rightarrow> registry \<Rightarrow> registry" where
  "recordPresence now fate x db =
     (case RelaySessionOpened now (ss_organization x) (ss_registrationID x) (ss_id x) (ss_peer x) db of
        Inl e \<Rightarrow> db
      | Inr db' \<Rightarrow> if fate = Lost then db else db')"

definition releasePresence :: "instant \<Rightarrow> db_fate \<Rightarrow> sessionState \<Rightarrow> registry \<Rightarrow> registry" where
  "releasePresence now fate x db =
     (case RelaySessionClosed now (ss_organization x) (ss_registrationID x) (ss_id x) db of
        Inl e \<Rightarrow> db
      | Inr db' \<Rightarrow> if fate = Lost then db else db')"

definition close_session :: "instant \<Rightarrow> db_fate \<Rightarrow> uuid \<Rightarrow> relay_service \<Rightarrow> relay_service" where
  "close_session now fate i s =
     (case map_of (svc_heap s) i of
        None \<Rightarrow> s
      | Some x \<Rightarrow>
          (on_session i (\<lambda>x. x\<lparr>ss_done := True\<rparr>) s)
            \<lparr>svc_live := live_remove (ss_registrationID x) i (svc_live s),
             svc_registry := releasePresence now fate x (svc_registry s)\<rparr>)"

section \<open>Liveness and presence\<close>

definition silentFor :: "instant \<Rightarrow> sessionState \<Rightarrow> duration" where
  "silentFor now x = now - ss_lastHeard x"

definition session_heard :: "instant \<Rightarrow> sessionState \<Rightarrow> sessionState" where
  "session_heard now x = x\<lparr>ss_lastHeard := now\<rparr>"

text \<open>One tick of each watch of a session whose context is not done.\<close>

definition watchLiveness :: "instant \<Rightarrow> sessionState \<Rightarrow> sessionState" where
  "watchLiveness now x =
     (if ss_done x then x
      else if silentFor now x < sessionIdleTimeout then x
      else session_end DeadlineExceeded ''session idle'' x)"

definition watchPresence :: "instant \<Rightarrow> db_fate \<Rightarrow> sessionState \<Rightarrow> registry \<Rightarrow> registry" where
  "watchPresence now fate x db =
     (if ss_done x then db
      else if silentFor now x \<ge> sessionIdleTimeout then db
      else (case RelaySessionHeard now (ss_organization x) (ss_registrationID x) (ss_id x) db of
              Inl e \<Rightarrow> db
            | Inr db' \<Rightarrow> if fate = Lost then db else db'))"

section \<open>Messages\<close>

datatype RelayToControl =
    HelloMessage Hello
  | JobResultMessage JobResult
  | InventoryDeltaMessage InventoryDelta
  | HeartbeatMessage "InventoryScopeState list"
  | NotedMessage

text \<open>Everything a message handler reads and writes beside its session.\<close>

record session_world =
  sw_jobs :: "relay_job list"
  sw_changes :: change_db
  sw_ints :: "integration list"

record handler_env =
  he_lib :: uuid_lib
  he_marshal :: "pmessage \<Rightarrow> bytes option"
  he_sort :: "Change list \<Rightarrow> Change list"
  he_now :: instant
  he_fate :: db_fate
  he_fate2 :: db_fate
  he_fresh_fates :: "Freshness \<Rightarrow> db_fate"
  he_pick :: send_pick
  he_later :: "relay_job list"

definition handle ::
  "handler_env \<Rightarrow> RelayToControl \<Rightarrow> sessionState \<Rightarrow> session_world \<Rightarrow> session_error option \<times> sessionState \<times> session_world"
where
  "handle env message x w =
     (case message of
        HelloMessage hello \<Rightarrow>
          let (err, x', t) = greet (he_lib env) (he_now env) (he_fate env) (he_fate2 env) hello x (sw_jobs w) in
          (err, x', w\<lparr>sw_jobs := t\<rparr>)
      | JobResultMessage result \<Rightarrow>
          let (err, x', t) = recordAndAcknowledge (he_lib env) (he_marshal env) (he_now env) (he_fate env) (he_pick env)
                result x (sw_jobs w) (he_later env) in
          (err, x', w\<lparr>sw_jobs := t\<rparr>)
      | InventoryDeltaMessage delta \<Rightarrow>
          let (err, x', db) = recordInventoryDelta (he_lib env) (he_sort env) (he_now env) (he_fate env) (he_pick env)
                (sw_ints w) delta x (sw_changes w) in
          (err, x', w\<lparr>sw_changes := db\<rparr>)
      | HeartbeatMessage heard \<Rightarrow>
          (None, x, w\<lparr>sw_changes := recordInventoryFreshness (he_lib env) (he_fresh_fates env) (sw_ints w) heard x (sw_changes w)\<rparr>)
      | NotedMessage \<Rightarrow> (None, x, w))"

text \<open>
  The select loop of a session: each event is what the select picked; the result is what
  \<^verbatim>\<open>Connect\<close> returns, or nothing while the loop still runs.
\<close>

datatype run_event = ContextDone | SendFailed session_error | ReadFailed | Inbound handler_env RelayToControl

definition run_step :: "run_event \<Rightarrow> sessionState \<times> session_world \<Rightarrow> session_error option option \<times> sessionState \<times> session_world" where
  "run_step event state =
     (let (x, w) = state in
      case event of
        ContextDone \<Rightarrow> (Some (ending (Some (Status Aborted ''session ended'')) x), x, w)
      | SendFailed err \<Rightarrow> (Some (ending (Some err) x), x, w)
      | ReadFailed \<Rightarrow> (Some (ending None x), x, w)
      | Inbound env message \<Rightarrow>
          let (err, x', w') = handle env message (session_heard (he_now env) x) w in
          (case err of None \<Rightarrow> (None, x', w') | Some e \<Rightarrow> (Some (ending (Some e) x'), x', w')))"

fun run_session ::
  "run_event list \<Rightarrow> sessionState \<times> session_world \<Rightarrow> session_error option option \<times> sessionState \<times> session_world"
where
  "run_session [] (x, w) = (None, x, w)"
| "run_session (event # rest) (x, w) =
     (case run_step event (x, w) of
        (Some result, x', w') \<Rightarrow> (Some result, x', w')
      | (None, x', w') \<Rightarrow> run_session rest (x', w'))"

section \<open>What every step keeps\<close>

text \<open>What no handler takes back: who a session is, that it is done, and why it ended.\<close>

definition grown :: "sessionState \<Rightarrow> sessionState \<Rightarrow> bool" where
  "grown x x' \<longleftrightarrow>
     ss_organization x' = ss_organization x \<and> ss_registrationID x' = ss_registrationID x \<and> ss_id x' = ss_id x
     \<and> (ss_done x \<longrightarrow> ss_done x') \<and> (ss_ended x \<noteq> None \<longrightarrow> ss_ended x' = ss_ended x)"

named_theorems grown_intros

lemma grown_refl [simp, grown_intros]: "grown x x"
  by (simp add: grown_def)

lemma grown_trans: "grown x y \<Longrightarrow> grown y z \<Longrightarrow> grown x z"
  by (auto simp: grown_def)

lemma grown_end [simp, grown_intros]: "grown x (session_end c m x)"
  by (auto simp: grown_def session_end_def)

lemma grown_send [grown_intros]: "grown x (snd (send pick m x))"
  by (cases pick) (auto simp: send_def grown_def session_end_def)

lemma grown_offer [simp, grown_intros]: "grown x (offer room m x)"
  by (simp add: grown_def offer_def)

lemma grown_heard [simp, grown_intros]: "grown x (session_heard now x)"
  by (simp add: grown_def session_heard_def)

lemma grown_watch [simp, grown_intros]: "grown x (watchLiveness now x)"
  by (simp add: watchLiveness_def)

lemma grown_drain [simp, grown_intros]: "grown x (drain_session room limit x)"
  by (simp add: grown_def drain_session_def offer_def)

lemma grown_acknowledge: "grown x (snd (acknowledge pick result answer x))"
  unfolding acknowledge_def Let_def
  by (auto intro: grown_send split: sum.splits store_error.splits ResultRefusal.splits)

lemma grown_handle:
  assumes "handle env message x w = (err, x', w')"
  shows "grown x x'"
proof (cases message)
  case (HelloMessage hello)
  with assms show ?thesis by (auto simp: handle_def greet_def grown_def Let_def split: prod.splits if_splits)
next
  case (JobResultMessage result)
  have "grown x (fst (snd (recordAndAcknowledge lib marshal now fate pick result x t later)))" for lib marshal now fate pick t later
    unfolding recordAndAcknowledge_def Let_def using grown_acknowledge
    by (auto simp: split_def split: option.splits sum.splits)
  with JobResultMessage assms show ?thesis by (auto simp: handle_def split_def Let_def)
next
  case (InventoryDeltaMessage delta)
  with assms grown_send show ?thesis
    by (auto simp: handle_def recordInventoryDelta_def Let_def split: prod.splits option.splits sum.splits)
qed (use assms in \<open>simp_all add: handle_def\<close>)

lemma grown_run_step:
  assumes "run_step event (x, w) = (result, x', w')"
  shows "grown x x'"
proof (cases event)
  case (Inbound env message)
  obtain err y v where h: "handle env message (session_heard (he_now env) x) w = (err, y, v)" by (metis prod_cases3)
  with Inbound assms have "x' = y" by (auto simp: run_step_def split: option.splits)
  with grown_handle [OF h] show ?thesis by (auto intro: grown_trans [OF grown_heard])
qed (use assms in \<open>simp_all add: run_step_def\<close>)

lemma grown_dispatch_loop:
  assumes "dispatch_loop env claimed x t = (err, x', t')"
  shows "grown x x'"
  using assms
proof (induction env claimed x t rule: dispatch_loop.induct)
  case (2 env job claimed x t)
  show ?case
  proof (cases "assignmentFor (de_lib env) (de_unmarshal env) x job")
    case (Inl cause)
    with 2(1) [OF Inl] 2(3) show ?thesis by simp
  next
    case (Inr a)
    obtain e y where s: "send (de_pick env (rj_ID job)) a x = (e, y)" by fastforce
    have y: "grown x y" using grown_send [of x "de_pick env (rj_ID job)" a] s by simp
    show ?thesis
    proof (cases e)
      case None
      from 2(2) [OF Inr s [symmetric] None] 2(3) Inr s None y show ?thesis by (auto intro: grown_trans)
    next
      case (Some _)
      with 2(3) Inr s y show ?thesis by simp
    qed
  qed
qed simp

lemma grown_tell_loop:
  assumes "tell_loop lib picks pending x told = (err, x', told')"
  shows "grown x x'"
  using assms
proof (induction lib picks pending x told rule: tell_loop.induct)
  case (2 lib picks fence pending x told)
  show ?case
  proof (cases "execution_of fence \<in> set told")
    case True
    with 2(1) [OF refl True] 2(3) show ?thesis by (simp add: Let_def)
  next
    case False
    obtain e y where s: "send (picks (execution_of fence)) (cancelling lib fence) x = (e, y)" by fastforce
    have y: "grown x y" using grown_send [of x "picks (execution_of fence)" "cancelling lib fence"] s by simp
    show ?thesis
    proof (cases e)
      case None
      from 2(2) [OF refl False s [symmetric] None] 2(3) False s None y show ?thesis by (auto simp: Let_def intro: grown_trans)
    next
      case (Some _)
      with 2(3) False s y show ?thesis by (simp add: Let_def)
    qed
  qed
qed simp

lemma grown_deliverOnce:
  assumes "deliverOnce env picks f1 f2 x told t = (err, x', told', t')"
  shows "grown x x'"
proof -
  obtain e y u where d: "dispatchWork env f1 x t = (e, y, u)" by (metis prod_cases3)
  have "grown x y"
    using d grown_dispatch_loop by (fastforce simp: dispatchWork_def Let_def split: if_splits prod.splits sum.splits)
  moreover have "grown y z" if "dispatchCancellations (de_lib env) picks f2 y told u = (e', z, w)" for e' z w
    using that grown_tell_loop by (fastforce simp: dispatchCancellations_def Let_def split: sum.splits if_splits prod.splits)
  ultimately show ?thesis
    using assms d by (auto simp: deliverOnce_def Let_def split: option.splits prod.splits intro: grown_trans)
qed

text \<open>The service's steps; what the environment supplies is free in each.\<close>

inductive service_step :: "relay_service \<Rightarrow> relay_service \<Rightarrow> bool" where
  opened: "map_of (svc_heap s) i = None \<Longrightarrow> service_step s (open_session i peer now identity s)"
| superseded: "(replaced, successor) \<in> set (svc_displaced s) \<Longrightarrow>
    service_step s (supersede report fate now room replaced successor s)"
| closed: "service_step s (close_session now fate i s)"
| drained: "service_step s (Drain rooms limit s)"
| live_tick: "service_step s (on_session i (watchLiveness now) s)"
| present: "map_of (svc_heap s) i = Some x \<Longrightarrow> service_step s (s\<lparr>svc_registry := recordPresence now fate x (svc_registry s)\<rparr>)"
| refreshed: "map_of (svc_heap s) i = Some x \<Longrightarrow> service_step s (s\<lparr>svc_registry := watchPresence now fate x (svc_registry s)\<rparr>)"
| received: "map_of (svc_heap s) i = Some x \<Longrightarrow> run_step event (x, w) = (result, x', w') \<Longrightarrow>
    service_step s (on_session i (\<lambda>_. x') s)"
| delivered: "map_of (svc_heap s) i = Some x \<Longrightarrow> deliverOnce env picks f1 f2 x told t = (err, x', told', t') \<Longrightarrow>
    service_step s (on_session i (\<lambda>_. x') s)"

definition working :: "relay_service \<Rightarrow> uuid \<Rightarrow> sessionState \<Rightarrow> bool" where
  "working s i x \<longleftrightarrow> map_of (svc_heap s) i = Some x \<and> \<not> ss_done x"

definition service_inv :: "relay_service \<Rightarrow> bool" where
  "service_inv s \<longleftrightarrow>
     (\<forall>i x. map_of (svc_heap s) i = Some x \<longrightarrow> ss_id x = i)
     \<and> (\<forall>r i. map_of (svc_live s) r = Some i \<longrightarrow> (\<exists>x. map_of (svc_heap s) i = Some x \<and> ss_registrationID x = r))
     \<and> (\<forall>i x. working s i x \<longrightarrow> map_of (svc_live s) (ss_registrationID x) = Some i \<or> i \<in> fst ` set (svc_displaced s))"

lemma service_inv_id: "service_inv s \<Longrightarrow> map_of (svc_heap s) i = Some x \<Longrightarrow> ss_id x = i"
  by (simp add: service_inv_def)

lemma service_inv_live:
  assumes "service_inv s" "map_of (svc_live s) r = Some i"
  obtains x where "map_of (svc_heap s) i = Some x" "ss_registrationID x = r"
  using assms unfolding service_inv_def by blast

lemma service_inv_working:
  "service_inv s \<Longrightarrow> working s i x \<Longrightarrow>
     map_of (svc_live s) (ss_registrationID x) = Some i \<or> i \<in> fst ` set (svc_displaced s)"
  unfolding service_inv_def by blast

text \<open>The objects of the heap only grow.\<close>

definition heap_grows :: "relay_service \<Rightarrow> relay_service \<Rightarrow> bool" where
  "heap_grows s s' \<longleftrightarrow> (\<forall>i x. map_of (svc_heap s) i = Some x \<longrightarrow> (\<exists>x'. map_of (svc_heap s') i = Some x' \<and> grown x x'))"

lemma heap_grows_refl [simp]: "heap_grows s s"
  by (simp add: heap_grows_def)

lemma heap_grows_trans: "heap_grows s s' \<Longrightarrow> heap_grows s' s'' \<Longrightarrow> heap_grows s s''"
  unfolding heap_grows_def by (meson grown_trans)

lemma map_of_on_session:
  "map_of (svc_heap (on_session i f s)) j = (if j = i then map_option f (map_of (svc_heap s) i) else map_of (svc_heap s) j)"
  by (simp add: on_session_def split: option.splits)

lemma on_session_keeps [simp]:
  "svc_live (on_session i f s) = svc_live s" "svc_displaced (on_session i f s) = svc_displaced s"
  "svc_churn (on_session i f s) = svc_churn s" "svc_registry (on_session i f s) = svc_registry s"
  by (simp_all add: on_session_def split: option.splits)

lemma on_session_grows:
  assumes "\<And>x. map_of (svc_heap s) i = Some x \<Longrightarrow> grown x (f x)"
  shows "heap_grows s (on_session i f s)"
  using assms by (auto simp: heap_grows_def map_of_on_session)

text \<open>
  A step that changes session objects without taking anything back, and opens none,
  keeps the invariant when pointers and displaced pairs stay.
\<close>

lemma service_inv_grow:
  assumes "service_inv s" "heap_grows s s'" "dom (map_of (svc_heap s')) = dom (map_of (svc_heap s))"
    and "svc_live s' = svc_live s" "set (svc_displaced s) \<subseteq> set (svc_displaced s')"
  shows "service_inv s'"
proof -
  have older: "\<exists>x. map_of (svc_heap s) i = Some x \<and> grown x x'" if "map_of (svc_heap s') i = Some x'" for i x'
  proof -
    from that assms(3) obtain x where "map_of (svc_heap s) i = Some x" by (metis domD domI)
    with assms(2) that show ?thesis by (fastforce simp: heap_grows_def)
  qed
  have "ss_id x' = i" if "map_of (svc_heap s') i = Some x'" for i x'
    using older [OF that] service_inv_id [OF assms(1)] by (auto simp: grown_def)
  moreover have "\<exists>x'. map_of (svc_heap s') i = Some x' \<and> ss_registrationID x' = r" if "map_of (svc_live s') r = Some i" for r i
  proof -
    from that assms(4) have "map_of (svc_live s) r = Some i" by simp
    from service_inv_live [OF assms(1) this] obtain x where "map_of (svc_heap s) i = Some x" "ss_registrationID x = r" .
    with assms(2) show ?thesis by (fastforce simp: heap_grows_def grown_def)
  qed
  moreover have "map_of (svc_live s') (ss_registrationID x') = Some i \<or> i \<in> fst ` set (svc_displaced s')"
    if "working s' i x'" for i x'
  proof -
    from that older obtain x where x: "map_of (svc_heap s) i = Some x" "grown x x'" by (auto simp: working_def)
    with that have "working s i x" "ss_registrationID x' = ss_registrationID x" by (auto simp: working_def grown_def)
    with service_inv_working [OF assms(1)] assms(4,5) show ?thesis by force
  qed
  ultimately show ?thesis by (simp add: service_inv_def)
qed

lemma on_session_dom [simp]: "dom (map_of (svc_heap (on_session i f s))) = dom (map_of (svc_heap s))"
  by (auto simp: map_of_on_session split: if_splits)

lemma on_session_inv:
  assumes "service_inv s" "\<And>x. map_of (svc_heap s) i = Some x \<Longrightarrow> grown x (f x)"
  shows "service_inv (on_session i f s) \<and> heap_grows s (on_session i f s)"
  using service_inv_grow [OF assms(1) on_session_grows [OF assms(2)]] on_session_grows [OF assms(2)] by simp

lemma open_keeps:
  assumes "service_inv s" "map_of (svc_heap s) i = None"
  shows "service_inv (open_session i peer now identity s) \<and> heap_grows s (open_session i peer now identity s)"
proof -
  let ?r = "ri_registrationID identity" and ?s = "open_session i peer now identity s"
  have heap: "map_of (svc_heap ?s) = (map_of (svc_heap s))(i \<mapsto> new_session i peer now identity)"
    and live: "map_of (svc_live ?s) = (map_of (svc_live s))(?r \<mapsto> i)"
    by (simp_all add: open_session_def live_install_def)
  have displaced: "fst ` set (svc_displaced ?s) = fst ` set (svc_displaced s) \<union> set_option (map_of (svc_live s) ?r)"
    by (simp add: open_session_def live_install_def split: option.splits)
  have "ss_id x = j" if "map_of (svc_heap ?s) j = Some x" for j x
    using that service_inv_id [OF assms(1)] by (auto simp: heap new_session_def split: if_splits)
  moreover have "\<exists>x. map_of (svc_heap ?s) j = Some x \<and> ss_registrationID x = r" if "map_of (svc_live ?s) r = Some j" for r j
  proof (cases "r = ?r")
    case True
    with that have "j = i" by (simp add: live)
    then show ?thesis unfolding heap using True by (simp add: new_session_def)
  next
    case False
    with that have "map_of (svc_live s) r = Some j" by (simp add: live)
    from service_inv_live [OF assms(1) this] assms(2) show ?thesis by (metis heap fun_upd_other option.distinct(1))
  qed
  moreover have "map_of (svc_live ?s) (ss_registrationID x) = Some j \<or> j \<in> fst ` set (svc_displaced ?s)"
    if "working ?s j x" for j x
  proof (cases "j = i")
    case True
    with that show ?thesis by (auto simp: working_def heap live new_session_def)
  next
    case False
    with that have "working s j x" by (simp add: working_def heap)
    from service_inv_working [OF assms(1) this] show ?thesis by (auto simp: live displaced)
  qed
  moreover have "heap_grows s ?s" using assms(2) by (auto simp: heap_grows_def heap)
  ultimately show ?thesis by (simp add: service_inv_def)
qed

lemma on_session_same:
  assumes "\<And>x. ss_ended (f x) = ss_ended x" "map_of (svc_heap s) j = Some y"
  shows "\<exists>y'. map_of (svc_heap (on_session i f s)) j = Some y' \<and> ss_ended y' = ss_ended y"
  using assms by (cases "j = i") (auto simp: map_of_on_session)

lemma escalate_keeps:
  "heap_grows s (escalate report fate i verdict s)"
  "dom (map_of (svc_heap (escalate report fate i verdict s))) = dom (map_of (svc_heap s))"
  "svc_live (escalate report fate i verdict s) = svc_live s"
  "svc_displaced (escalate report fate i verdict s) = svc_displaced s"
proof -
  let ?t = "on_session i (\<lambda>x. x\<lparr>ss_contested := True\<rparr>) s"
  have "heap_grows s ?t" by (rule on_session_grows) (simp add: grown_def)
  moreover have "svc_heap (escalate report fate i verdict s) = svc_heap s \<or> svc_heap (escalate report fate i verdict s) = svc_heap ?t"
    by (simp add: escalate_def Let_def split: option.splits sum.splits)
  moreover have "dom (map_of (svc_heap ?t)) = dom (map_of (svc_heap s))" by (rule on_session_dom)
  ultimately show "heap_grows s (escalate report fate i verdict s)"
    "dom (map_of (svc_heap (escalate report fate i verdict s))) = dom (map_of (svc_heap s))"
    unfolding heap_grows_def by (metis grown_refl)+
  show "svc_live (escalate report fate i verdict s) = svc_live s"
    "svc_displaced (escalate report fate i verdict s) = svc_displaced s"
    by (simp_all add: escalate_def Let_def split: option.splits sum.splits)
qed

lemma escalate_ended:
  assumes "map_of (svc_heap s) j = Some y"
  shows "\<exists>y'. map_of (svc_heap (escalate report fate i verdict s)) j = Some y' \<and> ss_ended y' = ss_ended y"
proof -
  let ?t = "on_session i (\<lambda>x. x\<lparr>ss_contested := True\<rparr>) s"
  have "svc_heap (escalate report fate i verdict s) = svc_heap s \<or> svc_heap (escalate report fate i verdict s) = svc_heap ?t"
    by (simp add: escalate_def Let_def split: option.splits sum.splits)
  moreover have "\<exists>y'. map_of (svc_heap ?t) j = Some y' \<and> ss_ended y' = ss_ended y"
    using assms by (intro on_session_same) simp_all
  ultimately show ?thesis using assms by auto
qed

text \<open>The state in which \<open>supersede\<close> ends the replaced session.\<close>

lemma supersede_shape:
  assumes "map_of (svc_heap s) successor = Some x"
  obtains s2 where "heap_grows s s2" "dom (map_of (svc_heap s2)) = dom (map_of (svc_heap s))" "svc_live s2 = svc_live s"
    "svc_displaced s2 = svc_displaced s"
    "\<And>j y. map_of (svc_heap s) j = Some y \<Longrightarrow> \<exists>y'. map_of (svc_heap s2) j = Some y' \<and> ss_ended y' = ss_ended y"
    "supersede report fate now room replaced successor s = on_session replaced
       (\<lambda>x. session_end Aborted ''session replaced by a reconnection'' (offer room (reconnecting sessionIdleTimeout) x))
       (s2\<lparr>svc_displaced := removeAll (replaced, successor) (svc_displaced s2)\<rparr>)"
proof -
  obtain verdict churn where v: "churn_record now (ss_registrationID x) (ss_peer x) (svc_churn s) = (verdict, churn)" by fastforce
  define s1 where "s1 = on_session successor (\<lambda>x. x\<lparr>ss_claimAfter := cv_backoff verdict\<rparr>) (s\<lparr>svc_churn := churn\<rparr>)"
  define s2 where "s2 = (if \<not> cv_untracked verdict \<and> cv_contested verdict then escalate report fate successor verdict s1 else s1)"
  have "heap_grows (s\<lparr>svc_churn := churn\<rparr>) s1" unfolding s1_def by (rule on_session_grows) (simp add: grown_def)
  then have "heap_grows s s1" by (simp add: heap_grows_def)
  moreover have "dom (map_of (svc_heap s1)) = dom (map_of (svc_heap s))" "svc_live s1 = svc_live s" "svc_displaced s1 = svc_displaced s"
    unfolding s1_def by simp_all
  ultimately have "heap_grows s s2" "dom (map_of (svc_heap s2)) = dom (map_of (svc_heap s))" "svc_live s2 = svc_live s"
      "svc_displaced s2 = svc_displaced s"
    using escalate_keeps [where s = s1] by (auto simp: s2_def intro: heap_grows_trans)
  moreover have "\<exists>y'. map_of (svc_heap s2) j = Some y' \<and> ss_ended y' = ss_ended y" if "map_of (svc_heap s) j = Some y" for j y
  proof -
    have "\<exists>y'. map_of (svc_heap s1) j = Some y' \<and> ss_ended y' = ss_ended y"
      unfolding s1_def using that by (intro on_session_same) simp_all
    with escalate_ended [of s1 j] show ?thesis unfolding s2_def by (metis (full_types))
  qed
  moreover have "supersede report fate now room replaced successor s = on_session replaced
       (\<lambda>x. session_end Aborted ''session replaced by a reconnection'' (offer room (reconnecting sessionIdleTimeout) x))
       (s2\<lparr>svc_displaced := removeAll (replaced, successor) (svc_displaced s2)\<rparr>)"
    unfolding supersede_def s2_def s1_def using assms v by (simp add: Let_def)
  ultimately show thesis by (rule that)
qed

lemma supersede_replaced:
  assumes "map_of (svc_heap s) j = Some y" "map_of (svc_heap s) i = Some x"
  shows "\<exists>x'. map_of (svc_heap (supersede report fate now room i j s)) i = Some x' \<and> ss_done x'
      \<and> (ss_ended x = None \<longrightarrow> ss_ended x' = Some (Aborted, ''session replaced by a reconnection''))"
    and "svc_live (supersede report fate now room i j s) = svc_live s"
proof -
  let ?ending = "\<lambda>x. session_end Aborted ''session replaced by a reconnection'' (offer room (reconnecting sessionIdleTimeout) x)"
  obtain s2 where live: "svc_live s2 = svc_live s"
    and ended: "\<And>j y. map_of (svc_heap s) j = Some y \<Longrightarrow> \<exists>y'. map_of (svc_heap s2) j = Some y' \<and> ss_ended y' = ss_ended y"
    and eq: "supersede report fate now room i j s =
      on_session i ?ending (s2\<lparr>svc_displaced := removeAll (i, j) (svc_displaced s2)\<rparr>)"
    by (rule supersede_shape [OF assms(1), of report fate now room i]) blast
  show "svc_live (supersede report fate now room i j s) = svc_live s" by (simp add: eq live)
  from ended [OF assms(2)] obtain x2 where "map_of (svc_heap s2) i = Some x2" "ss_ended x2 = ss_ended x" by blast
  then show "\<exists>x'. map_of (svc_heap (supersede report fate now room i j s)) i = Some x' \<and> ss_done x'
      \<and> (ss_ended x = None \<longrightarrow> ss_ended x' = Some (Aborted, ''session replaced by a reconnection''))"
    by (simp add: eq map_of_on_session session_end_def offer_def)
qed

lemma supersede_keeps:
  assumes "service_inv s"
  shows "service_inv (supersede report fate now room replaced successor s)
    \<and> heap_grows s (supersede report fate now room replaced successor s)"
proof (cases "map_of (svc_heap s) successor")
  case None
  with assms show ?thesis by (simp add: supersede_def)
next
  case (Some x)
  let ?ending = "\<lambda>x. session_end Aborted ''session replaced by a reconnection'' (offer room (reconnecting sessionIdleTimeout) x)"
  obtain s2 where s2: "heap_grows s s2" "dom (map_of (svc_heap s2)) = dom (map_of (svc_heap s))" "svc_live s2 = svc_live s"
      "svc_displaced s2 = svc_displaced s"
    and eq: "supersede report fate now room replaced successor s =
      on_session replaced ?ending (s2\<lparr>svc_displaced := removeAll (replaced, successor) (svc_displaced s2)\<rparr>)"
    by (rule supersede_shape [OF Some])
  let ?s3 = "on_session replaced ?ending s2"
  have inv2: "service_inv s2" using service_inv_grow [OF assms s2(1,2,3)] s2(4) by simp
  have end_grows: "grown y (?ending y)" for y by (rule grown_trans [OF grown_offer grown_end])
  note inv3 = on_session_inv [OF inv2 end_grows, of replaced]
  have heap: "map_of (svc_heap (supersede report fate now room replaced successor s)) = map_of (svc_heap ?s3)"
    unfolding eq by (rule ext) (simp add: map_of_on_session)
  have live: "svc_live (supersede report fate now room replaced successor s) = svc_live ?s3" by (simp add: eq)
  have "service_inv (supersede report fate now room replaced successor s)"
    unfolding service_inv_def
  proof (intro conjI allI impI, goal_cases)
    case (1 i y)
    then show ?case using inv3 service_inv_id unfolding heap by blast
  next
    case (2 r i)
    then have "map_of (svc_live ?s3) r = Some i" by (simp only: live)
    from service_inv_live [OF conjunct1 [OF inv3] this] show ?case unfolding heap by blast
  next
    case (3 i y)
    then have w: "working ?s3 i y" by (simp add: working_def heap)
    then have "i \<noteq> replaced" by (auto simp: working_def map_of_on_session session_end_def)
    with service_inv_working [of ?s3 i y] inv3 w show ?case by (force simp: eq)
  qed
  moreover have "heap_grows s (supersede report fate now room replaced successor s)"
    using heap_grows_trans [OF s2(1) conjunct2 [OF inv3]] by (simp add: heap_grows_def heap)
  ultimately show ?thesis by blast
qed

lemma live_remove_other:
  "map_of l r = Some j \<Longrightarrow> (r, j) \<noteq> (registrationID, i) \<Longrightarrow> map_of (live_remove registrationID i l) r = Some j"
proof -
  assume "map_of l r = Some j" "(r, j) \<noteq> (registrationID, i)"
  moreover have "map_of (filter (\<lambda>(k, _). k \<noteq> registrationID) l) r = map_of l r" if "r \<noteq> registrationID"
    using that by (induction l) auto
  ultimately show ?thesis by (cases "r = registrationID") (simp_all add: live_remove_def)
qed

lemma live_remove_sub: "map_of (live_remove registrationID i l) r = Some j \<Longrightarrow> map_of l r = Some j"
proof -
  have "map_of (filter (\<lambda>(k, _). k \<noteq> registrationID) l) r = (if r = registrationID then None else map_of l r)"
    by (induction l) auto
  then show "map_of (live_remove registrationID i l) r = Some j \<Longrightarrow> map_of l r = Some j"
    by (simp add: live_remove_def split: if_splits)
qed

lemma close_keeps:
  assumes "service_inv s"
  shows "service_inv (close_session now fate i s) \<and> heap_grows s (close_session now fate i s)"
proof (cases "map_of (svc_heap s) i")
  case None
  with assms show ?thesis by (simp add: close_session_def)
next
  case (Some x)
  let ?t = "on_session i (\<lambda>x. x\<lparr>ss_done := True\<rparr>) s" and ?s = "close_session now fate i s"
  have t: "service_inv ?t \<and> heap_grows s ?t" by (rule on_session_inv [OF assms]) (simp add: grown_def)
  have eq: "svc_heap ?s = svc_heap ?t" "svc_live ?s = live_remove (ss_registrationID x) i (svc_live s)"
      "svc_displaced ?s = svc_displaced s"
    using Some by (simp_all add: close_session_def)
  have "service_inv ?s"
    unfolding service_inv_def
  proof (intro conjI allI impI, goal_cases)
    case (1 j y)
    then have "map_of (svc_heap ?t) j = Some y" by (simp only: eq(1))
    then show ?case by (rule service_inv_id [OF conjunct1 [OF t]])
  next
    case (2 r j)
    then have "map_of (live_remove (ss_registrationID x) i (svc_live s)) r = Some j" by (simp only: eq(2))
    from live_remove_sub [OF this] have "map_of (svc_live ?t) r = Some j" by simp
    from service_inv_live [OF conjunct1 [OF t] this] show ?case unfolding eq(1) by blast
  next
    case (3 j y)
    then have w: "working ?t j y" by (simp add: working_def eq(1))
    have "j \<noteq> i" using w Some by (auto simp: working_def map_of_on_session)
    then have "map_of (svc_live s) r = Some j \<Longrightarrow> map_of (svc_live ?s) r = Some j" for r
      unfolding eq(2) using live_remove_other [of "svc_live s" r j "ss_registrationID x" i] by simp
    moreover have "map_of (svc_live s) (ss_registrationID y) = Some j \<or> j \<in> fst ` set (svc_displaced s)"
      using service_inv_working [OF conjunct1 [OF t] w] by simp
    ultimately show ?case unfolding eq(3) by blast
  qed
  with t show ?thesis by (simp add: heap_grows_def eq(1))
qed

lemma fold_on_session_keeps:
  assumes "service_inv s" "\<And>i x. grown x (f i x)"
  shows "service_inv (fold (\<lambda>i. on_session i (f i)) is s) \<and> heap_grows s (fold (\<lambda>i. on_session i (f i)) is s)"
  using assms(1)
proof (induction "is" arbitrary: s)
  case (Cons i rest)
  have "service_inv (on_session i (f i) s) \<and> heap_grows s (on_session i (f i) s)"
    using on_session_inv [OF Cons.prems, of i "f i"] assms(2) by blast
  with Cons.IH [of "on_session i (f i) s"] show ?case by (auto intro: heap_grows_trans)
qed simp

lemma service_step_keeps:
  assumes "service_step s s'" "service_inv s"
  shows "service_inv s' \<and> heap_grows s s'"
  using assms
proof cases
  case (opened i peer now identity)
  with open_keeps assms(2) show ?thesis by blast
next
  case (superseded replaced successor report fate now room)
  with supersede_keeps assms(2) show ?thesis by blast
next
  case (closed now fate i)
  with close_keeps assms(2) show ?thesis by blast
next
  case (drained rooms limit)
  with fold_on_session_keeps [OF assms(2), of "\<lambda>i. drain_session (rooms i) limit"] show ?thesis by (simp add: Drain_def)
next
  case (live_tick i now)
  with on_session_inv [OF assms(2), of i "watchLiveness now"] show ?thesis by simp
next
  case (present i x now fate)
  with assms(2) show ?thesis by (auto simp: service_inv_def heap_grows_def working_def)
next
  case (refreshed i x now fate)
  with assms(2) show ?thesis by (auto simp: service_inv_def heap_grows_def working_def)
next
  case (received i x event w result x' w')
  with on_session_inv [OF assms(2), of i "\<lambda>_. x'"] grown_run_step show ?thesis by auto
next
  case (delivered i x env picks f1 f2 told t err x' told' t')
  with on_session_inv [OF assms(2), of i "\<lambda>_. x'"] grown_deliverOnce show ?thesis by auto
qed

lemma service_run_keeps:
  assumes "service_step\<^sup>*\<^sup>* s s'" "service_inv s"
  shows "service_inv s' \<and> heap_grows s s'"
  using assms
proof (induction rule: rtranclp_induct)
  case (step y z)
  with service_step_keeps [of y z] show ?case by (blast intro: heap_grows_trans)
qed simp

definition new_service :: "registry \<Rightarrow> relay_service" where
  "new_service db = \<lparr>svc_heap = [], svc_live = [], svc_displaced = [], svc_churn = newChurnWatch, svc_registry = db\<rparr>"

lemma new_service_inv: "service_inv (new_service db)"
  by (simp add: service_inv_def new_service_def working_def)

section \<open>Properties\<close>

text \<open>
  C40. A registration has one working session. Whatever sessions open, displace each other, receive,
  deliver, go silent, drain and close, and in whatever order, two sessions of one registration
  that are both still working are the same session, unless one of them has been displaced and
  its successor is about to end it. What the table of live sessions points to is always a session
  of that registration.
\<close>

theorem one_working_session_per_registration:
  assumes "service_step\<^sup>*\<^sup>* (new_service db) s"
    and "working s i x" "working s j y" "ss_registrationID x = ss_registrationID y"
  shows "(i = j \<or> i \<in> fst ` set (svc_displaced s) \<or> j \<in> fst ` set (svc_displaced s))
    \<and> ss_id x = i \<and> (\<forall>r k. map_of (svc_live s) r = Some k \<longrightarrow> (\<exists>z. map_of (svc_heap s) k = Some z \<and> ss_registrationID z = r))"
proof -
  have inv: "service_inv s" using service_run_keeps [OF assms(1) new_service_inv] by blast
  from service_inv_working [OF inv assms(2)] service_inv_working [OF inv assms(3)] assms(4)
  have "i = j \<or> i \<in> fst ` set (svc_displaced s) \<or> j \<in> fst ` set (svc_displaced s)" by auto
  moreover have "ss_id x = i" using service_inv_id [OF inv] assms(2) by (simp add: working_def)
  ultimately show ?thesis using service_inv_live [OF inv] by blast
qed

text \<open>
  A takeover is orderly. A session's end is final: once it has a reason it keeps that reason and
  stays done through every later step. Superseding ends the replaced session, with the reconnection
  as the reason unless it had ended before, and leaves the live table to the successor; and the late
  close of a replaced session does not take the successor out of it.
\<close>

theorem takeover_is_orderly:
  assumes "service_inv s" "map_of (svc_heap s) i = Some x"
  shows "(\<forall>s'. service_step\<^sup>*\<^sup>* s s' \<longrightarrow> (\<exists>x'. map_of (svc_heap s') i = Some x' \<and> (ss_done x \<longrightarrow> ss_done x')
           \<and> (\<forall>e. ss_ended x = Some e \<longrightarrow> ss_ended x' = Some e)))
    \<and> (\<forall>report fate now room j y. map_of (svc_heap s) j = Some y \<longrightarrow>
         (\<exists>x'. map_of (svc_heap (supersede report fate now room i j s)) i = Some x' \<and> ss_done x'
            \<and> (ss_ended x = None \<longrightarrow> ss_ended x' = Some (Aborted, ''session replaced by a reconnection'')))
         \<and> svc_live (supersede report fate now room i j s) = svc_live s)
    \<and> (\<forall>now fate r k. map_of (svc_live s) r = Some k \<longrightarrow> k \<noteq> i \<longrightarrow>
         map_of (svc_live (close_session now fate i s)) r = Some k)"
proof (intro conjI allI impI, goal_cases)
  case (1 s')
  from service_run_keeps [OF 1 assms(1)] assms(2) obtain x' where "map_of (svc_heap s') i = Some x'" "grown x x'"
    by (auto simp: heap_grows_def)
  then show ?case by (auto simp: grown_def)
next
  case (2 report fate now room j y)
  show ?case by (rule supersede_replaced(1) [OF 2 assms(2)])
next
  case (3 report fate now room j y)
  show ?case by (rule supersede_replaced(2) [OF 3 assms(2)])
next
  case (4 now fate r k)
  then show ?case using assms(2) live_remove_other by (simp add: close_session_def)
qed

text \<open>
  A session speaks only for a registration whose credential it showed. A connection is
  accepted only as a registration the database holds, not revoked, in the organization the caller
  named, under the digest of the credential it presented; the identity then stays with the session
  (the session opened for it has that organization and registration). Whatever else a caller
  does wrong gets one and the same answer, and the database's unavailability another.
\<close>

theorem session_identity_is_verified:
  assumes "registry_inv db"
  shows "case authenticate lib hash fate ctx db of
      Inr identity \<Rightarrow>
        (\<exists>incoming. ctx = Some incoming \<and> firstValue incoming metadataCredential \<noteq> []
          \<and> (ri_registrationID identity, ri_organization identity, hash (firstValue incoming metadataCredential), None)
              \<in> identity_of ` set (registrations db))
        \<and> (\<forall>i peer now s. map_of (svc_heap (open_session i peer now identity s)) i = Some (new_session i peer now identity)
             \<and> ss_organization (new_session i peer now identity) = ri_organization identity
             \<and> ss_registrationID (new_session i peer now identity) = ri_registrationID identity)
    | Inl err \<Rightarrow> err = Status Unauthenticated ''session refused''
        \<or> (fate \<noteq> Reported \<and> err = Status Unavailable ''session unavailable'')"
proof (cases "authenticate lib hash fate ctx db")
  case (Inr identity)
  then obtain incoming organization registrationID where ctx: "ctx = Some incoming" and org: "organization \<noteq> uuid_Nil"
    and cred: "firstValue incoming metadataCredential \<noteq> []"
    and v: "VerifyRelayCredential organization registrationID (hash (firstValue incoming metadataCredential)) db = Inr True"
    and identity: "identity = \<lparr>ri_organization = organization, ri_registrationID = registrationID\<rparr>"
    by (auto simp: authenticate_def Let_def split: option.splits if_splits sum.splits)
  from v verify_iff [OF assms org] have "(registrationID, organization, hash (firstValue incoming metadataCredential), None)
      \<in> identity_of ` set (registrations db)" by simp
  with Inr ctx cred identity show ?thesis by (simp add: open_session_def live_install_def new_session_def)
next
  case (Inl err)
  have "VerifyRelayCredential organization r d db \<noteq> Inl e" if "organization \<noteq> uuid_Nil" for organization r d e
    using verify_iff [OF assms that] by simp
  with Inl show ?thesis
    by (auto simp: authenticate_def Let_def split: option.splits if_splits sum.splits)
qed

text \<open>A service in which session 9 of registration 2 was displaced by session 11.\<close>

definition sample_identity :: relayIdentity where
  "sample_identity = \<lparr>ri_organization = 1, ri_registrationID = 2\<rparr>"

definition sample_service :: relay_service where
  "sample_service = open_session 11 ''10.0.0.2'' 5 sample_identity (open_session 9 ''10.0.0.1'' 0 sample_identity (new_service sample_registry))"

lemma sample_service_run: "service_step\<^sup>*\<^sup>* (new_service sample_registry) sample_service"
proof -
  let ?s = "open_session 9 ''10.0.0.1'' 0 sample_identity (new_service sample_registry)"
  have "service_step (new_service sample_registry) ?s" by (rule service_step.opened) (simp add: new_service_def)
  moreover have "service_step ?s sample_service"
    unfolding sample_service_def by (rule service_step.opened) (simp add: open_session_def live_install_def new_service_def)
  ultimately show ?thesis by (meson r_into_rtranclp rtranclp.rtrancl_into_rtrancl)
qed

theorem one_working_session_per_registration_witness:
  "9 = (11::uuid) \<or> 9 \<in> fst ` set (svc_displaced sample_service) \<or> 11 \<in> fst ` set (svc_displaced sample_service)"
proof -
  have "working sample_service 9 (new_session 9 ''10.0.0.1'' 0 sample_identity)"
    "working sample_service 11 (new_session 11 ''10.0.0.2'' 5 sample_identity)"
    by (simp_all add: working_def sample_service_def open_session_def live_install_def new_service_def new_session_def)
  from one_working_session_per_registration [OF sample_service_run this] show ?thesis by (simp add: new_session_def)
qed

theorem takeover_is_orderly_witness:
  "map_of (svc_live (close_session 20 Reported 9 sample_service)) 2 = Some 11"
proof -
  have inv: "service_inv sample_service" using service_run_keeps [OF sample_service_run new_service_inv] by blast
  have heap: "map_of (svc_heap sample_service) 9 = Some (new_session 9 ''10.0.0.1'' 0 sample_identity)"
    and live: "map_of (svc_live sample_service) 2 = Some 11"
    by (simp_all add: sample_service_def open_session_def live_install_def new_service_def sample_identity_def)
  from takeover_is_orderly [OF inv heap] live show ?thesis by simp
qed

theorem session_identity_is_verified_witness:
  "authenticate sample_ids (\<lambda>_. sample_digest) Reported None sample_registry = Inl (Status Unauthenticated ''session refused'')"
  using session_identity_is_verified [OF sample_registry_inv, where lib = sample_ids and hash = "\<lambda>_. sample_digest" and fate = Reported and ctx = None]
  by (auto split: sum.splits)

end
