(* ===== verification/Json.thy ===== *)
theory Json
  imports Cursors
begin

text \<open>
  JSON as the agent meets it: the arguments a model sends with a call, the documents it
  concludes with, and the text \<^verbatim>\<open>encoding/json\<close> writes back. The lexer is not modelled: a
  \<^verbatim>\<open>json.RawMessage\<close> is shown as what it parses to. A number is shown by its literal. The
  members of an object name distinct fields; documents that name one twice are outside the model.
\<close>

section \<open>Values\<close>

datatype json =
    JNull
  | JBool bool
  | JNumber string
  | JString string
  | JArray "json list"
  | JObject "(string \<times> json) list"

text \<open>No JSON value at all, with the decoder's complaint; a value with more text after it; one value.\<close>

datatype raw_message = NotJson string | Trailing json | Whole json

text \<open>
  What the standard library contributes that only shows in texts: how \<^verbatim>\<open>strconv\<close> prints the
  \<^verbatim>\<open>float64\<close> a literal denotes, what the decoder says about a document that does not fit,
  and \<^verbatim>\<open>strconv.Quote\<close>.
\<close>

record json_lib =
  jl_float :: "string \<Rightarrow> string"
  jl_complaint :: "json \<Rightarrow> string"
  jl_quote :: "string \<Rightarrow> string"

lemma size_json_member: "(k, v) \<in> set ms \<Longrightarrow> size v < size_list (size_prod (\<lambda>_. 0) size) ms"
  by (induction ms) auto

lemma size_json_element: "v \<in> set xs \<Longrightarrow> size v < size_list size xs"
  by (induction xs) auto

section \<open>Encoding\<close>

definition backslash :: char where
  "backslash = CHR 0x5C"

definition hex_digit :: "nat \<Rightarrow> char" where
  "hex_digit n = (if n < 10 then char_of (48 + n) else char_of (87 + n))"

definition unicode_escape :: "nat \<Rightarrow> string" where
  "unicode_escape b = [backslash, CHR ''u'', CHR ''0'', CHR ''0'', hex_digit (b div 16), hex_digit (b mod 16)]"

text \<open>One rune, given by its encoding. Quotes and backslashes are escaped, control characters and the
  characters that matter in HTML too, and the two line separators of Unicode.\<close>

definition escape_rune :: "string \<Rightarrow> string" where
  "escape_rune e =
     (case e of
        [c] \<Rightarrow>
          (let b = (of_char c :: nat) in
           if c = CHR 0x22 \<or> c = backslash then [backslash, c]
           else if b = 8 then [backslash, CHR ''b'']
           else if b = 12 then [backslash, CHR ''f'']
           else if b = 10 then [backslash, CHR ''n'']
           else if b = 13 then [backslash, CHR ''r'']
           else if b = 9 then [backslash, CHR ''t'']
           else if b < 32 \<or> c = CHR ''<'' \<or> c = CHR ''>'' \<or> c = CHR ''&'' then unicode_escape b
           else [c])
      | _ \<Rightarrow>
          if e = [CHR 0xE2, CHR 0x80, CHR 0xA8] then backslash # ''u2028''
          else if e = [CHR 0xE2, CHR 0x80, CHR 0xA9] then backslash # ''u2029''
          else e)"

function escape_text :: "string \<Rightarrow> string" where
  "escape_text s =
     (if s = [] then []
      else if rune_width s = 0 then backslash # ''ufffd'' @ escape_text (drop 1 s)
      else escape_rune (take (rune_width s) s) @ escape_text (drop (rune_width s) s))"
  by pat_completeness auto
termination
  by (relation "measure length") auto

declare escape_text.simps [simp del]

definition json_string :: "string \<Rightarrow> string" where
  "json_string s = [CHR 0x22] @ escape_text s @ [CHR 0x22]"

fun join :: "string \<Rightarrow> string list \<Rightarrow> string" where
  "join sep [] = []"
| "join sep [x] = x"
| "join sep (x # y # xs) = x @ sep @ join sep (y # xs)"

fun Marshal :: "json \<Rightarrow> string" where
  "Marshal JNull = ''null''"
| "Marshal (JBool b) = (if b then ''true'' else ''false'')"
| "Marshal (JNumber n) = n"
| "Marshal (JString s) = json_string s"
| "Marshal (JArray xs) = ''['' @ join '','' (map Marshal xs) @ '']''"
| "Marshal (JObject ms) =
     CHR 0x7B # join '','' (map (\<lambda>(k, v). json_string k @ '':'' @ Marshal v) ms) @ [CHR 0x7D]"

section \<open>Decoding\<close>

text \<open>A Go map: for each key its last value, in the order of the keys.\<close>

definition as_map :: "(string \<times> 'v) list \<Rightarrow> (string \<times> 'v) list" where
  "as_map ms = map (\<lambda>k. (k, the (map_of (rev ms) k))) (sort (remdups (map fst ms)))"

text \<open>Decoding into \<^verbatim>\<open>any\<close>: objects become maps and numbers \<^verbatim>\<open>float64\<close>.\<close>

fun as_any :: "json_lib \<Rightarrow> json \<Rightarrow> json" where
  "as_any lib (JNumber n) = JNumber (jl_float lib n)"
| "as_any lib (JArray xs) = JArray (map (as_any lib) xs)"
| "as_any lib (JObject ms) = JObject (as_map (map (\<lambda>(k, v). (k, as_any lib v)) ms))"
| "as_any lib v = v"

text \<open>
  Decoding into a structure. A member belongs to the field whose name it equals when case is
  ignored; \<^verbatim>\<open>encoding/json\<close> folds the long s and the Kelvin sign too.
\<close>

definition fold_rune :: "string \<Rightarrow> string" where
  "fold_rune e =
     (if e = [CHR 0xC5, CHR 0xBF] then ''s''
      else if e = [CHR 0xE2, CHR 0x84, CHR 0xAA] then ''k''
      else map lower_byte e)"

definition folded :: "string \<Rightarrow> string" where
  "folded name = concat (map fold_rune (runes name))"

definition json_member :: "string \<Rightarrow> (string \<times> json) list \<Rightarrow> json option" where
  "json_member name ms = map_option snd (List.find (\<lambda>(k, v). folded k = name) ms)"

definition known_members :: "string list \<Rightarrow> (string \<times> json) list \<Rightarrow> bool" where
  "known_members names ms \<longleftrightarrow> list_all (\<lambda>(k, v). folded k \<in> set names) ms"

text \<open>Typed fields. \<^verbatim>\<open>null\<close> and an absent member leave the zero value; \<open>None\<close> is a value of the wrong
  type.\<close>

fun string_field :: "json option \<Rightarrow> string option" where
  "string_field None = Some []"
| "string_field (Some JNull) = Some []"
| "string_field (Some (JString s)) = Some s"
| "string_field (Some _) = None"

fun int_field :: "json option \<Rightarrow> int option" where
  "int_field None = Some 0"
| "int_field (Some JNull) = Some 0"
| "int_field (Some (JNumber n)) = ParseInt n"
| "int_field (Some _) = None"

text \<open>Slices: an outer \<open>None\<close> is a mismatch, an inner one is \<^verbatim>\<open>nil\<close>.\<close>

fun list_field :: "(json \<Rightarrow> 'a option) \<Rightarrow> json option \<Rightarrow> 'a list option option" where
  "list_field f None = Some None"
| "list_field f (Some JNull) = Some None"
| "list_field f (Some (JArray xs)) = map_option Some (those (map f xs))"
| "list_field f (Some _) = None"

text \<open>An element or member that is a structure of its own; \<^verbatim>\<open>null\<close> leaves it zero.\<close>

fun struct_of :: "string list \<Rightarrow> ((string \<times> json) list \<Rightarrow> 'a option) \<Rightarrow> json \<Rightarrow> 'a option" where
  "struct_of names f JNull = f []"
| "struct_of names f (JObject ms) = (if known_members names ms then f ms else None)"
| "struct_of names f _ = None"

definition of_slice :: "'a list option \<Rightarrow> 'a list" where
  "of_slice xs = (case xs of None \<Rightarrow> [] | Some ys \<Rightarrow> ys)"

end
