(* ===== verification/Investigation.thy ===== *)
theory Investigation
  imports AuditRecord Json
begin

text \<open>
  What an investigation is (\<^verbatim>\<open>internal/investigation/investigation.go\<close>), the evidence it
  cites (\<^verbatim>\<open>conversation.go\<close>), and the events it tells its watchers
  (\<^verbatim>\<open>event_payload.go\<close>, \<^verbatim>\<open>events.go\<close>). A JSON value is what it encodes: encoding and
  decoding a structure are not distinguished from it, and an empty object stands for no
  conclusion.
\<close>

section \<open>Investigations\<close>

datatype InvestigationStatus = StatusRunning | StatusConcluded | StatusFailed | StatusCancelled

fun InvestigationStatus_String :: "InvestigationStatus \<Rightarrow> string" where
  "InvestigationStatus_String StatusRunning = ''running''"
| "InvestigationStatus_String StatusConcluded = ''concluded''"
| "InvestigationStatus_String StatusFailed = ''failed''"
| "InvestigationStatus_String StatusCancelled = ''cancelled''"

definition PublicStatus :: "InvestigationStatus \<Rightarrow> bool \<Rightarrow> string" where
  "PublicStatus s claimed =
     (if s = StatusRunning \<and> \<not> claimed then ''queued'' else InvestigationStatus_String s)"

datatype RunOutcome = RunSucceeded | RunFailed | RunOutcomeOther int

record EvidenceRef =
  ref_InvestigationID :: uuid
  ref_ToolRunOrdinal :: int

record Finding =
  finding_Statement :: string
  finding_Kind :: string
  finding_Mechanism :: string
  finding_RunRefs :: "int list"
  finding_EvidenceRefs :: "EvidenceRef list"

record Impact =
  impact_Summary :: string
  impact_RunRefs :: "int list"

record HypothesisResult =
  hypothesis_Statement :: string
  hypothesis_Status :: string
  hypothesis_Test :: string
  hypothesis_RunRefs :: "int list"

record ActionProposal =
  action_Title :: string
  action_Rationale :: string
  action_Verification :: string
  action_RunRefs :: "int list"

record Limitation =
  limitation_Type :: string
  limitation_Statement :: string
  limitation_RunRefs :: "int list"
  limitation_MessageSequences :: "int list"

record Conclusion =
  conclusion_Status :: string
  conclusion_Summary :: string
  conclusion_Impact :: Impact
  conclusion_Findings :: "Finding list"
  conclusion_Hypotheses :: "HypothesisResult list"
  conclusion_Actions :: "ActionProposal list"
  conclusion_Limitations :: "Limitation list"

definition zero_conclusion :: Conclusion where
  "zero_conclusion =
     \<lparr>conclusion_Status = [], conclusion_Summary = [],
      conclusion_Impact = \<lparr>impact_Summary = [], impact_RunRefs = []\<rparr>,
      conclusion_Findings = [], conclusion_Hypotheses = [], conclusion_Actions = [],
      conclusion_Limitations = []\<rparr>"

record Usage =
  usage_InputTokens :: int
  usage_OutputTokens :: int

text \<open>Token counts are 64-bit integers, whose sum wraps around.\<close>

definition Usage_Add :: "Usage \<Rightarrow> Usage \<Rightarrow> Usage" where
  "Usage_Add u other =
     \<lparr>usage_InputTokens =
        int64_of_uint64 (uint64_of_int64 (usage_InputTokens u) + uint64_of_int64 (usage_InputTokens other)),
      usage_OutputTokens =
        int64_of_uint64 (uint64_of_int64 (usage_OutputTokens u) + uint64_of_int64 (usage_OutputTokens other))\<rparr>"

record Investigation =
  i_ID :: uuid
  i_IncidentID :: uuid
  i_ConversationID :: uuid
  i_Turn :: int
  i_Subject :: string
  i_WindowFrom :: instant
  i_WindowUntil :: instant
  i_Status :: InvestigationStatus
  i_Claimed :: bool
  i_ClaimToken :: uuid
  i_Conclusion :: Conclusion
  i_StoppedBy :: string
  i_Error :: string
  i_Usage :: Usage
  i_CreatedAt :: instant
  i_ConcludedAt :: "instant option"

text \<open>What a conversation hands to a turn, and a page of its history (\<^verbatim>\<open>conversation.go\<close>).\<close>

record BriefMessage =
  bm_Answer :: "Conclusion option"
  bm_FromUser :: bool
  bm_Author :: string
  bm_Text :: string
  bm_Sequence :: int
  bm_CreatedAt :: "instant option"
  bm_InvestigationID :: uuid

record PriorFinding =
  pf_InvestigationID :: uuid
  pf_Turn :: int
  pf_Statement :: string
  pf_Kind :: string
  pf_Runs :: "int list"
  pf_EvidenceRefs :: "EvidenceRef list"
  pf_ObservedAt :: "instant option"
  pf_WindowFrom :: "instant option"
  pf_WindowUntil :: "instant option"

definition References :: "PriorFinding \<Rightarrow> EvidenceRef list" where
  "References p =
     pf_EvidenceRefs p
     @ map (\<lambda>run. \<lparr>ref_InvestigationID = pf_InvestigationID p, ref_ToolRunOrdinal = run\<rparr>) (pf_Runs p)"

record Brief =
  brief_HistoryBefore :: int
  brief_NextBefore :: int
  brief_MissingEvidence :: bool
  brief_Turn :: int
  brief_Recent :: "BriefMessage list"
  brief_Findings :: "PriorFinding list"
  brief_OpenHypotheses :: "string list"
  brief_Limitations :: "string list"

record HistoryPage =
  page_NextBefore :: int
  page_MissingEvidence :: bool
  page_Limitations :: "string list"
  page_Exchange :: "BriefMessage list"
  page_Truncated :: bool

text \<open>What a read returned, an \<^verbatim>\<open>any\<close>: a page of history, or what a tool of an integration answered.\<close>

datatype run_content = HistoryContent HistoryPage | ToolContent json

record ToolRun =
  run_IntegrationID :: uuid
  run_Ordinal :: int
  run_Tool :: string
  run_Purpose :: string
  run_Arguments :: "(string \<times> json) list option"
  run_WindowFrom :: instant
  run_WindowUntil :: instant
  run_WindowApplied :: "bool option"
  run_Outcome :: RunOutcome
  run_Truncated :: bool
  run_Summary :: string
  run_Sources :: "string list"
  run_StartedAt :: instant
  run_FinishedAt :: instant
  run_Error :: string
  run_Content :: "run_content option"
  run_ObservationText :: "string option"
  run_ModelClipped :: bool
  run_IntegrationName :: string
  run_IntegrationType :: string

record NewInvestigation =
  new_IncidentID :: uuid
  new_Subject :: string
  new_WindowFrom :: instant
  new_WindowUntil :: instant

record InvestigationClaim =
  claim_Worker :: string
  claim_InvestigationLease :: duration
  claim_Token :: uuid

abbreviation MaxObservationBytes :: nat where
  "MaxObservationBytes \<equiv> 65536"

section \<open>Cited evidence\<close>

definition MissingEvidenceStatement :: string where
  "MissingEvidenceStatement =
     ''Some cited Tool Runs are no longer available. Retained Findings have not been reverified.''"

definition missing_evidence :: Limitation where
  "missing_evidence =
     \<lparr>limitation_Type = ''missing_telemetry'', limitation_Statement = MissingEvidenceStatement,
      limitation_RunRefs = [], limitation_MessageSequences = []\<rparr>"

definition MarkMissingEvidence :: "Conclusion \<Rightarrow> Conclusion" where
  "MarkMissingEvidence c =
     (if list_ex (\<lambda>l. limitation_Type l = ''missing_telemetry''
                      \<and> limitation_Statement l = MissingEvidenceStatement) (conclusion_Limitations c)
      then c
      else c\<lparr>conclusion_Limitations := conclusion_Limitations c @ [missing_evidence]\<rparr>)"

fun finding_evidence :: "uuid \<Rightarrow> Finding list \<Rightarrow> EvidenceRef list" where
  "finding_evidence own [] = []"
| "finding_evidence own (f # rest) =
     finding_EvidenceRefs f
     @ map (\<lambda>ordinal. \<lparr>ref_InvestigationID = own, ref_ToolRunOrdinal = ordinal\<rparr>) (finding_RunRefs f)
     @ finding_evidence own rest"

definition resultEvidence :: "Investigation \<Rightarrow> EvidenceRef list" where
  "resultEvidence found = finding_evidence (i_ID found) (conclusion_Findings (i_Conclusion found))"

lemma MarkMissingEvidence_once [simp]:
  "MarkMissingEvidence (MarkMissingEvidence c) = MarkMissingEvidence c"
  by (simp add: MarkMissingEvidence_def missing_evidence_def)

section \<open>Event types and payloads\<close>

text \<open>\<open>EventOther\<close> is a number this build gives no name.\<close>

datatype EventType =
    EventStarted
  | EventProgress
  | EventToolStarted
  | EventToolCompleted
  | EventConcluded
  | EventFailed
  | EventCancelled
  | EventOther int

fun EventType_String :: "EventType \<Rightarrow> string" where
  "EventType_String EventStarted = ''started''"
| "EventType_String EventProgress = ''progress''"
| "EventType_String EventToolStarted = ''tool_started''"
| "EventType_String EventToolCompleted = ''tool_completed''"
| "EventType_String EventConcluded = ''concluded''"
| "EventType_String EventFailed = ''failed''"
| "EventType_String EventCancelled = ''cancelled''"
| "EventType_String (EventOther n) = ''unrecognised''"

definition Terminal :: "EventType \<Rightarrow> bool" where
  "Terminal t \<longleftrightarrow> t = EventConcluded \<or> t = EventFailed \<or> t = EventCancelled"

record InvestigationEvent =
  e_Sequence :: int
  e_At :: instant
  e_Type :: EventType
  e_Payload :: Detail

abbreviation eventTextBound :: nat where
  "eventTextBound \<equiv> 512"

abbreviation maxRunErrorLength :: nat where
  "maxRunErrorLength \<equiv> 1024"

abbreviation MaxSummaryLength :: nat where
  "MaxSummaryLength \<equiv> 4096"

abbreviation MaxMessageTextLength :: nat where
  "MaxMessageTextLength \<equiv> 8192"

definition boundedRunes :: "string \<Rightarrow> nat \<Rightarrow> string" where
  "boundedRunes txt limit =
     (if RuneCountInString txt \<le> limit then txt else concat (take limit (runes txt)))"

datatype EventPayload =
    StartedEventPayload string
  | ProgressEventPayload string
  | ToolStartedEventPayload int string string string string
  | ToolCompletedEventPayload int string int string bool
  | ConcludedEventPayload string string
  | FailedEventPayload string
  | CancelledEventPayload string

fun payload_EventType :: "EventPayload \<Rightarrow> EventType" where
  "payload_EventType (StartedEventPayload _) = EventStarted"
| "payload_EventType (ProgressEventPayload _) = EventProgress"
| "payload_EventType (ToolStartedEventPayload _ _ _ _ _) = EventToolStarted"
| "payload_EventType (ToolCompletedEventPayload _ _ _ _ _) = EventToolCompleted"
| "payload_EventType (ConcludedEventPayload _ _) = EventConcluded"
| "payload_EventType (FailedEventPayload _) = EventFailed"
| "payload_EventType (CancelledEventPayload _) = EventCancelled"

text \<open>The JSON object of a payload; an empty \<^verbatim>\<open>text\<close> of a start is left out.\<close>

fun payload_fields :: "EventPayload \<Rightarrow> Detail" where
  "payload_fields (StartedEventPayload txt) = (if txt = [] then [] else [(''text'', DString txt)])"
| "payload_fields (ProgressEventPayload txt) = [(''text'', DString txt)]"
| "payload_fields (ToolStartedEventPayload ordinal tool integrationID integration purpose) =
     [(''ordinal'', DInt ordinal), (''tool'', DString tool), (''integrationId'', DString integrationID),
      (''integration'', DString integration), (''purpose'', DString purpose)]"
| "payload_fields (ToolCompletedEventPayload ordinal outcome durationMs summary truncated) =
     [(''ordinal'', DInt ordinal), (''outcome'', DString outcome), (''durationMs'', DInt durationMs),
      (''summary'', DString summary), (''truncated'', DBool truncated)]"
| "payload_fields (ConcludedEventPayload status summary) =
     [(''status'', DString status), (''summary'', DString summary)]"
| "payload_fields (FailedEventPayload reason) = [(''reason'', DString reason)]"
| "payload_fields (CancelledEventPayload message) = [(''message'', DString message)]"

definition StartedPayload :: "string \<Rightarrow> EventPayload" where
  "StartedPayload txt = StartedEventPayload (boundedRunes txt eventTextBound)"

definition ProgressPayload :: "string \<Rightarrow> EventPayload" where
  "ProgressPayload txt = ProgressEventPayload (boundedRunes txt eventTextBound)"

definition ToolStartedPayload :: "ToolRun \<Rightarrow> string \<Rightarrow> string \<Rightarrow> EventPayload" where
  "ToolStartedPayload run integration name =
     ToolStartedEventPayload (run_Ordinal run) (boundedRunes (run_Tool run) eventTextBound) integration
       (boundedRunes name eventTextBound) (boundedRunes (run_Purpose run) eventTextBound)"

definition safeToolRunError :: "string \<Rightarrow> string" where
  "safeToolRunError reason =
     (let reason = TrimSpace reason in
      if reason = ''not one of the tools the selected sources offer''
         \<or> reason = ''the integration'' @ [CHR 0x27] @ ''s credential could not be opened''
      then reason else [])"

definition outcomeWord :: "RunOutcome \<Rightarrow> string" where
  "outcomeWord outcome = (if outcome = RunSucceeded then ''succeeded'' else ''failed'')"

text \<open>\<^verbatim>\<open>Time.Sub\<close> saturates; \<^verbatim>\<open>Duration.Milliseconds\<close> divides towards zero.\<close>

definition time_Sub :: "instant \<Rightarrow> instant \<Rightarrow> duration" where
  "time_Sub a b = max (- 9223372036854775808) (min int64_max (a - b))"

definition Milliseconds :: "duration \<Rightarrow> int" where
  "Milliseconds d = (if d < 0 then - ((- d) div 1000000) else d div 1000000)"

definition ToolCompletedPayload :: "ToolRun \<Rightarrow> EventPayload" where
  "ToolCompletedPayload run =
     (let duration = Milliseconds (time_Sub (run_FinishedAt run) (run_StartedAt run));
          duration = (if duration < 0 then 0 else duration);
          summary = TrimSpace (run_Summary run);
          summary = (if summary = []
                     then (if run_Outcome run = RunSucceeded then ''Tool completed successfully''
                           else if safeToolRunError (run_Error run) \<noteq> [] then safeToolRunError (run_Error run)
                           else ''Tool failed'')
                     else summary) in
      ToolCompletedEventPayload (run_Ordinal run) (outcomeWord (run_Outcome run)) duration
        (boundedRunes summary eventTextBound) (run_Truncated run))"

definition ConcludedPayload :: "Conclusion \<Rightarrow> EventPayload" where
  "ConcludedPayload conclusion =
     ConcludedEventPayload (conclusion_Status conclusion)
       (boundedRunes (conclusion_Summary conclusion) MaxSummaryLength)"

definition FailedPayload :: "string \<Rightarrow> EventPayload" where
  "FailedPayload reason = FailedEventPayload (boundedRunes reason maxRunErrorLength)"

definition CancelledPayload :: EventPayload where
  "CancelledPayload = CancelledEventPayload ''Investigation cancelled by an operator''"

section \<open>The stream of one run\<close>

text \<open>
  A payload is a map, shown here in the order of its keys. Keys that name a credential are
  dropped, one level deep, and a map keeps its first 32 keys.
\<close>

abbreviation maxPayloadEntries :: nat where
  "maxPayloadEntries \<equiv> 32"

definition safe_keys :: "(string \<Rightarrow> string) \<Rightarrow> Detail \<Rightarrow> Detail" where
  "safe_keys unicode_lower d =
     take maxPayloadEntries
       (filter (\<lambda>(key, v). \<not> namesACredential unicode_lower key) (sort_key fst d))"

fun safeValue :: "(string \<Rightarrow> string) \<Rightarrow> detail_value \<Rightarrow> detail_value" where
  "safeValue unicode_lower (DNested d) =
     DNested (map (\<lambda>(key, v). (key, case v of DString txt \<Rightarrow> DString (boundedRunes txt eventTextBound) | _ \<Rightarrow> v))
               (safe_keys unicode_lower d))"
| "safeValue unicode_lower v = v"

definition safePayload :: "(string \<Rightarrow> string) \<Rightarrow> Detail \<Rightarrow> Detail" where
  "safePayload unicode_lower d =
     map (\<lambda>(key, v). (key, safeValue unicode_lower v)) (safe_keys unicode_lower d)"

text \<open>
  \<open>appendEvent\<close> is the function the stream was made with. The stream's mutex is held for the
  whole of \<open>emit\<close>.
\<close>

record event_stream =
  st_sequence :: int
  st_sawFirst :: bool
  st_closed :: bool

definition newStream :: event_stream where
  "newStream = \<lparr>st_sequence = 0, st_sawFirst = False, st_closed = False\<rparr>"

definition emit ::
  "(string \<Rightarrow> string) \<Rightarrow> instant \<Rightarrow> (InvestigationEvent \<Rightarrow> 's \<Rightarrow> 'e option \<times> 's) \<Rightarrow> EventType \<Rightarrow> Detail
     \<Rightarrow> event_stream \<times> 's \<Rightarrow> 'e option \<times> event_stream \<times> 's"
where
  "emit unicode_lower now appendEvent eventType payload =
     (\<lambda>(st, s).
        if st_closed st then (None, st, s)
        else (let event = \<lparr>e_Sequence = st_sequence st + 1, e_At = now, e_Type = eventType,
                           e_Payload = safePayload unicode_lower payload\<rparr> in
              case appendEvent event s of
                (Some e, s') \<Rightarrow> (Some e, st, s')
              | (None, s') \<Rightarrow>
                  (None, st\<lparr>st_sequence := e_Sequence event, st_closed := Terminal eventType, st_sawFirst := True\<rparr>, s')))"

definition Emit ::
  "(string \<Rightarrow> string) \<Rightarrow> instant \<Rightarrow> (InvestigationEvent \<Rightarrow> 's \<Rightarrow> 'e option \<times> 's) \<Rightarrow> EventPayload
     \<Rightarrow> event_stream \<times> 's \<Rightarrow> 'e option \<times> event_stream \<times> 's"
where
  "Emit unicode_lower now appendEvent payload =
     emit unicode_lower now appendEvent (payload_EventType payload) (payload_fields payload)"

text \<open>No payload of the program has a key that names a credential, so none loses a field.\<close>

definition payload_keys :: "string list" where
  "payload_keys =
     [''text'', ''ordinal'', ''tool'', ''integrationId'', ''integration'', ''purpose'', ''outcome'',
      ''durationMs'', ''summary'', ''truncated'', ''status'', ''reason'', ''message'']"

definition plain_key :: "string \<Rightarrow> bool" where
  "plain_key key \<longleftrightarrow> list_all (\<lambda>c. (of_char c :: nat) < 128) key
     \<and> \<not> list_ex (\<lambda>word. Contains (map lower_byte (filter (\<lambda>c. c \<notin> {CHR ''-'', CHR ''_'', CHR '' ''}) key))
                     (filter (\<lambda>c. c \<noteq> CHR ''_'') word)) credentialWords"

lemma payload_keys_plain: "list_all plain_key payload_keys"
  by code_simp

lemma payload_keys_used: "(key, v) \<in> set (payload_fields p) \<Longrightarrow> key \<in> set payload_keys"
  unfolding payload_keys_def by (cases p) (simp_all split: if_splits, (elim disjE; simp)+)

lemma plain_key_safe: "plain_key key \<Longrightarrow> \<not> namesACredential unicode_lower key"
  by (auto simp: plain_key_def namesACredential_def ToLower_def list_all_iff list_ex_iff Let_def)

lemma payload_key_safe: "(key, v) \<in> set (payload_fields p) \<Longrightarrow> \<not> namesACredential unicode_lower key"
  using payload_keys_used payload_keys_plain plain_key_safe by (metis list_all_iff)

lemma safePayload_fields: "safePayload unicode_lower (payload_fields p) = sort_key fst (payload_fields p)"
proof -
  have "filter (\<lambda>(key, v). \<not> namesACredential unicode_lower key) (sort_key fst (payload_fields p))
      = sort_key fst (payload_fields p)"
    using payload_key_safe [of _ _ p unicode_lower] by (intro filter_True) auto
  moreover have "length (payload_fields p) \<le> maxPayloadEntries" by (cases p) simp_all
  moreover have "(\<lambda>(key, v). (key, safeValue unicode_lower v)) e = e" if "e \<in> set (payload_fields p)" for e
    using that by (cases p) (auto split: if_splits)
  then have "map (\<lambda>(key, v). (key, safeValue unicode_lower v)) (sort_key fst (payload_fields p))
      = sort_key fst (payload_fields p)"
    by (intro map_idI) simp
  ultimately show ?thesis by (simp add: safePayload_def safe_keys_def)
qed

end
