(* ===== verification/Conclusions.thy ===== *)
theory Conclusions
  imports Investigation
begin

text \<open>
  What a model may conclude (\<^verbatim>\<open>internal/investigation/agent/conclusion.go\<close>): the document a
  \<^verbatim>\<open>conclude\<close> call carries is decoded into a fixed structure and refused unless every claim in
  it cites reads that happened. An error is its message.
\<close>

section \<open>Vocabulary\<close>

definition newConclusionStatuses :: "string list" where
  "newConclusionStatuses = [''supported_explanation'', ''inconclusive'', ''answer_only'']"

definition FindingKinds :: "string list" where
  "FindingKinds = [''cause'', ''contributing_factor'', ''observation'', ''ruled_out'']"

definition HypothesisStatuses :: "string list" where
  "HypothesisStatuses = [''supported'', ''ruled_out'', ''unresolved'']"

definition LimitationTypes :: "string list" where
  "LimitationTypes =
     [''missing_telemetry'', ''missing_access'', ''contradiction'', ''unresolved_assumption'', ''essential_human_input'']"

abbreviation maxStatementLength :: nat where
  "maxStatementLength \<equiv> 2048"

abbreviation MaxConclusionActions :: nat where
  "MaxConclusionActions \<equiv> 8"

abbreviation MaxActionTextLength :: nat where
  "MaxActionTextLength \<equiv> 512"

abbreviation oneOf :: "string \<Rightarrow> string list \<Rightarrow> bool" where
  "oneOf v allowed \<equiv> v \<in> set allowed"

definition errUnavailablePriorEvidence :: string where
  "errUnavailablePriorEvidence =
     ''a finding cites unavailable prior evidence; cite current reads with run_refs, and use evidence_refs only for supplied prior Investigation/ordinal pairs; otherwise leave evidence_refs empty''"

section \<open>The declared document\<close>

record conclusion_document =
  doc_Status :: string
  doc_Summary :: string
  doc_Impact :: "(string option \<times> int list option) option"
  doc_Findings :: "Finding list"
  doc_Hypotheses :: "HypothesisResult list"
  doc_Actions :: "ActionProposal list"
  doc_Limitations :: "Limitation list"

definition uuid_field :: "uuid_lib \<Rightarrow> json option \<Rightarrow> uuid option" where
  "uuid_field uuids v =
     (case v of
        None \<Rightarrow> Some uuid_Nil
      | Some JNull \<Rightarrow> Some uuid_Nil
      | Some (JString s) \<Rightarrow> uuid_Parse uuids s
      | Some _ \<Rightarrow> None)"

definition run_refs :: "(string \<times> json) list \<Rightarrow> int list option option" where
  "run_refs ms = list_field (\<lambda>v. int_field (Some v)) (json_member ''run_refs'' ms)"

definition decode_reference :: "uuid_lib \<Rightarrow> json \<Rightarrow> EvidenceRef option" where
  "decode_reference uuids =
     struct_of [''investigationid'', ''toolrunordinal'']
       (\<lambda>ms. case (uuid_field uuids (json_member ''investigationid'' ms), int_field (json_member ''toolrunordinal'' ms)) of
               (Some i, Some n) \<Rightarrow> Some \<lparr>ref_InvestigationID = i, ref_ToolRunOrdinal = n\<rparr>
             | _ \<Rightarrow> None)"

text \<open>The pointer to an impact and the one to its summary stay apart from their zero values.\<close>

definition decode_impact :: "json option \<Rightarrow> (string option \<times> int list option) option option" where
  "decode_impact v =
     (case v of
        None \<Rightarrow> Some None
      | Some JNull \<Rightarrow> Some None
      | Some (JObject ms) \<Rightarrow>
          if \<not> known_members [''summary'', ''run_refs''] ms then None
          else (case (json_member ''summary'' ms, string_field (json_member ''summary'' ms), run_refs ms) of
                  (summary, Some txt, Some refs) \<Rightarrow>
                    Some (Some (if summary = None \<or> summary = Some JNull then None else Some txt, refs))
                | _ \<Rightarrow> None)
      | Some _ \<Rightarrow> None)"

definition decode_finding :: "uuid_lib \<Rightarrow> json \<Rightarrow> Finding option" where
  "decode_finding uuids =
     struct_of [''statement'', ''kind'', ''mechanism'', ''run_refs'', ''evidence_refs'']
       (\<lambda>ms. case (string_field (json_member ''statement'' ms), string_field (json_member ''kind'' ms),
                   string_field (json_member ''mechanism'' ms), run_refs ms,
                   list_field (decode_reference uuids) (json_member ''evidence_refs'' ms)) of
               (Some statement, Some kind, Some mechanism, Some runs, Some refs) \<Rightarrow>
                 Some \<lparr>finding_Statement = statement, finding_Kind = kind, finding_Mechanism = mechanism,
                       finding_RunRefs = of_slice runs, finding_EvidenceRefs = of_slice refs\<rparr>
             | _ \<Rightarrow> None)"

definition decode_hypothesis :: "json \<Rightarrow> HypothesisResult option" where
  "decode_hypothesis =
     struct_of [''statement'', ''status'', ''test'', ''run_refs'']
       (\<lambda>ms. case (string_field (json_member ''statement'' ms), string_field (json_member ''status'' ms),
                   string_field (json_member ''test'' ms), run_refs ms) of
               (Some statement, Some status, Some test, Some runs) \<Rightarrow>
                 Some \<lparr>hypothesis_Statement = statement, hypothesis_Status = status, hypothesis_Test = test,
                       hypothesis_RunRefs = of_slice runs\<rparr>
             | _ \<Rightarrow> None)"

definition decode_action :: "json \<Rightarrow> ActionProposal option" where
  "decode_action =
     struct_of [''title'', ''rationale'', ''verification'', ''run_refs'']
       (\<lambda>ms. case (string_field (json_member ''title'' ms), string_field (json_member ''rationale'' ms),
                   string_field (json_member ''verification'' ms), run_refs ms) of
               (Some title, Some rationale, Some verification, Some runs) \<Rightarrow>
                 Some \<lparr>action_Title = title, action_Rationale = rationale, action_Verification = verification,
                       action_RunRefs = of_slice runs\<rparr>
             | _ \<Rightarrow> None)"

definition decode_limitation :: "json \<Rightarrow> Limitation option" where
  "decode_limitation =
     struct_of [''type'', ''statement'', ''run_refs'']
       (\<lambda>ms. case (string_field (json_member ''type'' ms), string_field (json_member ''statement'' ms), run_refs ms) of
               (Some type, Some statement, Some runs) \<Rightarrow>
                 Some \<lparr>limitation_Type = type, limitation_Statement = statement, limitation_RunRefs = of_slice runs,
                       limitation_MessageSequences = []\<rparr>
             | _ \<Rightarrow> None)"

definition decode_document :: "uuid_lib \<Rightarrow> json \<Rightarrow> conclusion_document option" where
  "decode_document uuids =
     struct_of [''status'', ''summary'', ''impact'', ''findings'', ''hypotheses'', ''actions'', ''limitations'']
       (\<lambda>ms. case (string_field (json_member ''status'' ms), string_field (json_member ''summary'' ms),
                   decode_impact (json_member ''impact'' ms),
                   list_field (decode_finding uuids) (json_member ''findings'' ms),
                   list_field decode_hypothesis (json_member ''hypotheses'' ms),
                   list_field decode_action (json_member ''actions'' ms),
                   list_field decode_limitation (json_member ''limitations'' ms)) of
               (Some status, Some summary, Some impact, Some findings, Some hypotheses, Some actions, Some limitations) \<Rightarrow>
                 Some \<lparr>doc_Status = status, doc_Summary = summary, doc_Impact = impact,
                       doc_Findings = of_slice findings, doc_Hypotheses = of_slice hypotheses,
                       doc_Actions = of_slice actions, doc_Limitations = of_slice limitations\<rparr>
             | _ \<Rightarrow> None)"

section \<open>What is refused\<close>

fun first_error :: "('a \<Rightarrow> string option) \<Rightarrow> 'a list \<Rightarrow> string option" where
  "first_error f [] = None"
| "first_error f (x # xs) = (case f x of Some e \<Rightarrow> Some e | None \<Rightarrow> first_error f xs)"

fun first_of :: "string option list \<Rightarrow> string option" where
  "first_of [] = None"
| "first_of (Some e # es) = Some e"
| "first_of (None # es) = first_of es"

definition unless :: "bool \<Rightarrow> string \<Rightarrow> string option" where
  "unless ok message = (if ok then None else Some message)"

definition validateRunRefs :: "int list \<Rightarrow> nat \<Rightarrow> string \<Rightarrow> string option" where
  "validateRunRefs refs runs owner =
     first_error
       (\<lambda>ordinal. unless (1 \<le> ordinal \<and> ordinal \<le> int runs)
          (''a '' @ owner @ '' cites run '' @ FormatInt ordinal @ '', and only '' @ FormatInt (int runs) @ '' ran'')) refs"

definition causalFinding :: "string \<Rightarrow> bool" where
  "causalFinding kind \<longleftrightarrow> kind = ''cause'' \<or> kind = ''contributing_factor''"

text \<open>\<open>runs[ordinal-1].Outcome\<close>, after \<open>validateRunRefs\<close> has bounded the ordinal.\<close>

definition run_succeeded :: "ToolRun list \<Rightarrow> int \<Rightarrow> bool" where
  "run_succeeded runs ordinal \<longleftrightarrow>
     1 \<le> ordinal \<and> ordinal \<le> int (length runs) \<and> run_Outcome (runs ! nat (ordinal - 1)) = RunSucceeded"

fun evidence_error :: "EvidenceRef list \<Rightarrow> EvidenceRef list \<Rightarrow> EvidenceRef list \<Rightarrow> string option" where
  "evidence_error allowed seen [] = None"
| "evidence_error allowed seen (ref # refs) =
     (if ref_InvestigationID ref = uuid_Nil \<or> ref_ToolRunOrdinal ref \<le> 0 \<or> ref \<notin> set allowed
      then Some errUnavailablePriorEvidence
      else if ref \<in> set seen then Some ''a finding repeats prior evidence''
      else evidence_error allowed (ref # seen) refs)"

definition finding_error ::
  "json_lib \<Rightarrow> ToolRun list \<Rightarrow> EvidenceRef list \<Rightarrow> Finding \<Rightarrow> string option"
where
  "finding_error lib runs allowed f =
     first_of
       [unless (finding_Statement f \<noteq> [] \<and> length (finding_Statement f) \<le> maxStatementLength)
          (''a finding'' @ [CHR 0x27] @ ''s statement is empty or past 2048 characters''),
        unless (oneOf (finding_Kind f) FindingKinds)
          (''a finding'' @ [CHR 0x27] @ ''s kind '' @ jl_quote lib (finding_Kind f) @ '' is not in the declared vocabulary''),
        unless (finding_RunRefs f \<noteq> [] \<or> finding_EvidenceRefs f \<noteq> []) ''a finding cites no run at all'',
        validateRunRefs (finding_RunRefs f) (length runs) ''finding'',
        first_error
          (\<lambda>ordinal. unless (run_succeeded runs ordinal)
             (''a finding cites run '' @ FormatInt ordinal
                @ '', which supplied no successful evidence; use failed reads only for limitations''))
          (finding_RunRefs f),
        evidence_error allowed [] (finding_EvidenceRefs f),
        unless (causalFinding (finding_Kind f) \<longrightarrow> TrimSpace (finding_Mechanism f) \<noteq> [])
          ''causal finding has no mechanism'']"

definition hypothesis_error :: "nat \<Rightarrow> HypothesisResult \<Rightarrow> string option" where
  "hypothesis_error runs h =
     first_of
       [unless (hypothesis_Statement h \<noteq> [] \<and> hypothesis_Test h \<noteq> [] \<and> oneOf (hypothesis_Status h) HypothesisStatuses)
          ''a hypothesis is incomplete or has an invalid status'',
        validateRunRefs (hypothesis_RunRefs h) runs ''hypothesis'']"

definition action_error :: "json_lib \<Rightarrow> nat \<Rightarrow> ActionProposal \<Rightarrow> string option" where
  "action_error lib runs a =
     first_of
       [unless (action_Title a \<noteq> [] \<and> action_Rationale a \<noteq> [] \<and> action_Verification a \<noteq> []
                \<and> length (action_Title a) \<le> MaxActionTextLength \<and> length (action_Rationale a) \<le> MaxActionTextLength
                \<and> length (action_Verification a) \<le> MaxActionTextLength)
          ''an action is incomplete, invalid, or past 512 bytes'',
        validateRunRefs (action_RunRefs a) runs ''action'',
        unless (action_RunRefs a \<noteq> []) (''action '' @ jl_quote lib (action_Title a) @ '' cites no run'')]"

definition limitation_error :: "nat \<Rightarrow> Limitation \<Rightarrow> string option" where
  "limitation_error runs l =
     first_of
       [unless (limitation_Statement l \<noteq> [] \<and> oneOf (limitation_Type l) LimitationTypes)
          ''a limitation is incomplete or has an invalid type'',
        validateRunRefs (limitation_RunRefs l) runs ''limitation'']"

definition validateConclusionStatus :: "Conclusion \<Rightarrow> string option" where
  "validateConclusionStatus c =
     (let kinds = map finding_Kind (conclusion_Findings c) in
      if conclusion_Status c = ''supported_explanation'' then
        unless (list_ex causalFinding kinds) ''supported_explanation requires a cited explanatory finding''
      else if conclusion_Status c = ''inconclusive'' then
        unless (''cause'' \<notin> set kinds) ''inconclusive cannot carry a cause''
      else if conclusion_Status c = ''answer_only'' then
        unless (list_all (\<lambda>kind. kind = ''observation'' \<or> kind = ''ruled_out'') kinds)
          ''answer_only cannot carry causal findings''
      else None)"

definition impact_error :: "nat \<Rightarrow> string \<Rightarrow> (string option \<times> int list option) option \<Rightarrow> string option" where
  "impact_error runs status impact =
     (case impact of
        Some (Some summary, Some refs) \<Rightarrow>
          first_of
            [validateRunRefs refs runs ''impact'',
             unless (TrimSpace summary \<noteq> [] \<or> status = ''answer_only'' \<and> refs = []) ''the impact summary is empty'']
      | _ \<Rightarrow> Some ''impact requires a summary and run_refs'')"

definition document_error ::
  "json_lib \<Rightarrow> ToolRun list \<Rightarrow> EvidenceRef list \<Rightarrow> conclusion_document \<Rightarrow> string option"
where
  "document_error lib runs allowed d =
     first_of
       [unless (TrimSpace (doc_Summary d) \<noteq> []) ''the conclusion summary is empty'',
        unless (RuneCountInString (doc_Summary d) \<le> MaxSummaryLength) ''the conclusion summary exceeds 4096 characters'',
        unless (oneOf (doc_Status d) newConclusionStatuses) (''invalid conclusion status '' @ jl_quote lib (doc_Status d)),
        impact_error (length runs) (doc_Status d) (doc_Impact d),
        first_error (finding_error lib runs allowed) (doc_Findings d),
        first_error (hypothesis_error (length runs)) (doc_Hypotheses d),
        unless (length (doc_Actions d) \<le> MaxConclusionActions)
          (''the conclusion proposes '' @ FormatInt (int (length (doc_Actions d))) @ '' actions, past 8''),
        first_error (action_error lib (length runs)) (doc_Actions d),
        first_error (limitation_error (length runs)) (doc_Limitations d)]"

definition document_conclusion :: "conclusion_document \<Rightarrow> Conclusion" where
  "document_conclusion d =
     \<lparr>conclusion_Status = doc_Status d, conclusion_Summary = doc_Summary d,
      conclusion_Impact =
        (case doc_Impact d of
           Some (summary, refs) \<Rightarrow>
             \<lparr>impact_Summary = (case summary of Some txt \<Rightarrow> txt | None \<Rightarrow> []), impact_RunRefs = of_slice refs\<rparr>
         | None \<Rightarrow> \<lparr>impact_Summary = [], impact_RunRefs = []\<rparr>),
      conclusion_Findings = doc_Findings d, conclusion_Hypotheses = doc_Hypotheses d,
      conclusion_Actions = doc_Actions d, conclusion_Limitations = doc_Limitations d\<rparr>"

definition decodeConclusion ::
  "json_lib \<Rightarrow> uuid_lib \<Rightarrow> raw_message \<Rightarrow> ToolRun list \<Rightarrow> EvidenceRef list \<Rightarrow> string + Conclusion"
where
  "decodeConclusion lib uuids document runs allowed =
     (let undeclared = (\<lambda>complaint. Inl (''the conclusion is not the declared document: '' @ complaint)) in
      case document of
        NotJson complaint \<Rightarrow> undeclared complaint
      | Trailing v \<Rightarrow>
          (case decode_document uuids v of
             None \<Rightarrow> undeclared (jl_complaint lib v)
           | Some d \<Rightarrow> undeclared ''trailing content'')
      | Whole v \<Rightarrow>
          (case decode_document uuids v of
             None \<Rightarrow> undeclared (jl_complaint lib v)
           | Some d \<Rightarrow>
               (case document_error lib runs allowed d of
                  Some e \<Rightarrow> Inl e
                | None \<Rightarrow>
                    (case validateConclusionStatus (document_conclusion d) of
                       Some e \<Rightarrow> Inl e
                     | None \<Rightarrow> Inr (document_conclusion d)))))"

end
