(* ===== verification/Integrations.thy ===== *)
theory Integrations
  imports Json
begin

text \<open>
  Integrations and the tools they offer: the catalog
  (\<^verbatim>\<open>internal/integrations/integrations.go\<close>), which tools a connected integration may serve
  (\<^verbatim>\<open>availability.go\<close>) and how a tool is declared to a model (\<^verbatim>\<open>tool.go\<close>). The functions that
  read a third-party service are the field \<open>tool_Run\<close> of a tool: what one call at one moment
  answers.
\<close>

section \<open>Records\<close>

text \<open>\<^verbatim>\<open>Integration\<close> of \<^verbatim>\<open>record.go\<close> without its installation; \<open>None\<close> is the zero time.\<close>

record Integration =
  integ_ID :: uuid
  integ_OrgID :: string
  integ_Provider :: string
  integ_Name :: string
  integ_Configuration :: "(string \<times> json) list"
  integ_RelayID :: uuid
  integ_WebhookSecretDigest :: bytes
  integ_CredentialSealed :: bytes
  integ_Status :: string
  integ_VerifiedAt :: "instant option"
  integ_VerificationGrants :: "string list"
  integ_Disabled :: bool
  integ_CreatedAt :: instant

record ToolArgument =
  arg_Name :: string
  arg_Description :: string
  arg_Type :: string
  arg_Required :: bool

record ToolRequest =
  req_InvestigationID :: uuid
  req_Integration :: Integration
  req_Credential :: string
  req_Arguments :: "(string \<times> json) list option"
  req_OriginChannel :: string
  req_OriginThread :: string
  req_WindowFrom :: instant
  req_WindowUntil :: instant

record ToolResult =
  res_Content :: "json option"
  res_Truncated :: bool
  res_Summary :: string
  res_Sources :: "string list"
  res_WindowFrom :: "instant option"
  res_WindowUntil :: "instant option"

record Tool =
  tool_Name :: string
  tool_Description :: string
  tool_Arguments :: "ToolArgument list"
  tool_RequiredGrants :: "string list"
  tool_SupportsThreadScope :: bool
  tool_Run :: "nat \<Rightarrow> ToolRequest \<Rightarrow> string + ToolResult"

text \<open>The part of a definition the catalog's readers below use.\<close>

record Definition =
  def_Key :: string
  def_Tools :: "Tool list"

record ToolDefinition =
  tdef_Name :: string
  tdef_Description :: string
  tdef_InputSchema :: "(string \<times> json) list"

text \<open>A catalog holds one definition for each key.\<close>

definition Lookup :: "Definition list \<Rightarrow> string \<Rightarrow> Definition option" where
  "Lookup catalog key = List.find (\<lambda>d. def_Key d = key) catalog"

section \<open>Availability\<close>

definition integrationEligible :: "Integration \<Rightarrow> bool \<times> string" where
  "integrationEligible i =
     (if integ_Disabled i then (False, ''this Integration is disabled'')
      else if integ_Status i \<noteq> ''verified'' then (False, ''this Integration does not have a successful Verification'')
      else if integ_VerifiedAt i = None then (False, ''this Integration has not recorded a Verification'')
      else (True, []))"

definition missingGrants :: "Tool \<Rightarrow> string set \<Rightarrow> string list" where
  "missingGrants tool recorded = filter (\<lambda>g. g \<notin> recorded) (tool_RequiredGrants tool)"

definition SupportedTools :: "Definition \<Rightarrow> Integration \<Rightarrow> Tool list" where
  "SupportedTools d i =
     (if \<not> fst (integrationEligible i) then []
      else filter (\<lambda>tool. missingGrants tool (set (integ_VerificationGrants i)) = []) (def_Tools d))"

definition reasonFor :: "Integration \<Rightarrow> string list \<Rightarrow> string" where
  "reasonFor i missing =
     (let named = join '', '' missing in
      if integ_VerificationGrants i = []
      then ''this integration has not recorded a successful verification, so nothing is known to be granted; it needs '' @ named
      else ''the last verification did not record '' @ named)"

record ToolAvailability =
  avail_Tool :: string
  avail_Available :: bool
  avail_Reason :: string

definition availability_of :: "Integration \<Rightarrow> Tool \<Rightarrow> ToolAvailability" where
  "availability_of i tool =
     (let (eligible, refusal) = integrationEligible i;
          missing = missingGrants tool (set (integ_VerificationGrants i)) in
      \<lparr>avail_Tool = tool_Name tool, avail_Available = (eligible \<and> missing = []),
       avail_Reason = (if \<not> eligible then refusal else if missing \<noteq> [] then reasonFor i missing else [])\<rparr>)"

definition ToolAvailabilityFor :: "Definition \<Rightarrow> Integration \<Rightarrow> ToolAvailability list" where
  "ToolAvailabilityFor d i = sort_key avail_Tool (map (availability_of i) (def_Tools d))"

section \<open>Declaring a tool\<close>

definition argument_schema :: "ToolArgument \<Rightarrow> json" where
  "argument_schema a =
     JObject [(''description'', JString (arg_Description a)),
              (''type'', JString (if arg_Type a = ''integer'' then ''integer'' else ''string''))]"

definition tool_Definition :: "Tool \<Rightarrow> ToolDefinition" where
  "tool_Definition t =
     (let properties = as_map (map (\<lambda>a. (arg_Name a, argument_schema a)) (tool_Arguments t));
          required = sort (map arg_Name (filter arg_Required (tool_Arguments t))) in
      \<lparr>tdef_Name = tool_Name t, tdef_Description = tool_Description t,
       tdef_InputSchema =
         [(''additionalProperties'', JBool False), (''properties'', JObject properties)]
         @ (if required = [] then [] else [(''required'', JArray (map JString required))])
         @ [(''type'', JString ''object'')]\<rparr>)"

text \<open>\<^verbatim>\<open>ClampWindow\<close>: the window a tool may read, inside the window of the request; \<open>None\<close> is the zero time.\<close>

definition ClampWindow ::
  "instant option \<Rightarrow> instant option \<Rightarrow> instant option \<Rightarrow> instant option \<Rightarrow> instant option \<times> instant option"
where
  "ClampWindow window_from window_until from until =
     (let from1 = (case window_from of
                     None \<Rightarrow> from
                   | Some w \<Rightarrow> (case from of None \<Rightarrow> Some w | Some f \<Rightarrow> if f < w then Some w else Some f));
          until1 = (case window_until of
                      None \<Rightarrow> until
                    | Some w \<Rightarrow> (case until of None \<Rightarrow> Some w | Some u \<Rightarrow> if w < u then Some w else Some u)) in
      (case (from1, until1) of
         (Some f, Some u) \<Rightarrow> if u < f then (until1, until1) else (from1, until1)
       | _ \<Rightarrow> (from1, until1)))"

section \<open>What availability promises\<close>

lemma SupportedTools_granted:
  assumes "tool \<in> set (SupportedTools d i)"
  shows "tool \<in> set (def_Tools d)" "\<not> integ_Disabled i" "integ_Status i = ''verified''" "integ_VerifiedAt i \<noteq> None"
    "set (tool_RequiredGrants tool) \<subseteq> set (integ_VerificationGrants i)"
  using assms
  by (simp_all add: SupportedTools_def integrationEligible_def missingGrants_def filter_empty_conv subset_eq split: if_splits)

text \<open>The console's word on a tool and what a model is offered agree.\<close>

lemma availability_agrees:
  "set (map avail_Tool (filter avail_Available (ToolAvailabilityFor d i))) = tool_Name ` set (SupportedTools d i)"
proof -
  have "avail_Tool (availability_of i tool) = tool_Name tool" for tool
    by (simp add: availability_of_def Let_def split: prod.split)
  moreover have "avail_Available (availability_of i tool) \<longleftrightarrow>
      fst (integrationEligible i) \<and> missingGrants tool (set (integ_VerificationGrants i)) = []" for tool
    by (simp add: availability_of_def Let_def split: prod.split)
  ultimately show ?thesis
    by (auto simp: ToolAvailabilityFor_def SupportedTools_def image_iff split: if_splits) metis
qed

lemma ClampWindow_inside:
  assumes "start < final" "ClampWindow (Some start) (Some final) from until = (Some f, Some u)"
  shows "f \<le> u \<and> u \<le> final \<and> (until = None \<or> start \<le> the until \<longrightarrow> start \<le> f)"
  using assms by (auto simp: ClampWindow_def Let_def split: option.splits if_splits)

end
