(* ===== verification/AgentTools.thy ===== *)
theory AgentTools
  imports AgentPrompt
begin

text \<open>
  The tools of a turn (\<^verbatim>\<open>internal/investigation/agent/tools.go\<close>, and the parts of
  \<^verbatim>\<open>run.go\<close> and \<^verbatim>\<open>conclusion.go\<close> that deal with them): which sources a turn may read, how the
  calls of a model are understood, the credentials a turn opens, and the observation that is
  stored of a read.
\<close>

section \<open>Sources\<close>

record ConversationOrigin =
  origin_IntegrationID :: uuid
  origin_Channel :: string
  origin_Thread :: string

definition offered_source :: "Definition list \<Rightarrow> Integration \<Rightarrow> offeredSource list" where
  "offered_source catalog candidate =
     (case Lookup catalog (integ_Provider candidate) of
        None \<Rightarrow> []
      | Some d \<Rightarrow>
          (let tools = SupportedTools d candidate in
           if tools = [] then [] else [\<lparr>src_Integration = candidate, src_Tools = tools\<rparr>]))"

definition offeredSources :: "Definition list \<Rightarrow> Integration list \<Rightarrow> offeredSource list" where
  "offeredSources catalog candidates =
     sort_key (\<lambda>s. integ_Name (src_Integration s)) (concat (map (offered_source catalog) candidates))"

text \<open>
  A turn that answers a provider's thread reads no other integration of that provider, and from
  its own only what stays inside the thread.
\<close>

definition thread_scoped :: "string \<Rightarrow> offeredSource \<Rightarrow> offeredSource list" where
  "thread_scoped provider s =
     (if integ_Provider (src_Integration s) \<noteq> provider then [s]
      else (let tools = filter tool_SupportsThreadScope (src_Tools s) in
            if tools = [] then [] else [s\<lparr>src_Tools := tools\<rparr>]))"

definition offeredSourcesForConversation ::
  "Definition list \<Rightarrow> Integration list \<Rightarrow> ConversationOrigin option \<Rightarrow> offeredSource list"
where
  "offeredSourcesForConversation catalog candidates origin =
     (case origin of
        None \<Rightarrow> offeredSources catalog candidates
      | Some g \<Rightarrow>
          if origin_IntegrationID g = uuid_Nil \<or> origin_Channel g = [] \<or> origin_Thread g = [] then []
          else (case List.find (\<lambda>c. integ_ID c = origin_IntegrationID g) candidates of
                  None \<Rightarrow> []
                | Some own \<Rightarrow>
                    (let provider = integ_Provider own;
                         allowed = filter (\<lambda>c. integ_Provider c \<noteq> provider \<or> integ_ID c = origin_IntegrationID g)
                                     candidates in
                     concat (map (thread_scoped provider) (offeredSources catalog allowed)))))"

section \<open>Calls\<close>

record toolCall =
  tc_ID :: string
  tc_Tool :: string
  tc_IntegrationID :: string
  tc_Purpose :: string
  tc_Arguments :: "(string \<times> json) list option"
  tc_Error :: string

text \<open>Identifiers must be present and distinct; conclusions are kept apart from reads.\<close>

definition splitCalls :: "CompletionCall list \<Rightarrow> string + CompletionCall list \<times> CompletionCall list" where
  "splitCalls calls =
     (if list_ex (\<lambda>c. TrimSpace (call_ID c) = []) calls \<or> \<not> distinct (map call_ID calls)
      then Inl ''the provider returned empty or duplicate Tool call IDs''
      else Inr (filter (\<lambda>c. call_Name c \<noteq> ConcludeToolName) calls, filter (\<lambda>c. call_Name c = ConcludeToolName) calls))"

definition blank_call :: "CompletionCall \<Rightarrow> toolCall" where
  "blank_call call =
     \<lparr>tc_ID = call_ID call, tc_Tool = call_Name call, tc_IntegrationID = [], tc_Purpose = [], tc_Arguments = None,
      tc_Error = []\<rparr>"

text \<open>The envelope of a read. Later checks overwrite the error of earlier ones.\<close>

definition select_source :: "(string \<times> json) list \<Rightarrow> toolCall \<Rightarrow> toolCall" where
  "select_source ms call =
     (case map_of ms ''integrationId'' of
        None \<Rightarrow> call
      | Some (JString txt) \<Rightarrow>
          if txt = [] then call\<lparr>tc_Error := ''Tool integrationId must be a nonempty string when supplied''\<rparr>
          else call\<lparr>tc_IntegrationID := txt\<rparr>
      | Some _ \<Rightarrow> call\<lparr>tc_Error := ''Tool integrationId must be a nonempty string when supplied''\<rparr>)"

definition take_input :: "(string \<times> json) list \<Rightarrow> toolCall \<Rightarrow> toolCall" where
  "take_input ms call =
     (case map_of ms ''input'' of
        Some (JObject given) \<Rightarrow> call\<lparr>tc_Arguments := Some given\<rparr>
      | _ \<Rightarrow> call\<lparr>tc_Error := ''Tool input must be a JSON object''\<rparr>)"

definition take_purpose :: "(string \<times> json) list \<Rightarrow> toolCall \<Rightarrow> toolCall" where
  "take_purpose ms call =
     (case map_of ms ''purpose'' of
        None \<Rightarrow> call
      | Some (JString txt) \<Rightarrow> call\<lparr>tc_Purpose := txt\<rparr>
      | Some _ \<Rightarrow> call\<lparr>tc_Error := ''Tool purpose must be a string when supplied''\<rparr>)"

definition refuse_others :: "(string \<times> json) list \<Rightarrow> toolCall \<Rightarrow> toolCall" where
  "refuse_others ms call =
     (if list_all (\<lambda>(k, v). k \<in> {''purpose'', ''input'', ''integrationId''}) ms then call
      else call\<lparr>tc_Error := ''Tool arguments accept only input, optional purpose and source selection''\<rparr>)"

definition decode_call :: "json_lib \<Rightarrow> CompletionCall \<Rightarrow> toolCall" where
  "decode_call lib call =
     (case call_Arguments call of
        Whole (JObject given) \<Rightarrow>
          (case as_any lib (JObject given) of
             JObject ms \<Rightarrow>
               if call_Name call = historyToolName then (blank_call call)\<lparr>tc_Arguments := Some ms\<rparr>
               else refuse_others ms (take_purpose ms (take_input ms (select_source ms (blank_call call))))
           | _ \<Rightarrow> (blank_call call)\<lparr>tc_Error := ''Tool arguments must be a valid JSON object''\<rparr>)
      | _ \<Rightarrow> (blank_call call)\<lparr>tc_Error := ''Tool arguments must be a valid JSON object''\<rparr>)"

definition decodeToolCalls :: "json_lib \<Rightarrow> CompletionCall list \<Rightarrow> toolCall list" where
  "decodeToolCalls lib calls = map (decode_call lib) calls"

text \<open>A call names a tool when exactly one of the offered tools has its name, in the source it selects.\<close>

definition matching_tools :: "uuid_lib \<Rightarrow> offeredSource list \<Rightarrow> toolCall \<Rightarrow> (offeredSource \<times> Tool) list" where
  "matching_tools uuids selected call =
     concat (map (\<lambda>s. map (Pair s) (filter (\<lambda>tool. tool_Name tool = tc_Tool call) (src_Tools s)))
       (filter (\<lambda>s. tc_IntegrationID call = []
                    \<or> uuid_String uuids (integ_ID (src_Integration s)) = tc_IntegrationID call) selected))"

definition toolNamed :: "uuid_lib \<Rightarrow> offeredSource list \<Rightarrow> toolCall \<Rightarrow> (offeredSource \<times> Tool) option" where
  "toolNamed uuids selected call =
     (case matching_tools uuids selected call of [found] \<Rightarrow> Some found | _ \<Rightarrow> None)"

definition callIdentityOf :: "toolCall \<Rightarrow> string" where
  "callIdentityOf call =
     tc_Tool call @ '' '' @ tc_IntegrationID call @ '' ''
     @ (case tc_Arguments call of None \<Rightarrow> ''null'' | Some ms \<Rightarrow> Marshal (JObject ms))"

definition offeredName :: "uuid_lib \<Rightarrow> offeredSource list \<Rightarrow> toolCall \<Rightarrow> string" where
  "offeredName uuids sources call =
     (if toolNamed uuids sources call \<noteq> None then tc_Tool call else ''a tool that is not offered'')"

section \<open>Runs that were not executed\<close>

definition started_run :: "Investigation \<Rightarrow> toolCall \<Rightarrow> int \<Rightarrow> instant \<Rightarrow> ToolRun" where
  "started_run opened call ordinal now =
     \<lparr>run_IntegrationID = uuid_Nil, run_Ordinal = ordinal, run_Tool = tc_Tool call, run_Purpose = [],
      run_Arguments = tc_Arguments call, run_WindowFrom = i_WindowFrom opened, run_WindowUntil = i_WindowUntil opened,
      run_WindowApplied = None, run_Outcome = RunOutcomeOther 0, run_Truncated = False, run_Summary = [],
      run_Sources = [], run_StartedAt = now, run_FinishedAt = now, run_Error = [], run_Content = None,
      run_ObservationText = None, run_ModelClipped = False, run_IntegrationName = [], run_IntegrationType = []\<rparr>"

definition droppedRun :: "Investigation \<Rightarrow> toolCall \<Rightarrow> int \<Rightarrow> string \<Rightarrow> instant \<Rightarrow> ToolRun" where
  "droppedRun opened call ordinal reason now =
     (started_run opened call ordinal now)\<lparr>run_Outcome := RunFailed, run_Summary := reason, run_Error := reason\<rparr>"

definition suppressedRun :: "Investigation \<Rightarrow> toolCall \<Rightarrow> int \<Rightarrow> int \<Rightarrow> instant \<Rightarrow> ToolRun" where
  "suppressedRun opened call ordinal original now =
     (started_run opened call ordinal now)
       \<lparr>run_Outcome := RunFailed,
        run_Summary := ''not executed: identical to run '' @ FormatInt original @ '', whose result is already above'',
        run_Error := ''not executed: identical to run '' @ FormatInt original
          @ '' in this batch; use its result or request a refresh in a later turn''\<rparr>"

section \<open>Observations\<close>

text \<open>
  \<^verbatim>\<open>strings.NewReplacer\<close> with one replacement for every secret: from left to right, at each
  position the first secret of the list that matches. No secret is empty.
\<close>

function redact :: "string list \<Rightarrow> string \<Rightarrow> string" where
  "redact secrets s =
     (if s = [] then []
      else (case List.find (\<lambda>secret. secret \<noteq> [] \<and> HasPrefix s secret) secrets of
              Some secret \<Rightarrow> ''[redacted]'' @ redact secrets (drop (length secret) s)
            | None \<Rightarrow> hd s # redact secrets (tl s)))"
  by pat_completeness auto
termination
  by (relation "measure (\<lambda>(secrets, s). length s)") (auto simp: find_Some_iff)

declare redact.simps [simp del]

definition secrets_of :: "string list \<Rightarrow> string list" where
  "secrets_of opened =
     sort_key (\<lambda>secret. - int (length secret))
       (concat (map (\<lambda>c. [c, escape_text c]) (filter (\<lambda>c. c \<noteq> []) opened)))"

text \<open>Arguments without the members that name a credential, at every depth.\<close>

fun safe_argument :: "(string \<Rightarrow> string) \<Rightarrow> (string \<Rightarrow> string) \<Rightarrow> json \<Rightarrow> json" where
  "safe_argument unicode_lower replace (JObject ms) =
     JObject (as_map (map (\<lambda>(k, v). (replace k, safe_argument unicode_lower replace v))
                        (filter (\<lambda>(k, v). \<not> namesACredential unicode_lower k) ms)))"
| "safe_argument unicode_lower replace (JArray xs) = JArray (map (safe_argument unicode_lower replace) xs)"
| "safe_argument unicode_lower replace (JString s) = JString (replace s)"
| "safe_argument unicode_lower replace v = v"

definition safe_arguments ::
  "(string \<Rightarrow> string) \<Rightarrow> (string \<Rightarrow> string) \<Rightarrow> (string \<times> json) list option \<Rightarrow> (string \<times> json) list option"
where
  "safe_arguments unicode_lower replace arguments =
     (case arguments of
        None \<Rightarrow> None
      | Some ms \<Rightarrow> (case safe_argument unicode_lower replace (JObject ms) of JObject safe \<Rightarrow> Some safe | _ \<Rightarrow> None))"

definition compactArguments :: "(string \<times> json) list option \<Rightarrow> string" where
  "compactArguments arguments =
     (if of_slice arguments = [] then [CHR 0x7B, CHR 0x7D] else Marshal (JObject (of_slice arguments)))"

function valid_utf8 :: "string \<Rightarrow> string" where
  "valid_utf8 s =
     (if s = [] then []
      else if rune_width s = 0 then valid_utf8 (drop 1 s)
      else take (rune_width s) s @ valid_utf8 (drop (rune_width s) s))"
  by pat_completeness auto
termination
  by (relation "measure length") auto

declare valid_utf8.simps [simp del]

fun list_loop :: "(string \<Rightarrow> string) \<Rightarrow> json list \<Rightarrow> string \<Rightarrow> nat \<Rightarrow> string \<times> nat" where
  "list_loop replace [] rendered kept = (rendered, kept)"
| "list_loop replace (x # xs) rendered kept =
     (let txt = replace (Marshal x); punctuation = (if kept > 0 then 2 else 1) in
      if length rendered + length txt + punctuation > maxRunContentBytes then (rendered, kept)
      else list_loop replace xs (rendered @ (if kept > 0 then '','' else []) @ txt) (kept + 1))"

definition boundedList :: "(string \<Rightarrow> string) \<Rightarrow> json list \<Rightarrow> string \<times> nat" where
  "boundedList replace elements =
     (let (rendered, kept) = list_loop replace elements ''['' 0 in
      (rendered @ '']''
       @ (if kept < length elements
          then '' '' @ ellipsis @ '' ['' @ FormatInt (int kept) @ '' of '' @ FormatInt (int (length elements))
               @ '' items; the rest cut at '' @ FormatInt (int maxRunContentBytes) @ '' bytes]''
          else []), kept))"

definition content_json :: "uuid_lib \<Rightarrow> (instant \<Rightarrow> string) \<Rightarrow> run_content \<Rightarrow> json" where
  "content_json uuids nano_stamp content =
     (case content of HistoryContent page \<Rightarrow> page_json uuids nano_stamp page | ToolContent v \<Rightarrow> v)"

definition boundedJSON :: "(string \<Rightarrow> string) \<Rightarrow> json option \<Rightarrow> string \<times> bool" where
  "boundedJSON replace content =
     (case content of
        None \<Rightarrow> (''null'', False)
      | Some v \<Rightarrow>
          (let txt = replace (Marshal v);
               cut = (valid_utf8 (take maxRunContentBytes txt) @ ellipsis @ '' [cut at ''
                        @ FormatInt (int maxRunContentBytes) @ '' bytes]'', True) in
           if length txt \<le> maxRunContentBytes then (txt, False)
           else (case v of
                   JArray elements \<Rightarrow>
                     (case boundedList replace elements of
                        (rendered, kept) \<Rightarrow> if kept > 0 then (rendered, True) else cut)
                 | _ \<Rightarrow> cut)))"

text \<open>What a model sees of a run, and what is stored of it: redacted, bounded, and without its content.\<close>

definition observed_text ::
  "uuid_lib \<Rightarrow> (instant \<Rightarrow> string) \<Rightarrow> (string \<Rightarrow> string) \<Rightarrow> ToolRun \<Rightarrow> string \<times> bool"
where
  "observed_text uuids nano_stamp replace run =
     (let heading = ''[run '' @ FormatInt (run_Ordinal run) @ ''] '' @ run_Tool run @ '' ''
                    @ compactArguments (run_Arguments run) @ newline in
      if run_Outcome run = RunFailed then (heading @ ''FAILED: '' @ run_Error run @ newline, run_ModelClipped run)
      else (let (content, clipped) =
                  boundedJSON replace (map_option (content_json uuids nano_stamp) (run_Content run)) in
            (heading
             @ (if run_WindowApplied run = Some True
                then ''WINDOW: effective bounds '' @ stamp (run_WindowFrom run) @ '' to '' @ stamp (run_WindowUntil run)
                     @ newline else [])
             @ (if run_Summary run \<noteq> [] then ''SUMMARY: '' @ run_Summary run @ newline else [])
             @ (if run_Truncated run
                then ''SOURCE: this result may be incomplete; additional records are not proven.'' @ newline else [])
             @ ''CONTENT: '' @ content @ newline, clipped)))"

definition redacted_run :: "(string \<Rightarrow> string) \<Rightarrow> string list \<Rightarrow> ToolRun \<Rightarrow> ToolRun" where
  "redacted_run unicode_lower secrets run =
     (let replace = redact secrets in
      run\<lparr>run_Arguments := safe_arguments unicode_lower replace (run_Arguments run),
          run_Tool := boundedRunes (replace (run_Tool run)) 128,
          run_Purpose := boundedRunes (replace (run_Purpose run)) eventTextBound,
          run_Summary := boundedRunes (replace (run_Summary run)) 512,
          run_Error := boundedRunes (replace (run_Error run)) maxRunErrorLength,
          run_Sources := (if secrets = [] then run_Sources run else map replace (run_Sources run)),
          run_WindowApplied := Some (run_WindowApplied run = Some True)\<rparr>)"

definition prepareObservation ::
  "uuid_lib \<Rightarrow> (instant \<Rightarrow> string) \<Rightarrow> (string \<Rightarrow> string) \<Rightarrow> string list \<Rightarrow> ToolRun \<Rightarrow> ToolRun"
where
  "prepareObservation uuids nano_stamp unicode_lower opened run =
     (let secrets = secrets_of opened;
          safe = redacted_run unicode_lower secrets run;
          (txt, clipped) = observed_text uuids nano_stamp (redact secrets) safe in
      if length txt > MaxObservationBytes
      then safe\<lparr>run_Arguments := None, run_ModelClipped := True, run_Content := None,
                run_ObservationText := Some (''[run '' @ FormatInt (run_Ordinal safe) @ ''] '' @ run_Tool safe @ '' ''
                  @ [CHR 0x7B, CHR 0x7D] @ newline @ ''OBSERVATION UNAVAILABLE: prepared result exceeded ''
                  @ FormatInt (int MaxObservationBytes) @ '' bytes; arguments and content were omitted.'' @ newline)\<rparr>
      else safe\<lparr>run_ModelClipped := clipped, run_Content := None, run_ObservationText := Some txt\<rparr>)"

end
