(* ===== verification/InvestigationStore.thy ===== *)
theory InvestigationStore
  imports Investigation AuditTrail RelayFencing
begin

text \<open>
  The tables an investigation lives in and the statements on them
  (\<^verbatim>\<open>investigation.go\<close>, \<^verbatim>\<open>investigation_lease.go\<close>, \<^verbatim>\<open>investigation_event.go\<close> and
  \<^verbatim>\<open>evidence.go\<close> of \<^verbatim>\<open>internal/store/postgres\<close>, with the statement of
  \<^verbatim>\<open>alert_event.go\<close> that opens investigations for alerts). A transaction takes the row lock of its
  investigation, or updates that row, before it reads what it decides on, so it is one step on
  the tables. \<open>now\<close> is \<^verbatim>\<open>now()\<close>, the start of the transaction, and \<open>clock\<close> is
  \<^verbatim>\<open>clock_timestamp()\<close>, read after the lock is held. Identifiers made by
  \<^verbatim>\<open>uuid.New()\<close> and \<^verbatim>\<open>gen_random_uuid()\<close> are arguments.
\<close>

section \<open>Rows\<close>

record investigation_row =
  inv_id :: uuid
  inv_org :: uuid
  inv_incident :: "uuid option"
  inv_conversation :: "uuid option"
  inv_turn :: "int option"
  inv_subject :: string
  inv_window_from :: instant
  inv_window_until :: instant
  inv_status :: InvestigationStatus
  inv_conclusion :: "Conclusion option"
  inv_stopped_by :: string
  inv_error :: string
  inv_input_tokens :: int
  inv_output_tokens :: int
  inv_created_at :: instant
  inv_concluded_at :: "instant option"
  inv_lease_worker :: string
  inv_lease_token :: "uuid option"
  inv_lease_expires_at :: "instant option"
  inv_cancel_requested_at :: "instant option"
  inv_automatic :: bool

record event_row =
  ie_investigation :: uuid
  ie_org :: uuid
  ie_sequence :: int
  ie_at :: instant
  ie_type :: EventType
  ie_payload :: Detail

record tool_run_row =
  tr_investigation :: uuid
  tr_org :: uuid
  tr_integration :: "uuid option"
  tr_run :: ToolRun

record incident_row =
  inc_id :: uuid
  inc_org :: uuid
  inc_integration :: uuid
  inc_title :: string
  inc_open :: bool
  inc_first_seen :: instant
  inc_last_seen :: instant

record conversation_row =
  conv_id :: uuid
  conv_org :: uuid
  conv_incident :: "uuid option"
  conv_source :: string
  conv_subject :: string
  conv_created_by :: string
  conv_created_at :: instant
  conv_last_activity :: instant

datatype Role_of_message = RoleUser | RoleAssistant

record message_row =
  msg_conversation :: uuid
  msg_org :: uuid
  msg_sequence :: int
  msg_role :: Role_of_message
  msg_author_id :: string
  msg_author_name :: string
  msg_text :: string
  msg_provider_id :: string
  msg_source_reference :: string
  msg_investigation :: "uuid option"
  msg_created_at :: instant
  msg_window_from :: instant
  msg_window_until :: instant

record work_db =
  db_incidents :: "incident_row list"
  db_conversations :: "conversation_row list"
  db_messages :: "message_row list"
  db_investigations :: "investigation_row list"
  db_events :: "event_row list"
  db_tool_runs :: "tool_run_row list"
  db_jobs :: "relay_job list"

text \<open>The check constraints of \<^verbatim>\<open>investigation\<close>, as the migrations leave them.\<close>

definition investigation_checks :: "investigation_row \<Rightarrow> (string \<times> bool) list" where
  "investigation_checks r =
     [(''investigation_automatic_incident_has_no_conversation'',
        inv_automatic r \<longrightarrow> inv_incident r \<noteq> None \<and> inv_conversation r = None \<and> inv_turn r = None),
      (''investigation_cancellation_is_requested'',
        inv_status r = StatusCancelled \<longleftrightarrow> inv_cancel_requested_at r \<noteq> None),
      (''investigation_conclusion_is_stamped'',
        inv_status r = StatusRunning \<longleftrightarrow> inv_concluded_at r = None),
      (''investigation_failure_states_a_reason'', inv_status r = StatusFailed \<longleftrightarrow> inv_error r \<noteq> []),
      (''investigation_lease_is_whole'', inv_lease_worker r = [] \<longleftrightarrow> inv_lease_expires_at r = None),
      (''investigation_lease_token_is_whole'', inv_lease_worker r = [] \<longleftrightarrow> inv_lease_token r = None),
      (''investigation_spend_input_tokens_check'', 0 \<le> inv_input_tokens r),
      (''investigation_spend_output_tokens_check'', 0 \<le> inv_output_tokens r),
      (''investigation_stop_is_a_conclusion'', inv_stopped_by r = [] \<or> inv_status r = StatusConcluded),
      (''investigation_turn_belongs_to_a_conversation'', inv_conversation r = None \<longleftrightarrow> inv_turn r = None),
      (''investigation_turn_check'', case inv_turn r of None \<Rightarrow> True | Some n \<Rightarrow> 1 \<le> n),
      (''investigation_window_ends_after_it_starts'', inv_window_from r \<le> inv_window_until r)]"

text \<open>The unique indexes of the table, in the order PostgreSQL lists them.\<close>

definition investigation_clash :: "investigation_row \<Rightarrow> investigation_row list \<Rightarrow> string option" where
  "investigation_clash r t =
     (if inv_id r \<in> inv_id ` set t then Some ''investigation_pkey''
      else if inv_conversation r \<noteq> None
              \<and> list_ex (\<lambda>x. inv_org x = inv_org r \<and> inv_conversation x = inv_conversation r
                             \<and> inv_turn x = inv_turn r) t
      then Some ''investigation_turn_is_unique_in_its_conversation''
      else if inv_automatic r
              \<and> list_ex (\<lambda>x. inv_automatic x \<and> inv_org x = inv_org r \<and> inv_incident x = inv_incident r) t
      then Some ''investigation_one_automatic_per_incident''
      else if inv_conversation r \<noteq> None \<and> inv_status r = StatusRunning
              \<and> list_ex (\<lambda>x. inv_org x = inv_org r \<and> inv_conversation x = inv_conversation r
                             \<and> inv_status x = StatusRunning) t
      then Some ''investigation_one_running_per_conversation''
      else None)"

definition has_incident :: "uuid \<Rightarrow> uuid \<Rightarrow> work_db \<Rightarrow> bool" where
  "has_incident organization i db \<longleftrightarrow>
     list_ex (\<lambda>x. inc_id x = i \<and> inc_org x = organization) (db_incidents db)"

definition has_conversation :: "uuid \<Rightarrow> uuid \<Rightarrow> work_db \<Rightarrow> bool" where
  "has_conversation organization c db \<longleftrightarrow>
     list_ex (\<lambda>x. conv_id x = c \<and> conv_org x = organization) (db_conversations db)"

text \<open>One inserted row: its checks, then the unique indexes, then the foreign keys.\<close>

definition insert_investigation :: "investigation_row \<Rightarrow> work_db \<Rightarrow> sql_error + work_db" where
  "insert_investigation r db =
     (case violated (investigation_checks r) of
        Some name \<Rightarrow> Inl (CheckViolation name)
      | None \<Rightarrow>
          (case investigation_clash r (db_investigations db) of
             Some name \<Rightarrow> Inl (UniqueViolation name)
           | None \<Rightarrow>
               if inv_conversation r \<noteq> None \<and> \<not> has_conversation (inv_org r) (the (inv_conversation r)) db
               then Inl (ForeignKeyViolation ''investigation_conversation_is_in_the_same_org'')
               else if inv_incident r \<noteq> None \<and> \<not> has_incident (inv_org r) (the (inv_incident r)) db
               then Inl (ForeignKeyViolation ''investigation_incident_is_in_the_same_org'')
               else Inr (db\<lparr>db_investigations := db_investigations db @ [r]\<rparr>)))"

text \<open>The defaults of the columns an insert leaves out.\<close>

definition blank_investigation ::
  "instant \<Rightarrow> uuid \<Rightarrow> uuid \<Rightarrow> uuid option \<Rightarrow> string \<Rightarrow> instant \<Rightarrow> instant \<Rightarrow> investigation_row"
where
  "blank_investigation now iid organization incident subject from until =
     \<lparr>inv_id = iid, inv_org = organization, inv_incident = incident, inv_conversation = None,
      inv_turn = None, inv_subject = subject, inv_window_from = from, inv_window_until = until,
      inv_status = StatusRunning, inv_conclusion = None, inv_stopped_by = [], inv_error = [],
      inv_input_tokens = 0, inv_output_tokens = 0, inv_created_at = now, inv_concluded_at = None,
      inv_lease_worker = [], inv_lease_token = None, inv_lease_expires_at = None,
      inv_cancel_requested_at = None, inv_automatic = False\<rparr>"

definition scanInvestigation :: "investigation_row \<Rightarrow> Investigation" where
  "scanInvestigation r =
     \<lparr>i_ID = inv_id r,
      i_IncidentID = (case inv_incident r of Some i \<Rightarrow> i | None \<Rightarrow> uuid_Nil),
      i_ConversationID = (case inv_conversation r of Some c \<Rightarrow> c | None \<Rightarrow> uuid_Nil),
      i_Turn = (case inv_turn r of Some n \<Rightarrow> n | None \<Rightarrow> 0),
      i_Subject = inv_subject r, i_WindowFrom = inv_window_from r, i_WindowUntil = inv_window_until r,
      i_Status = inv_status r, i_Claimed = (inv_lease_worker r \<noteq> []), i_ClaimToken = uuid_Nil,
      i_Conclusion = (case inv_conclusion r of Some c \<Rightarrow> c | None \<Rightarrow> zero_conclusion),
      i_StoppedBy = inv_stopped_by r, i_Error = inv_error r,
      i_Usage = \<lparr>usage_InputTokens = inv_input_tokens r, usage_OutputTokens = inv_output_tokens r\<rparr>,
      i_CreatedAt = inv_created_at r, i_ConcludedAt = inv_concluded_at r\<rparr>"

section \<open>Opening\<close>

definition waiting :: "uuid \<Rightarrow> investigation_row \<Rightarrow> bool" where
  "waiting organization r \<longleftrightarrow>
     inv_org r = organization \<and> inv_status r = StatusRunning \<and> inv_lease_worker r = []"

definition reserveWaitingInvestigations ::
  "uuid \<Rightarrow> int \<Rightarrow> int \<Rightarrow> work_db \<Rightarrow> store_error + unit"
where
  "reserveWaitingInvestigations organization maximum requested db =
     (if maximum \<le> 0 then Inr ()
      else if requested > maximum - int (rows_affected (waiting organization) (db_investigations db))
      then Inl ErrInvestigationCapacity
      else Inr ())"

text \<open>\<open>renamed\<close> is what the caller makes of the capacity error.\<close>

definition reserved ::
  "store_error \<Rightarrow> uuid \<Rightarrow> int \<Rightarrow> int \<Rightarrow> work_db \<Rightarrow> (store_error + 'a) \<Rightarrow> store_error + 'a"
where
  "reserved renamed organization maximum requested db body =
     (case reserveWaitingInvestigations organization maximum requested db of
        Inl e \<Rightarrow> Inl (if e = ErrInvestigationCapacity then renamed else e)
      | Inr _ \<Rightarrow> body)"

definition create_investigation ::
  "(uuid \<Rightarrow> string) \<Rightarrow> instant \<Rightarrow> uuid \<Rightarrow> uuid \<Rightarrow> NewInvestigation \<Rightarrow> int \<Rightarrow> work_db
     \<Rightarrow> store_error + Investigation \<times> Target \<times> Detail \<times> work_db"
where
  "create_investigation uuid_string now iid organization wanted maxPending db =
     reserved ErrQueueFull organization maxPending 1 db
       (let r = blank_investigation now iid organization (nullableUUID (new_IncidentID wanted))
                  (new_Subject wanted) (new_WindowFrom wanted) (new_WindowUntil wanted) in
        case insert_investigation r db of
          Inl (ForeignKeyViolation name) \<Rightarrow> Inl ErrIncidentUnknown
        | Inl e \<Rightarrow> Inl (ErrSql e)
        | Inr db' \<Rightarrow>
            Inr (scanInvestigation r, \<lparr>target_Kind = ''investigation'', target_ID = uuid_string iid\<rparr>,
                 [(''subject'', DString (inv_subject r))], db'))"

definition CreateInvestigation ::
  "(string \<Rightarrow> string) \<Rightarrow> (uuid \<Rightarrow> string) \<Rightarrow> instant \<Rightarrow> uuid \<Rightarrow> instant \<Rightarrow> uuid \<Rightarrow> Principal \<Rightarrow> uuid
     \<Rightarrow> NewInvestigation \<Rightarrow> int \<Rightarrow> work_db \<times> audit_row list
     \<Rightarrow> store_error + Investigation \<times> work_db \<times> audit_row list"
where
  "CreateInvestigation unicode_lower uuid_string clock eventID now iid who organization wanted maxPending =
     audited unicode_lower uuid_string clock eventID who organization ''investigation.opened''
       (create_investigation uuid_string now iid organization wanted maxPending)"

text \<open>
  Investigations for a batch of alerted incidents. The statement inserts one row per incident of
  the organization it finds; \<open>fresh\<close> gives the identifier of each. The lead is cut to whole
  microseconds.
\<close>

record AlertAdmissionPolicy =
  policy_AgentAvailable :: bool
  policy_WindowLead :: duration
  policy_MaximumPending :: int

definition whole_microseconds :: "duration \<Rightarrow> duration" where
  "whole_microseconds d = (if d < 0 then - ((- d) div 1000) else d div 1000) * 1000"

definition automatic_row :: "instant \<Rightarrow> (uuid \<Rightarrow> uuid) \<Rightarrow> duration \<Rightarrow> incident_row \<Rightarrow> investigation_row" where
  "automatic_row now fresh lead x =
     (blank_investigation now (fresh (inc_id x)) (inc_org x) (Some (inc_id x)) (inc_title x)
        (inc_first_seen x - whole_microseconds lead) (inc_last_seen x))\<lparr>inv_automatic := True\<rparr>"

fun insert_investigations :: "investigation_row list \<Rightarrow> work_db \<Rightarrow> sql_error + work_db" where
  "insert_investigations [] db = Inr db"
| "insert_investigations (r # rs) db =
     (case insert_investigation r db of Inl e \<Rightarrow> Inl e | Inr db' \<Rightarrow> insert_investigations rs db')"

definition openAlertInvestigations ::
  "instant \<Rightarrow> (uuid \<Rightarrow> uuid) \<Rightarrow> uuid \<Rightarrow> uuid list \<Rightarrow> AlertAdmissionPolicy \<Rightarrow> work_db \<Rightarrow> store_error + work_db"
where
  "openAlertInvestigations now fresh organization incidents policy db =
     (if incidents = [] \<or> \<not> policy_AgentAvailable policy then Inr db
      else if policy_MaximumPending policy > 0 \<and> int (length incidents) > policy_MaximumPending policy
      then Inl ErrAlertBatchTooLarge
      else reserved ErrAlertCapacity organization (policy_MaximumPending policy) (int (length incidents)) db
        (case insert_investigations
                (map (automatic_row now fresh (policy_WindowLead policy))
                   (filter (\<lambda>x. inc_org x = organization \<and> inc_id x \<in> set incidents) (db_incidents db))) db of
           Inl e \<Rightarrow> Inl (ErrSql e)
         | Inr db' \<Rightarrow> Inr db'))"

section \<open>Leases\<close>

text \<open>The oldest waiting investigation no other transaction has locked.\<close>

definition claim_choice :: "(uuid \<Rightarrow> bool) \<Rightarrow> investigation_row list \<Rightarrow> investigation_row option" where
  "claim_choice locked t =
     (case sort_key (\<lambda>r. (inv_created_at r, inv_id r))
             (filter (\<lambda>r. inv_status r = StatusRunning \<and> inv_lease_worker r = [] \<and> \<not> locked (inv_id r)) t) of
        [] \<Rightarrow> None
      | r # _ \<Rightarrow> Some r)"

definition leased :: "instant \<Rightarrow> uuid \<Rightarrow> InvestigationClaim \<Rightarrow> investigation_row \<Rightarrow> investigation_row" where
  "leased now token claim r =
     r\<lparr>inv_lease_worker := claim_Worker claim, inv_lease_token := Some token,
       inv_lease_expires_at := Some (now + claim_InvestigationLease claim)\<rparr>"

definition ClaimInvestigation ::
  "instant \<Rightarrow> (uuid \<Rightarrow> bool) \<Rightarrow> uuid \<Rightarrow> InvestigationClaim \<Rightarrow> work_db
     \<Rightarrow> store_error + (uuid \<times> Investigation) option \<times> work_db"
where
  "ClaimInvestigation now locked token claim db =
     (case claim_choice locked (db_investigations db) of
        None \<Rightarrow> Inr (None, db)
      | Some r \<Rightarrow>
          (case checked_update investigation_checks (\<lambda>x. inv_id x = inv_id r) (leased now token claim)
                  (db_investigations db) of
             Inl e \<Rightarrow> Inl (ErrSql e)
           | Inr t \<Rightarrow>
               Inr (Some (inv_org r, (scanInvestigation (leased now token claim r))\<lparr>i_ClaimToken := token\<rparr>),
                    db\<lparr>db_investigations := t\<rparr>)))"

definition has_investigation :: "uuid \<Rightarrow> uuid \<Rightarrow> work_db \<Rightarrow> bool" where
  "has_investigation organization iid db \<longleftrightarrow>
     list_ex (\<lambda>r. inv_org r = organization \<and> inv_id r = iid) (db_investigations db)"

definition lockInvestigation :: "uuid \<Rightarrow> uuid \<Rightarrow> work_db \<Rightarrow> store_error + unit" where
  "lockInvestigation organization iid db =
     (if has_investigation organization iid db then Inr () else Inl ErrInvestigationUnknown)"

text \<open>The condition of every write a worker makes: the row is running under this token, unexpired.\<close>

definition held :: "instant \<Rightarrow> uuid \<Rightarrow> uuid \<Rightarrow> uuid \<Rightarrow> investigation_row \<Rightarrow> bool" where
  "held clock organization iid token r \<longleftrightarrow>
     inv_id r = iid \<and> inv_org r = organization \<and> inv_status r = StatusRunning
     \<and> inv_lease_token r = Some token
     \<and> (case inv_lease_expires_at r of Some e \<Rightarrow> clock < e | None \<Rightarrow> False)"

definition renewable :: "instant \<Rightarrow> uuid \<Rightarrow> uuid \<Rightarrow> InvestigationClaim \<Rightarrow> investigation_row \<Rightarrow> bool" where
  "renewable clock organization iid claim r \<longleftrightarrow>
     held clock organization iid (claim_Token claim) r \<and> inv_lease_worker r = claim_Worker claim"

definition renewed :: "instant \<Rightarrow> InvestigationClaim \<Rightarrow> investigation_row \<Rightarrow> investigation_row" where
  "renewed clock claim r = r\<lparr>inv_lease_expires_at := Some (clock + claim_InvestigationLease claim)\<rparr>"

definition Heartbeat ::
  "instant \<Rightarrow> uuid \<Rightarrow> uuid \<Rightarrow> InvestigationClaim \<Rightarrow> work_db \<Rightarrow> store_error + bool \<times> work_db"
where
  "Heartbeat clock organization iid claim db =
     in_organization organization
       (case lockInvestigation organization iid db of
          Inl e \<Rightarrow> Inr (False, db)
        | Inr _ \<Rightarrow>
            (let p = renewable clock organization iid claim in
             case checked_update investigation_checks p (renewed clock claim) (db_investigations db) of
               Inl e \<Rightarrow> Inl (ErrSql e)
             | Inr t \<Rightarrow> Inr (rows_affected p (db_investigations db) = 1, db\<lparr>db_investigations := t\<rparr>)))"

section \<open>Events\<close>

definition next_event_sequence :: "(event_row \<Rightarrow> bool) \<Rightarrow> event_row list \<Rightarrow> int" where
  "next_event_sequence p t =
     (case map ie_sequence (filter p t) of [] \<Rightarrow> 1 | n # ns \<Rightarrow> Max (set (n # ns)) + 1)"

text \<open>The constraints of \<^verbatim>\<open>investigation_event\<close>. Every statement that inserts an event has just read
  or updated its investigation, so the foreign key holds.\<close>

definition insert_event :: "event_row \<Rightarrow> work_db \<Rightarrow> sql_error + work_db" where
  "insert_event e db =
     (if (case ie_type e of EventOther n \<Rightarrow> True | _ \<Rightarrow> False)
      then Inl (CheckViolation ''investigation_event_type_check'')
      else if (ie_investigation e, ie_sequence e) \<in> (\<lambda>x. (ie_investigation x, ie_sequence x)) ` set (db_events db)
      then Inl (UniqueViolation ''investigation_event_pkey'')
      else Inr (db\<lparr>db_events := db_events db @ [e]\<rparr>))"

definition append_event ::
  "instant \<Rightarrow> uuid \<Rightarrow> uuid \<Rightarrow> EventType \<Rightarrow> Detail \<Rightarrow> work_db \<Rightarrow> sql_error + work_db"
where
  "append_event at organization iid type payload db =
     insert_event
       \<lparr>ie_investigation = iid, ie_org = organization,
        ie_sequence = next_event_sequence (\<lambda>e. ie_investigation e = iid \<and> ie_org e = organization) (db_events db),
        ie_at = at, ie_type = type, ie_payload = payload\<rparr> db"

definition AppendEvent ::
  "instant \<Rightarrow> uuid \<Rightarrow> uuid \<Rightarrow> uuid \<Rightarrow> InvestigationEvent \<Rightarrow> work_db \<Rightarrow> store_error + work_db"
where
  "AppendEvent clock organization iid token event db =
     in_organization organization
       (case lockInvestigation organization iid db of
          Inl e \<Rightarrow> Inl e
        | Inr _ \<Rightarrow>
            if \<not> list_ex (held clock organization iid token) (db_investigations db) then Inl ErrAlreadyEnded
            else (case append_event (e_At event) organization iid (e_Type event) (e_Payload event) db of
                    Inl e \<Rightarrow> Inl (ErrSql e)
                  | Inr db' \<Rightarrow> Inr db'))"

abbreviation maxEventPage :: int where
  "maxEventPage \<equiv> 500"

definition shown_event :: "event_row \<Rightarrow> bool" where
  "shown_event e \<longleftrightarrow> (case ie_type e of EventOther n \<Rightarrow> n \<notin> {5, 8, 10} | _ \<Rightarrow> True)"

definition Events :: "uuid \<Rightarrow> uuid \<Rightarrow> int \<Rightarrow> int \<Rightarrow> work_db \<Rightarrow> store_error + InvestigationEvent list" where
  "Events organization iid after limit db =
     in_organization organization
       (let limit = (if limit \<le> 0 \<or> limit > maxEventPage then maxEventPage else limit) in
        Inr (map (\<lambda>e. \<lparr>e_Sequence = ie_sequence e, e_At = ie_at e, e_Type = ie_type e, e_Payload = ie_payload e\<rparr>)
               (take (nat limit)
                  (sort_key ie_sequence
                     (filter (\<lambda>e. ie_org e = organization \<and> ie_investigation e = iid \<and> ie_sequence e > after
                                  \<and> shown_event e) (db_events db))))))"

section \<open>Recovery\<close>

definition lapsed :: "instant \<Rightarrow> investigation_row \<Rightarrow> bool" where
  "lapsed now r \<longleftrightarrow>
     inv_status r = StatusRunning \<and> inv_lease_worker r \<noteq> []
     \<and> (case inv_lease_expires_at r of Some e \<Rightarrow> e \<le> now | None \<Rightarrow> False)"

text \<open>The first \<open>limit\<close> unlocked lapsed rows by expiry. Rows that expire together come in the order
  of the table, which stands for PostgreSQL's choice.\<close>

definition lapsed_selection ::
  "instant \<Rightarrow> (uuid \<Rightarrow> bool) \<Rightarrow> int \<Rightarrow> investigation_row list \<Rightarrow> investigation_row list"
where
  "lapsed_selection now locked limit t =
     take (nat limit)
       (sort_key (\<lambda>r. the (inv_lease_expires_at r))
          (filter (\<lambda>r. lapsed now r \<and> \<not> locked (inv_id r)) t))"

definition recovered :: "instant \<Rightarrow> string \<Rightarrow> investigation_row \<Rightarrow> investigation_row" where
  "recovered now reason r =
     r\<lparr>inv_status := StatusFailed, inv_error := reason, inv_concluded_at := Some now,
       inv_lease_worker := [], inv_lease_token := None, inv_lease_expires_at := None\<rparr>"

fun end_streams ::
  "instant \<Rightarrow> string \<Rightarrow> investigation_row list \<Rightarrow> work_db \<Rightarrow> sql_error + work_db"
where
  "end_streams now reason [] db = Inr db"
| "end_streams now reason (r # rs) db =
     (case insert_event
             \<lparr>ie_investigation = inv_id r, ie_org = inv_org r,
              ie_sequence = next_event_sequence (\<lambda>e. ie_investigation e = inv_id r) (db_events db),
              ie_at = now, ie_type = EventFailed, ie_payload = payload_fields (FailedPayload reason)\<rparr> db of
        Inl e \<Rightarrow> Inl e
      | Inr db' \<Rightarrow> end_streams now reason rs db')"

definition recoverStaleIn ::
  "instant \<Rightarrow> (uuid \<Rightarrow> bool) \<Rightarrow> string \<Rightarrow> int \<Rightarrow> work_db \<Rightarrow> store_error + nat \<times> work_db"
where
  "recoverStaleIn now locked reason limit db =
     (if limit \<le> 0 then Inr (0, db)
      else (let chosen = inv_id ` set (lapsed_selection now locked limit (db_investigations db));
                p = (\<lambda>r. inv_id r \<in> chosen) in
            case checked_update investigation_checks p (recovered now reason) (db_investigations db) of
              Inl e \<Rightarrow> Inl (ErrSql e)
            | Inr t \<Rightarrow>
                (let swept = filter p (db_investigations db) in
                 case end_streams now reason swept (db\<lparr>db_investigations := t\<rparr>) of
                   Inl e \<Rightarrow> Inl (ErrSql e)
                 | Inr db' \<Rightarrow> Inr (length swept, db'))))"

definition RecoverStale ::
  "instant \<Rightarrow> (uuid \<Rightarrow> bool) \<Rightarrow> string \<Rightarrow> int \<Rightarrow> work_db \<Rightarrow> store_error + nat \<times> work_db"
where
  "RecoverStale now locked reason limit db =
     recoverStaleIn now locked reason (if limit \<le> 0 then 1 else limit) db"

section \<open>Tool runs\<close>

definition tool_run_checks :: "ToolRun \<Rightarrow> (string \<times> bool) list" where
  "tool_run_checks run =
     [(''investigation_tool_run_failure_states_a_reason'', run_Outcome run = RunFailed \<longleftrightarrow> run_Error run \<noteq> []),
      (''investigation_tool_run_observation_bound'',
        case run_ObservationText run of None \<Rightarrow> True | Some txt \<Rightarrow> length txt \<le> 65536),
      (''investigation_tool_run_ordinal_check'', 1 \<le> run_Ordinal run),
      (''investigation_tool_run_outcome_check'', run_Outcome run = RunSucceeded \<or> run_Outcome run = RunFailed)]"

text \<open>The ordinal and the outcome are 16-bit columns; \<open>run_Content\<close> and the names of the
  integration are not stored, and an absent argument map is stored as an empty one.\<close>

abbreviation in_int16 :: "int \<Rightarrow> bool" where
  "in_int16 n \<equiv> - 32768 \<le> n \<and> n \<le> 32767"

definition stored_run :: "ToolRun \<Rightarrow> ToolRun" where
  "stored_run run =
     run\<lparr>run_Arguments := Some (of_slice (run_Arguments run)), run_Content := None, run_IntegrationName := [],
         run_IntegrationType := []\<rparr>"

definition insert_tool_run ::
  "integration list \<Rightarrow> uuid \<Rightarrow> uuid \<Rightarrow> ToolRun \<Rightarrow> work_db \<Rightarrow> sql_error + work_db"
where
  "insert_tool_run ints organization iid run db =
     (case violated (tool_run_checks run) of
        Some name \<Rightarrow> Inl (CheckViolation name)
      | None \<Rightarrow>
          if list_ex (\<lambda>x. tr_investigation x = iid \<and> run_Ordinal (tr_run x) = run_Ordinal run) (db_tool_runs db)
          then Inl (UniqueViolation ''investigation_tool_run_pkey'')
          else if run_IntegrationID run \<noteq> uuid_Nil
                  \<and> \<not> list_ex (\<lambda>i. int_id i = run_IntegrationID run \<and> int_org i = organization) ints
          then Inl (ForeignKeyViolation ''investigation_tool_run_names_an_org_integration'')
          else Inr (db\<lparr>db_tool_runs := db_tool_runs db
                         @ [\<lparr>tr_investigation = iid, tr_org = organization,
                              tr_integration = nullableUUID (run_IntegrationID run), tr_run = stored_run run\<rparr>]\<rparr>))"

definition RecordToolRun ::
  "instant \<Rightarrow> integration list \<Rightarrow> uuid \<Rightarrow> uuid \<Rightarrow> uuid \<Rightarrow> ToolRun \<Rightarrow> work_db \<Rightarrow> store_error + work_db"
where
  "RecordToolRun clock ints organization iid token run db =
     (if (case run_ObservationText run of None \<Rightarrow> False | Some txt \<Rightarrow> length txt > MaxObservationBytes)
      then Inl ErrObservationTooLarge
      else in_organization organization
        (case lockInvestigation organization iid db of
           Inl e \<Rightarrow> Inl e
         | Inr _ \<Rightarrow>
             if \<not> in_int16 (run_Ordinal run) then Inl (ErrSql NumericOutOfRange)
             else if \<not> list_ex (held clock organization iid token) (db_investigations db) then Inl ErrAlreadyEnded
             else (case insert_tool_run ints organization iid run db of
                     Inl e \<Rightarrow> Inl (ErrSql e)
                   | Inr db' \<Rightarrow> Inr db')))"

section \<open>Ending\<close>

definition ended ::
  "instant \<Rightarrow> InvestigationStatus \<Rightarrow> Conclusion option \<Rightarrow> string \<Rightarrow> string \<Rightarrow> Usage
     \<Rightarrow> investigation_row \<Rightarrow> investigation_row"
where
  "ended now status conclusion stoppedBy reason usage r =
     r\<lparr>inv_status := status, inv_conclusion := conclusion, inv_stopped_by := stoppedBy, inv_error := reason,
       inv_input_tokens := usage_InputTokens usage, inv_output_tokens := usage_OutputTokens usage,
       inv_concluded_at := Some now, inv_lease_worker := [], inv_lease_token := None,
       inv_lease_expires_at := None\<rparr>"

definition next_message_sequence :: "uuid \<Rightarrow> uuid \<Rightarrow> message_row list \<Rightarrow> int" where
  "next_message_sequence organization c t =
     (case map msg_sequence (filter (\<lambda>m. msg_org m = organization \<and> msg_conversation m = c) t) of
        [] \<Rightarrow> 1
      | n # ns \<Rightarrow> Max (set (n # ns)) + 1)"

definition insert_message :: "message_row \<Rightarrow> work_db \<Rightarrow> sql_error + work_db" where
  "insert_message m db =
     (if \<not> msg_window_from m < msg_window_until m then Inl (CheckViolation ''conversation_message_window_is_whole'')
      else if (msg_org m, msg_conversation m, msg_sequence m)
                \<in> (\<lambda>x. (msg_org x, msg_conversation x, msg_sequence x)) ` set (db_messages db)
      then Inl (UniqueViolation ''conversation_message_pkey'')
      else Inr (db\<lparr>db_messages := db_messages db @ [m]\<rparr>))"

definition touch_conversation :: "instant \<Rightarrow> uuid \<Rightarrow> uuid \<Rightarrow> work_db \<Rightarrow> work_db" where
  "touch_conversation now organization c db =
     db\<lparr>db_conversations :=
       update_where (\<lambda>x. conv_id x = c \<and> conv_org x = organization) (conv_last_activity_update (\<lambda>_. now))
         (db_conversations db)\<rparr>"

definition assistant_message ::
  "instant \<Rightarrow> uuid \<Rightarrow> uuid \<Rightarrow> string \<Rightarrow> investigation_row \<Rightarrow> work_db \<Rightarrow> message_row"
where
  "assistant_message now organization c reply r db =
     \<lparr>msg_conversation = c, msg_org = organization,
      msg_sequence = next_message_sequence organization c (db_messages db), msg_role = RoleAssistant,
      msg_author_id = [], msg_author_name = [], msg_text = reply, msg_provider_id = [],
      msg_source_reference = [], msg_investigation = Some (inv_id r), msg_created_at = now,
      msg_window_from = inv_window_from r, msg_window_until = inv_window_until r\<rparr>"

definition reply_in_conversation ::
  "instant \<Rightarrow> uuid \<Rightarrow> string \<Rightarrow> investigation_row \<Rightarrow> work_db \<Rightarrow> sql_error + work_db"
where
  "reply_in_conversation now organization reply r db =
     (case inv_conversation r of
        None \<Rightarrow> Inr db
      | Some c \<Rightarrow>
          if reply = [] then Inr db
          else (case insert_message (assistant_message now organization c reply r db) db of
                  Inl e \<Rightarrow> Inl e
                | Inr db' \<Rightarrow> Inr (touch_conversation now organization c db')))"

definition endInvestigation ::
  "instant \<Rightarrow> instant \<Rightarrow> uuid \<Rightarrow> uuid \<Rightarrow> uuid \<Rightarrow> InvestigationStatus \<Rightarrow> Conclusion option \<Rightarrow> string
     \<Rightarrow> string \<Rightarrow> string \<Rightarrow> Usage \<Rightarrow> EventPayload \<Rightarrow> work_db \<Rightarrow> store_error + work_db"
where
  "endInvestigation now clock organization iid token status conclusion stoppedBy reason reply usage payload db =
     in_organization organization
       (case List.find (\<lambda>r. inv_id r = iid \<and> inv_org r = organization) (db_investigations db) of
          None \<Rightarrow> Inl ErrInvestigationUnknown
        | Some r \<Rightarrow>
            if inv_conversation r \<noteq> None \<and> \<not> has_conversation organization (the (inv_conversation r)) db
            then Inl ErrConversationUnknown
            else (let p = held clock organization iid token in
              case checked_update investigation_checks p (ended now status conclusion stoppedBy reason usage)
                     (db_investigations db) of
                Inl e \<Rightarrow> Inl (ErrSql e)
              | Inr t \<Rightarrow>
                  if rows_affected p (db_investigations db) = 0 then Inl ErrInvestigationUnknown
                  else (case append_event now organization iid (payload_EventType payload) (payload_fields payload)
                               (db\<lparr>db_investigations := t\<rparr>) of
                          Inl e \<Rightarrow> Inl (ErrSql e)
                        | Inr db1 \<Rightarrow>
                            (case reply_in_conversation now organization reply r db1 of
                               Inl e \<Rightarrow> Inl (ErrSql e)
                             | Inr db2 \<Rightarrow> Inr db2))))"

definition ConcludeInvestigation ::
  "instant \<Rightarrow> instant \<Rightarrow> uuid \<Rightarrow> uuid \<Rightarrow> uuid \<Rightarrow> Conclusion \<Rightarrow> string \<Rightarrow> Usage \<Rightarrow> work_db
     \<Rightarrow> store_error + work_db"
where
  "ConcludeInvestigation now clock organization iid token conclusion stoppedBy usage =
     endInvestigation now clock organization iid token StatusConcluded (Some conclusion) stoppedBy []
       (boundedRunes (conclusion_Summary conclusion) MaxMessageTextLength) usage (ConcludedPayload conclusion)"

definition FailInvestigation ::
  "instant \<Rightarrow> instant \<Rightarrow> uuid \<Rightarrow> uuid \<Rightarrow> uuid \<Rightarrow> string \<Rightarrow> Usage \<Rightarrow> work_db \<Rightarrow> store_error + work_db"
where
  "FailInvestigation now clock organization iid token reason usage =
     endInvestigation now clock organization iid token StatusFailed None [] reason [] usage (FailedPayload reason)"

section \<open>Cancelling\<close>

definition running_row :: "uuid \<Rightarrow> uuid \<Rightarrow> investigation_row \<Rightarrow> bool" where
  "running_row organization iid r \<longleftrightarrow>
     inv_id r = iid \<and> inv_org r = organization \<and> inv_status r = StatusRunning"

definition cancelled :: "instant \<Rightarrow> investigation_row \<Rightarrow> investigation_row" where
  "cancelled now r =
     r\<lparr>inv_status := StatusCancelled, inv_concluded_at := Some now, inv_cancel_requested_at := Some now,
       inv_lease_worker := [], inv_lease_token := None, inv_lease_expires_at := None\<rparr>"

definition cancel_investigation ::
  "(uuid \<Rightarrow> string) \<Rightarrow> instant \<Rightarrow> uuid \<Rightarrow> uuid \<Rightarrow> work_db
     \<Rightarrow> store_error + Investigation \<times> Target \<times> Detail \<times> work_db"
where
  "cancel_investigation uuid_string now organization iid db =
     (let p = running_row organization iid in
      case checked_update investigation_checks p (cancelled now) (db_investigations db) of
        Inl e \<Rightarrow> Inl (ErrSql e)
      | Inr t \<Rightarrow>
          (case filter p (db_investigations db) of
             [] \<Rightarrow> Inl (if has_investigation organization iid db then ErrAlreadyEnded else ErrInvestigationUnknown)
           | r # _ \<Rightarrow>
               (case append_event now organization iid EventCancelled (payload_fields CancelledPayload)
                       (db\<lparr>db_investigations := t,
                           db_jobs := cancelInvestigationJobs now organization iid (db_jobs db)\<rparr>) of
                  Inl e \<Rightarrow> Inl (ErrSql e)
                | Inr db' \<Rightarrow>
                    Inr (scanInvestigation (cancelled now r),
                         \<lparr>target_Kind = ''investigation'', target_ID = uuid_string iid\<rparr>,
                         [(''subject'', DString (inv_subject r))], db'))))"

definition CancelInvestigation ::
  "(string \<Rightarrow> string) \<Rightarrow> (uuid \<Rightarrow> string) \<Rightarrow> instant \<Rightarrow> uuid \<Rightarrow> instant \<Rightarrow> Principal \<Rightarrow> uuid \<Rightarrow> uuid
     \<Rightarrow> work_db \<times> audit_row list \<Rightarrow> store_error + Investigation \<times> work_db \<times> audit_row list"
where
  "CancelInvestigation unicode_lower uuid_string clock eventID now who organization iid =
     audited unicode_lower uuid_string clock eventID who organization ''investigation.cancelled''
       (cancel_investigation uuid_string now organization iid)"

section \<open>Reading\<close>

definition evidence_missing :: "uuid \<Rightarrow> EvidenceRef list \<Rightarrow> work_db \<Rightarrow> bool" where
  "evidence_missing organization refs db \<longleftrightarrow>
     list_ex (\<lambda>ref. \<not> list_ex (\<lambda>x. tr_org x = organization \<and> tr_investigation x = ref_InvestigationID ref
                                  \<and> run_Ordinal (tr_run x) = ref_ToolRunOrdinal ref
                                  \<and> run_Outcome (tr_run x) = RunSucceeded) (db_tool_runs db)) refs"

definition EvidenceMissing :: "uuid \<Rightarrow> EvidenceRef list \<Rightarrow> work_db \<Rightarrow> store_error + bool" where
  "EvidenceMissing organization refs db = in_organization organization (Inr (evidence_missing organization refs db))"

definition ReadInvestigation :: "uuid \<Rightarrow> uuid \<Rightarrow> work_db \<Rightarrow> store_error + Investigation" where
  "ReadInvestigation organization iid db =
     in_organization organization
       (case List.find (\<lambda>r. inv_id r = iid \<and> inv_org r = organization) (db_investigations db) of
          None \<Rightarrow> Inl ErrInvestigationUnknown
        | Some r \<Rightarrow>
            (let found = scanInvestigation r in
             Inr (if evidence_missing organization (resultEvidence found) db
                  then found\<lparr>i_Conclusion := MarkMissingEvidence (i_Conclusion found)\<rparr> else found)))"

definition scanToolRun :: "bool \<Rightarrow> tool_run_row \<Rightarrow> ToolRun" where
  "scanToolRun observation x =
     (if observation then tr_run x else (tr_run x)\<lparr>run_ObservationText := None\<rparr>)
       \<lparr>run_IntegrationID := (case tr_integration x of Some i \<Rightarrow> i | None \<Rightarrow> uuid_Nil)\<rparr>"

definition InvestigationToolRuns :: "uuid \<Rightarrow> uuid \<Rightarrow> work_db \<Rightarrow> store_error + ToolRun list" where
  "InvestigationToolRuns organization iid db =
     in_organization organization
       (Inr (map (scanToolRun False)
               (sort_key (\<lambda>x. run_Ordinal (tr_run x))
                  (filter (\<lambda>x. tr_investigation x = iid \<and> tr_org x = organization) (db_tool_runs db)))))"

record InvestigationQuery =
  query_Page :: Page
  query_IncidentID :: uuid

definition listed :: "uuid \<Rightarrow> uuid \<Rightarrow> investigation_row \<Rightarrow> bool" where
  "listed organization incident r \<longleftrightarrow>
     inv_org r = organization \<and> (incident = uuid_Nil \<or> inv_incident r = Some incident)"

definition QueryInvestigations ::
  "uuid_lib \<Rightarrow> Principal \<Rightarrow> uuid \<Rightarrow> InvestigationQuery \<Rightarrow> work_db
     \<Rightarrow> store_error + Investigation list \<times> string"
where
  "QueryInvestigations lib who organization query db =
     (if Organization who \<noteq> organization then Inl ErrNotAMember
      else in_organization organization
        (case decodeCursor lib (page_After (query_Page query)) ''-createdAt'' of
           Inl e \<Rightarrow> Inl ErrBadCursor
         | Inr cursor \<Rightarrow>
             (let limit = pageLimit (page_Limit (query_Page query));
                  (found, next) =
                    collect_page limit []
                      (keyset_rows (\<lambda>r. (inv_created_at r, inv_id r)) (listed organization (query_IncidentID query))
                         cursor limit (db_investigations db)) in
              Inr (map scanInvestigation found,
                   case next of None \<Rightarrow> [] | Some r \<Rightarrow> encodeCursor lib ''-createdAt'' (inv_created_at r) (inv_id r)))))"

end
