(* ===== verification/ConversationStore.thy ===== *)
theory ConversationStore
  imports InvestigationStore
begin

text \<open>
  Conversations: their windows (\<^verbatim>\<open>internal/conversation/window.go\<close>), their messages, and the
  turns opened for what is queued in them (\<^verbatim>\<open>internal/store/postgres/conversation.go\<close>), with the
  messages that arrive from Slack (\<^verbatim>\<open>appendSlackMessage\<close> of
  \<^verbatim>\<open>slack_conversation.go\<close>). Every transaction that counts queued messages or waiting
  investigations holds the organization's advisory lock, and every one that reads a
  conversation's queue to decide on it holds the conversation's row lock.
\<close>

section \<open>Windows\<close>

record Window =
  window_From :: instant
  window_Until :: instant

text \<open>\<^verbatim>\<open>Truncate\<close> rounds down; the first instant of year 1 is a whole number of
  microseconds before the epoch.\<close>

definition truncate_microsecond :: "instant \<Rightarrow> instant" where
  "truncate_microsecond i = i - i mod 1000"

abbreviation year_one :: instant where
  "year_one \<equiv> - 62135596800000000000"

definition Normalized :: "Window \<Rightarrow> Window" where
  "Normalized w =
     \<lparr>window_From = truncate_microsecond (window_From w), window_Until = truncate_microsecond (window_Until w)\<rparr>"

definition Valid :: "Window \<Rightarrow> instant \<Rightarrow> bool" where
  "Valid w now \<longleftrightarrow> year_one \<le> window_From w \<and> window_From w < window_Until w \<and> window_Until w \<le> now"

abbreviation Hour :: duration where
  "Hour \<equiv> 3600000000000"

abbreviation MinimumQuestionWindow :: duration where
  "MinimumQuestionWindow \<equiv> 24 * Hour"

abbreviation DefaultIncidentWindowLead :: duration where
  "DefaultIncidentWindowLead \<equiv> 2 * Hour"

definition QuestionWindow :: "duration \<Rightarrow> duration" where
  "QuestionWindow lead = (if lead > MinimumQuestionWindow then lead else MinimumQuestionWindow)"

section \<open>Opening and reading conversations\<close>

record Conversation =
  c_ID :: uuid
  c_IncidentID :: uuid
  c_Source :: string
  c_Subject :: string
  c_CreatedBy :: string
  c_CreatedAt :: instant
  c_LastActivityAt :: instant

record NewConversation =
  newconv_IncidentID :: uuid
  newconv_Source :: string
  newconv_Subject :: string
  newconv_CreatedBy :: string

definition scanConversation :: "conversation_row \<Rightarrow> Conversation" where
  "scanConversation x =
     \<lparr>c_ID = conv_id x, c_IncidentID = (case conv_incident x of Some i \<Rightarrow> i | None \<Rightarrow> uuid_Nil),
      c_Source = conv_source x, c_Subject = conv_subject x, c_CreatedBy = conv_created_by x,
      c_CreatedAt = conv_created_at x, c_LastActivityAt = conv_last_activity x\<rparr>"

definition insert_conversation :: "conversation_row \<Rightarrow> work_db \<Rightarrow> sql_error + work_db" where
  "insert_conversation x db =
     (if conv_source x \<notin> {''web'', ''slack''} then Inl (CheckViolation ''conversation_source_check'')
      else if conv_id x \<in> conv_id ` set (db_conversations db) then Inl (UniqueViolation ''conversation_pkey'')
      else if conv_incident x \<noteq> None \<and> \<not> has_incident (conv_org x) (the (conv_incident x)) db
      then Inl (ForeignKeyViolation ''conversation_incident_is_in_the_same_org'')
      else Inr (db\<lparr>db_conversations := db_conversations db @ [x]\<rparr>))"

definition open_conversation ::
  "(uuid \<Rightarrow> string) \<Rightarrow> instant \<Rightarrow> uuid \<Rightarrow> uuid \<Rightarrow> NewConversation \<Rightarrow> work_db
     \<Rightarrow> store_error + Conversation \<times> Target \<times> Detail \<times> work_db"
where
  "open_conversation uuid_string now cid organization wanted db =
     (let x = \<lparr>conv_id = cid, conv_org = organization, conv_incident = nullableUUID (newconv_IncidentID wanted),
               conv_source = newconv_Source wanted, conv_subject = newconv_Subject wanted,
               conv_created_by = newconv_CreatedBy wanted, conv_created_at = now, conv_last_activity = now\<rparr> in
      case insert_conversation x db of
        Inl (ForeignKeyViolation name) \<Rightarrow> Inl ErrIncidentUnknown
      | Inl e \<Rightarrow> Inl (ErrSql e)
      | Inr db' \<Rightarrow>
          Inr (scanConversation x, \<lparr>target_Kind = ''conversation'', target_ID = uuid_string cid\<rparr>,
               [(''subject'', DString (conv_subject x))], db'))"

definition OpenConversation ::
  "(string \<Rightarrow> string) \<Rightarrow> (uuid \<Rightarrow> string) \<Rightarrow> instant \<Rightarrow> uuid \<Rightarrow> instant \<Rightarrow> uuid \<Rightarrow> Principal \<Rightarrow> uuid
     \<Rightarrow> NewConversation \<Rightarrow> work_db \<times> audit_row list
     \<Rightarrow> store_error + Conversation \<times> work_db \<times> audit_row list"
where
  "OpenConversation unicode_lower uuid_string clock eventID now cid who organization wanted =
     audited unicode_lower uuid_string clock eventID who organization ''conversation.opened''
       (open_conversation uuid_string now cid organization wanted)"

definition conversationByID :: "uuid \<Rightarrow> uuid \<Rightarrow> work_db \<Rightarrow> store_error + Conversation" where
  "conversationByID organization c db =
     in_organization organization
       (case List.find (\<lambda>x. conv_id x = c \<and> conv_org x = organization) (db_conversations db) of
          None \<Rightarrow> Inl ErrConversationUnknown
        | Some x \<Rightarrow> Inr (scanConversation x))"

text \<open>The newest messages of a conversation, oldest first.\<close>

definition conversationMessages :: "uuid \<Rightarrow> uuid \<Rightarrow> int \<Rightarrow> work_db \<Rightarrow> message_row list" where
  "conversationMessages organization c limit db =
     (let limit = (if limit \<le> 0 then 50 else limit) in
      rev (take (nat limit)
             (rev (sort_key msg_sequence
                (filter (\<lambda>m. msg_org m = organization \<and> msg_conversation m = c) (db_messages db))))))"

definition lockConversation :: "uuid \<Rightarrow> uuid \<Rightarrow> work_db \<Rightarrow> store_error + unit" where
  "lockConversation organization c db =
     (if has_conversation organization c db then Inr () else Inl ErrConversationUnknown)"

section \<open>Messages\<close>

record NewMessage =
  said_Window :: "Window option"
  said_Role :: Role_of_message
  said_AuthorID :: string
  said_AuthorName :: string
  said_Text :: string

definition queued :: "uuid \<Rightarrow> message_row \<Rightarrow> bool" where
  "queued organization m \<longleftrightarrow> msg_org m = organization \<and> msg_investigation m = None \<and> msg_role m = RoleUser"

definition queued_in :: "uuid \<Rightarrow> uuid \<Rightarrow> message_row \<Rightarrow> bool" where
  "queued_in organization c m \<longleftrightarrow> queued organization m \<and> msg_conversation m = c"

abbreviation maxQueuedMessages :: nat where
  "maxQueuedMessages \<equiv> 100"

definition reserveQueuedMessage :: "uuid \<Rightarrow> work_db \<Rightarrow> store_error + unit" where
  "reserveQueuedMessage organization db =
     (if rows_affected (queued organization) (db_messages db) \<ge> maxQueuedMessages then Inl ErrQueueFull else Inr ())"

text \<open>A conversation's queue in the order of its messages.\<close>

definition queue_of :: "uuid \<Rightarrow> uuid \<Rightarrow> work_db \<Rightarrow> message_row list" where
  "queue_of organization c db = sort_key msg_sequence (filter (queued_in organization c) (db_messages db))"

text \<open>\<open>go_now\<close> is \<^verbatim>\<open>time.Now()\<close> in the process, read here and again, as \<open>go_later\<close>, where the
  window is checked.\<close>

definition turnWindow :: "instant \<Rightarrow> uuid \<Rightarrow> uuid option \<Rightarrow> duration \<Rightarrow> work_db \<Rightarrow> Window" where
  "turnWindow go_now organization incident lead db =
     (case incident of
        None \<Rightarrow> \<lparr>window_From = go_now - QuestionWindow lead, window_Until = go_now\<rparr>
      | Some i \<Rightarrow>
          (case List.find (\<lambda>x. inc_id x = i \<and> inc_org x = organization) (db_incidents db) of
             None \<Rightarrow> \<lparr>window_From = go_now - lead, window_Until = go_now\<rparr>
           | Some x \<Rightarrow>
               \<lparr>window_From = inc_first_seen x - lead,
                window_Until = (if inc_open x then go_now else inc_last_seen x)\<rparr>))"

definition acceptedWindow ::
  "instant \<Rightarrow> instant \<Rightarrow> uuid \<Rightarrow> uuid \<Rightarrow> Window option \<Rightarrow> duration \<Rightarrow> work_db \<Rightarrow> store_error + Window"
where
  "acceptedWindow go_now go_later organization c asked lead db =
     (let asked = map_option Normalized asked in
      if (case asked of None \<Rightarrow> False | Some w \<Rightarrow> \<not> Valid w go_later) then Inl ErrInvalidWindow
      else (case queue_of organization c db of
              m # _ \<Rightarrow>
                (let w = \<lparr>window_From = msg_window_from m, window_Until = msg_window_until m\<rparr> in
                 if asked \<noteq> None \<and> asked \<noteq> Some w then Inl ErrWindowConflict else Inr w)
            | [] \<Rightarrow>
                (case asked of
                   Some w \<Rightarrow> Inr w
                 | None \<Rightarrow>
                     (case List.find (\<lambda>x. conv_id x = c \<and> conv_org x = organization) (db_conversations db) of
                        None \<Rightarrow> Inl ErrDatabase
                      | Some x \<Rightarrow>
                          (let w = Normalized (turnWindow go_now organization (conv_incident x) lead db) in
                           if Valid w go_later then Inr w else Inl ErrInvalidWindow)))))"

definition said_message :: "instant \<Rightarrow> uuid \<Rightarrow> uuid \<Rightarrow> NewMessage \<Rightarrow> string \<Rightarrow> Window \<Rightarrow> work_db \<Rightarrow> message_row" where
  "said_message now organization c said provider w db =
     \<lparr>msg_conversation = c, msg_org = organization,
      msg_sequence = next_message_sequence organization c (db_messages db), msg_role = said_Role said,
      msg_author_id = said_AuthorID said, msg_author_name = said_AuthorName said, msg_text = said_Text said,
      msg_provider_id = provider, msg_source_reference = [], msg_investigation = None, msg_created_at = now,
      msg_window_from = window_From w, msg_window_until = window_Until w\<rparr>"

text \<open>The part the two ways of saying something have in common: lock, window, insert, stamp.\<close>

definition put_message ::
  "instant \<Rightarrow> instant \<Rightarrow> instant \<Rightarrow> uuid \<Rightarrow> uuid \<Rightarrow> NewMessage \<Rightarrow> string \<Rightarrow> duration \<Rightarrow> work_db
     \<Rightarrow> store_error + message_row \<times> work_db"
where
  "put_message now go_now go_later organization c said provider lead db =
     (case lockConversation organization c db of
        Inl e \<Rightarrow> Inl e
      | Inr _ \<Rightarrow>
          (case acceptedWindow go_now go_later organization c (said_Window said) lead db of
             Inl e \<Rightarrow> Inl e
           | Inr w \<Rightarrow>
               (let m = said_message now organization c said provider w db in
                case insert_message m db of
                  Inl e \<Rightarrow> Inl (ErrSql e)
                | Inr db' \<Rightarrow> Inr (m, touch_conversation now organization c db'))))"

definition appendMessage ::
  "instant \<Rightarrow> instant \<Rightarrow> instant \<Rightarrow> uuid \<Rightarrow> uuid \<Rightarrow> NewMessage \<Rightarrow> duration \<Rightarrow> work_db
     \<Rightarrow> store_error + message_row \<times> work_db"
where
  "appendMessage now go_now go_later organization c said lead db =
     (if said_Role said = RoleUser \<and> reserveQueuedMessage organization db \<noteq> Inr () then Inl ErrQueueFull
      else put_message now go_now go_later organization c said [] lead db)"

record SlackMessage =
  slack_Integration :: uuid
  slack_ContentDigest :: bytes
  slack_Channel :: string
  slack_Thread :: string
  slack_MessageID :: string
  slack_Subject :: string
  slack_AuthorID :: string
  slack_AuthorName :: string
  slack_Text :: string

definition appendSlackMessage ::
  "instant \<Rightarrow> instant \<Rightarrow> instant \<Rightarrow> uuid \<Rightarrow> uuid \<Rightarrow> SlackMessage \<Rightarrow> work_db \<Rightarrow> store_error + message_row \<times> work_db"
where
  "appendSlackMessage now go_now go_later organization c said db =
     put_message now go_now go_later organization c
       \<lparr>said_Window = None, said_Role = RoleUser, said_AuthorID = slack_AuthorID said,
        said_AuthorName = slack_AuthorName said, said_Text = slack_Text said\<rparr>
       (slack_MessageID said) DefaultIncidentWindowLead db"

section \<open>Turns\<close>

record Turn =
  turn_InvestigationID :: uuid
  turn_Ordinal :: int
  turn_Status :: string
  turn_CreatedAt :: instant

text \<open>The sequence of the last message of the batch, 0 when nothing is queued.\<close>

definition queuedBatch :: "uuid \<Rightarrow> uuid \<Rightarrow> work_db \<Rightarrow> int" where
  "queuedBatch organization c db =
     (case rev (take maxQueuedMessages (queue_of organization c db)) of [] \<Rightarrow> 0 | m # _ \<Rightarrow> msg_sequence m)"

definition next_turn :: "uuid \<Rightarrow> uuid \<Rightarrow> investigation_row list \<Rightarrow> int" where
  "next_turn organization c t =
     (case concat (map (\<lambda>r. case inv_turn r of None \<Rightarrow> [] | Some n \<Rightarrow> [n])
                     (filter (\<lambda>r. inv_org r = organization \<and> inv_conversation r = Some c) t)) of
        [] \<Rightarrow> 1
      | n # ns \<Rightarrow> Max (set (n # ns)) + 1)"

definition turn_running :: "uuid \<Rightarrow> uuid \<Rightarrow> work_db \<Rightarrow> bool" where
  "turn_running organization c db \<longleftrightarrow>
     list_ex (\<lambda>r. inv_org r = organization \<and> inv_conversation r = Some c \<and> inv_status r = StatusRunning)
       (db_investigations db)"

definition turn_row ::
  "instant \<Rightarrow> uuid \<Rightarrow> uuid \<Rightarrow> conversation_row \<Rightarrow> message_row \<Rightarrow> work_db \<Rightarrow> investigation_row"
where
  "turn_row now iid organization x m db =
     (blank_investigation now iid organization (conv_incident x) (conv_subject x) (msg_window_from m) (msg_window_until m))
       \<lparr>inv_conversation := Some (conv_id x),
        inv_turn := Some (next_turn organization (conv_id x) (db_investigations db))\<rparr>"

definition attach_queued :: "uuid \<Rightarrow> uuid \<Rightarrow> uuid \<Rightarrow> int \<Rightarrow> work_db \<Rightarrow> work_db" where
  "attach_queued iid organization c lastSequence db =
     db\<lparr>db_messages :=
       update_where (\<lambda>m. queued_in organization c m \<and> msg_sequence m \<le> lastSequence)
         (msg_investigation_update (\<lambda>_. Some iid)) (db_messages db)\<rparr>"

text \<open>Nothing is opened (\<open>None\<close>) while a turn runs or when nothing is queued. The turn number is a
  16-bit column.\<close>

definition openTurn ::
  "instant \<Rightarrow> uuid \<Rightarrow> uuid \<Rightarrow> uuid \<Rightarrow> work_db \<Rightarrow> store_error + Turn option \<times> work_db"
where
  "openTurn now iid organization c db =
     (case List.find (\<lambda>x. conv_id x = c \<and> conv_org x = organization) (db_conversations db) of
        None \<Rightarrow> Inl ErrConversationUnknown
      | Some x \<Rightarrow>
          if turn_running organization c db then Inr (None, db)
          else if queuedBatch organization c db = 0 then Inr (None, db)
          else (case queue_of organization c db of
                  [] \<Rightarrow> Inl ErrDatabase
                | m # _ \<Rightarrow>
                    (let r = turn_row now iid organization x m db in
                     if next_turn organization c (db_investigations db) > 32767 then Inl (ErrSql NumericOutOfRange)
                     else (case insert_investigation r db of
                             Inl e \<Rightarrow> Inl (ErrSql e)
                           | Inr db' \<Rightarrow>
                               Inr (Some \<lparr>turn_InvestigationID = iid,
                                          turn_Ordinal = next_turn organization c (db_investigations db),
                                          turn_Status = PublicStatus StatusRunning False, turn_CreatedAt = now\<rparr>,
                                    attach_queued iid organization c (queuedBatch organization c db) db')))))"

definition validateAuthenticatedAppend :: "uuid \<Rightarrow> uuid \<Rightarrow> work_db \<Rightarrow> store_error + unit" where
  "validateAuthenticatedAppend organization c db =
     (case List.find (\<lambda>x. conv_id x = c \<and> conv_org x = organization) (db_conversations db) of
        None \<Rightarrow> Inl ErrConversationUnknown
      | Some x \<Rightarrow> if conv_source x \<noteq> ''web'' then Inl ErrSourceMismatch else Inr ())"

definition append_and_open ::
  "(uuid \<Rightarrow> string) \<Rightarrow> instant \<Rightarrow> instant \<Rightarrow> instant \<Rightarrow> uuid \<Rightarrow> uuid \<Rightarrow> uuid \<Rightarrow> NewMessage \<Rightarrow> duration \<Rightarrow> int \<Rightarrow> work_db
     \<Rightarrow> store_error + (message_row \<times> Turn option) \<times> Target \<times> Detail \<times> work_db"
where
  "append_and_open uuid_string now go_now go_later iid organization c said lead maxPending db =
     (case validateAuthenticatedAppend organization c db of
        Inl e \<Rightarrow> Inl e
      | Inr _ \<Rightarrow>
          reserved ErrQueueFull organization maxPending 1 db
            (case appendMessage now go_now go_later organization c said lead db of
               Inl e \<Rightarrow> Inl e
             | Inr (m, db1) \<Rightarrow>
                 (case openTurn now iid organization c db1 of
                    Inl e \<Rightarrow> Inl e
                  | Inr (turn, db2) \<Rightarrow>
                      Inr ((m, turn), \<lparr>target_Kind = ''conversation'', target_ID = uuid_string c\<rparr>,
                           [(''sequence'', DInt (msg_sequence m))], db2))))"

definition AppendMessageAndOpenTurn ::
  "(string \<Rightarrow> string) \<Rightarrow> (uuid \<Rightarrow> string) \<Rightarrow> instant \<Rightarrow> uuid \<Rightarrow> instant \<Rightarrow> instant \<Rightarrow> instant \<Rightarrow> uuid \<Rightarrow> Principal \<Rightarrow> uuid
     \<Rightarrow> uuid \<Rightarrow> NewMessage \<Rightarrow> duration \<Rightarrow> int \<Rightarrow> work_db \<times> audit_row list
     \<Rightarrow> store_error + (message_row \<times> Turn option) \<times> work_db \<times> audit_row list"
where
  "AppendMessageAndOpenTurn unicode_lower uuid_string clock eventID now go_now go_later iid who organization c said
       lead maxPending =
     audited unicode_lower uuid_string clock eventID who organization ''conversation.message-sent''
       (append_and_open uuid_string now go_now go_later iid organization c said lead maxPending)"

definition OpenNextConversationTurn ::
  "instant \<Rightarrow> uuid \<Rightarrow> uuid \<Rightarrow> uuid \<Rightarrow> int \<Rightarrow> work_db \<Rightarrow> store_error + bool \<times> work_db"
where
  "OpenNextConversationTurn now iid organization c maxPending db =
     in_organization organization
       (reserved ErrQueueFull organization maxPending 1 db
          (case openTurn now iid organization c db of
             Inl e \<Rightarrow> Inl e
           | Inr (turn, db') \<Rightarrow> Inr (turn \<noteq> None, db')))"

text \<open>The conversation whose queued message has waited longest, among those without a running turn
  whose organization has room.\<close>

definition admissible :: "int \<Rightarrow> work_db \<Rightarrow> conversation_row \<Rightarrow> bool" where
  "admissible maxPending db x \<longleftrightarrow>
     \<not> turn_running (conv_org x) (conv_id x) db
     \<and> (maxPending \<le> 0
        \<or> int (rows_affected (waiting (conv_org x)) (db_investigations db)) < maxPending)"

definition queued_pairs :: "work_db \<Rightarrow> (message_row \<times> conversation_row) list" where
  "queued_pairs db =
     concat (map (\<lambda>x. map (\<lambda>m. (m, x)) (filter (queued_in (conv_org x) (conv_id x)) (db_messages db)))
       (db_conversations db))"

definition OpenQueuedConversationTurn ::
  "instant \<Rightarrow> uuid \<Rightarrow> int \<Rightarrow> work_db \<Rightarrow> store_error + bool \<times> work_db"
where
  "OpenQueuedConversationTurn now iid maxPending db =
     (case sort_key (\<lambda>(m, x). (msg_created_at m, conv_id x))
             (filter (\<lambda>(m, x). admissible maxPending db x) (queued_pairs db)) of
        [] \<Rightarrow> Inr (False, db)
      | (m, x) # _ \<Rightarrow>
          (case reserveWaitingInvestigations (conv_org x) maxPending 1 db of
             Inl e \<Rightarrow> if e = ErrInvestigationCapacity then Inr (False, db) else Inl e
           | Inr _ \<Rightarrow>
               (case openTurn now iid (conv_org x) (conv_id x) db of
                  Inl e \<Rightarrow> Inl e
                | Inr (turn, db') \<Rightarrow> Inr (turn \<noteq> None, db'))))"

end
