(* ===== verification/ConversationContext.thy ===== *)
theory ConversationContext
  imports ConversationStore
begin

text \<open>
  What a turn is told about its conversation
  (\<^verbatim>\<open>internal/store/postgres/conversation_context.go\<close>): the messages it answers, the prior exchange
  page by page, and the brief drawn from earlier conclusions.
\<close>

section \<open>Messages\<close>

record AssignedMessage =
  am_Sequence :: int
  am_Author :: string
  am_CreatedAt :: instant
  am_Text :: string

definition InvestigationMessages ::
  "uuid \<Rightarrow> uuid \<Rightarrow> uuid \<Rightarrow> work_db \<Rightarrow> store_error + AssignedMessage list"
where
  "InvestigationMessages organization c iid db =
     in_organization organization
       (if \<not> list_ex (\<lambda>r. inv_org r = organization \<and> inv_conversation r = Some c \<and> inv_id r = iid) (db_investigations db)
        then Inl ErrInvestigationUnknown
        else (let rows = take (maxQueuedMessages + 1)
                    (sort_key msg_sequence
                       (filter (\<lambda>m. msg_org m = organization \<and> msg_conversation m = c \<and> msg_investigation m = Some iid
                                    \<and> msg_role m = RoleUser) (db_messages db))) in
              if length rows > maxQueuedMessages then Inl ErrDatabase
              else Inr (map (\<lambda>m. \<lparr>am_Sequence = msg_sequence m, am_Author = msg_author_name m,
                                  am_CreatedAt = msg_created_at m, am_Text = msg_text m\<rparr>) rows)))"

abbreviation BriefMessageBound :: nat where
  "BriefMessageBound \<equiv> 1024"

abbreviation BriefRecentMessages :: nat where
  "BriefRecentMessages \<equiv> 12"

abbreviation BriefMaxFindings :: nat where
  "BriefMaxFindings \<equiv> 40"

definition briefExchangeText :: "string \<Rightarrow> string" where
  "briefExchangeText txt =
     (if RuneCountInString txt \<le> BriefMessageBound then txt
      else boundedRunes txt (BriefMessageBound - length '' [truncated]'') @ '' [truncated]'')"

text \<open>The turn a message belongs to.\<close>

definition owner_of :: "message_row \<Rightarrow> investigation_row list \<Rightarrow> investigation_row option" where
  "owner_of m t =
     List.find (\<lambda>r. inv_org r = msg_org m \<and> inv_conversation r = Some (msg_conversation m)
                    \<and> msg_investigation m = Some (inv_id r)) t"

definition stored_conclusion :: "investigation_row \<Rightarrow> Conclusion" where
  "stored_conclusion r = (case inv_conclusion r of Some c \<Rightarrow> c | None \<Rightarrow> zero_conclusion)"

definition prior_message :: "bool \<Rightarrow> message_row \<times> investigation_row \<Rightarrow> BriefMessage" where
  "prior_message includeConclusions = (\<lambda>(m, owner).
     \<lparr>bm_Answer = (if includeConclusions \<and> msg_role m = RoleAssistant \<and> inv_status owner = StatusConcluded
                   then Some (stored_conclusion owner) else None),
      bm_FromUser = (msg_role m = RoleUser), bm_Author = msg_author_name m,
      bm_Text = briefExchangeText (msg_text m), bm_Sequence = msg_sequence m,
      bm_CreatedAt = Some (msg_created_at m), bm_InvestigationID = inv_id owner\<rparr>)"

definition readPriorMessages ::
  "uuid \<Rightarrow> uuid \<Rightarrow> uuid \<Rightarrow> int \<Rightarrow> nat \<Rightarrow> bool \<Rightarrow> work_db \<Rightarrow> store_error + HistoryPage"
where
  "readPriorMessages organization c iid beforeSequence limit includeConclusions db =
     (case List.find (\<lambda>r. inv_org r = organization \<and> inv_conversation r = Some c \<and> inv_id r = iid)
             (db_investigations db) of
        None \<Rightarrow> Inl ErrInvestigationUnknown
      | Some current \<Rightarrow>
          (case inv_turn current of
             None \<Rightarrow> Inl ErrDatabase
           | Some currentTurn \<Rightarrow>
               (let said = concat (map (\<lambda>m. case owner_of m (db_investigations db) of
                                              None \<Rightarrow> [] | Some owner \<Rightarrow> [(m, owner)])
                                    (filter (\<lambda>m. msg_org m = organization \<and> msg_conversation m = c) (db_messages db)));
                    earlier = filter (\<lambda>(m, owner). (case inv_turn owner of Some n \<Rightarrow> n < currentTurn | None \<Rightarrow> False)
                                       \<and> (beforeSequence = 0 \<or> msg_sequence m < beforeSequence)) said;
                    newest = take (limit + 1) (sort_key (\<lambda>(m, owner). - msg_sequence m) earlier);
                    shown = map (prior_message includeConclusions) (take limit newest) in
                Inr \<lparr>page_NextBefore = (if length newest > limit then bm_Sequence (last shown) else 0),
                     page_MissingEvidence = False, page_Limitations = [], page_Exchange = rev shown,
                     page_Truncated = False\<rparr>)))"

definition ConversationHistory ::
  "uuid \<Rightarrow> uuid \<Rightarrow> uuid \<Rightarrow> int \<Rightarrow> work_db \<Rightarrow> store_error + HistoryPage"
where
  "ConversationHistory organization c iid beforeSequence db =
     in_organization organization
       (readPriorMessages organization c iid beforeSequence BriefRecentMessages True db)"

section \<open>The brief\<close>

text \<open>
  The conclusions a turn may build on: earlier turns of its conversation, and what was concluded
  about its incident before it was created.
\<close>

definition prior_turn :: "uuid \<Rightarrow> investigation_row \<Rightarrow> investigation_row \<Rightarrow> bool" where
  "prior_turn c current r \<longleftrightarrow>
     inv_org r = inv_org current \<and> inv_status r = StatusConcluded \<and> inv_id r \<noteq> inv_id current
     \<and> (case inv_concluded_at r of Some i \<Rightarrow> i < inv_created_at current | None \<Rightarrow> False)
     \<and> (inv_conversation r \<noteq> Some c
        \<or> (case (inv_turn r, inv_turn current) of (Some n, Some m) \<Rightarrow> n < m | _ \<Rightarrow> False))
     \<and> (inv_conversation r = Some c \<or> inv_incident r \<noteq> None \<and> inv_incident r = inv_incident current)"

text \<open>
  \<^verbatim>\<open>ORDER BY turn.conversation_id = $2 DESC, turn.turn DESC, turn.created_at DESC\<close>. In
  descending order PostgreSQL puts an unknown value first: an investigation without a
  conversation comes before the turns of the conversation itself.
\<close>

definition prior_rank :: "uuid \<Rightarrow> investigation_row \<Rightarrow> int \<times> int \<times> int" where
  "prior_rank c r =
     ((case inv_conversation r of None \<Rightarrow> 0 | Some d \<Rightarrow> if d = c then 1 else 2),
      (case inv_turn r of None \<Rightarrow> - int64_max | Some n \<Rightarrow> - n), - inv_created_at r)"

definition prior_findings :: "uuid \<Rightarrow> investigation_row \<Rightarrow> Finding list \<Rightarrow> PriorFinding list" where
  "prior_findings c r findings =
     map (\<lambda>f. \<lparr>pf_InvestigationID = inv_id r,
               pf_Turn = (if inv_conversation r = Some c then (case inv_turn r of Some n \<Rightarrow> n | None \<Rightarrow> 0) else 0),
               pf_Statement = finding_Statement f, pf_Kind = finding_Kind f, pf_Runs = finding_RunRefs f,
               pf_EvidenceRefs = finding_EvidenceRefs f, pf_ObservedAt = inv_concluded_at r,
               pf_WindowFrom = Some (inv_window_from r), pf_WindowUntil = Some (inv_window_until r)\<rparr>) findings"

definition room_for :: "nat \<Rightarrow> 'a list \<Rightarrow> 'a list \<Rightarrow> 'a list" where
  "room_for limit kept news = kept @ take (limit - length kept) news"

definition add_prior_turn :: "uuid \<Rightarrow> investigation_row \<Rightarrow> Brief \<Rightarrow> Brief" where
  "add_prior_turn c r brief =
     (let decoded = stored_conclusion r;
          own = (inv_conversation r = Some c \<and> inv_turn r \<noteq> Some 0);
          limitations = map (\<lambda>l. boundedRunes (limitation_Statement l) BriefMessageBound)
                          (filter (\<lambda>l. limitation_Statement l \<noteq> []) (conclusion_Limitations decoded));
          hypotheses = map (\<lambda>h. boundedRunes (hypothesis_Statement h) BriefMessageBound)
                         (filter (\<lambda>h. hypothesis_Status h = ''unresolved'' \<and> hypothesis_Statement h \<noteq> [])
                            (conclusion_Hypotheses decoded));
          told = (if own then brief\<lparr>brief_Limitations := room_for 12 (brief_Limitations brief) limitations,
                                    brief_OpenHypotheses := room_for 12 (brief_OpenHypotheses brief) hypotheses\<rparr>
                  else brief);
          remaining = BriefMaxFindings - length (brief_Findings brief);
          findings = conclusion_Findings decoded in
      told\<lparr>brief_Findings :=
             prior_findings c r (drop (length findings - remaining) findings) @ brief_Findings told\<rparr>)"

definition readPriorTurns :: "uuid \<Rightarrow> uuid \<Rightarrow> uuid \<Rightarrow> work_db \<Rightarrow> Brief \<Rightarrow> Brief" where
  "readPriorTurns organization c iid db brief =
     (case List.find (\<lambda>r. inv_org r = organization \<and> inv_conversation r = Some c \<and> inv_id r = iid)
             (db_investigations db) of
        None \<Rightarrow> brief
      | Some current \<Rightarrow>
          fold (add_prior_turn c)
            (take BriefMaxFindings (sort_key (prior_rank c) (filter (prior_turn c current) (db_investigations db))))
            brief)"

definition ConversationBrief ::
  "uuid \<Rightarrow> uuid \<Rightarrow> uuid \<Rightarrow> int \<Rightarrow> work_db \<Rightarrow> store_error + Brief"
where
  "ConversationBrief organization c iid recentMessageLimit db =
     in_organization organization
       (let limit = (if recentMessageLimit \<le> 0 \<or> recentMessageLimit > int BriefRecentMessages
                     then BriefRecentMessages else nat recentMessageLimit) in
        case readPriorMessages organization c iid 0 limit False db of
          Inl e \<Rightarrow> Inl e
        | Inr page \<Rightarrow>
            (let brief = readPriorTurns organization c iid db
                   \<lparr>brief_HistoryBefore = (if page_Exchange page = [] then 0
                                           else bm_Sequence (last (page_Exchange page)) + 1),
                    brief_NextBefore = page_NextBefore page, brief_MissingEvidence = False, brief_Turn = 0,
                    brief_Recent = page_Exchange page, brief_Findings = [], brief_OpenHypotheses = [],
                    brief_Limitations = []\<rparr>;
                 missing = evidence_missing organization (concat (map References (brief_Findings brief))) db in
             Inr (if missing
                  then brief\<lparr>brief_MissingEvidence := True,
                             brief_Limitations := brief_Limitations brief @ [MissingEvidenceStatement]\<rparr>
                  else brief)))"

end
