(* ===== verification/Agent.thy ===== *)
theory Agent
  imports AgentTools ConversationContext
begin

text \<open>
  The investigation agent (\<^verbatim>\<open>internal/investigation/agent/run.go\<close>): one run of one claimed
  investigation, from the first read to the terminal write. The run shares its tables with every
  other worker, so each of its calls to the store first lets the others act. Effects that leave
  the process (the provider's completions, the tools, the sealed credentials) are answers of the
  environment at a moment, and the world keeps what was asked of them.
\<close>

section \<open>The environment of a run\<close>

text \<open>
  \<open>err_ContextWindow\<close> is \<^verbatim>\<open>errors.Is(err, ErrContextWindow)\<close>, and \<open>err_Stopped\<close> that the error is a
  cancelled or expired context.
\<close>

record model_error =
  err_Text :: string
  err_ContextWindow :: bool
  err_Stopped :: bool

text \<open>
  Functions of a moment say what it held: the clocks of the database and of the process, whether
  the run's context is done, what the other transactions did since the agent last looked
  (\<open>ag_others\<close>), how a call to the database fared, and the reads of tables that are not part of
  \<open>work_db\<close>. \<open>ag_texts\<close> are the safety policy and the task instructions.
\<close>

record agent_env =
  ag_uuids :: uuid_lib
  ag_json :: json_lib
  ag_lower :: "string \<Rightarrow> string"
  ag_nano :: "instant \<Rightarrow> string"
  ag_texts :: "string \<times> string"
  ag_config :: ModelConfig
  ag_catalog :: "Definition list"
  ag_MaxToolRuns :: int
  ag_MaxTurns :: int
  ag_now :: "nat \<Rightarrow> instant"
  ag_clock :: "nat \<Rightarrow> instant"
  ag_time :: "nat \<Rightarrow> instant"
  ag_done :: "nat \<Rightarrow> bool"
  ag_deadline :: "instant option"
  ag_others :: "nat \<Rightarrow> work_db \<Rightarrow> work_db"
  ag_fate :: "nat \<Rightarrow> db_fate"
  ag_ints :: "nat \<Rightarrow> integration list"
  ag_eventID :: "nat \<Rightarrow> uuid"
  ag_complete :: "nat \<Rightarrow> Prompt \<Rightarrow> Completion \<times> model_error option"
  ag_unseal :: "bytes \<Rightarrow> uuid \<Rightarrow> string + string"
  ag_storeText :: "store_error \<Rightarrow> string"
  ag_origin :: "nat \<Rightarrow> store_error + ConversationOrigin option"
  ag_candidates :: "nat \<Rightarrow> store_error + Integration list"
  ag_trigger :: "nat \<Rightarrow> store_error + Trigger"
  ag_inventory :: "nat \<Rightarrow> store_error + string list"

text \<open>\<open>w_prompts\<close> and \<open>w_reads\<close> are the prompts sent and the tools run.\<close>

record agent_world =
  w_tick :: nat
  w_db :: work_db
  w_trail :: "audit_row list"
  w_prompts :: "Prompt list"
  w_reads :: "(Tool \<times> ToolRequest) list"

definition store_call ::
  "agent_env \<Rightarrow> (instant \<Rightarrow> instant \<Rightarrow> work_db \<Rightarrow> store_error + 'a \<times> work_db) \<Rightarrow> agent_world
     \<Rightarrow> (store_error + 'a) \<times> agent_world"
where
  "store_call env f w =
     (let k = w_tick w; db = ag_others env k (w_db w); w1 = w\<lparr>w_tick := k + 1, w_db := db\<rparr> in
      if ag_fate env k = Lost then (Inl ErrDatabase, w1)
      else (case f (ag_now env k) (ag_clock env k) db of
              Inl e \<Rightarrow> (Inl e, w1)
            | Inr (v, db') \<Rightarrow>
                (if ag_fate env k = Unreported then Inl ErrDatabase else Inr v, w1\<lparr>w_db := db'\<rparr>)))"

definition reading :: "(work_db \<Rightarrow> store_error + 'a) \<Rightarrow> instant \<Rightarrow> instant \<Rightarrow> work_db \<Rightarrow> store_error + 'a \<times> work_db" where
  "reading f now clock db = (case f db of Inl e \<Rightarrow> Inl e | Inr v \<Rightarrow> Inr (v, db))"

definition writing ::
  "(instant \<Rightarrow> instant \<Rightarrow> work_db \<Rightarrow> store_error + work_db) \<Rightarrow> instant \<Rightarrow> instant \<Rightarrow> work_db
     \<Rightarrow> store_error + unit \<times> work_db"
where
  "writing f now clock db = (case f now clock db of Inl e \<Rightarrow> Inl e | Inr db' \<Rightarrow> Inr ((), db'))"

section \<open>State\<close>

record credential_cache =
  cc_opened :: "(uuid \<times> string) list"
  cc_failed :: "(uuid \<times> (string \<times> bool)) list"

record run_frame =
  rf_org :: uuid
  rf_opened :: Investigation
  rf_offered :: "offeredSource list"
  rf_origin :: "ConversationOrigin option"
  rf_maxRuns :: int
  rf_maxTurns :: int

record run_state =
  rs_runs :: "ToolRun list"
  rs_identities :: "string list"
  rs_executed :: int
  rs_usage :: Usage
  rs_transcript :: "ModelTurn list"
  rs_history :: int
  rs_missing :: bool
  rs_prior :: "EvidenceRef list"
  rs_orientation :: orientation
  rs_stopped :: string
  rs_events :: event_stream
  rs_credentials :: credential_cache

record toolFeedback =
  fb_CallID :: string
  fb_ToolRun :: ToolRun
  fb_Semantic :: bool

datatype agent_error =
    ProviderError model_error
  | ProvenanceError
  | NoConclusionError
  | ContextError
  | CredentialAuditError string

definition firstLine :: "string \<Rightarrow> string" where
  "firstLine txt = takeWhile (\<lambda>c. c \<noteq> CHR 0x0A) txt"

definition reasonerFailure :: "bool \<Rightarrow> string \<Rightarrow> string" where
  "reasonerFailure stopped txt =
     (if stopped then ''the investigation was stopped before the reasoner answered''
      else ''the reasoning step could not run: '' @ firstLine txt)"

fun failureReason :: "agent_error \<Rightarrow> string" where
  "failureReason ProvenanceError = ''a tool run could not be recorded''"
| "failureReason NoConclusionError = ''the reasoner did not conclude when required to''"
| "failureReason ContextError = reasonerFailure True []"
| "failureReason (ProviderError e) = reasonerFailure (err_Stopped e) (err_Text e)"
| "failureReason (CredentialAuditError txt) = reasonerFailure False (''credential access could not be audited: '' @ txt)"

text \<open>\<^verbatim>\<open>Failed(outcome, provider, model, detail)\<close>, by its text.\<close>

definition Failed :: "agent_env \<Rightarrow> string \<Rightarrow> string \<Rightarrow> string \<Rightarrow> agent_error" where
  "Failed env outcome model detail =
     ProviderError
       \<lparr>err_Text = outcome @ '': '' @ mc_Provider (ag_config env) @ ''/'' @ model
          @ (if detail = [] then [] else '': '' @ detail),
        err_ContextWindow = False, err_Stopped = False\<rparr>"

section \<open>Terminal writes and announcements\<close>

definition fail_run ::
  "agent_env \<Rightarrow> uuid \<Rightarrow> Investigation \<Rightarrow> string \<Rightarrow> Usage \<Rightarrow> agent_world \<Rightarrow> store_error option \<times> agent_world"
where
  "fail_run env organization opened reason usage w =
     (case store_call env
             (writing (\<lambda>now clock. FailInvestigation now clock organization (i_ID opened) (i_ClaimToken opened)
                                     (boundedRunes reason maxRunErrorLength) usage)) w of
        (Inl e, w') \<Rightarrow> (Some e, w')
      | (Inr _, w') \<Rightarrow> (None, w'))"

definition conclude_run ::
  "agent_env \<Rightarrow> run_frame \<Rightarrow> Conclusion \<Rightarrow> run_state \<Rightarrow> agent_world \<Rightarrow> store_error option \<times> agent_world"
where
  "conclude_run env f conclusion st w =
     (case store_call env
             (writing (\<lambda>now clock. ConcludeInvestigation now clock (rf_org f) (i_ID (rf_opened f))
                                     (i_ClaimToken (rf_opened f)) conclusion (rs_stopped st) (rs_usage st))) w of
        (Inl e, w') \<Rightarrow> (Some e, w')
      | (Inr _, w') \<Rightarrow> (None, w'))"

text \<open>An event that cannot be written is logged and otherwise ignored.\<close>

definition append_own_event ::
  "agent_env \<Rightarrow> uuid \<Rightarrow> Investigation \<Rightarrow> InvestigationEvent \<Rightarrow> agent_world \<Rightarrow> store_error option \<times> agent_world"
where
  "append_own_event env organization opened event w =
     (case store_call env
             (writing (\<lambda>now clock. AppendEvent clock organization (i_ID opened) (i_ClaimToken opened) event)) w of
        (Inl e, w') \<Rightarrow> (Some e, w')
      | (Inr _, w') \<Rightarrow> (None, w'))"

definition announce ::
  "agent_env \<Rightarrow> uuid \<Rightarrow> Investigation \<Rightarrow> EventPayload \<Rightarrow> event_stream \<times> agent_world \<Rightarrow> event_stream \<times> agent_world"
where
  "announce env organization opened payload = (\<lambda>(events, w).
     snd (Emit (ag_lower env) (ag_time env (w_tick w)) (append_own_event env organization opened) payload (events, w)))"

definition tell ::
  "agent_env \<Rightarrow> run_frame \<Rightarrow> EventPayload \<Rightarrow> run_state \<times> agent_world \<Rightarrow> run_state \<times> agent_world"
where
  "tell env f payload = (\<lambda>(st, w).
     case announce env (rf_org f) (rf_opened f) payload (rs_events st, w) of
       (events, w') \<Rightarrow> (st\<lparr>rs_events := events\<rparr>, w'))"

section \<open>Executing a tool\<close>

text \<open>The audit event comes before the credential is opened, once for each integration and run.\<close>

definition unseal_event :: "agent_env \<Rightarrow> uuid \<Rightarrow> uuid \<Rightarrow> uuid \<Rightarrow> Event" where
  "unseal_event env organization iid integration =
     \<lparr>ev_Organization = uuid_String (ag_uuids env) organization, ev_Actor = System ''control-plane'',
      ev_Action = ''integration.credential-unsealed'',
      ev_Target = \<lparr>target_Kind = ''integration'', target_ID = uuid_String (ag_uuids env) integration\<rparr>,
      ev_Outcome = OutcomeAllowed, ev_SourceAddress = [], ev_RequestID = [], ev_OccurredAt = None,
      ev_Detail = [(''purpose'', DString (''investigation '' @ uuid_String (ag_uuids env) iid))]\<rparr>"

definition RecordCredentialUnseal ::
  "agent_env \<Rightarrow> uuid \<Rightarrow> uuid \<Rightarrow> uuid \<Rightarrow> agent_world \<Rightarrow> store_error option \<times> agent_world"
where
  "RecordCredentialUnseal env organization iid integration w =
     (let k = w_tick w; w1 = w\<lparr>w_tick := k + 1\<rparr> in
      if ag_fate env k = Lost then (Some ErrDatabase, w1)
      else (case RecordEvent (ag_lower env) (ag_clock env k) (ag_eventID env k) organization
                   (unseal_event env organization iid integration) (w_trail w) of
              Inl e \<Rightarrow> (Some e, w1)
            | Inr trail \<Rightarrow>
                (if ag_fate env k = Unreported then Some ErrDatabase else None, w1\<lparr>w_trail := trail\<rparr>)))"

text \<open>An error is its text and whether it is the audit that failed.\<close>

definition open_credential ::
  "agent_env \<Rightarrow> run_frame \<Rightarrow> Integration \<Rightarrow> credential_cache \<times> agent_world
     \<Rightarrow> (string \<times> bool + string) \<times> credential_cache \<times> agent_world"
where
  "open_credential env f i = (\<lambda>(cache, w).
     case map_of (cc_opened cache) (integ_ID i) of
       Some credential \<Rightarrow> (Inr credential, cache, w)
     | None \<Rightarrow>
         (case map_of (cc_failed cache) (integ_ID i) of
            Some e \<Rightarrow> (Inl e, cache, w)
          | None \<Rightarrow>
              if integ_CredentialSealed i = []
              then (Inr [], cache\<lparr>cc_opened := (integ_ID i, []) # cc_opened cache\<rparr>, w)
              else (case RecordCredentialUnseal env (rf_org f) (i_ID (rf_opened f)) (integ_ID i) w of
                      (Some e, w') \<Rightarrow>
                        (Inl (ag_storeText env e, True),
                         cache\<lparr>cc_failed := (integ_ID i, (ag_storeText env e, True)) # cc_failed cache\<rparr>, w')
                    | (None, w') \<Rightarrow>
                        (case ag_unseal env (integ_CredentialSealed i) (integ_ID i) of
                           Inl e \<Rightarrow> (Inl (e, False), cache\<lparr>cc_failed := (integ_ID i, (e, False)) # cc_failed cache\<rparr>, w')
                         | Inr credential \<Rightarrow>
                             (Inr credential, cache\<lparr>cc_opened := (integ_ID i, credential) # cc_opened cache\<rparr>, w')))))"

definition tool_request ::
  "run_frame \<Rightarrow> Integration \<Rightarrow> string \<Rightarrow> toolCall \<Rightarrow> ToolRequest"
where
  "tool_request f i credential call =
     (let own = (case rf_origin f of Some g \<Rightarrow> integ_ID i = origin_IntegrationID g | None \<Rightarrow> False) in
      \<lparr>req_InvestigationID = i_ID (rf_opened f), req_Integration = i, req_Credential = credential,
       req_Arguments = tc_Arguments call,
       req_OriginChannel = (if own then origin_Channel (the (rf_origin f)) else []),
       req_OriginThread = (if own then origin_Thread (the (rf_origin f)) else []),
       req_WindowFrom = i_WindowFrom (rf_opened f), req_WindowUntil = i_WindowUntil (rf_opened f)\<rparr>)"

definition with_result :: "ToolRun \<Rightarrow> string + ToolResult \<Rightarrow> ToolRun" where
  "with_result run answer =
     (case answer of
        Inl e \<Rightarrow> run\<lparr>run_Outcome := RunFailed, run_Error := e\<rparr>
      | Inr r \<Rightarrow>
          (case (res_WindowFrom r, res_WindowUntil r) of
             (Some from, Some until) \<Rightarrow>
               run\<lparr>run_WindowFrom := from, run_WindowUntil := until, run_WindowApplied := Some True\<rparr>
           | _ \<Rightarrow> run)
          \<lparr>run_Outcome := RunSucceeded, run_Truncated := res_Truncated r, run_Summary := res_Summary r,
           run_Sources := res_Sources r, run_Content := map_option ToolContent (res_Content r)\<rparr>)"

text \<open>The run, the error that must end the investigation, and what was opened on the way.\<close>

definition execute_tool ::
  "agent_env \<Rightarrow> run_frame \<Rightarrow> toolCall \<Rightarrow> int \<Rightarrow> credential_cache \<times> agent_world
     \<Rightarrow> (agent_error + ToolRun) \<times> credential_cache \<times> agent_world"
where
  "execute_tool env f call ordinal = (\<lambda>(cache, w).
     let run = started_run (rf_opened f) call ordinal (ag_time env (w_tick w)) in
     case toolNamed (ag_uuids env) (rf_offered f) call of
       None \<Rightarrow>
         (Inr (run\<lparr>run_Outcome := RunFailed, run_Error := ''not one of the tools the selected sources offer''\<rparr>), cache, w)
     | Some (source, tool) \<Rightarrow>
         (let i = src_Integration source; run1 = run\<lparr>run_IntegrationID := integ_ID i\<rparr> in
          case open_credential env f i (cache, w) of
            (Inl (txt, auditFailed), cache', w') \<Rightarrow>
              (if auditFailed then Inl (CredentialAuditError txt)
               else Inr (run1\<lparr>run_Outcome := RunFailed,
                              run_Error := ''the integration'' @ [CHR 0x27] @ ''s credential could not be opened'',
                              run_FinishedAt := ag_time env (w_tick w')\<rparr>), cache', w')
          | (Inr credential, cache', w') \<Rightarrow>
              (let request = tool_request f i credential call; k = w_tick w' in
               (Inr (with_result (run1\<lparr>run_FinishedAt := ag_time env (k + 1)\<rparr>) (tool_Run tool k request)), cache',
                w'\<lparr>w_tick := k + 1, w_reads := w_reads w' @ [(tool, request)]\<rparr>))))"

section \<open>The calls of one turn\<close>

definition history_failure :: "string \<Rightarrow> ToolRun" where
  "history_failure reason =
     \<lparr>run_IntegrationID = uuid_Nil, run_Ordinal = 0, run_Tool = historyToolName, run_Purpose = [], run_Arguments = None,
      run_WindowFrom = 0, run_WindowUntil = 0, run_WindowApplied = None, run_Outcome = RunFailed, run_Truncated = False,
      run_Summary = [], run_Sources = [], run_StartedAt = 0, run_FinishedAt = 0, run_Error = reason, run_Content = None,
      run_ObservationText = None, run_ModelClipped = False, run_IntegrationName = [], run_IntegrationType = []\<rparr>"

definition before_sequence :: "toolCall \<Rightarrow> int option" where
  "before_sequence call =
     (let ms = of_slice (tc_Arguments call) in
      if known_members [''beforesequence''] ms then int_field (json_member ''beforesequence'' ms) else None)"

definition readHistory ::
  "agent_env \<Rightarrow> run_frame \<Rightarrow> toolCall \<Rightarrow> run_state \<times> agent_world \<Rightarrow> ToolRun \<times> run_state \<times> agent_world"
where
  "readHistory env f call = (\<lambda>(st, w).
     let refused = (\<lambda>reason. (history_failure reason, st, w)); identity = callIdentityOf call in
     if i_ConversationID (rf_opened f) = uuid_Nil \<or> rs_history st \<le> 1
     then refused ''earlier Conversation history is not available for this input''
     else (case before_sequence call of
             None \<Rightarrow> refused ''beforeSequence must be within the offered prior-history range''
           | Some n \<Rightarrow>
               if n < 1 \<or> n > rs_history st
               then refused ''beforeSequence must be within the offered prior-history range''
               else if identity \<in> set (rs_identities st)
               then refused ''identical history was already read; use its result or choose an earlier cursor''
               else if rs_executed st \<ge> rf_maxRuns f then refused ''the read limit has been reached''
               else (let st1 = st\<lparr>rs_executed := rs_executed st + 1\<rparr> in
                     case store_call env
                            (reading (ConversationHistory (rf_org f) (i_ConversationID (rf_opened f)) (i_ID (rf_opened f)) n)) w of
                       (Inl e, w1) \<Rightarrow>
                         (history_failure ''stored Conversation history could not be read; continuity is limited'', st1, w1)
                     | (Inr page, w1) \<Rightarrow>
                         (case boundHistoryPage (ag_uuids env) (ag_nano env)
                                 (page\<lparr>page_MissingEvidence := True, page_Limitations := [MissingEvidenceStatement]\<rparr>) of
                            None \<Rightarrow>
                              (history_failure ''stored Conversation history could not be encoded within its response budget'',
                               st1, w1)
                          | Some fit \<Rightarrow>
                              (case store_call env (reading (EvidenceMissing (rf_org f) (historyEvidence fit))) w1 of
                                 (Inl e, w2) \<Rightarrow>
                                   (history_failure ''stored Conversation evidence could not be checked; continuity is limited'',
                                    st1, w2)
                               | (Inr missing, w2) \<Rightarrow>
                                   (let shown = (if missing then fit
                                                 else fit\<lparr>page_MissingEvidence := False, page_Limitations := []\<rparr>) in
                                    ((history_failure [])\<lparr>run_Outcome := RunSucceeded,
                                                         run_Content := Some (HistoryContent shown)\<rparr>,
                                     st1\<lparr>rs_identities := identity # rs_identities st1\<rparr>, w2)))))))"

definition perform_history ::
  "agent_env \<Rightarrow> run_frame \<Rightarrow> toolCall \<Rightarrow> run_state \<times> agent_world \<Rightarrow> toolFeedback \<times> run_state \<times> agent_world"
where
  "perform_history env f call s =
     (let (run, st, w) = (if tc_Error call \<noteq> [] then (history_failure (tc_Error call), s) else readHistory env f call s) in
      (\<lparr>fb_CallID = tc_ID call, fb_ToolRun = run, fb_Semantic = True\<rparr>,
       (case run_Content run of
          Some (HistoryContent page) \<Rightarrow>
            st\<lparr>rs_prior := rs_prior st @ historyEvidence page, rs_missing := rs_missing st \<or> page_MissingEvidence page\<rparr>
        | _ \<Rightarrow> st), w))"

text \<open>The payload of a start shows a run that only has its ordinal, tool and purpose.\<close>

definition announceToolStarted ::
  "agent_env \<Rightarrow> run_frame \<Rightarrow> toolCall \<Rightarrow> int \<Rightarrow> run_state \<times> agent_world \<Rightarrow> run_state \<times> agent_world"
where
  "announceToolStarted env f call ordinal s =
     (case toolNamed (ag_uuids env) (rf_offered f) call of
        None \<Rightarrow> s
      | Some (source, tool) \<Rightarrow>
          tell env f
            (ToolStartedPayload
               ((started_run (rf_opened f) call ordinal 0)\<lparr>run_Purpose := tc_Purpose call\<rparr>)
               (uuid_String (ag_uuids env) (integ_ID (src_Integration source))) (integ_Name (src_Integration source))) s)"

text \<open>
  \<open>done\<close> are the identities of the calls this turn has executed, with their ordinals. The result is the
  run to record, whether it was executed, and the identities.
\<close>

definition make_run ::
  "agent_env \<Rightarrow> run_frame \<Rightarrow> toolCall \<Rightarrow> (string \<times> int) list \<Rightarrow> run_state \<times> agent_world
     \<Rightarrow> (agent_error + ToolRun \<times> bool \<times> (string \<times> int) list) \<times> run_state \<times> agent_world"
where
  "make_run env f call executedCalls = (\<lambda>(st, w).
     let ordinal = int (length (rs_runs st)) + 1; now = ag_time env (w_tick w); identity = callIdentityOf call;
         name = offeredName (ag_uuids env) (rf_offered f) call in
     if tc_Error call \<noteq> []
     then (Inr (droppedRun (rf_opened f) call ordinal (tc_Error call) now, False, executedCalls), st, w)
     else (case map_of executedCalls identity of
             Some original \<Rightarrow>
               (let run = (suppressedRun (rf_opened f) call ordinal original now)
                            \<lparr>run_IntegrationID := run_IntegrationID (rs_runs st ! nat (original - 1))\<rparr> in
                (Inr (run, False, executedCalls),
                 tell env f (ProgressPayload (''Skipped a duplicate request for '' @ name @ ''; see the earlier result'')) (st, w)))
           | None \<Rightarrow>
               if rs_executed st \<ge> rf_maxRuns f
               then (Inr (droppedRun (rf_opened f) call ordinal
                            (''not executed: the investigation'' @ apostrophe @ ''s read budget of ''
                               @ FormatInt (rf_maxRuns f) @ '' was exhausted'') now, False, executedCalls),
                     tell env f (ProgressPayload (''Did not run '' @ name @ ''; the read budget is exhausted'')) (st, w))
               else (case announceToolStarted env f call ordinal (st, w) of
                       (st1, w1) \<Rightarrow>
                         (case execute_tool env f call ordinal (rs_credentials st1, w1) of
                            (Inl e, cache, w2) \<Rightarrow> (Inl e, st1\<lparr>rs_credentials := cache\<rparr>, w2)
                          | (Inr run, cache, w2) \<Rightarrow>
                              (Inr (run, True, (identity, run_Ordinal run) # executedCalls),
                               st1\<lparr>rs_credentials := cache, rs_executed := rs_executed st1 + 1\<rparr>, w2)))))"

definition record_run ::
  "agent_env \<Rightarrow> run_frame \<Rightarrow> ToolRun \<Rightarrow> run_state \<times> agent_world \<Rightarrow> bool \<times> run_state \<times> agent_world"
where
  "record_run env f run = (\<lambda>(st, w).
     let ints = ag_ints env (w_tick w) in
     case store_call env
            (writing (\<lambda>now clock. RecordToolRun clock ints (rf_org f) (i_ID (rf_opened f)) (i_ClaimToken (rf_opened f)) run)) w of
       (Inl e, w') \<Rightarrow> (False, st, w')
     | (Inr _, w') \<Rightarrow> (True, st\<lparr>rs_runs := rs_runs st @ [run]\<rparr>, w'))"

definition selected_call :: "agent_env \<Rightarrow> run_frame \<Rightarrow> toolCall \<Rightarrow> toolCall" where
  "selected_call env f call =
     (case toolNamed (ag_uuids env) (rf_offered f) call of
        None \<Rightarrow> call
      | Some (source, tool) \<Rightarrow>
          call\<lparr>tc_IntegrationID := uuid_String (ag_uuids env) (integ_ID (src_Integration source))\<rparr>)"

definition prepared_run :: "agent_env \<Rightarrow> run_frame \<Rightarrow> toolCall \<Rightarrow> run_state \<Rightarrow> ToolRun \<Rightarrow> ToolRun" where
  "prepared_run env f call st run =
     prepareObservation (ag_uuids env) (ag_nano env) (ag_lower env) (map snd (cc_opened (rs_credentials st)))
       ((case toolNamed (ag_uuids env) (rf_offered f) call of
           None \<Rightarrow> run
         | Some (source, tool) \<Rightarrow> run\<lparr>run_IntegrationID := integ_ID (src_Integration source)\<rparr>)
        \<lparr>run_Purpose := tc_Purpose call\<rparr>)"

definition perform_read ::
  "agent_env \<Rightarrow> run_frame \<Rightarrow> toolCall \<Rightarrow> (string \<times> int) list \<Rightarrow> run_state \<times> agent_world
     \<Rightarrow> (agent_error + toolFeedback \<times> (string \<times> int) list) \<times> run_state \<times> agent_world"
where
  "perform_read env f call executedCalls s =
     (case make_run env f (selected_call env f call) executedCalls s of
        (Inl e, s1) \<Rightarrow> (Inl e, s1)
      | (Inr (run, executed, executedCalls'), st1, w1) \<Rightarrow>
          (let run' = prepared_run env f call st1 run in
           case record_run env f run' (st1, w1) of
             (False, s2) \<Rightarrow> (Inl ProvenanceError, s2)
           | (True, s2) \<Rightarrow>
               (Inr (\<lparr>fb_CallID = tc_ID call, fb_ToolRun = run', fb_Semantic = False\<rparr>, executedCalls'),
                if executed then tell env f (ToolCompletedPayload run') s2 else s2)))"

fun perform_calls ::
  "agent_env \<Rightarrow> run_frame \<Rightarrow> toolCall list \<Rightarrow> (string \<times> int) list \<Rightarrow> run_state \<times> agent_world
     \<Rightarrow> (agent_error + toolFeedback list) \<times> run_state \<times> agent_world"
where
  "perform_calls env f [] executedCalls s = (Inr [], s)"
| "perform_calls env f (call # calls) executedCalls s =
     (if tc_Tool call = historyToolName
      then (case perform_history env f call s of
              (feedback, s1) \<Rightarrow>
                (case perform_calls env f calls executedCalls s1 of
                   (Inl e, s2) \<Rightarrow> (Inl e, s2)
                 | (Inr results, s2) \<Rightarrow> (Inr (feedback # results), s2)))
      else (case perform_read env f call executedCalls s of
              (Inl e, s1) \<Rightarrow> (Inl e, s1)
            | (Inr (feedback, executedCalls'), s1) \<Rightarrow>
                (case perform_calls env f calls executedCalls' s1 of
                   (Inl e, s2) \<Rightarrow> (Inl e, s2)
                 | (Inr results, s2) \<Rightarrow> (Inr (feedback # results), s2))))"

section \<open>One exchange with the model\<close>

text \<open>
  \<open>attempt\<close> is one pass of the loop over two attempts: it asks again, or ends the exchange with
  an error or a move. Refused conclusions and a full context force the next attempt.
\<close>

datatype move = MoveCalls "toolCall list" | MoveConclusion Conclusion

datatype attempt_end = Again | Ended "agent_error + move"

record exchange =
  ex_forced :: bool
  ex_reason :: string
  ex_state :: run_state
  ex_world :: agent_world

definition allowed_evidence :: "agent_env \<Rightarrow> run_state \<Rightarrow> EvidenceRef list" where
  "allowed_evidence env st =
     rs_prior st
     @ (case or_Brief (rs_orientation st) of
          None \<Rightarrow> []
        | Some brief \<Rightarrow> concat (map References (dedupeFindings (ag_uuids env) (brief_Findings brief))))"

definition complete ::
  "agent_env \<Rightarrow> Prompt \<Rightarrow> agent_world \<Rightarrow> (Completion \<times> model_error option) \<times> agent_world"
where
  "complete env prompt w =
     (ag_complete env (w_tick w) prompt, w\<lparr>w_tick := w_tick w + 1, w_prompts := w_prompts w @ [prompt]\<rparr>)"

text \<open>The orientation without what can be read again; a missing-evidence notice stays.\<close>

definition reduced_orientation :: "orientation \<Rightarrow> orientation" where
  "reduced_orientation o1 =
     o1\<lparr>or_Inventory := [],
        or_Brief := map_option (\<lambda>brief.
          brief\<lparr>brief_Findings := [], brief_OpenHypotheses := [], brief_Recent := [],
                brief_Limitations := (if brief_MissingEvidence brief then [MissingEvidenceStatement] else [])\<rparr>)
          (or_Brief o1)\<rparr>"

definition shrink ::
  "agent_env \<Rightarrow> run_frame \<Rightarrow> Prompt \<Rightarrow> model_error \<Rightarrow> exchange \<Rightarrow> attempt_end \<times> exchange"
where
  "shrink env f prompt e x =
     (let st = ex_state x; reduced = reduced_orientation (rs_orientation st) in
      if length (renderOrientation (ag_uuids env) reduced) < length (renderOrientation (ag_uuids env) (rs_orientation st))
      then (Again, x\<lparr>ex_state := st\<lparr>rs_orientation := reduced\<rparr>\<rparr>)
      else if \<not> ex_forced x \<and> length (prompt_Tools prompt) > 1
      then (case tell env f (ProgressPayload (ceilingProgress ''context'')) (st\<lparr>rs_stopped := ''context''\<rparr>, ex_world x) of
              (st1, w1) \<Rightarrow>
                (Again, x\<lparr>ex_forced := True, ex_reason := concludeReason ''context'' (length (rf_offered f)),
                          ex_state := st1, ex_world := w1\<rparr>))
      else (Ended (Inl (ProviderError e)), x))"

datatype verdict = Refuse string | Stuck agent_error | Accept Conclusion

text \<open>The store is asked about prior evidence only when the conclusion cites any.\<close>

definition weigh ::
  "agent_env \<Rightarrow> run_frame \<Rightarrow> Completion \<Rightarrow> CompletionCall list \<Rightarrow> CompletionCall list \<Rightarrow> exchange \<Rightarrow> verdict \<times> agent_world"
where
  "weigh env f completion reads conclusions x =
     (let st = ex_state x; w = ex_world x in
      if reads \<noteq> []
      then (Refuse ''no further reads are available; finalization deferred: call conclude by itself'', w)
      else (case conclusions of
              [call] \<Rightarrow>
                (case decodeConclusion (ag_json env) (ag_uuids env) (call_Arguments call) (rs_runs st) (allowed_evidence env st) of
                   Inl e \<Rightarrow> (Refuse e, w)
                 | Inr conclusion \<Rightarrow>
                     (let refs = concat (map finding_EvidenceRefs (conclusion_Findings conclusion));
                          accepted = Accept (if rs_missing st then MarkMissingEvidence conclusion else conclusion) in
                      if refs = [] then (accepted, w)
                      else (case store_call env (reading (EvidenceMissing (rf_org f) refs)) w of
                              (Inl e, w') \<Rightarrow>
                                (Stuck (Failed env ''rejected_request'' (comp_Model completion)
                                          ''the prior evidence could not be verified''), w')
                            | (Inr missing, w') \<Rightarrow>
                                (if missing then Refuse errUnavailablePriorEvidence else accepted, w'))))
            | _ \<Rightarrow> (Refuse ''call conclude exactly once with the evidence-bounded conclusion'', w)))"

definition error_results :: "string \<Rightarrow> CompletionCall list \<Rightarrow> ToolResultTurn list" where
  "error_results content calls = map (\<lambda>c. \<lparr>tr_CallID = call_ID c, tr_Content = content, tr_IsError = True\<rparr>) calls"

definition assistant_turn :: "Completion \<Rightarrow> ModelTurn" where
  "assistant_turn completion =
     \<lparr>mt_Assistant = \<lparr>as_Text = comp_Document completion, as_Calls = comp_ToolCalls completion, as_Raw = comp_Raw completion\<rparr>,
      mt_ToolResults = [], mt_Instruction = []\<rparr>"

definition judge ::
  "agent_env \<Rightarrow> run_frame \<Rightarrow> bool \<Rightarrow> Completion \<Rightarrow> exchange \<Rightarrow> attempt_end \<times> exchange"
where
  "judge env f first completion x =
     (let st = ex_state x; turn = assistant_turn completion in
      case splitCalls (comp_ToolCalls completion) of
        Inl e \<Rightarrow> (Ended (Inl (Failed env ''malformed_output'' (comp_Model completion) e)), x)
      | Inr (reads, conclusions) \<Rightarrow>
          if reads \<noteq> [] \<and> \<not> ex_forced x
          then (let deferred = error_results
                      ''Finalization deferred: consider the read results before calling conclude again.'' conclusions in
                (Ended (Inr (MoveCalls (decodeToolCalls (ag_json env) reads))),
                 x\<lparr>ex_state := st\<lparr>rs_transcript := rs_transcript st @ [turn\<lparr>mt_ToolResults := deferred\<rparr>]\<rparr>\<rparr>))
          else (case weigh env f completion reads conclusions x of
                  (Accept conclusion, w) \<Rightarrow> (Ended (Inr (MoveConclusion conclusion)), x\<lparr>ex_world := w\<rparr>)
                | (Stuck e, w) \<Rightarrow> (Ended (Inl e), x\<lparr>ex_world := w\<rparr>)
                | (Refuse e, w) \<Rightarrow>
                    if \<not> first
                    then (Ended (Inl (Failed env ''malformed_output'' (comp_Model completion) e)), x\<lparr>ex_world := w\<rparr>)
                    else (Again,
                          x\<lparr>ex_forced := True, ex_world := w,
                            ex_state := st\<lparr>rs_transcript := rs_transcript st
                              @ [turn\<lparr>mt_ToolResults := error_results e (comp_ToolCalls completion),
                                      mt_Instruction := e\<rparr>]\<rparr>\<rparr>)))"

definition attempt ::
  "agent_env \<Rightarrow> run_frame \<Rightarrow> bool \<Rightarrow> exchange \<Rightarrow> attempt_end \<times> exchange"
where
  "attempt env f first x =
     (let st = ex_state x;
          prompt = modelPrompt (ag_uuids env) (ag_texts env) (ag_config env) (rs_orientation st) (rs_transcript st)
                     (allowed_evidence env st \<noteq> []) (ex_forced x) (ex_reason x) in
      case complete env prompt (ex_world x) of
        ((completion, failure), w) \<Rightarrow>
          (let x1 = x\<lparr>ex_state := st\<lparr>rs_usage := Usage_Add (rs_usage st) (usageOf (comp_Usage completion))\<rparr>,
                      ex_world := w\<rparr> in
           case failure of
             Some e \<Rightarrow>
               if first \<and> err_ContextWindow e then shrink env f prompt e x1 else (Ended (Inl (ProviderError e)), x1)
           | None \<Rightarrow>
               if comp_Stop completion = StopRefused
               then (Ended (Inl (Failed env ''refused'' (comp_Model completion)
                       (''the provider'' @ apostrophe @ ''s safeguards declined the investigation''))), x1)
               else if comp_Stop completion = StopTruncated then (Again, x1)
               else judge env f first completion x1))"

definition decide :: "agent_env \<Rightarrow> run_frame \<Rightarrow> exchange \<Rightarrow> (agent_error + move) \<times> exchange" where
  "decide env f x =
     (case attempt env f True x of
        (Ended r, x1) \<Rightarrow> (r, x1)
      | (Again, x1) \<Rightarrow>
          (case attempt env f False x1 of
             (Ended r, x2) \<Rightarrow> (r, x2)
           | (Again, x2) \<Rightarrow>
               (Inl (Failed env ''malformed_output'' (mc_Model (ag_config env))
                       ''the answer was truncated or carried no usable call twice''), x2)))"

section \<open>The run\<close>

abbreviation wallClockReserve :: duration where
  "wallClockReserve \<equiv> 2 * Minute"

definition wallClockAlmostOver :: "agent_env \<Rightarrow> agent_world \<Rightarrow> bool" where
  "wallClockAlmostOver env w \<longleftrightarrow>
     (case ag_deadline env of None \<Rightarrow> False | Some d \<Rightarrow> time_Sub d (ag_time env (w_tick w)) < wallClockReserve)"

definition ceiling :: "agent_env \<Rightarrow> run_frame \<Rightarrow> int \<Rightarrow> run_state \<Rightarrow> agent_world \<Rightarrow> string" where
  "ceiling env f turn st w =
     (if rs_executed st \<ge> rf_maxRuns f then ''tool_runs''
      else if turn > rf_maxTurns f then ''reasoner_turns''
      else if wallClockAlmostOver env w then ''wall_clock''
      else [])"

definition begin_turn ::
  "agent_env \<Rightarrow> run_frame \<Rightarrow> int \<Rightarrow> run_state \<times> agent_world \<Rightarrow> run_state \<times> agent_world"
where
  "begin_turn env f turn = (\<lambda>(st, w).
     if rs_stopped st \<noteq> [] then (st, w)
     else (let stoppedBy = ceiling env f turn st w in
           if stoppedBy = [] then (st, w)
           else tell env f (ProgressPayload (ceilingProgress stoppedBy)) (st\<lparr>rs_stopped := stoppedBy\<rparr>, w)))"

definition renderResult :: "agent_env \<Rightarrow> toolFeedback \<Rightarrow> ToolResultTurn" where
  "renderResult env result =
     (let run = fb_ToolRun result in
      if fb_Semantic result \<and> run_Tool run = historyToolName
      then (if run_Outcome run = RunFailed
            then \<lparr>tr_CallID = fb_CallID result, tr_Content = ''HISTORY UNAVAILABLE: '' @ run_Error run, tr_IsError = True\<rparr>
            else (case run_Content run of
                    Some (HistoryContent page) \<Rightarrow>
                      \<lparr>tr_CallID = fb_CallID result,
                       tr_Content = historyResponsePrefix @ Marshal (page_json (ag_uuids env) (ag_nano env) page),
                       tr_IsError = False\<rparr>
                  | _ \<Rightarrow>
                      \<lparr>tr_CallID = fb_CallID result, tr_Content = ''HISTORY UNAVAILABLE: invalid stored history'',
                       tr_IsError = True\<rparr>))
      else \<lparr>tr_CallID = fb_CallID result,
            tr_Content = (case run_ObservationText run of Some txt \<Rightarrow> txt | None \<Rightarrow> []),
            tr_IsError = (run_Outcome run = RunFailed)\<rparr>)"

text \<open>The results of the last calls join the turn that asked for them.\<close>

definition give_results :: "agent_env \<Rightarrow> toolFeedback list \<Rightarrow> run_state \<Rightarrow> run_state" where
  "give_results env results st =
     (let rendered = map (renderResult env) results; transcript = rs_transcript st in
      if results = [] then st
      else if transcript = []
      then st\<lparr>rs_transcript := [\<lparr>mt_Assistant = \<lparr>as_Text = [], as_Calls = [], as_Raw = []\<rparr>, mt_ToolResults = rendered,
                                  mt_Instruction = []\<rparr>]\<rparr>
      else st\<lparr>rs_transcript := butlast transcript
                @ [(last transcript)\<lparr>mt_ToolResults := mt_ToolResults (last transcript) @ rendered\<rparr>]\<rparr>)"

definition opened_turn ::
  "agent_env \<Rightarrow> run_frame \<Rightarrow> int \<Rightarrow> toolFeedback list \<Rightarrow> run_state \<times> agent_world \<Rightarrow> exchange"
where
  "opened_turn env f turn results s =
     (case begin_turn env f turn s of
        (st, w) \<Rightarrow>
          \<lparr>ex_forced = (rs_stopped st \<noteq> [] \<or> rf_offered f = [] \<and> rs_history st \<le> 1),
           ex_reason = concludeReason (rs_stopped st) (length (rf_offered f)),
           ex_state = give_results env results st, ex_world = w\<rparr>)"

definition fail_with ::
  "agent_env \<Rightarrow> run_frame \<Rightarrow> agent_error \<Rightarrow> run_state \<times> agent_world \<Rightarrow> store_error option \<times> run_state \<times> agent_world"
where
  "fail_with env f e = (\<lambda>(st, w).
     case fail_run env (rf_org f) (rf_opened f) (failureReason e) (rs_usage st) w of (r, w') \<Rightarrow> (r, st, w'))"

text \<open>Forcing stays: a turn that had to conclude is never followed by another.\<close>

lemma tell_stopped [simp]: "rs_stopped (fst (tell env f payload s)) = rs_stopped (fst s)"
  by (cases s) (simp add: tell_def split: prod.split)

lemma attempt_forced: "ex_forced x \<Longrightarrow> ex_forced (snd (attempt env f first x))"
  by (simp add: attempt_def shrink_def judge_def Let_def split: prod.split option.split sum.split verdict.split)

lemma decide_forced: "decide env f x = (r, x') \<Longrightarrow> ex_forced x \<Longrightarrow> ex_forced x'"
  using attempt_forced [of x env f True] attempt_forced [of "snd (attempt env f True x)" env f False]
  by (auto simp: decide_def split: prod.splits attempt_end.splits)

lemma begin_turn_over: "turn > rf_maxTurns f \<Longrightarrow> rs_stopped (fst (begin_turn env f turn s)) \<noteq> []"
  by (cases s) (simp add: begin_turn_def ceiling_def Let_def)

lemma opened_turn_forced: "turn > rf_maxTurns f \<Longrightarrow> ex_forced (opened_turn env f turn results s)"
  using begin_turn_over [of f turn env s] by (auto simp: opened_turn_def split: prod.split)

function run_loop ::
  "agent_env \<Rightarrow> run_frame \<Rightarrow> int \<Rightarrow> toolFeedback list \<Rightarrow> run_state \<times> agent_world
     \<Rightarrow> store_error option \<times> run_state \<times> agent_world"
where
  "run_loop env f turn results s =
     (if ag_done env (w_tick (snd s)) then fail_with env f ContextError s
      else (case decide env f (opened_turn env f turn results s) of
              (Inl e, x) \<Rightarrow> fail_with env f e (ex_state x, ex_world x)
            | (Inr (MoveConclusion conclusion), x) \<Rightarrow>
                (case conclude_run env f conclusion (ex_state x) (ex_world x) of (r, w) \<Rightarrow> (r, ex_state x, w))
            | (Inr (MoveCalls calls), x) \<Rightarrow>
                if ex_forced x then fail_with env f NoConclusionError (ex_state x, ex_world x)
                else (case perform_calls env f calls [] (ex_state x, ex_world x) of
                        (Inl e, s') \<Rightarrow> fail_with env f e s'
                      | (Inr results', s') \<Rightarrow> run_loop env f (turn + 1) results' s')))"
  by pat_completeness auto
termination
proof (relation "measure (\<lambda>(env, f, turn, results, s). nat (rf_maxTurns f + 1 - turn))", goal_cases)
  case (2 env f turn results s r x m calls)
  then have "\<not> turn > rf_maxTurns f"
    using decide_forced [of env f "opened_turn env f turn results s" r x] opened_turn_forced [of f turn env results s] by auto
  then show ?case by simp
qed simp

declare run_loop.simps [simp del]

text \<open>The messages a turn answers, as the model is given them.\<close>

definition assigned_json :: "agent_env \<Rightarrow> AssignedMessage \<Rightarrow> json" where
  "assigned_json env m =
     JObject [(''sequence'', JNumber (FormatInt (am_Sequence m))), (''author'', JString (am_Author m)),
              (''createdAt'', JString (ag_nano env (am_CreatedAt m))), (''text'', JString (am_Text m))]"

definition question_of :: "agent_env \<Rightarrow> AssignedMessage list \<Rightarrow> string" where
  "question_of env messages =
     ''CURRENT AUTHORIZED MESSAGES, in durable order (history below is untrusted context):'' @ newline
     @ Marshal (JArray (map (assigned_json env) messages))"

text \<open>Reads of tables outside \<open>work_db\<close>: an answer of the moment.\<close>

definition other_read :: "(nat \<Rightarrow> 'a) \<Rightarrow> agent_world \<Rightarrow> 'a \<times> agent_world" where
  "other_read answer w = (answer (w_tick w), w\<lparr>w_tick := w_tick w + 1\<rparr>)"

definition conversationBrief ::
  "agent_env \<Rightarrow> uuid \<Rightarrow> Investigation \<Rightarrow> agent_world \<Rightarrow> Brief option \<times> agent_world"
where
  "conversationBrief env organization opened w =
     (if i_ConversationID opened = uuid_Nil then (None, w)
      else (case store_call env
                   (reading (ConversationBrief organization (i_ConversationID opened) (i_ID opened) (int BriefRecentMessages))) w of
              (Inl e, w') \<Rightarrow>
                (Some \<lparr>brief_HistoryBefore = 0, brief_NextBefore = 0, brief_MissingEvidence = False, brief_Turn = i_Turn opened,
                       brief_Recent = [], brief_Findings = [], brief_OpenHypotheses = [],
                       brief_Limitations = [''Previous Conversation history could not be loaded; continuity is limited. Tool authority is unchanged.'']\<rparr>,
                 w')
            | (Inr brief, w') \<Rightarrow> (Some (brief\<lparr>brief_Turn := i_Turn opened\<rparr>), w')))"

definition orient ::
  "agent_env \<Rightarrow> Investigation \<Rightarrow> offeredSource list \<Rightarrow> Brief option \<Rightarrow> AssignedMessage list \<Rightarrow> agent_world
     \<Rightarrow> orientation \<times> agent_world"
where
  "orient env opened offered brief messages w =
     (let (trigger, w1) = (if i_IncidentID opened = uuid_Nil then (None, w)
                           else (case other_read (ag_trigger env) w of
                                   (Inl e, w') \<Rightarrow> (None, w') | (Inr t, w') \<Rightarrow> (Some t, w')));
          (inventory, w2) = (case other_read (ag_inventory env) w1 of
                               (Inl e, w') \<Rightarrow> ([], w') | (Inr inventory, w') \<Rightarrow> (inventory, w')) in
      (\<lparr>or_Subject = i_Subject opened,
        or_Question = (if i_ConversationID opened \<noteq> uuid_Nil \<and> messages \<noteq> [] then question_of env messages else []),
        or_WindowFrom = i_WindowFrom opened, or_WindowUntil = i_WindowUntil opened, or_Trigger = trigger,
        or_Sources = offered, or_Inventory = inventory, or_Brief = brief\<rparr>, w2))"

definition origin_malformed :: "ConversationOrigin option \<Rightarrow> bool" where
  "origin_malformed origin \<longleftrightarrow>
     (case origin of
        None \<Rightarrow> False
      | Some g \<Rightarrow> origin_IntegrationID g = uuid_Nil \<or> origin_Channel g = [] \<or> origin_Thread g = [])"

text \<open>What a conversation's turn must know before it starts; a reason to fail otherwise.\<close>

definition conversation_scope ::
  "agent_env \<Rightarrow> uuid \<Rightarrow> Investigation \<Rightarrow> agent_world
     \<Rightarrow> (string + ConversationOrigin option \<times> AssignedMessage list) \<times> agent_world"
where
  "conversation_scope env organization opened w =
     (if i_ConversationID opened = uuid_Nil then (Inr (None, []), w)
      else (case other_read (ag_origin env) w of
              (Inl e, w1) \<Rightarrow> (Inl (''the Conversation'' @ apostrophe @ ''s execution scope could not be verified''), w1)
            | (Inr origin, w1) \<Rightarrow>
                if origin_malformed origin
                then (Inl (''the Conversation'' @ apostrophe @ ''s execution scope could not be verified''), w1)
                else (case store_call env
                             (reading (InvestigationMessages organization (i_ConversationID opened) (i_ID opened))) w1 of
                        (Inl e, w2) \<Rightarrow>
                          (Inl (''the Investigation'' @ apostrophe @ ''s assigned Messages could not be read''), w2)
                      | (Inr messages, w2) \<Rightarrow>
                          if messages = []
                          then (Inl (''the Investigation'' @ apostrophe @ ''s assigned Messages are missing''), w2)
                          else (Inr (origin, messages), w2))))"

definition no_usage :: Usage where
  "no_usage = \<lparr>usage_InputTokens = 0, usage_OutputTokens = 0\<rparr>"

definition run_start :: "Brief option \<Rightarrow> orientation \<Rightarrow> event_stream \<Rightarrow> run_state" where
  "run_start brief oriented events =
     \<lparr>rs_runs = [], rs_identities = [], rs_executed = 0, rs_usage = no_usage, rs_transcript = [],
      rs_history = (case brief of None \<Rightarrow> 0 | Some b \<Rightarrow> brief_HistoryBefore b),
      rs_missing = (case brief of None \<Rightarrow> False | Some b \<Rightarrow> brief_MissingEvidence b),
      rs_prior = [], rs_orientation = oriented, rs_stopped = [], rs_events = events,
      rs_credentials = \<lparr>cc_opened = [], cc_failed = []\<rparr>\<rparr>"

definition agent_frame ::
  "agent_env \<Rightarrow> uuid \<Rightarrow> Investigation \<Rightarrow> offeredSource list \<Rightarrow> ConversationOrigin option \<Rightarrow> run_frame"
where
  "agent_frame env organization opened offered origin =
     \<lparr>rf_org = organization, rf_opened = opened, rf_offered = offered, rf_origin = origin,
      rf_maxRuns = (if ag_MaxToolRuns env \<le> 0 then 30 else ag_MaxToolRuns env),
      rf_maxTurns = (if ag_MaxTurns env \<le> 0 then 20 else ag_MaxTurns env)\<rparr>"

text \<open>
  \<open>agent_begin\<close> is the run up to its first turn: the error of a failed start, or the frame and state of
  the loop.
\<close>

definition agent_begin ::
  "agent_env \<Rightarrow> uuid \<Rightarrow> Investigation \<Rightarrow> agent_world \<Rightarrow> (string + run_frame \<times> run_state) \<times> agent_world"
where
  "agent_begin env organization opened w =
     (case conversation_scope env organization opened w of
        (Inl reason, w1) \<Rightarrow> (Inl reason, w1)
      | (Inr (origin, messages), w1) \<Rightarrow>
          (case other_read (ag_candidates env) w1 of
             (Inl e, w2) \<Rightarrow> (Inl ''the connected sources could not be read'', w2)
           | (Inr candidates, w2) \<Rightarrow>
               (case conversationBrief env organization opened w2 of
                  (brief, w3) \<Rightarrow>
                    (let offered = offeredSourcesForConversation (ag_catalog env) candidates origin in
                     case announce env organization opened
                            (StartedPayload ''Reviewing this request and available evidence sources.'') (newStream, w3) of
                       (events, w4) \<Rightarrow>
                         (case orient env opened offered brief messages w4 of
                            (oriented, w5) \<Rightarrow>
                              (Inr (agent_frame env organization opened offered origin, run_start brief oriented events), w5))))))"

definition Agent_Run ::
  "agent_env \<Rightarrow> uuid \<Rightarrow> Investigation \<Rightarrow> agent_world \<Rightarrow> store_error option \<times> agent_world"
where
  "Agent_Run env organization opened w =
     (case agent_begin env organization opened w of
        (Inl reason, w1) \<Rightarrow> fail_run env organization opened reason no_usage w1
      | (Inr (f, st), w1) \<Rightarrow> (case run_loop env f 1 [] (st, w1) of (r, _, w2) \<Rightarrow> (r, w2)))"

end
