(* ===== verification/WorkLifecycle.thy ===== *)
theory WorkLifecycle
  imports ConversationStore
begin

text \<open>
  What the investigation and conversation tables guarantee under any interleaving of their
  transactions: the step relation, the invariant of the tables, and that every transaction
  keeps it.
\<close>

section \<open>Steps\<close>

text \<open>
  \<open>maximum\<close> is the configured limit on waiting investigations, the same in every caller. Events
  appended by a worker are not terminal: the payloads \<^verbatim>\<open>internal/investigation/agent\<close> announces
  are those of a start, of progress and of tool calls. The conversation \<open>turn\<close> is about is picked
  before any lock is taken, so the rule leaves it open. Alert intake may change incidents in any
  way that keeps their identifiers distinct. A statement on the relay queue that inserts nothing is any step of the queue that keeps its
  length.
\<close>

definition states_of :: "work_db \<Rightarrow> investigation_state list" where
  "states_of db =
     map (\<lambda>r. \<lparr>is_id = inv_id r, is_org = inv_org r, is_running = (inv_status r = StatusRunning)\<rparr>)
       (db_investigations db)"

inductive work_step :: "int \<Rightarrow> work_db \<Rightarrow> work_db \<Rightarrow> bool" for maximum :: int where
  web_conversation: "open_conversation uuid_string now cid organization wanted db = Inr (v, target, detail, db')
     \<Longrightarrow> work_step maximum db db'"
| slack_conversation: "insert_conversation x db = Inr db' \<Longrightarrow> work_step maximum db db'"
| create: "create_investigation uuid_string now iid organization wanted maximum db = Inr (v, target, detail, db')
     \<Longrightarrow> work_step maximum db db'"
| alerts: "openAlertInvestigations now fresh organization incidents policy db = Inr db'
     \<Longrightarrow> policy_MaximumPending policy = maximum \<Longrightarrow> work_step maximum db db'"
| web_message: "append_and_open uuid_string now go_now go_later iid organization c said lead maximum db
       = Inr (v, target, detail, db') \<Longrightarrow> work_step maximum db db'"
| slack_message: "reserveQueuedMessage organization db = Inr ()
     \<Longrightarrow> appendSlackMessage now go_now go_later organization c slack db = Inr (m, db')
     \<Longrightarrow> work_step maximum db db'"
| turn: "reserveWaitingInvestigations organization maximum 1 db = Inr ()
     \<Longrightarrow> openTurn now iid organization c db = Inr (opened, db') \<Longrightarrow> work_step maximum db db'"
| claim: "ClaimInvestigation now locked token claim db = Inr (got, db') \<Longrightarrow> work_step maximum db db'"
| heartbeat: "Heartbeat clock organization iid claim db = Inr (kept, db') \<Longrightarrow> work_step maximum db db'"
| tell: "AppendEvent clock organization iid token event db = Inr db' \<Longrightarrow> \<not> Terminal (e_Type event)
     \<Longrightarrow> work_step maximum db db'"
| recover: "RecoverStale now locked reason limit db = Inr (n, db') \<Longrightarrow> work_step maximum db db'"
| tool_run: "RecordToolRun clock ints organization iid token run db = Inr db' \<Longrightarrow> work_step maximum db db'"
| conclude: "ConcludeInvestigation now clock organization iid token conclusion stoppedBy usage db = Inr db'
     \<Longrightarrow> work_step maximum db db'"
| fail: "FailInvestigation now clock organization iid token reason usage db = Inr db' \<Longrightarrow> work_step maximum db db'"
| cancel: "cancel_investigation uuid_string now organization iid db = Inr (v, target, detail, db')
     \<Longrightarrow> work_step maximum db db'"
| enqueue_job: "EnqueueVerifiedJob now organization job ints (states_of db) (db_jobs db) = Inr jobs
     \<Longrightarrow> work_step maximum db (db\<lparr>db_jobs := jobs\<rparr>)"
| queue: "job_step (db_jobs db) jobs \<Longrightarrow> length jobs = length (db_jobs db)
     \<Longrightarrow> work_step maximum db (db\<lparr>db_jobs := jobs\<rparr>)"
| intake: "distinct (map inc_id incidents) \<Longrightarrow> work_step maximum db (db\<lparr>db_incidents := incidents\<rparr>)"

section \<open>Numbering\<close>

definition numbered :: "int list \<Rightarrow> bool" where
  "numbered ns \<longleftrightarrow> set ns = {1..int (length ns)}"

lemma numbered_Nil [simp]: "numbered []"
  by (simp add: numbered_def)

lemma numbered_distinct: "numbered ns \<Longrightarrow> distinct ns"
  by (rule card_distinct) (simp add: numbered_def)

lemma numbered_next:
  assumes "numbered ns"
  shows "(case ns of [] \<Rightarrow> 1 | n # rest \<Rightarrow> Max (set (n # rest)) + 1) = int (length ns) + 1"
proof (cases ns)
  case (Cons n rest)
  with assms have "set (n # rest) = {1..int (length (n # rest))}" by (simp add: numbered_def)
  then have "Max (set (n # rest)) = Max {1..int (length (n # rest))}" by simp
  also have "\<dots> = int (length (n # rest))" by (rule Max_eqI) auto
  finally show ?thesis using Cons by simp
qed simp

lemma numbered_snoc:
  assumes "numbered ns" "n = int (length ns) + 1"
  shows "numbered (ns @ [n])"
  using assms by (auto simp: numbered_def)

section \<open>The invariant\<close>

definition rows_ok :: "investigation_row list \<Rightarrow> bool" where
  "rows_ok t \<longleftrightarrow> distinct (map inv_id t) \<and> (\<forall>r \<in> set t. list_all snd (investigation_checks r))"

definition events_of :: "uuid \<Rightarrow> event_row list \<Rightarrow> event_row list" where
  "events_of iid t = filter (\<lambda>e. ie_investigation e = iid) t"

fun ending_event :: "InvestigationStatus \<Rightarrow> EventType option" where
  "ending_event StatusRunning = None"
| "ending_event StatusConcluded = Some EventConcluded"
| "ending_event StatusFailed = Some EventFailed"
| "ending_event StatusCancelled = Some EventCancelled"

text \<open>The stream of an investigation: numbered from 1, and ended exactly when the investigation is,
  by one event of its kind that is the last.\<close>

definition stream_ok :: "investigation_row \<Rightarrow> event_row list \<Rightarrow> bool" where
  "stream_ok r es \<longleftrightarrow>
     numbered (map ie_sequence es)
     \<and> (\<forall>e \<in> set es. ie_org e = inv_org r)
     \<and> (\<forall>e \<in> set es. Terminal (ie_type e) \<longrightarrow>
          ending_event (inv_status r) = Some (ie_type e) \<and> ie_sequence e = int (length es))
     \<and> (inv_status r \<noteq> StatusRunning \<longrightarrow> (\<exists>e \<in> set es. Terminal (ie_type e)))"

definition events_ok :: "work_db \<Rightarrow> bool" where
  "events_ok db \<longleftrightarrow>
     (\<forall>r \<in> set (db_investigations db). stream_ok r (events_of (inv_id r) (db_events db)))
     \<and> ie_investigation ` set (db_events db) \<subseteq> inv_id ` set (db_investigations db)"

text \<open>Conversations: one running turn, turns and messages numbered from 1, one window per queue, and
  every message that was given to a turn names a turn of its conversation with its window.\<close>

definition turns_of :: "uuid \<Rightarrow> uuid \<Rightarrow> investigation_row list \<Rightarrow> int list" where
  "turns_of organization c t =
     concat (map (\<lambda>r. case inv_turn r of None \<Rightarrow> [] | Some n \<Rightarrow> [n])
       (filter (\<lambda>r. inv_org r = organization \<and> inv_conversation r = Some c) t))"

definition turns_ok :: "investigation_row list \<Rightarrow> bool" where
  "turns_ok t \<longleftrightarrow>
     (\<forall>organization c. numbered (turns_of organization c t))
     \<and> (\<forall>organization c. length (filter (\<lambda>r. inv_org r = organization \<and> inv_conversation r = Some c
                                           \<and> inv_status r = StatusRunning) t) \<le> 1)"

definition messages_of :: "uuid \<Rightarrow> uuid \<Rightarrow> message_row list \<Rightarrow> message_row list" where
  "messages_of organization c t = filter (\<lambda>m. msg_org m = organization \<and> msg_conversation m = c) t"

definition answered_by :: "message_row \<Rightarrow> investigation_row \<Rightarrow> bool" where
  "answered_by m r \<longleftrightarrow>
     msg_investigation m = Some (inv_id r) \<and> inv_org r = msg_org m \<and> inv_conversation r = Some (msg_conversation m)
     \<and> inv_window_from r = msg_window_from m \<and> inv_window_until r = msg_window_until m"

definition messages_ok :: "work_db \<Rightarrow> bool" where
  "messages_ok db \<longleftrightarrow>
     (\<forall>organization c. numbered (map msg_sequence (messages_of organization c (db_messages db))))
     \<and> (\<forall>organization. rows_affected (queued organization) (db_messages db) \<le> maxQueuedMessages)
     \<and> (\<forall>organization c. \<forall>m \<in> set (db_messages db). \<forall>m' \<in> set (db_messages db).
          queued_in organization c m \<and> queued_in organization c m' \<longrightarrow>
          msg_window_from m = msg_window_from m' \<and> msg_window_until m = msg_window_until m')
     \<and> (\<forall>m \<in> set (db_messages db). msg_investigation m \<noteq> None \<longrightarrow>
          (\<exists>r \<in> set (db_investigations db). answered_by m r))"

text \<open>Relay jobs of a cancelled investigation are over or marked for cancellation.\<close>

definition stopped :: "relay_job \<Rightarrow> bool" where
  "stopped j \<longleftrightarrow> terminal (job_status j) \<or> job_cancel_requested_at j \<noteq> None"

definition owned_ok :: "work_db \<Rightarrow> bool" where
  "owned_ok db \<longleftrightarrow>
     jobs_inv (db_jobs db)
     \<and> (\<forall>j \<in> set (db_jobs db). \<forall>r \<in> set (db_investigations db).
          job_investigation j = Some (inv_id r) \<and> job_org j = inv_org r \<and> inv_status r = StatusCancelled \<longrightarrow> stopped j)
     \<and> (\<forall>j \<in> set (db_jobs db). \<forall>i. job_investigation j = Some i \<longrightarrow>
          (\<exists>r \<in> set (db_investigations db). inv_id r = i \<and> inv_org r = job_org j))"

definition capacity_ok :: "int \<Rightarrow> investigation_row list \<Rightarrow> bool" where
  "capacity_ok maximum t \<longleftrightarrow>
     maximum > 0 \<longrightarrow> (\<forall>organization. int (rows_affected (waiting organization) t) \<le> maximum)"

definition work_inv :: "int \<Rightarrow> work_db \<Rightarrow> bool" where
  "work_inv maximum db \<longleftrightarrow>
     distinct (map inc_id (db_incidents db)) \<and> rows_ok (db_investigations db) \<and> events_ok db \<and> turns_ok (db_investigations db)
     \<and> messages_ok db \<and> owned_ok db \<and> capacity_ok maximum (db_investigations db)"

section \<open>How a row may change\<close>

definition keeps_fixed :: "investigation_row \<Rightarrow> investigation_row \<Rightarrow> bool" where
  "keeps_fixed r r' \<longleftrightarrow>
     inv_id r' = inv_id r \<and> inv_org r' = inv_org r \<and> inv_incident r' = inv_incident r
     \<and> inv_conversation r' = inv_conversation r \<and> inv_turn r' = inv_turn r \<and> inv_subject r' = inv_subject r
     \<and> inv_window_from r' = inv_window_from r \<and> inv_window_until r' = inv_window_until r
     \<and> inv_created_at r' = inv_created_at r \<and> inv_automatic r' = inv_automatic r"

text \<open>An ended row stays as it is, a lease keeps its worker and token to the end, and no row goes back to
  waiting.\<close>

definition inv_evolves :: "investigation_row \<Rightarrow> investigation_row \<Rightarrow> bool" where
  "inv_evolves r r' \<longleftrightarrow>
     keeps_fixed r r' \<and> (inv_status r \<noteq> StatusRunning \<longrightarrow> r' = r)
     \<and> (inv_lease_worker r \<noteq> [] \<and> inv_status r' = StatusRunning \<longrightarrow>
          inv_lease_worker r' = inv_lease_worker r \<and> inv_lease_token r' = inv_lease_token r)"

lemma keeps_fixed_changes [simp]:
  "keeps_fixed r (leased now token claim r)" "keeps_fixed r (renewed clock claim r)"
  "keeps_fixed r (recovered now reason r)" "keeps_fixed r (cancelled now r)"
  "keeps_fixed r (ended now status conclusion stoppedBy reason usage r)"
  by (simp_all add: keeps_fixed_def leased_def renewed_def recovered_def cancelled_def ended_def)

lemma inv_evolves_refl [simp]: "inv_evolves r r"
  by (simp add: inv_evolves_def keeps_fixed_def)

lemma inv_evolves_trans:
  assumes "inv_evolves r r'" "inv_evolves r' r''"
  shows "inv_evolves r r''"
  using assms unfolding inv_evolves_def keeps_fixed_def by (cases "inv_status r' = StatusRunning") auto

text \<open>One statement on the table: rows it touches are running, and pass their checks afterwards.\<close>

definition row_update ::
  "(investigation_row \<Rightarrow> bool) \<Rightarrow> (investigation_row \<Rightarrow> investigation_row) \<Rightarrow> investigation_row list \<Rightarrow> bool"
where
  "row_update p f t \<longleftrightarrow>
     (\<forall>r. keeps_fixed r (f r))
     \<and> (\<forall>r \<in> set t. p r \<longrightarrow> inv_status r = StatusRunning \<and> inv_evolves r (f r)
           \<and> list_all snd (investigation_checks (f r)))"

lemma row_updateD:
  assumes "row_update p f t"
  shows "\<And>r. keeps_fixed r (f r)"
    and "\<And>r. r \<in> set t \<Longrightarrow> p r \<Longrightarrow> inv_status r = StatusRunning"
    and "\<And>r. r \<in> set t \<Longrightarrow> p r \<Longrightarrow> inv_evolves r (f r)"
    and "\<And>r. r \<in> set t \<Longrightarrow> p r \<Longrightarrow> list_all snd (investigation_checks (f r))"
  using assms by (simp_all add: row_update_def)

lemma row_update_fixed:
  assumes "row_update p f t"
  shows "inv_id (f r) = inv_id r" "inv_org (f r) = inv_org r" "inv_conversation (f r) = inv_conversation r"
    "inv_turn (f r) = inv_turn r" "inv_window_from (f r) = inv_window_from r" "inv_window_until (f r) = inv_window_until r"
  using row_updateD(1) [OF assms, of r] by (simp_all add: keeps_fixed_def)

lemma rows_ok_update: "rows_ok t \<Longrightarrow> row_update p f t \<Longrightarrow> rows_ok (update_where p f t)"
  using row_update_fixed(1) [of p f t] row_updateD(4) [of p f t]
  by (auto simp: rows_ok_def map_update_where set_update_where)

lemma filter_update_same:
  assumes "\<And>r. q (f r) = q r"
  shows "filter q (update_where p f t) = update_where p f (filter q t)"
  using assms by (induction t) auto

lemma turns_of_update:
  assumes "row_update p f t"
  shows "turns_of organization c (update_where p f t) = turns_of organization c t"
proof -
  note fixed = row_update_fixed [OF assms]
  have "map (\<lambda>r. case inv_turn r of None \<Rightarrow> [] | Some n \<Rightarrow> [n]) (update_where p f u)
      = map (\<lambda>r. case inv_turn r of None \<Rightarrow> [] | Some n \<Rightarrow> [n]) u" for u
    by (rule map_update_where) (simp add: fixed)
  then show ?thesis by (simp add: turns_of_def filter_update_same fixed)
qed

lemma length_filter_update_le:
  assumes "\<And>r. r \<in> set t \<Longrightarrow> p r \<Longrightarrow> q (f r) \<Longrightarrow> q r"
  shows "length (filter q (update_where p f t)) \<le> length (filter q t)"
  using assms by (induction t) auto

lemma turns_ok_update:
  assumes "turns_ok t" "row_update p f t"
  shows "turns_ok (update_where p f t)"
proof -
  have "length (filter (\<lambda>r. inv_org r = organization \<and> inv_conversation r = Some c \<and> inv_status r = StatusRunning)
      (update_where p f t)) \<le> 1" for organization c
    using assms(1) row_update_fixed [OF assms(2)] row_updateD(2) [OF assms(2)]
    by (intro order_trans [OF length_filter_update_le]) (auto simp: turns_ok_def)
  with assms show ?thesis by (simp add: turns_ok_def turns_of_update)
qed

lemma capacity_ok_update:
  assumes "capacity_ok maximum t" "row_update p f t"
  shows "capacity_ok maximum (update_where p f t)"
proof -
  have "rows_affected (waiting organization) (update_where p f t) \<le> rows_affected (waiting organization) t"
    for organization
    unfolding rows_affected_def
  proof (rule length_filter_update_le)
    fix r
    assume r: "r \<in> set t" "p r" "waiting organization (f r)"
    then show "waiting organization r"
      using row_updateD(2,3) [OF assms(2), of r] row_update_fixed [OF assms(2), of r]
      by (auto simp: waiting_def inv_evolves_def)
  qed
  with assms(1) show ?thesis
    unfolding capacity_ok_def by (meson of_nat_mono order_trans)
qed

section \<open>Streams\<close>

lemma stream_ok_status: "stream_ok r es \<Longrightarrow> inv_status r' = inv_status r \<Longrightarrow> inv_org r' = inv_org r \<Longrightarrow> stream_ok r' es"
  by (simp add: stream_ok_def)

lemma running_not_ended: "stream_ok r es \<Longrightarrow> inv_status r = StatusRunning \<Longrightarrow> e \<in> set es \<Longrightarrow> \<not> Terminal (ie_type e)"
  by (auto simp: stream_ok_def)

lemma stream_ok_snoc:
  assumes "stream_ok r es" "inv_status r = StatusRunning" "inv_org r' = inv_org r" "ie_org e = inv_org r"
    and "ie_sequence e = int (length es) + 1"
    and "if Terminal (ie_type e) then ending_event (inv_status r') = Some (ie_type e) else inv_status r' = StatusRunning"
  shows "stream_ok r' (es @ [e])"
proof -
  have "numbered (map ie_sequence (es @ [e]))"
    using assms(1,5) by (simp add: stream_ok_def numbered_snoc)
  with assms running_not_ended [OF assms(1,2)] show ?thesis
    by (auto simp: stream_ok_def split: if_splits)
qed

text \<open>
  A step that changes rows by \<open>row_update\<close> and tells at most one event about each: the row behind an
  event was running, and it ends with the event exactly when the event is terminal.
\<close>

definition tells :: "investigation_row list \<Rightarrow> event_row list \<Rightarrow> event_row list
     \<Rightarrow> (investigation_row \<Rightarrow> bool) \<Rightarrow> (investigation_row \<Rightarrow> investigation_row) \<Rightarrow> bool" where
  "tells t before es p f \<longleftrightarrow>
     distinct (map ie_investigation es)
     \<and> (\<forall>e \<in> set es. \<exists>r \<in> set t. inv_id r = ie_investigation e \<and> ie_org e = inv_org r \<and> inv_status r = StatusRunning
          \<and> ie_sequence e = int (length (events_of (inv_id r) before)) + 1
          \<and> (if Terminal (ie_type e) then p r \<and> ending_event (inv_status (f r)) = Some (ie_type e)
             else \<not> p r \<or> inv_status (f r) = StatusRunning))
     \<and> (\<forall>r \<in> set t. p r \<and> inv_id r \<notin> ie_investigation ` set es \<longrightarrow> inv_status (f r) = inv_status r)"

lemma tells_Nil:
  "tells t before [] p f \<longleftrightarrow> (\<forall>r \<in> set t. p r \<longrightarrow> inv_status (f r) = inv_status r)"
  by (simp add: tells_def)

lemma events_of_append [simp]: "events_of i (a @ b) = events_of i a @ events_of i b"
  by (simp add: events_of_def)

lemma events_of_single:
  assumes "distinct (map ie_investigation es)"
  shows "events_of i es = (case List.find (\<lambda>e. ie_investigation e = i) es of None \<Rightarrow> [] | Some e \<Rightarrow> [e])"
  using assms
proof (induction es)
  case (Cons e es)
  have "events_of i es = []" if "ie_investigation e = i"
    using Cons.prems that by (force simp: events_of_def filter_empty_conv image_iff)
  with Cons show ?case by (auto simp: events_of_def)
qed (simp add: events_of_def)

lemma events_ok_update:
  assumes ok: "events_ok db" "rows_ok (db_investigations db)" and up: "row_update p f (db_investigations db)"
    and es: "tells (db_investigations db) (db_events db) es p f"
    and db': "db_investigations db' = update_where p f (db_investigations db)" "db_events db' = db_events db @ es"
  shows "events_ok db'"
proof -
  let ?t = "db_investigations db"
  note fixed = row_update_fixed [OF up]
  have ids: "inv_id ` set (update_where p f ?t) = inv_id ` set ?t"
    using arg_cong [OF map_update_where [of p inv_id f ?t], of set] fixed(1) by simp
  have streams: "stream_ok (if p r then f r else r) (events_of (inv_id r) (db_events db @ es))" if r: "r \<in> set ?t" for r
  proof (cases "List.find (\<lambda>e. ie_investigation e = inv_id r) es")
    case None
    then have "inv_id r \<notin> ie_investigation ` set es" by (auto simp: find_None_iff)
    with es r have "inv_status (if p r then f r else r) = inv_status r" by (auto simp: tells_def)
    moreover have "stream_ok r (events_of (inv_id r) (db_events db))" using ok(1) r by (simp add: events_ok_def)
    moreover have "events_of (inv_id r) es = []" using None es by (simp add: events_of_single tells_def)
    ultimately show ?thesis using fixed by (auto elim: stream_ok_status)
  next
    case (Some e)
    then have e: "e \<in> set es" "ie_investigation e = inv_id r" by (auto simp: find_Some_iff)
    with es obtain x where x: "x \<in> set ?t" "inv_id x = ie_investigation e" "ie_org e = inv_org x"
        "inv_status x = StatusRunning" "ie_sequence e = int (length (events_of (inv_id x) (db_events db))) + 1"
        "if Terminal (ie_type e) then p x \<and> ending_event (inv_status (f x)) = Some (ie_type e)
         else \<not> p x \<or> inv_status (f x) = StatusRunning"
      unfolding tells_def by blast
    have "x = r" using ok(2) x(1,2) r e(2) by (auto simp: rows_ok_def distinct_map inj_on_def)
    moreover have "stream_ok r (events_of (inv_id r) (db_events db))" using ok(1) r by (simp add: events_ok_def)
    moreover have "events_of (inv_id r) es = [e]" using Some es by (simp add: events_of_single tells_def)
    ultimately show ?thesis using x fixed by (auto intro!: stream_ok_snoc [of r] split: if_splits)
  qed
  have "stream_ok r' (events_of (inv_id r') (db_events db @ es))" if r': "r' \<in> set (update_where p f ?t)" for r'
  proof -
    from update_where_mem [OF r'] obtain r where r: "r \<in> set ?t" "r' = (if p r then f r else r)" by blast
    then have "inv_id r' = inv_id r" by (simp add: fixed)
    with streams [OF r(1)] r(2) show ?thesis by simp
  qed
  moreover have "ie_investigation ` set (db_events db @ es) \<subseteq> inv_id ` set ?t"
  proof -
    have "ie_investigation e \<in> inv_id ` set ?t" if "e \<in> set es" for e
      using es that unfolding tells_def by (metis image_eqI)
    with ok(1) show ?thesis by (auto simp: events_ok_def)
  qed
  ultimately show ?thesis
    unfolding events_ok_def db' ids by blast
qed

text \<open>The same for a statement on one row.\<close>

lemma row_update_one:
  assumes "\<And>x. keeps_fixed x (f x)" "\<forall>x \<in> set t. p x \<longrightarrow> x = r" "inv_status r = StatusRunning"
    and "inv_evolves r (f r)" "list_all snd (investigation_checks (f r))"
  shows "row_update p f t"
  using assms unfolding row_update_def by metis

lemma tells_one:
  assumes "r \<in> set t" "\<forall>x \<in> set t. p x \<longrightarrow> x = r" "p r" "inv_status r = StatusRunning"
    and "ie_investigation e = inv_id r" "ie_org e = inv_org r"
    and "ie_sequence e = int (length (events_of (inv_id r) before)) + 1"
    and "ending_event (inv_status (f r)) = Some (ie_type e)"
  shows "tells t before [e] p f"
proof -
  have "Terminal (ie_type e)"
    using assms(8) by (cases "inv_status (f r)") (auto simp: Terminal_def)
  moreover have "inv_status (f x) = inv_status x" if "x \<in> set t" "p x" "inv_id x \<noteq> ie_investigation e" for x
    using that assms(2,5) by auto
  ultimately show ?thesis
    using assms(1,3-8) unfolding tells_def by (auto intro!: bexI [of _ r])
qed

section \<open>Messages and jobs beside a change of rows\<close>

definition rows_kept :: "investigation_row list \<Rightarrow> investigation_row list \<Rightarrow> bool" where
  "rows_kept t t' \<longleftrightarrow> (\<forall>r \<in> set t. \<exists>r' \<in> set t'. keeps_fixed r r')"

lemma rows_kept_append [simp]: "rows_kept t (t @ u)"
  by (auto simp: rows_kept_def keeps_fixed_def)

lemma rows_kept_refl [simp]: "rows_kept t t"
  by (auto simp: rows_kept_def keeps_fixed_def)

lemma rows_kept_update: "row_update p f t \<Longrightarrow> rows_kept t (update_where p f t)"
  using row_updateD(1) [of p f t] by (auto simp: rows_kept_def set_update_where keeps_fixed_def)

lemma answered_by_fixed: "answered_by m r \<Longrightarrow> keeps_fixed r r' \<Longrightarrow> answered_by m r'"
  by (simp add: answered_by_def keeps_fixed_def)

lemma messages_ok_rows:
  assumes "messages_ok db" "rows_kept (db_investigations db) (db_investigations db')"
    and "db_messages db' = db_messages db"
  shows "messages_ok db'"
proof -
  have "\<exists>r \<in> set (db_investigations db'). answered_by m r"
    if "m \<in> set (db_messages db)" "msg_investigation m \<noteq> None" for m
    using assms(1,2) that answered_by_fixed unfolding messages_ok_def rows_kept_def by meson
  with assms(1,3) show ?thesis by (simp add: messages_ok_def)
qed

lemma owned_ok_rows:
  assumes "owned_ok db" "rows_kept (db_investigations db) (db_investigations db')"
    and "db_jobs db' = db_jobs db"
    and "\<And>r. r \<in> set (db_investigations db') \<Longrightarrow> inv_status r = StatusCancelled \<Longrightarrow> r \<in> set (db_investigations db)"
  shows "owned_ok db'"
proof -
  have "\<exists>r \<in> set (db_investigations db'). inv_id r = i \<and> inv_org r = job_org j"
    if j: "j \<in> set (db_jobs db)" "job_investigation j = Some i" for j i
  proof -
    from assms(1) j obtain r where "r \<in> set (db_investigations db)" "inv_id r = i" "inv_org r = job_org j"
      unfolding owned_ok_def by blast
    moreover from assms(2) this obtain r' where "r' \<in> set (db_investigations db')" "keeps_fixed r r'"
      by (auto simp: rows_kept_def)
    ultimately show ?thesis by (auto simp: keeps_fixed_def)
  qed
  with assms(1,3,4) show ?thesis unfolding owned_ok_def by simp blast
qed

text \<open>What every step keeps of the tables: rows evolve, events are only added, and tool runs are only
  added to running investigations.\<close>

definition runs_of :: "uuid \<Rightarrow> tool_run_row list \<Rightarrow> tool_run_row list" where
  "runs_of iid t = filter (\<lambda>x. tr_investigation x = iid) t"

definition work_evolves :: "work_db \<Rightarrow> work_db \<Rightarrow> bool" where
  "work_evolves db db' \<longleftrightarrow>
     (\<forall>r \<in> set (db_investigations db). \<exists>r' \<in> set (db_investigations db'). inv_evolves r r')
     \<and> (\<exists>es. db_events db' = db_events db @ es)
     \<and> (\<exists>runs. db_tool_runs db' = db_tool_runs db @ runs)
     \<and> (\<forall>r \<in> set (db_investigations db). inv_status r \<noteq> StatusRunning \<longrightarrow>
          runs_of (inv_id r) (db_tool_runs db') = runs_of (inv_id r) (db_tool_runs db))"

lemma work_evolves_same:
  assumes "db_investigations db' = db_investigations db @ rows" "db_events db' = db_events db" "db_tool_runs db' = db_tool_runs db"
  shows "work_evolves db db'"
  using assms by (auto simp: work_evolves_def intro: inv_evolves_refl)

lemma work_evolves_refl [simp]: "work_evolves db db"
  using work_evolves_same [of db db "[]"] by simp

lemma work_evolves_ended:
  assumes "work_evolves db db'" "r \<in> set (db_investigations db)" "inv_status r \<noteq> StatusRunning"
  shows "r \<in> set (db_investigations db')"
  using assms unfolding work_evolves_def inv_evolves_def by metis

lemma work_evolves_trans:
  assumes "work_evolves a b" "work_evolves b c"
  shows "work_evolves a c"
proof -
  have "\<exists>r'' \<in> set (db_investigations c). inv_evolves r r''" if "r \<in> set (db_investigations a)" for r
    using assms that inv_evolves_trans unfolding work_evolves_def by meson
  moreover have "\<exists>es. db_events c = db_events a @ es" "\<exists>runs. db_tool_runs c = db_tool_runs a @ runs"
    using assms unfolding work_evolves_def by auto
  moreover have "runs_of (inv_id r) (db_tool_runs c) = runs_of (inv_id r) (db_tool_runs a)"
    if "r \<in> set (db_investigations a)" "inv_status r \<noteq> StatusRunning" for r
    using assms that work_evolves_ended [OF assms(1) that] unfolding work_evolves_def by metis
  ultimately show ?thesis unfolding work_evolves_def by blast
qed

lemma work_evolves_update:
  assumes "row_update p f (db_investigations db)"
    and "db_investigations db' = update_where p f (db_investigations db)" "db_events db' = db_events db @ es"
    and "db_tool_runs db' = db_tool_runs db"
  shows "work_evolves db db'"
proof -
  have "\<exists>r' \<in> set (db_investigations db'). inv_evolves r r'" if "r \<in> set (db_investigations db)" for r
    using assms(2) that row_updateD(3) [OF assms(1) that]
    by (intro bexI [of _ "if p r then f r else r"]) (auto simp: set_update_where)
  with assms(3,4) show ?thesis by (simp add: work_evolves_def)
qed

text \<open>A step that touches running rows only keeps the whole invariant, jobs apart.\<close>

lemma update_keeps_owned:
  assumes inv: "work_inv maximum db" and up: "row_update p f (db_investigations db)"
    and es: "tells (db_investigations db) (db_events db) es p f"
    and db': "db_investigations db' = update_where p f (db_investigations db)" "db_events db' = db_events db @ es"
    and same: "db_messages db' = db_messages db" "db_tool_runs db' = db_tool_runs db" "db_incidents db' = db_incidents db"
    and owned: "owned_ok db'"
  shows "work_inv maximum db' \<and> work_evolves db db'"
proof -
  note kept = rows_kept_update [OF up]
  have "events_ok db'" using inv by - (rule events_ok_update [OF _ _ up es db'], simp_all add: work_inv_def)
  moreover have "messages_ok db'"
    using inv kept db'(1) same(1) by - (rule messages_ok_rows [of db], simp_all add: work_inv_def)
  moreover have "work_evolves db db'" by (rule work_evolves_update [OF up db' same(2)])
  ultimately show ?thesis
    using inv up db' owned same(3) by (simp add: work_inv_def rows_ok_update turns_ok_update capacity_ok_update)
qed

lemma update_keeps:
  assumes inv: "work_inv maximum db" and up: "row_update p f (db_investigations db)"
    and es: "tells (db_investigations db) (db_events db) es p f"
    and db': "db_investigations db' = update_where p f (db_investigations db)" "db_events db' = db_events db @ es"
    and same: "db_messages db' = db_messages db" "db_jobs db' = db_jobs db" "db_tool_runs db' = db_tool_runs db"
      "db_incidents db' = db_incidents db"
    and alive: "\<And>r. inv_status (f r) \<noteq> StatusCancelled \<or> inv_status (f r) = inv_status r"
  shows "work_inv maximum db' \<and> work_evolves db db'"
proof (rule update_keeps_owned [OF inv up es db' same(1,3,4)])
  note kept = rows_kept_update [OF up]
  show "owned_ok db'"
  proof (rule owned_ok_rows [of db])
    fix r
    assume r: "r \<in> set (db_investigations db')" "inv_status r = StatusCancelled"
    then obtain x where "x \<in> set (db_investigations db)" "r = (if p x then f x else x)"
      using update_where_mem [of r p f "db_investigations db"] db' by auto
    then show "r \<in> set (db_investigations db)"
      using r(2) alive [of x] row_updateD(2) [OF up, of x] by (auto split: if_splits)
  qed (use inv kept db' same(1,2) in \<open>simp_all add: work_inv_def\<close>)
qed

section \<open>Claims, heartbeats, events, tool runs\<close>

lemma work_invD:
  assumes "work_inv maximum db"
  shows "distinct (map inv_id (db_investigations db))"
    and "\<And>r. r \<in> set (db_investigations db) \<Longrightarrow> list_all snd (investigation_checks r)"
    and "\<And>r. r \<in> set (db_investigations db) \<Longrightarrow> stream_ok r (events_of (inv_id r) (db_events db))"
  using assms by (auto simp: work_inv_def rows_ok_def events_ok_def)

lemma same_row:
  "work_inv maximum db \<Longrightarrow> r \<in> set (db_investigations db) \<Longrightarrow> r' \<in> set (db_investigations db) \<Longrightarrow>
     inv_id r = inv_id r' \<Longrightarrow> r = r'"
  using work_invD(1) by (auto simp: distinct_map inj_on_def)

lemma claim_choice_Some:
  assumes "claim_choice locked t = Some r"
  shows "r \<in> set t" "inv_status r = StatusRunning" "inv_lease_worker r = []" "\<not> locked (inv_id r)"
proof -
  let ?p = "\<lambda>r. inv_status r = StatusRunning \<and> inv_lease_worker r = [] \<and> \<not> locked (inv_id r)"
  from assms have "r \<in> set (filter ?p t)"
    unfolding claim_choice_def by (auto split: list.splits dest: sort_key_Cons_mem)
  then show "r \<in> set t" "inv_status r = StatusRunning" "inv_lease_worker r = []" "\<not> locked (inv_id r)" by auto
qed

lemma ClaimInvestigation_Inr:
  assumes "ClaimInvestigation now locked token claim db = Inr (got, db')"
  obtains (none) "got = None" "db' = db" "claim_choice locked (db_investigations db) = None"
  | (some) r where "claim_choice locked (db_investigations db) = Some r"
      "got = Some (inv_org r, (scanInvestigation (leased now token claim r))\<lparr>i_ClaimToken := token\<rparr>)"
      "db' = db\<lparr>db_investigations := update_where (\<lambda>x. inv_id x = inv_id r) (leased now token claim) (db_investigations db)\<rparr>"
      "\<forall>x \<in> set (db_investigations db). inv_id x = inv_id r \<longrightarrow> list_all snd (investigation_checks (leased now token claim x))"
proof (cases "claim_choice locked (db_investigations db)")
  case None
  with assms none show ?thesis by (simp add: ClaimInvestigation_def)
next
  case (Some r)
  with assms obtain t where t: "checked_update investigation_checks (\<lambda>x. inv_id x = inv_id r) (leased now token claim)
      (db_investigations db) = Inr t" "db' = db\<lparr>db_investigations := t\<rparr>"
      "got = Some (inv_org r, (scanInvestigation (leased now token claim r))\<lparr>i_ClaimToken := token\<rparr>)"
    by (auto simp: ClaimInvestigation_def split: sum.splits)
  with Some some show ?thesis unfolding checked_update_Inr by blast
qed

lemma claim_keeps_inv:
  assumes inv: "work_inv maximum db" and run: "ClaimInvestigation now locked token claim db = Inr (got, db')"
  shows "work_inv maximum db' \<and> work_evolves db db'"
  using run
proof (cases rule: ClaimInvestigation_Inr)
  case none
  with inv show ?thesis by simp
next
  case (some r)
  let ?p = "\<lambda>x. inv_id x = inv_id r"
  note r = claim_choice_Some [OF some(1)]
  have up: "row_update ?p (leased now token claim) (db_investigations db)"
    unfolding row_update_def
  proof (intro conjI allI ballI impI)
    fix x
    assume x: "x \<in> set (db_investigations db)" "inv_id x = inv_id r"
    with same_row [OF inv x(1) r(1)] have "x = r" by simp
    with r show "inv_status x = StatusRunning" "inv_evolves x (leased now token claim x)"
      by (simp_all add: inv_evolves_def)
    show "list_all snd (investigation_checks (leased now token claim x))" using some(4) x by blast
  qed simp
  show ?thesis
    by (rule update_keeps [OF inv up, of "[]"]) (simp_all add: some(3) tells_Nil leased_def)
qed

lemma heartbeat_keeps_inv:
  assumes inv: "work_inv maximum db" and run: "Heartbeat clock organization iid claim db = Inr (kept, db')"
  shows "work_inv maximum db' \<and> work_evolves db db'"
proof (cases "lockInvestigation organization iid db")
  case (Inl e)
  with run inv show ?thesis by (simp add: Heartbeat_def)
next
  case (Inr u)
  let ?p = "renewable clock organization iid claim"
  from run Inr have db': "db' = db\<lparr>db_investigations := update_where ?p (renewed clock claim) (db_investigations db)\<rparr>"
    and checks: "\<forall>r \<in> set (db_investigations db). ?p r \<longrightarrow> list_all snd (investigation_checks (renewed clock claim r))"
    by (auto simp: Heartbeat_def Let_def checked_update_Inr split: sum.splits)
  have up: "row_update ?p (renewed clock claim) (db_investigations db)"
    using checks unfolding row_update_def
    by (auto simp: renewable_def held_def inv_evolves_def) (simp_all add: renewed_def)
  show ?thesis by (rule update_keeps [OF inv up, of "[]"]) (simp_all add: db' tells_Nil renewed_def)
qed


text \<open>An inserted event has the next number of its stream.\<close>

lemma insert_event_Inr:
  "insert_event e db = Inr db' \<Longrightarrow> db' = db\<lparr>db_events := db_events db @ [e]\<rparr> \<and> (\<forall>n. ie_type e \<noteq> EventOther n)"
  by (auto simp: insert_event_def split: if_splits EventType.splits)

lemma next_event_numbered:
  assumes "numbered (map ie_sequence (filter p t))"
  shows "next_event_sequence p t = int (length (filter p t)) + 1"
  using numbered_next [OF assms] by (simp add: next_event_sequence_def)

lemma append_event_Inr:
  assumes "stream_ok r (events_of (inv_id r) (db_events db))"
    and "append_event at (inv_org r) (inv_id r) type payload db = Inr db'"
  obtains e where "db' = db\<lparr>db_events := db_events db @ [e]\<rparr>" "ie_investigation e = inv_id r" "ie_org e = inv_org r"
    "ie_type e = type" "ie_payload e = payload" "ie_at e = at"
    "ie_sequence e = int (length (events_of (inv_id r) (db_events db))) + 1"
proof -
  have same: "filter (\<lambda>e. ie_investigation e = inv_id r \<and> ie_org e = inv_org r) (db_events db)
      = events_of (inv_id r) (db_events db)"
    using assms(1) unfolding events_of_def stream_ok_def by (intro filter_cong) auto
  then have "next_event_sequence (\<lambda>e. ie_investigation e = inv_id r \<and> ie_org e = inv_org r) (db_events db)
      = int (length (events_of (inv_id r) (db_events db))) + 1"
    using assms(1) by (subst next_event_numbered) (simp_all add: stream_ok_def)
  with assms(2) have "db' = db\<lparr>db_events := db_events db @ [\<lparr>ie_investigation = inv_id r, ie_org = inv_org r,
      ie_sequence = int (length (events_of (inv_id r) (db_events db))) + 1, ie_at = at, ie_type = type,
      ie_payload = payload\<rparr>]\<rparr>"
    unfolding append_event_def by (auto dest!: insert_event_Inr)
  then show ?thesis by (rule that) simp_all
qed

lemma held_mem:
  assumes "list_ex (held clock organization iid token) t"
  obtains r where "r \<in> set t" "inv_id r = iid" "inv_org r = organization" "inv_status r = StatusRunning"
    "inv_lease_token r = Some token"
  using assms that by (auto simp: list_ex_iff held_def)

lemma tell_keeps_inv:
  assumes inv: "work_inv maximum db" and run: "AppendEvent clock organization iid token event db = Inr db'"
    and live: "\<not> Terminal (e_Type event)"
  shows "work_inv maximum db' \<and> work_evolves db db'"
proof -
  from run have holds: "list_ex (held clock organization iid token) (db_investigations db)"
    and app: "append_event (e_At event) organization iid (e_Type event) (e_Payload event) db = Inr db'"
    by (auto simp: AppendEvent_def split: sum.splits if_splits)
  from holds obtain r where r: "r \<in> set (db_investigations db)" "inv_id r = iid" "inv_org r = organization"
      "inv_status r = StatusRunning" by (rule held_mem) blast
  note st = work_invD(3) [OF inv r(1)]
  obtain e where e: "db' = db\<lparr>db_events := db_events db @ [e]\<rparr>" "ie_investigation e = inv_id r" "ie_org e = inv_org r"
      "ie_type e = e_Type event" "ie_sequence e = int (length (events_of (inv_id r) (db_events db))) + 1"
    by (rule append_event_Inr [OF st]) (use app r in auto)
  have up: "row_update (\<lambda>_. False) (\<lambda>r. r) (db_investigations db)"
    by (simp add: row_update_def keeps_fixed_def)
  have "tells (db_investigations db) (db_events db) [e] (\<lambda>_. False) (\<lambda>r. r)"
    using r e live by (auto simp: tells_def)
  moreover have "update_where (\<lambda>_. False) (\<lambda>r. r) (db_investigations db) = db_investigations db"
    by (simp add: update_where_no_match)
  ultimately show ?thesis
    by (intro update_keeps [OF inv up, of "[e]"]) (simp_all add: e(1))
qed

lemma work_inv_same:
  assumes "work_inv maximum db" "db_investigations db' = db_investigations db" "db_events db' = db_events db"
    and "db_messages db' = db_messages db" "db_jobs db' = db_jobs db" "db_incidents db' = db_incidents db"
  shows "work_inv maximum db'"
  using assms by (simp add: work_inv_def events_ok_def messages_ok_def owned_ok_def)

lemma tool_run_keeps_inv:
  assumes inv: "work_inv maximum db" and run: "RecordToolRun clock ints organization iid token run db = Inr db'"
  shows "work_inv maximum db' \<and> work_evolves db db'"
proof -
  from run have holds: "list_ex (held clock organization iid token) (db_investigations db)"
    and "insert_tool_run ints organization iid run db = Inr db'"
    by (auto simp: RecordToolRun_def split: sum.splits option.splits if_splits)
  then obtain row where db': "db' = db\<lparr>db_tool_runs := db_tool_runs db @ [row]\<rparr>" "tr_investigation row = iid"
    by (auto simp: insert_tool_run_def split: option.splits if_splits)
  from holds obtain r where r: "r \<in> set (db_investigations db)" "inv_id r = iid" "inv_status r = StatusRunning"
    by (rule held_mem) blast
  have "inv_id x \<noteq> iid" if "x \<in> set (db_investigations db)" "inv_status x \<noteq> StatusRunning" for x
    using same_row [OF inv that(1) r(1)] r that(2) by auto
  then have "work_evolves db db'" by (auto simp: work_evolves_def db' runs_of_def intro: inv_evolves_refl)
  with work_inv_same [OF inv, of db'] show ?thesis by (simp add: db')
qed

section \<open>Endings\<close>

lemma next_message_numbered:
  assumes "numbered (map msg_sequence (messages_of organization c t))"
  shows "next_message_sequence organization c t = int (length (messages_of organization c t)) + 1"
  using numbered_next [OF assms] by (simp add: next_message_sequence_def messages_of_def)

lemma messages_ok_insert:
  assumes ok: "messages_ok db"
    and seq: "msg_sequence m = next_message_sequence (msg_org m) (msg_conversation m) (db_messages db)"
    and owner: "msg_investigation m = None \<or> (\<exists>r \<in> set (db_investigations db). answered_by m r)"
    and room: "queued (msg_org m) m \<Longrightarrow> rows_affected (queued (msg_org m)) (db_messages db) < maxQueuedMessages"
    and window: "\<And>m'. queued (msg_org m) m \<Longrightarrow> m' \<in> set (db_messages db) \<Longrightarrow> queued_in (msg_org m) (msg_conversation m) m' \<Longrightarrow>
      msg_window_from m' = msg_window_from m \<and> msg_window_until m' = msg_window_until m"
    and db': "db_messages db' = db_messages db @ [m]" "db_investigations db' = db_investigations db"
  shows "messages_ok db'"
  unfolding messages_ok_def db'
proof (intro conjI allI ballI impI)
  fix organization c
  have "numbered (map msg_sequence (messages_of organization c (db_messages db)))"
    using ok by (simp add: messages_ok_def)
  then show "numbered (map msg_sequence (messages_of organization c (db_messages db @ [m])))"
    using seq next_message_numbered [of organization c "db_messages db"]
    by (auto simp: messages_of_def intro!: numbered_snoc)
next
  fix organization
  have "rows_affected (queued organization) (db_messages db) \<le> maxQueuedMessages"
    using ok by (simp add: messages_ok_def)
  with room show "rows_affected (queued organization) (db_messages db @ [m]) \<le> maxQueuedMessages"
    by (cases "queued organization m") (auto simp: rows_affected_def queued_def)
next
  fix organization c x y
  assume x: "x \<in> set (db_messages db @ [m])" and y: "y \<in> set (db_messages db @ [m])"
    and both: "queued_in organization c x \<and> queued_in organization c y"
  have old: "msg_window_from a = msg_window_from b \<and> msg_window_until a = msg_window_until b"
    if "a \<in> set (db_messages db)" "b \<in> set (db_messages db)" "queued_in organization c a" "queued_in organization c b" for a b
    using ok that unfolding messages_ok_def by blast
  have new: "msg_window_from a = msg_window_from m \<and> msg_window_until a = msg_window_until m"
    if "a \<in> set (db_messages db)" "queued_in organization c a" "queued_in organization c m" for a
    using window [of a] that by (simp add: queued_in_def queued_def)
  have "msg_window_from x = msg_window_from y \<and> msg_window_until x = msg_window_until y"
    using x y both old [of x y] new [of x] new [of y] by (cases "x = m"; cases "y = m") simp_all
  then show "msg_window_from x = msg_window_from y" "msg_window_until x = msg_window_until y" by simp_all
next
  fix x
  assume "x \<in> set (db_messages db @ [m])" "msg_investigation x \<noteq> None"
  with ok owner show "\<exists>r \<in> set (db_investigations db). answered_by x r"
    by (auto simp: messages_ok_def)
qed

lemma insert_message_Inr: "insert_message m db = Inr db' \<Longrightarrow> db' = db\<lparr>db_messages := db_messages db @ [m]\<rparr>"
  by (auto simp: insert_message_def split: if_splits)

lemma touch_conversation_simps [simp]:
  "db_messages (touch_conversation now organization c db) = db_messages db"
  "db_investigations (touch_conversation now organization c db) = db_investigations db"
  "db_events (touch_conversation now organization c db) = db_events db"
  "db_tool_runs (touch_conversation now organization c db) = db_tool_runs db"
  "db_jobs (touch_conversation now organization c db) = db_jobs db"
  "db_incidents (touch_conversation now organization c db) = db_incidents db"
  by (simp_all add: touch_conversation_def)

lemma work_inv_messages:
  assumes "work_inv maximum db" "messages_ok db'" "db_investigations db' = db_investigations db"
    and "db_events db' = db_events db" "db_jobs db' = db_jobs db" "db_incidents db' = db_incidents db"
  shows "work_inv maximum db'"
  using assms by (simp add: work_inv_def events_ok_def owned_ok_def)

lemma reply_keeps:
  assumes inv: "work_inv maximum db" and r: "keeps_fixed r r'" "r' \<in> set (db_investigations db)" "inv_org r = organization"
    and run: "reply_in_conversation now organization reply r db = Inr db'"
  shows "work_inv maximum db' \<and> work_evolves db db'"
proof (cases "inv_conversation r = None \<or> reply = []")
  case True
  with run inv show ?thesis by (auto simp: reply_in_conversation_def split: option.splits)
next
  case False
  then obtain c where c: "inv_conversation r = Some c" "reply \<noteq> []" by auto
  let ?m = "assistant_message now organization c reply r db"
  from run c have db': "db' = touch_conversation now organization c (db\<lparr>db_messages := db_messages db @ [?m]\<rparr>)"
    by (auto simp: reply_in_conversation_def dest!: insert_message_Inr split: sum.splits)
  have "answered_by ?m r'"
    using r c by (simp add: answered_by_def assistant_message_def keeps_fixed_def)
  moreover have "\<not> queued (msg_org ?m) ?m" by (simp add: queued_def assistant_message_def)
  ultimately have "messages_ok db'"
    using inv r(2) by - (rule messages_ok_insert [of db ?m], auto simp: db' work_inv_def assistant_message_def)
  then show ?thesis
    using inv by (auto simp: db' intro!: work_inv_messages [of maximum db] work_evolves_same [where rows = "[]"])
qed

lemma endInvestigation_Inr:
  assumes inv: "work_inv maximum db"
    and run: "endInvestigation now clock organization iid token status conclusion stoppedBy reason reply usage payload db = Inr db'"
  obtains r e where "r \<in> set (db_investigations db)" "held clock organization iid token r"
    "\<forall>x \<in> set (db_investigations db). held clock organization iid token x \<longrightarrow> x = r"
    "ie_investigation e = inv_id r" "ie_org e = inv_org r" "ie_type e = payload_EventType payload"
    "ie_sequence e = int (length (events_of (inv_id r) (db_events db))) + 1"
    "list_all snd (investigation_checks (ended now status conclusion stoppedBy reason usage r))"
    "reply_in_conversation now organization reply r
       (db\<lparr>db_investigations := update_where (held clock organization iid token)
             (ended now status conclusion stoppedBy reason usage) (db_investigations db),
           db_events := db_events db @ [e]\<rparr>) = Inr db'"
proof -
  let ?p = "held clock organization iid token" and ?f = "ended now status conclusion stoppedBy reason usage"
  let ?mid = "db\<lparr>db_investigations := update_where ?p ?f (db_investigations db)\<rparr>"
  note step = run [unfolded endInvestigation_def in_organization_Inr Let_def, THEN conjunct2]
  obtain r where find: "List.find (\<lambda>r. inv_id r = iid \<and> inv_org r = organization) (db_investigations db) = Some r"
    using step by (cases "List.find (\<lambda>r. inv_id r = iid \<and> inv_org r = organization) (db_investigations db)") simp_all
  note step = step [unfolded find option.case]
  obtain u where upd: "checked_update investigation_checks ?p ?f (db_investigations db) = Inr u"
    using step by (cases "checked_update investigation_checks ?p ?f (db_investigations db)") (simp_all split: if_splits)
  then have u: "u = update_where ?p ?f (db_investigations db)"
    and checks: "\<forall>x \<in> set (db_investigations db). ?p x \<longrightarrow> list_all snd (investigation_checks (?f x))"
    by (simp_all add: checked_update_Inr)
  note step = step [unfolded upd sum.case u]
  have some: "rows_affected ?p (db_investigations db) \<noteq> 0" using step by (simp split: if_splits)
  obtain db1 where app: "append_event now organization iid (payload_EventType payload) (payload_fields payload) ?mid = Inr db1"
    using step by (cases "append_event now organization iid (payload_EventType payload) (payload_fields payload) ?mid")
      (simp_all split: if_splits)
  have rep: "reply_in_conversation now organization reply r db1 = Inr db'"
    using step app by (cases "reply_in_conversation now organization reply r db1") (simp_all split: if_splits)
  from find have r: "r \<in> set (db_investigations db)" "inv_id r = iid" "inv_org r = organization"
    by (auto simp: find_Some_iff)
  from some obtain x where "x \<in> set (db_investigations db)" "?p x" by (auto simp: rows_affected_0)
  moreover have only: "\<forall>x \<in> set (db_investigations db). ?p x \<longrightarrow> x = r"
  proof (intro ballI impI)
    fix x
    assume "x \<in> set (db_investigations db)" "?p x"
    then show "x = r" using r by (intro same_row [OF inv _ r(1)]) (simp_all add: held_def)
  qed
  ultimately have held: "?p r" by metis
  obtain e where e: "db1 = ?mid\<lparr>db_events := db_events db @ [e]\<rparr>" "ie_investigation e = inv_id r" "ie_org e = inv_org r"
      "ie_type e = payload_EventType payload" "ie_sequence e = int (length (events_of (inv_id r) (db_events db))) + 1"
    by (rule append_event_Inr [of r ?mid]) (use work_invD(3) [OF inv r(1)] app r in auto)
  show ?thesis
    by (rule that [OF r(1) held only e(2-5)]) (use checks r(1) held rep e(1) in auto)
qed

text \<open>A status that ends an investigation goes with the event that says so.\<close>

lemma end_keeps_inv:
  assumes inv: "work_inv maximum db"
    and run: "endInvestigation now clock organization iid token status conclusion stoppedBy reason reply usage payload db = Inr db'"
    and kind: "ending_event status = Some (payload_EventType payload)" "status \<noteq> StatusCancelled"
  shows "work_inv maximum db' \<and> work_evolves db db'"
  using inv run
proof (cases rule: endInvestigation_Inr)
  case (1 r e)
  let ?p = "held clock organization iid token" and ?f = "ended now status conclusion stoppedBy reason usage"
  let ?mid = "db\<lparr>db_investigations := update_where ?p ?f (db_investigations db), db_events := db_events db @ [e]\<rparr>"
  have running: "inv_status r = StatusRunning" "inv_org r = organization" using 1(2) by (simp_all add: held_def)
  have st: "inv_status (?f x) = status" for x by (simp add: ended_def)
  have up: "row_update ?p ?f (db_investigations db)"
    by (rule row_update_one [where r = r]) (use 1(3,8) kind(1) running(1) st in \<open>auto simp: inv_evolves_def\<close>)
  have "tells (db_investigations db) (db_events db) [e] ?p ?f"
    by (rule tells_one [where r = r]) (simp_all add: 1 running(1) st kind(1))
  then have mid: "work_inv maximum ?mid \<and> work_evolves db ?mid"
    using kind(2) st by (intro update_keeps [OF inv up, of "[e]"]) simp_all
  have "?f r \<in> set (db_investigations ?mid)" using 1(1,2) by (auto simp: set_update_where)
  with reply_keeps [OF conjunct1 [OF mid], of r "?f r"] running 1(9) mid show ?thesis
    by (auto intro: work_evolves_trans)
qed

text \<open>Cancelling stops the relay work the investigation owns.\<close>

lemma cancel_row_stopped [simp]: "stopped (cancel_row now j)"
  by (simp add: stopped_def cancel_row_def split: option.splits)

lemma cancel_row_owner [simp]: "job_investigation (cancel_row now j) = job_investigation j"
  by (simp add: cancel_row_def)

lemma terminal_stopped: "terminal (job_status j) \<Longrightarrow> stopped j"
  by (simp add: stopped_def)

lemma cancelled_job:
  assumes "j' \<in> set (cancelInvestigationJobs now organization iid t)"
  obtains j where "j \<in> set t" "job_investigation j' = job_investigation j" "job_org j' = job_org j"
    "stopped j \<Longrightarrow> stopped j'" "job_org j = organization \<Longrightarrow> job_investigation j = Some iid \<Longrightarrow> stopped j'"
proof -
  from update_where_mem [OF assms [unfolded cancelInvestigationJobs_def]] obtain j where j: "j \<in> set t"
    "j' = (if job_org j = organization \<and> job_investigation j = Some iid \<and> \<not> terminal (job_status j)
           then cancel_row now j else j)" by blast
  show ?thesis by (rule that [OF j(1)]) (use j(2) terminal_stopped [of j] in \<open>auto split: if_splits\<close>)
qed

lemma owned_ok_cancel:
  assumes inv: "work_inv maximum db" and up: "row_update p f (db_investigations db)"
    and p: "\<And>r. p r \<longleftrightarrow> running_row organization iid r"
    and db': "db_investigations db' = update_where p f (db_investigations db)"
      "db_jobs db' = cancelInvestigationJobs now organization iid (db_jobs db)"
  shows "owned_ok db'"
  unfolding owned_ok_def db'
proof (intro conjI ballI impI allI)
  from inv have owned: "owned_ok db" by (simp add: work_inv_def)
  then show "jobs_inv (cancelInvestigationJobs now organization iid (db_jobs db))"
    unfolding cancelInvestigationJobs_def owned_ok_def
    by (intro cancel_where_keeps [THEN conjunct1]) auto
  fix j'
  assume "j' \<in> set (cancelInvestigationJobs now organization iid (db_jobs db))"
  then obtain j where j: "j \<in> set (db_jobs db)" "job_investigation j' = job_investigation j" "job_org j' = job_org j"
      "stopped j \<Longrightarrow> stopped j'" "job_org j = organization \<Longrightarrow> job_investigation j = Some iid \<Longrightarrow> stopped j'"
    by (rule cancelled_job) blast
  {
    fix r
    assume r: "r \<in> set (update_where p f (db_investigations db))"
      and mine: "job_investigation j' = Some (inv_id r) \<and> job_org j' = inv_org r \<and> inv_status r = StatusCancelled"
    from update_where_mem [OF r] obtain x where x: "x \<in> set (db_investigations db)" "r = (if p x then f x else x)" by blast
    show "stopped j'"
    proof (cases "p x")
      case True
      with x p [of x] mine j row_update_fixed [OF up, of x] show ?thesis by (auto simp: running_row_def)
    next
      case False
      with x owned mine j show ?thesis unfolding owned_ok_def by auto
    qed
  }
  fix i
  assume "job_investigation j' = Some i"
  with owned j obtain r where "r \<in> set (db_investigations db)" "inv_id r = i" "inv_org r = job_org j"
    unfolding owned_ok_def by metis
  moreover with rows_kept_update [OF up] obtain r' where "r' \<in> set (update_where p f (db_investigations db))" "keeps_fixed r r'"
    unfolding rows_kept_def by blast
  ultimately show "\<exists>r \<in> set (update_where p f (db_investigations db)). inv_id r = i \<and> inv_org r = job_org j'"
    using j(3) by (auto simp: keeps_fixed_def)
qed

lemma cancel_investigation_Inr:
  assumes inv: "work_inv maximum db" and run: "cancel_investigation uuid_string now organization iid db = Inr (v, target, detail, db')"
  obtains r e where "r \<in> set (db_investigations db)" "running_row organization iid r"
    "\<forall>x \<in> set (db_investigations db). running_row organization iid x \<longrightarrow> x = r"
    "list_all snd (investigation_checks (cancelled now r))"
    "ie_investigation e = inv_id r" "ie_org e = inv_org r" "ie_type e = EventCancelled"
    "ie_sequence e = int (length (events_of (inv_id r) (db_events db))) + 1"
    "v = scanInvestigation (cancelled now r)"
    "db' = db\<lparr>db_investigations := update_where (running_row organization iid) (cancelled now) (db_investigations db),
              db_jobs := cancelInvestigationJobs now organization iid (db_jobs db), db_events := db_events db @ [e]\<rparr>"
    "ie_at e = now" "ie_payload e = payload_fields CancelledPayload"
proof -
  let ?p = "running_row organization iid" and ?f = "cancelled now"
  let ?mid = "db\<lparr>db_investigations := update_where ?p ?f (db_investigations db),
                 db_jobs := cancelInvestigationJobs now organization iid (db_jobs db)\<rparr>"
  note step = run [unfolded cancel_investigation_def Let_def]
  obtain u where upd: "checked_update investigation_checks ?p ?f (db_investigations db) = Inr u"
    using step by (cases "checked_update investigation_checks ?p ?f (db_investigations db)") simp_all
  then have u: "u = update_where ?p ?f (db_investigations db)"
    and checks: "\<forall>x \<in> set (db_investigations db). ?p x \<longrightarrow> list_all snd (investigation_checks (?f x))"
    by (simp_all add: checked_update_Inr)
  note step = step [unfolded upd sum.case u]
  obtain r rest where sel: "filter ?p (db_investigations db) = r # rest"
    using step by (cases "filter ?p (db_investigations db)") simp_all
  note step = step [unfolded sel list.case]
  from filter_Cons_mem [OF sel] have r: "r \<in> set (db_investigations db)" "?p r" by simp_all
  then have names: "inv_id r = iid" "inv_org r = organization" by (simp_all add: running_row_def)
  have only: "\<forall>x \<in> set (db_investigations db). ?p x \<longrightarrow> x = r"
  proof (intro ballI impI)
    fix x
    assume "x \<in> set (db_investigations db)" "?p x"
    then show "x = r" using names by (intro same_row [OF inv _ r(1)]) (simp_all add: running_row_def)
  qed
  obtain db1 where app: "append_event now organization iid EventCancelled (payload_fields CancelledPayload) ?mid = Inr db1"
    using step by (cases "append_event now organization iid EventCancelled (payload_fields CancelledPayload) ?mid") simp_all
  obtain e where e: "db1 = ?mid\<lparr>db_events := db_events db @ [e]\<rparr>" "ie_investigation e = inv_id r" "ie_org e = inv_org r"
      "ie_type e = EventCancelled" "ie_sequence e = int (length (events_of (inv_id r) (db_events db))) + 1"
      "ie_at e = now" "ie_payload e = payload_fields CancelledPayload"
    by (rule append_event_Inr [of r ?mid]) (use work_invD(3) [OF inv r(1)] app names in auto)
  show ?thesis
    by (rule that [OF r only _ e(2-5)]) (use checks r step app e(1,6,7) in auto)
qed

lemma cancel_keeps_inv:
  assumes inv: "work_inv maximum db" and run: "cancel_investigation uuid_string now organization iid db = Inr (v, target, detail, db')"
  shows "work_inv maximum db' \<and> work_evolves db db'"
  using inv run
proof (cases rule: cancel_investigation_Inr)
  case (1 r e)
  let ?p = "running_row organization iid" and ?f = "cancelled now"
  have running: "inv_status r = StatusRunning" using 1(2) by (simp add: running_row_def)
  have st: "inv_status (?f x) = StatusCancelled" for x by (simp add: cancelled_def)
  have up: "row_update ?p ?f (db_investigations db)"
    by (rule row_update_one [where r = r]) (use 1(3,4) running st in \<open>auto simp: inv_evolves_def\<close>)
  have es: "tells (db_investigations db) (db_events db) [e] ?p ?f"
    by (rule tells_one [where r = r]) (simp_all add: 1 running st)
  show ?thesis
    by (rule update_keeps_owned [OF inv up es]) (use owned_ok_cancel [OF inv up refl] 1(10) in simp_all)
qed

section \<open>Recovery\<close>

definition failed_event :: "instant \<Rightarrow> string \<Rightarrow> event_row list \<Rightarrow> investigation_row \<Rightarrow> event_row" where
  "failed_event now reason before r =
     \<lparr>ie_investigation = inv_id r, ie_org = inv_org r,
      ie_sequence = int (length (events_of (inv_id r) before)) + 1, ie_at = now, ie_type = EventFailed,
      ie_payload = payload_fields (FailedPayload reason)\<rparr>"

lemma end_streams_Inr:
  assumes "\<forall>r \<in> set rows. numbered (map ie_sequence (events_of (inv_id r) (db_events db)))"
    and "distinct (map inv_id rows)" "end_streams now reason rows db = Inr db'"
  shows "db' = db\<lparr>db_events := db_events db @ map (failed_event now reason (db_events db)) rows\<rparr>"
  using assms
proof (induction rows arbitrary: db)
  case (Cons r rows)
  let ?e = "failed_event now reason (db_events db) r"
  let ?db = "db\<lparr>db_events := db_events db @ [?e]\<rparr>"
  have "next_event_sequence (\<lambda>e. ie_investigation e = inv_id r) (db_events db)
      = int (length (events_of (inv_id r) (db_events db))) + 1"
    using Cons.prems(1) unfolding events_of_def by (subst next_event_numbered) simp_all
  with Cons.prems(3) have rest: "end_streams now reason rows ?db = Inr db'"
    by (auto simp: failed_event_def split: sum.splits dest!: insert_event_Inr)
  have other: "events_of (inv_id x) (db_events ?db) = events_of (inv_id x) (db_events db)" if "x \<in> set rows" for x
    using Cons.prems(2) that by (auto simp: events_of_def failed_event_def)
  then have "db' = ?db\<lparr>db_events := db_events ?db @ map (failed_event now reason (db_events ?db)) rows\<rparr>"
    using Cons.prems(1,2) by (intro Cons.IH [OF _ _ rest]) auto
  moreover have "map (failed_event now reason (db_events ?db)) rows = map (failed_event now reason (db_events db)) rows"
    using other by (intro map_cong) (auto simp: failed_event_def)
  ultimately show ?case by simp
qed simp

lemma lapsed_selection_mem:
  assumes "work_inv maximum db" "r \<in> set (db_investigations db)"
    and "inv_id r \<in> inv_id ` set (lapsed_selection now locked limit (db_investigations db))"
  shows "r \<in> set (lapsed_selection now locked limit (db_investigations db))" "lapsed now r" "\<not> locked (inv_id r)"
proof -
  let ?s = "lapsed_selection now locked limit (db_investigations db)"
  have sub: "set ?s \<subseteq> {r \<in> set (db_investigations db). lapsed now r \<and> \<not> locked (inv_id r)}"
    unfolding lapsed_selection_def by (rule subset_trans [OF set_take_subset]) auto
  from assms(3) obtain x where x: "x \<in> set ?s" "inv_id x = inv_id r" by auto
  with sub assms(1,2) have "x = r" by (intro same_row [OF assms(1)]) auto
  with x sub show "r \<in> set ?s" "lapsed now r" "\<not> locked (inv_id r)" by auto
qed

lemma recoverStaleIn_Inr:
  assumes inv: "work_inv maximum db" and run: "recoverStaleIn now locked reason limit db = Inr (n, db')" and limit: "0 < limit"
  defines "p \<equiv> \<lambda>r. inv_id r \<in> inv_id ` set (lapsed_selection now locked limit (db_investigations db))"
  shows "n = rows_affected p (db_investigations db)"
    "db' = db\<lparr>db_investigations := update_where p (recovered now reason) (db_investigations db),
              db_events := db_events db @ map (failed_event now reason (db_events db)) (filter p (db_investigations db))\<rparr>"
    "\<forall>r \<in> set (db_investigations db). p r \<longrightarrow> list_all snd (investigation_checks (recovered now reason r))"
proof -
  note step = run [unfolded recoverStaleIn_def Let_def, folded p_def]
  let ?mid = "db\<lparr>db_investigations := update_where p (recovered now reason) (db_investigations db)\<rparr>"
  obtain u where upd: "checked_update investigation_checks p (recovered now reason) (db_investigations db) = Inr u"
    using step limit by (cases "checked_update investigation_checks p (recovered now reason) (db_investigations db)") simp_all
  then have u: "u = update_where p (recovered now reason) (db_investigations db)"
    and checks: "\<forall>r \<in> set (db_investigations db). p r \<longrightarrow> list_all snd (investigation_checks (recovered now reason r))"
    by (simp_all add: checked_update_Inr)
  obtain db1 where ends: "end_streams now reason (filter p (db_investigations db)) ?mid = Inr db1"
    using step limit upd u by (cases "end_streams now reason (filter p (db_investigations db)) ?mid") simp_all
  from step limit upd u ends show "n = rows_affected p (db_investigations db)"
    by (simp add: rows_affected_def)
  have "db1 = ?mid\<lparr>db_events := db_events ?mid @ map (failed_event now reason (db_events ?mid)) (filter p (db_investigations db))\<rparr>"
    using work_invD(1,3) [OF inv] by (intro end_streams_Inr [OF _ _ ends]) (auto simp: stream_ok_def distinct_map inj_on_def)
  with step limit upd u ends
  show "db' = db\<lparr>db_investigations := update_where p (recovered now reason) (db_investigations db),
              db_events := db_events db @ map (failed_event now reason (db_events db)) (filter p (db_investigations db))\<rparr>"
    by simp
  show "\<forall>r \<in> set (db_investigations db). p r \<longrightarrow> list_all snd (investigation_checks (recovered now reason r))" by (rule checks)
qed

lemma recoverStaleIn_keeps:
  assumes inv: "work_inv maximum db" and run: "recoverStaleIn now locked reason limit db = Inr (n, db')" and limit: "0 < limit"
  shows "work_inv maximum db' \<and> work_evolves db db'"
proof -
  let ?p = "\<lambda>r. inv_id r \<in> inv_id ` set (lapsed_selection now locked limit (db_investigations db))"
  note result = recoverStaleIn_Inr [OF inv run limit]
  have chosen: "inv_status r = StatusRunning" if "r \<in> set (db_investigations db)" "?p r" for r
    using lapsed_selection_mem(2) [OF inv that] by (simp add: lapsed_def)
  have st: "inv_status (recovered now reason r) = StatusFailed" for r by (simp add: recovered_def)
  have up: "row_update ?p (recovered now reason) (db_investigations db)"
    unfolding row_update_def using result(3) chosen st by (simp add: inv_evolves_def)
  have es: "tells (db_investigations db) (db_events db)
      (map (failed_event now reason (db_events db)) (filter ?p (db_investigations db))) ?p (recovered now reason)"
    unfolding tells_def
  proof (intro conjI)
    show "distinct (map ie_investigation (map (failed_event now reason (db_events db)) (filter ?p (db_investigations db))))"
      using distinct_map_filter [OF work_invD(1) [OF inv], of ?p] by (simp add: comp_def failed_event_def)
    have names: "ie_investigation (failed_event now reason (db_events db) r) = inv_id r" for r
      by (simp add: failed_event_def)
    then have "inv_id r \<in> ie_investigation ` set (map (failed_event now reason (db_events db)) (filter ?p (db_investigations db)))"
      if "r \<in> set (db_investigations db)" "?p r" for r
      using that by (intro image_eqI [of _ _ "failed_event now reason (db_events db) r"]) auto
    then show "\<forall>r \<in> set (db_investigations db). ?p r \<and> inv_id r \<notin> ie_investigation ` set (map (failed_event now reason (db_events db))
        (filter ?p (db_investigations db))) \<longrightarrow> inv_status (recovered now reason r) = inv_status r"
      by blast
  qed (use chosen st in \<open>auto simp: failed_event_def Terminal_def\<close>)
  show ?thesis by (rule update_keeps [OF inv up es]) (simp_all add: result(2) st)
qed

lemma recover_keeps_inv:
  assumes "work_inv maximum db" "RecoverStale now locked reason limit db = Inr (n, db')"
  shows "work_inv maximum db' \<and> work_evolves db db'"
  using recoverStaleIn_keeps [OF assms(1) assms(2) [unfolded RecoverStale_def]] by simp

section \<open>Openings\<close>

lemma insert_investigation_Inr:
  assumes "insert_investigation r db = Inr db'"
  shows "db' = db\<lparr>db_investigations := db_investigations db @ [r]\<rparr>"
    "list_all snd (investigation_checks r)" "investigation_clash r (db_investigations db) = None"
  using assms by (auto simp: insert_investigation_def violated_None split: option.splits if_splits)

lemma clash_None:
  assumes "investigation_clash r t = None"
  shows "inv_id r \<notin> inv_id ` set t"
    "inv_conversation r \<noteq> None \<Longrightarrow> inv_status r = StatusRunning \<Longrightarrow> x \<in> set t \<Longrightarrow>
       \<not> (inv_org x = inv_org r \<and> inv_conversation x = inv_conversation r \<and> inv_status x = StatusRunning)"
  using assms by (auto simp: investigation_clash_def list_ex_iff split: if_splits)

lemma reserve_room:
  assumes "reserveWaitingInvestigations organization maximum n db = Inr ()" "maximum > 0"
  shows "int (rows_affected (waiting organization) (db_investigations db)) + n \<le> maximum"
  using assms by (simp add: reserveWaitingInvestigations_def split: if_splits)

lemma reserved_Inr:
  "reserved renamed organization maximum n db body = Inr v \<longleftrightarrow>
     reserveWaitingInvestigations organization maximum n db = Inr () \<and> body = Inr v"
  by (auto simp: reserved_def split: sum.splits)

lemma turns_ok_insert:
  assumes ok: "turns_ok t" and fresh: "investigation_clash r t = None" and run: "inv_status r = StatusRunning"
    and turn: "\<And>c. inv_conversation r = Some c \<Longrightarrow> inv_turn r = Some (next_turn (inv_org r) c t)"
  shows "turns_ok (t @ [r])"
  unfolding turns_ok_def
proof (intro conjI allI)
  fix organization c
  have num: "numbered (turns_of organization c t)" using ok by (simp add: turns_ok_def)
  have "next_turn organization c t = int (length (turns_of organization c t)) + 1"
    using numbered_next [OF num] by (simp add: next_turn_def turns_of_def)
  with num turn [of c] show "numbered (turns_of organization c (t @ [r]))"
    by (auto simp: turns_of_def intro!: numbered_snoc)
  let ?q = "\<lambda>r. inv_org r = organization \<and> inv_conversation r = Some c \<and> inv_status r = StatusRunning"
  have "filter ?q t = []" if "?q r"
    using clash_None(2) [OF fresh] that run by (auto simp: filter_empty_conv)
  then show "length (filter ?q (t @ [r])) \<le> 1" using ok by (auto simp: turns_ok_def)
qed

lemma insert_keeps:
  assumes inv: "work_inv maximum db" and run: "insert_investigation r db = Inr db'"
    and live: "inv_status r = StatusRunning"
    and turn: "\<And>c. inv_conversation r = Some c \<Longrightarrow> inv_turn r = Some (next_turn (inv_org r) c (db_investigations db))"
    and room: "maximum > 0 \<Longrightarrow> int (rows_affected (waiting (inv_org r)) (db_investigations db)) + 1 \<le> maximum"
  shows "work_inv maximum db' \<and> work_evolves db db'"
proof -
  note result = insert_investigation_Inr [OF run]
  note fresh = clash_None(1) [OF result(3)]
  have "rows_ok (db_investigations db')" using inv fresh result(1,2) by (auto simp: work_inv_def rows_ok_def)
  moreover have "events_ok db'"
  proof -
    have ok: "events_ok db" using inv by (simp add: work_inv_def)
    with fresh have "inv_id r \<notin> ie_investigation ` set (db_events db)" by (auto simp: events_ok_def)
    then have "events_of (inv_id r) (db_events db) = []" by (force simp: events_of_def filter_empty_conv)
    with ok live show ?thesis by (auto simp: result(1) events_ok_def stream_ok_def)
  qed
  moreover have "turns_ok (db_investigations db')"
    using inv turn live result(3) unfolding result(1) by (simp add: work_inv_def turns_ok_insert)
  moreover have "messages_ok db'"
    using inv by - (rule messages_ok_rows [of db], simp_all add: result(1) work_inv_def)
  moreover have "owned_ok db'"
    using inv live by - (rule owned_ok_rows [of db], auto simp: result(1) work_inv_def)
  moreover have "capacity_ok maximum (db_investigations db')"
    using inv room by (auto simp: result(1) work_inv_def capacity_ok_def rows_affected_def waiting_def)
  moreover have "work_evolves db db'" by (rule work_evolves_same [where rows = "[r]"]) (simp_all add: result(1))
  moreover have "distinct (map inc_id (db_incidents db'))" using inv by (simp add: work_inv_def result(1))
  ultimately show ?thesis by (simp add: work_inv_def)
qed

lemma create_keeps_inv:
  assumes inv: "work_inv maximum db"
    and run: "create_investigation uuid_string now iid organization wanted maximum db = Inr (v, target, detail, db')"
  shows "work_inv maximum db' \<and> work_evolves db db'"
proof -
  let ?r = "blank_investigation now iid organization (nullableUUID (new_IncidentID wanted)) (new_Subject wanted)
    (new_WindowFrom wanted) (new_WindowUntil wanted)"
  from run have "reserveWaitingInvestigations organization maximum 1 db = Inr ()" "insert_investigation ?r db = Inr db'"
    by (auto simp: create_investigation_def reserved_Inr Let_def split: sum.splits sql_error.splits)
  with reserve_room [of organization maximum 1 db] show ?thesis
    by (intro insert_keeps [OF inv, of ?r]) (simp_all add: blank_investigation_def)
qed

lemma insert_investigations_keeps:
  assumes "work_inv maximum db" "insert_investigations rows db = Inr db'"
    and "\<forall>r \<in> set rows. inv_status r = StatusRunning \<and> inv_conversation r = None \<and> inv_org r = organization"
    and "maximum > 0 \<Longrightarrow> int (rows_affected (waiting organization) (db_investigations db)) + int (length rows) \<le> maximum"
  shows "work_inv maximum db' \<and> work_evolves db db'"
  using assms
proof (induction rows arbitrary: db)
  case (Cons r rows)
  from Cons.prems(2) obtain db1 where first: "insert_investigation r db = Inr db1" and rest: "insert_investigations rows db1 = Inr db'"
    by (auto split: sum.splits)
  have one: "work_inv maximum db1 \<and> work_evolves db db1"
    using Cons.prems by (intro insert_keeps [OF Cons.prems(1) first]) auto
  have "rows_affected (waiting organization) (db_investigations db1)
      \<le> rows_affected (waiting organization) (db_investigations db) + 1"
    by (simp add: insert_investigation_Inr(1) [OF first] rows_affected_def)
  then have "work_inv maximum db' \<and> work_evolves db1 db'"
    using Cons.prems one by (intro Cons.IH [OF _ rest]) auto
  with one work_evolves_trans show ?case by blast
qed simp

lemma length_filter_keys:
  assumes "distinct (map k t)"
  shows "length (filter (\<lambda>x. p x \<and> k x \<in> set keys) t) \<le> length keys"
proof -
  let ?s = "filter (\<lambda>x. p x \<and> k x \<in> set keys) t"
  have "length ?s = card (set (map k ?s))"
    using distinct_card [OF distinct_map_filter [OF assms, of "\<lambda>x. p x \<and> k x \<in> set keys"]] by simp
  also have "\<dots> \<le> card (set keys)" by (rule card_mono) auto
  also have "\<dots> \<le> length keys" by (rule card_length)
  finally show ?thesis .
qed

lemma alerts_keeps_inv:
  assumes inv: "work_inv maximum db" and run: "openAlertInvestigations now fresh organization incidents policy db = Inr db'"
    and same: "policy_MaximumPending policy = maximum"
  shows "work_inv maximum db' \<and> work_evolves db db'"
proof (cases "incidents = [] \<or> \<not> policy_AgentAvailable policy")
  case True
  with run inv show ?thesis by (auto simp: openAlertInvestigations_def)
next
  case False
  let ?found = "filter (\<lambda>x. inc_org x = organization \<and> inc_id x \<in> set incidents) (db_incidents db)"
  from run False have reserve: "reserveWaitingInvestigations organization maximum (int (length incidents)) db = Inr ()"
    and ins: "insert_investigations (map (automatic_row now fresh (policy_WindowLead policy)) ?found) db = Inr db'"
    unfolding openAlertInvestigations_def by (auto simp: reserved_Inr same split: if_splits sum.splits)
  have "distinct (map inc_id (db_incidents db))" using inv by (simp add: work_inv_def)
  from length_filter_keys [OF this, of "\<lambda>x. inc_org x = organization" incidents]
  have "int (length ?found) \<le> int (length incidents)" by simp
  with reserve_room [OF reserve] show ?thesis
    by (intro insert_investigations_keeps [OF inv ins, of organization])
       (auto simp: automatic_row_def blank_investigation_def)
qed

section \<open>Messages and turns\<close>

lemma queue_of_set: "set (queue_of organization c db) = {m \<in> set (db_messages db). queued_in organization c m}"
  by (auto simp: queue_of_def)

lemma queue_window:
  assumes "messages_ok db" "m \<in> set (queue_of organization c db)" "m' \<in> set (db_messages db)" "queued_in organization c m'"
  shows "msg_window_from m' = msg_window_from m" "msg_window_until m' = msg_window_until m"
  using assms unfolding messages_ok_def queue_of_set by blast+

text \<open>While something is queued, an accepted window is the window of the queue.\<close>

lemma acceptedWindow_queue:
  assumes "messages_ok db" "acceptedWindow go_now go_later organization c asked lead db = Inr w"
    and "m' \<in> set (db_messages db)" "queued_in organization c m'"
  shows "msg_window_from m' = window_From w \<and> msg_window_until m' = window_Until w"
proof (cases "queue_of organization c db")
  case Nil
  with assms(3,4) queue_of_set [of organization c db] show ?thesis by auto
next
  case (Cons m rest)
  with assms(2) have "w = \<lparr>window_From = msg_window_from m, window_Until = msg_window_until m\<rparr>"
    by (auto simp: acceptedWindow_def Let_def split: if_splits)
  with queue_window [OF assms(1) _ assms(3,4), of m] Cons show ?thesis by simp
qed

lemma put_message_Inr:
  assumes "put_message now go_now go_later organization c said provider lead db = Inr (m, db')"
  obtains w where "has_conversation organization c db"
    "acceptedWindow go_now go_later organization c (said_Window said) lead db = Inr w"
    "m = said_message now organization c said provider w db"
    "db' = touch_conversation now organization c (db\<lparr>db_messages := db_messages db @ [m]\<rparr>)"
    "msg_window_from m < msg_window_until m"
  using assms
  by (auto simp: put_message_def lockConversation_def Let_def insert_message_def split: sum.splits if_splits)

lemma put_message_keeps:
  assumes inv: "work_inv maximum db" and run: "put_message now go_now go_later organization c said provider lead db = Inr (m, db')"
    and room: "said_Role said = RoleUser \<Longrightarrow> reserveQueuedMessage organization db = Inr ()"
  shows "work_inv maximum db' \<and> work_evolves db db'"
  using run
proof (cases rule: put_message_Inr)
  case (1 w)
  have m: "msg_org m = organization" "msg_conversation m = c" "msg_investigation m = None" "msg_role m = said_Role said"
      "msg_sequence m = next_message_sequence organization c (db_messages db)"
      "msg_window_from m = window_From w" "msg_window_until m = window_Until w"
    by (simp_all add: 1(3) said_message_def)
  have ok: "messages_ok db" using inv by (simp add: work_inv_def)
  have "messages_ok db'"
  proof (rule messages_ok_insert [OF ok, of m])
    show "rows_affected (queued (msg_org m)) (db_messages db) < maxQueuedMessages" if "queued (msg_org m) m"
      using that room m by (auto simp: queued_def reserveQueuedMessage_def split: if_splits)
    show "msg_window_from x = msg_window_from m \<and> msg_window_until x = msg_window_until m"
      if "x \<in> set (db_messages db)" "queued_in (msg_org m) (msg_conversation m) x" for x
      using acceptedWindow_queue [OF ok 1(2) that(1)] that(2) m by simp
  qed (simp_all add: m 1(4))
  then show ?thesis
    using inv by (auto simp: 1(4) intro!: work_inv_messages [of maximum db] work_evolves_same [where rows = "[]"])
qed

lemma openTurn_Inr:
  assumes "openTurn now iid organization c db = Inr (turn, db')"
  obtains (none) "turn = None" "db' = db"
  | (some) x m rest db1 where "conv_id x = c" "conv_org x = organization" "x \<in> set (db_conversations db)"
      "queue_of organization c db = m # rest" "\<not> turn_running organization c db"
      "insert_investigation (turn_row now iid organization x m db) db = Inr db1"
      "turn = Some \<lparr>turn_InvestigationID = iid, turn_Ordinal = next_turn organization c (db_investigations db),
                    turn_Status = ''queued'', turn_CreatedAt = now\<rparr>"
      "db' = attach_queued iid organization c (queuedBatch organization c db) db1"
proof -
  note step = assms [unfolded openTurn_def Let_def]
  obtain x where find: "List.find (\<lambda>x. conv_id x = c \<and> conv_org x = organization) (db_conversations db) = Some x"
    using step by (cases "List.find (\<lambda>x. conv_id x = c \<and> conv_org x = organization) (db_conversations db)") simp_all
  then have x: "conv_id x = c" "conv_org x = organization" "x \<in> set (db_conversations db)" by (auto simp: find_Some_iff)
  note step = step [unfolded find option.case]
  show ?thesis
  proof (cases "turn_running organization c db \<or> queuedBatch organization c db = 0")
    case True
    with step none show ?thesis by (auto split: if_splits)
  next
    case False
    with step obtain m rest where q: "queue_of organization c db = m # rest"
      by (cases "queue_of organization c db") simp_all
    from step False q obtain db1 where "insert_investigation (turn_row now iid organization x m db) db = Inr db1"
      by (cases "insert_investigation (turn_row now iid organization x m db) db") (simp_all split: if_splits)
    with step False q x some show ?thesis by (auto simp: PublicStatus_def split: if_splits)
  qed
qed

lemma attach_keeps:
  assumes inv: "work_inv maximum db" and r: "r \<in> set (db_investigations db)" "inv_id r = iid" "inv_org r = organization"
      "inv_conversation r = Some c"
    and window: "\<And>m. m \<in> set (db_messages db) \<Longrightarrow> queued_in organization c m \<Longrightarrow>
      msg_window_from m = inv_window_from r \<and> msg_window_until m = inv_window_until r"
  shows "work_inv maximum (attach_queued iid organization c bound db) \<and> work_evolves db (attach_queued iid organization c bound db)"
proof -
  let ?p = "\<lambda>m. queued_in organization c m \<and> msg_sequence m \<le> bound"
  let ?f = "msg_investigation_update (\<lambda>_. Some iid)"
  let ?t = "update_where ?p ?f (db_messages db)"
  have ok: "messages_ok db" using inv by (simp add: work_inv_def)
  have "messages_ok (attach_queued iid organization c bound db)"
    unfolding messages_ok_def attach_queued_def
  proof (simp, intro conjI allI ballI impI)
    fix org' c'
    have "messages_of org' c' ?t = update_where ?p ?f (messages_of org' c' (db_messages db))"
      unfolding messages_of_def by (rule filter_update_same) simp
    then have "map msg_sequence (messages_of org' c' ?t) = map msg_sequence (messages_of org' c' (db_messages db))"
      by (simp add: map_update_where)
    with ok show "numbered (map msg_sequence (messages_of org' c' ?t))" by (simp add: messages_ok_def)
    have "length (filter (queued org') ?t) \<le> length (filter (queued org') (db_messages db))"
      by (rule length_filter_update_le) (simp add: queued_def)
    with ok show "rows_affected (queued org') ?t \<le> maxQueuedMessages"
      unfolding messages_ok_def rows_affected_def by (meson order_trans)
  next
    fix org' c' x y
    assume x: "x \<in> set ?t" and y: "y \<in> set ?t" and both: "queued_in org' c' x \<and> queued_in org' c' y"
    have old: "z \<in> set (db_messages db)" if "z \<in> set ?t" "queued_in org' c' z" for z
      using update_where_mem [OF that(1)] that(2) by (auto simp: queued_in_def queued_def split: if_splits)
    from ok old [OF x] old [OF y] both
    show "msg_window_from x = msg_window_from y" "msg_window_until x = msg_window_until y"
      unfolding messages_ok_def by blast+
  next
    fix x
    assume x: "x \<in> set ?t" and given: "\<exists>y. msg_investigation x = Some y"
    from update_where_mem [OF x] obtain z where z: "z \<in> set (db_messages db)" "x = (if ?p z then ?f z else z)" by blast
    show "\<exists>r \<in> set (db_investigations db). answered_by x r"
    proof (cases "?p z")
      case True
      with z(2) r window [OF z(1)] have "answered_by x r"
        by (auto simp: answered_by_def queued_in_def queued_def)
      with r(1) show ?thesis ..
    next
      case False
      with z given ok show ?thesis unfolding messages_ok_def by auto
    qed
  qed
  with inv show ?thesis
    by (auto simp: attach_queued_def intro!: work_inv_messages [of maximum db] work_evolves_same [where rows = "[]"])
qed

lemma turn_keeps_inv:
  assumes inv: "work_inv maximum db" and room: "reserveWaitingInvestigations organization maximum 1 db = Inr ()"
    and run: "openTurn now iid organization c db = Inr (turn, db')"
  shows "work_inv maximum db' \<and> work_evolves db db'"
  using run
proof (cases rule: openTurn_Inr)
  case none
  with inv show ?thesis by simp
next
  case (some x m rest db1)
  let ?r = "turn_row now iid organization x m db"
  have r: "inv_id ?r = iid" "inv_org ?r = organization" "inv_conversation ?r = Some c" "inv_status ?r = StatusRunning"
      "inv_turn ?r = Some (next_turn organization c (db_investigations db))"
      "inv_window_from ?r = msg_window_from m" "inv_window_until ?r = msg_window_until m"
    using some(1) by (simp_all add: turn_row_def blank_investigation_def)
  have one: "work_inv maximum db1 \<and> work_evolves db db1"
    using r reserve_room [OF room] by (intro insert_keeps [OF inv some(6)]) simp_all
  have db1: "db1 = db\<lparr>db_investigations := db_investigations db @ [?r]\<rparr>" by (rule insert_investigation_Inr(1) [OF some(6)])
  have "messages_ok db" "m \<in> set (queue_of organization c db)" using inv some(4) by (simp_all add: work_inv_def)
  note window = queue_window [OF this]
  have "work_inv maximum db' \<and> work_evolves db1 db'"
    unfolding some(8) using r window by (intro attach_keeps [OF conjunct1 [OF one], of ?r]) (auto simp: db1)
  with one work_evolves_trans show ?thesis by blast
qed

lemma appendMessage_put:
  assumes "appendMessage now go_now go_later organization c said lead db = Inr (m, db')"
  shows "put_message now go_now go_later organization c said [] lead db = Inr (m, db')"
    "said_Role said = RoleUser \<Longrightarrow> reserveQueuedMessage organization db = Inr ()"
  using assms by (auto simp: appendMessage_def split: if_splits)

lemma append_and_open_Inr:
  assumes "append_and_open uuid_string now go_now go_later iid organization c said lead maximum db = Inr (v, target, detail, db')"
  obtains m turn db1 where "reserveWaitingInvestigations organization maximum 1 db = Inr ()"
    "appendMessage now go_now go_later organization c said lead db = Inr (m, db1)"
    "openTurn now iid organization c db1 = Inr (turn, db')" "v = (m, turn)"
proof -
  note step = assms [unfolded append_and_open_def]
  have "validateAuthenticatedAppend organization c db = Inr ()"
    using step by (cases "validateAuthenticatedAppend organization c db") simp_all
  note step = step [unfolded this sum.case reserved_Inr]
  obtain m db1 where "appendMessage now go_now go_later organization c said lead db = Inr (m, db1)"
    using step by (cases "appendMessage now go_now go_later organization c said lead db") auto
  moreover with step obtain turn db2 where "openTurn now iid organization c db1 = Inr (turn, db2)"
    by (cases "openTurn now iid organization c db1") auto
  ultimately show ?thesis using step by (intro that) auto
qed

lemma put_message_investigations:
  "put_message now go_now go_later organization c said provider lead db = Inr (m, db') \<Longrightarrow>
     db_investigations db' = db_investigations db"
  by (erule put_message_Inr) simp

lemma web_message_keeps_inv:
  assumes inv: "work_inv maximum db"
    and run: "append_and_open uuid_string now go_now go_later iid organization c said lead maximum db = Inr (v, target, detail, db')"
  shows "work_inv maximum db' \<and> work_evolves db db'"
  using run
proof (cases rule: append_and_open_Inr)
  case (1 m turn db1)
  note put = appendMessage_put [OF 1(2)]
  have mid: "work_inv maximum db1 \<and> work_evolves db db1" by (rule put_message_keeps [OF inv put])
  have "reserveWaitingInvestigations organization maximum 1 db1 = Inr ()"
    using 1(1) put_message_investigations [OF put(1)] by (simp only: reserveWaitingInvestigations_def)
  with mid 1(3) turn_keeps_inv [of maximum db1] work_evolves_trans show ?thesis by blast
qed

section \<open>Relay jobs\<close>

lemma stopped_changes [simp]:
  "stopped (lease_to now c j) \<longleftrightarrow> job_cancel_requested_at j \<noteq> None" "stopped (released j) \<longleftrightarrow> job_cancel_requested_at j \<noteq> None"
  "stopped (adopted now a j) \<longleftrightarrow> stopped j" "terminal (outcome_Status outcome) \<Longrightarrow> stopped (finished now outcome j)"
  by (simp_all add: stopped_def lease_to_def released_def adopted_def finished_def)

lemma owner_changes [simp]:
  "job_investigation (lease_to now c j) = job_investigation j" "job_investigation (released j) = job_investigation j"
  "job_investigation (adopted now a j) = job_investigation j" "job_investigation (finished now outcome j) = job_investigation j"
  "job_org (lease_to now c j) = job_org j" "job_org (released j) = job_org j"
  "job_org (adopted now a j) = job_org j" "job_org (finished now outcome j) = job_org j"
  by (simp_all add: lease_to_def released_def adopted_def finished_def)

text \<open>A statement on the queue keeps every job's owner and does not undo a stop.\<close>

definition job_continues :: "relay_job \<Rightarrow> relay_job \<Rightarrow> bool" where
  "job_continues j j' \<longleftrightarrow>
     job_investigation j' = job_investigation j \<and> job_org j' = job_org j \<and> (stopped j \<longrightarrow> stopped j')"

lemma job_continues_update:
  assumes "j' \<in> set (update_where p f t)" "\<And>j. j \<in> set t \<Longrightarrow> p j \<Longrightarrow> job_continues j (f j)"
  shows "\<exists>j \<in> set t. job_continues j j'"
proof -
  from update_where_mem [OF assms(1)] obtain j where "j \<in> set t" "j' = (if p j then f j else j)" by blast
  with assms(2) [of j] show ?thesis by (intro bexI [of _ j]) (auto simp: job_continues_def)
qed

lemma claim_continues:
  assumes inv: "jobs_inv t" and run: "ClaimJobs now locked organization c t = Inr (jobs, t')" and mem: "j' \<in> set t'"
  shows "\<exists>j \<in> set t. job_continues j j'"
proof (rule job_continues_update [OF mem [unfolded ClaimJobs_result(1) [OF run]]])
  fix j
  assume j: "j \<in> set t" "job_id j \<in> job_id ` set (claim_selection now locked organization c t)"
  have "distinct (map job_id t)" using inv by (simp add: jobs_inv_def)
  with j have "claimable now organization (claim_RegistrationID c) j" by (intro chosen_claimable(2))
  then have "\<not> terminal (job_status j)" by (rule claimable_open)
  then show "job_continues j (lease_to now c j)" by (auto simp: job_continues_def) (simp add: stopped_def)
qed

lemma job_step_continues:
  assumes "job_step t t'" "jobs_inv t" "length t' = length t" "j' \<in> set t'"
  shows "\<exists>j \<in> set t. job_continues j j'"
  using assms
proof (induction rule: job_step.induct)
  case (enqueue now organization job ints invs t t')
  then show ?case by (auto simp: EnqueueVerifiedJob_def split: if_splits list.splits)
next
  case (claim now locked organization c t jobs t')
  then show ?case by (intro claim_continues)
next
  case (adopt now organization a t ids t')
  then have "t' = t \<or> t' = update_where (declared_in_flight organization a) (adopted now a) t"
    by (auto simp: AdoptInFlightLeases_def split: if_splits)
  with adopt.prems show ?case
    using job_continues_update [of j' _ _ t] by (auto simp: job_continues_def)
next
  case (release organization registration holder t n t')
  then have t': "t' = update_where (stranded organization registration holder) released t"
    by (auto simp: ReleaseStrandedLeases_def Let_def split: if_splits)
  show ?case
    by (rule job_continues_update [OF release.prems(3) [unfolded t']])
       (auto simp: job_continues_def stranded_def, simp add: stopped_def)
next
  case (cancel now organization jobID t v t')
  then have t': "t' = update_where (cancellable organization jobID) (cancel_row now) t"
    by (auto simp: RequestJobCancellation_def Let_def split: list.splits if_splits)
  show ?case by (rule job_continues_update [OF cancel.prems(3) [unfolded t']]) (simp add: job_continues_def)
next
  case (cancel_investigation t now organization investigation)
  then show ?case
    unfolding cancelInvestigationJobs_def
    by - (rule job_continues_update [where f = "cancel_row now"], assumption, simp add: job_continues_def)
next
  case (record_result now organization fence outcome t later v t')
  from RecordResult_result [OF record_result.hyps] record_result.prems(3) show ?case
  proof (elim disjE conjE)
    assume "t' = update_where (fence_holds organization fence) (finished now outcome) t" "terminal (outcome_Status outcome)"
    with record_result.prems(3) show ?thesis
      by (intro job_continues_update [of j' "fence_holds organization fence" "finished now outcome"]) (auto simp: job_continues_def)
  next
    assume "t' = update_where (fence_holds organization fence) (finished now outcome) t"
      "rows_affected (fence_holds organization fence) t = 0"
    then have "t' = t" by (simp add: update_where_no_match rows_affected_0)
    with record_result.prems(3) show ?thesis by (auto simp: job_continues_def)
  qed (auto simp: job_continues_def)
qed

lemma queue_keeps_inv:
  assumes inv: "work_inv maximum db" and run: "job_step (db_jobs db) jobs" "length jobs = length (db_jobs db)"
  shows "work_inv maximum (db\<lparr>db_jobs := jobs\<rparr>) \<and> work_evolves db (db\<lparr>db_jobs := jobs\<rparr>)"
proof -
  have owned: "owned_ok db" using inv by (simp add: work_inv_def)
  then have wf: "jobs_inv (db_jobs db)" by (simp add: owned_ok_def)
  have origin: "\<exists>j \<in> set (db_jobs db). job_continues j j'" if "j' \<in> set jobs" for j'
    by (rule job_step_continues [OF run(1) wf run(2) that])
  have "owned_ok (db\<lparr>db_jobs := jobs\<rparr>)"
    unfolding owned_ok_def
  proof (intro conjI ballI allI impI)
    show "jobs_inv (db_jobs (db\<lparr>db_jobs := jobs\<rparr>))" using job_step_keeps [OF run(1) wf] by simp
    fix j'
    assume "j' \<in> set (db_jobs (db\<lparr>db_jobs := jobs\<rparr>))"
    then obtain j where j: "j \<in> set (db_jobs db)" "job_continues j j'" using origin [of j'] by auto
    then show "stopped j'" if "r \<in> set (db_investigations (db\<lparr>db_jobs := jobs\<rparr>))"
        "job_investigation j' = Some (inv_id r) \<and> job_org j' = inv_org r \<and> inv_status r = StatusCancelled" for r
      using owned that unfolding owned_ok_def job_continues_def by auto
    from j show "\<exists>r \<in> set (db_investigations (db\<lparr>db_jobs := jobs\<rparr>)). inv_id r = i \<and> inv_org r = job_org j'"
      if "job_investigation j' = Some i" for i
      using owned that unfolding owned_ok_def job_continues_def by auto
  qed
  with inv show ?thesis
    by (auto simp: work_inv_def events_ok_def messages_ok_def intro!: work_evolves_same [where rows = "[]"])
qed

lemma enqueue_job_keeps_inv:
  assumes inv: "work_inv maximum db" and run: "EnqueueVerifiedJob now organization job ints (states_of db) (db_jobs db) = Inr jobs"
  shows "work_inv maximum (db\<lparr>db_jobs := jobs\<rparr>) \<and> work_evolves db (db\<lparr>db_jobs := jobs\<rparr>)"
proof -
  have owned: "owned_ok db" using inv by (simp add: work_inv_def)
  from run obtain i where jobs: "jobs = db_jobs db @ [enqueued now organization job i]"
    and permit: "investigation_permits organization job (states_of db)"
    by (auto simp: EnqueueVerifiedJob_def split: if_splits list.splits)
  have new: "job_investigation (enqueued now organization job i) = nullableUUID (rj_InvestigationID job)"
      "job_org (enqueued now organization job i) = organization"
    by (simp_all add: enqueued_def)
  have running: "\<exists>r \<in> set (db_investigations db). inv_id r = owner \<and> inv_org r = organization \<and> inv_status r = StatusRunning"
    if "nullableUUID (rj_InvestigationID job) = Some owner" for owner
    using permit that by (auto simp: investigation_permits_def states_of_def list_ex_iff)
  have "owned_ok (db\<lparr>db_jobs := jobs\<rparr>)"
    unfolding owned_ok_def
  proof (intro conjI ballI allI impI)
    show "jobs_inv (db_jobs (db\<lparr>db_jobs := jobs\<rparr>))"
      using enqueue_keeps [OF _ run] owned by (simp add: owned_ok_def)
    fix j
    assume j: "j \<in> set (db_jobs (db\<lparr>db_jobs := jobs\<rparr>))"
    show "stopped j" if r: "r \<in> set (db_investigations (db\<lparr>db_jobs := jobs\<rparr>))"
        "job_investigation j = Some (inv_id r) \<and> job_org j = inv_org r \<and> inv_status r = StatusCancelled" for r
    proof (cases "j \<in> set (db_jobs db)")
      case True
      with owned r show ?thesis unfolding owned_ok_def by auto
    next
      case False
      with j r jobs new running [of "inv_id r"] obtain x where "x \<in> set (db_investigations db)" "inv_id x = inv_id r"
          "inv_status x = StatusRunning" by auto
      with r same_row [OF inv] have "x = r" by simp
      with r \<open>inv_status x = StatusRunning\<close> show ?thesis by simp
    qed
    show "\<exists>r \<in> set (db_investigations (db\<lparr>db_jobs := jobs\<rparr>)). inv_id r = i' \<and> inv_org r = job_org j"
      if "job_investigation j = Some i'" for i'
      using j that owned jobs new running [of i'] unfolding owned_ok_def by auto
  qed
  with inv show ?thesis
    by (auto simp: work_inv_def events_ok_def messages_ok_def intro!: work_evolves_same [where rows = "[]"])
qed

section \<open>Every step\<close>

lemma insert_conversation_keeps:
  assumes "work_inv maximum db" "insert_conversation x db = Inr db'"
  shows "work_inv maximum db' \<and> work_evolves db db'"
proof -
  have "db' = db\<lparr>db_conversations := db_conversations db @ [x]\<rparr>"
    using assms(2) by (auto simp: insert_conversation_def split: if_splits)
  with work_inv_same [OF assms(1), of db'] show ?thesis
    by (auto intro!: work_evolves_same [where rows = "[]"])
qed

lemma open_conversation_insert:
  "open_conversation uuid_string now cid organization wanted db = Inr (v, target, detail, db') \<Longrightarrow>
     \<exists>x. insert_conversation x db = Inr db'"
  by (auto simp: open_conversation_def Let_def split: sum.splits sql_error.splits)

lemma work_step_keeps:
  assumes "work_step maximum db db'" "work_inv maximum db"
  shows "work_inv maximum db' \<and> work_evolves db db'"
  using assms
proof (induction rule: work_step.induct)
  case (web_conversation uuid_string now cid organization wanted db v target detail db')
  then show ?case using open_conversation_insert insert_conversation_keeps by blast
next
  case (slack_message organization db now go_now go_later c slack m db')
  then show ?case
    unfolding appendSlackMessage_def by - (rule put_message_keeps, assumption, assumption, simp)
next
  case (conclude now clock organization iid token conclusion stoppedBy usage db db')
  from end_keeps_inv [OF conclude.prems conclude.hyps [unfolded ConcludeInvestigation_def]] show ?case
    by (simp add: ConcludedPayload_def)
next
  case (fail now clock organization iid token reason usage db db')
  from end_keeps_inv [OF fail.prems fail.hyps [unfolded FailInvestigation_def]] show ?case
    by (simp add: FailedPayload_def)
next
  case (intake incidents db)
  with work_inv_same show ?case
    by (auto simp: work_inv_def events_ok_def messages_ok_def owned_ok_def intro!: work_evolves_same [where rows = "[]"])
qed ((rule insert_conversation_keeps create_keeps_inv alerts_keeps_inv web_message_keeps_inv turn_keeps_inv claim_keeps_inv
      heartbeat_keeps_inv tell_keeps_inv recover_keeps_inv tool_run_keeps_inv cancel_keeps_inv enqueue_job_keeps_inv
      queue_keeps_inv; assumption)+)

end
