(* ===== verification/WorkProperties.thy ===== *)
theory WorkProperties
  imports WorkLifecycle
begin

text \<open>
  What follows for investigations and conversations: an investigation is run by one worker and
  ends once, its stream of events ends with it, cancelling stops everything it owns, waiting work
  is bounded, and a conversation's messages are answered turn by turn.
\<close>

section \<open>The generation contract of investigations\<close>

text \<open>
  An investigation is waiting, leased or ended, in this order and once. A worker's fence is its
  token; it is accepted while the row is leased.
\<close>

definition phase :: "investigation_row \<Rightarrow> int" where
  "phase r = (if inv_status r \<noteq> StatusRunning then 2 else if inv_lease_worker r \<noteq> [] then 1 else 0)"

record worker_fence =
  fence_clock :: instant
  fence_org :: uuid
  fence_investigation :: uuid
  fence_token :: uuid

definition fence_accepts :: "worker_fence \<Rightarrow> investigation_row \<Rightarrow> bool" where
  "fence_accepts f r \<longleftrightarrow>
     held (fence_clock f) (fence_org f) (fence_investigation f) (fence_token f) r \<and> inv_lease_worker r \<noteq> []"

lemma evolved_row:
  assumes "work_inv maximum db" "work_step maximum db db'" "row_of inv_id k (db_investigations db) = Some r"
  shows "\<exists>r'. row_of inv_id k (db_investigations db') = Some r' \<and> inv_evolves r r'"
proof -
  note kept = work_step_keeps [OF assms(2,1)]
  from row_of_Some [OF assms(3)] have r: "r \<in> set (db_investigations db)" "inv_id r = k" by simp_all
  with kept obtain r' where r': "r' \<in> set (db_investigations db')" "inv_evolves r r'"
    unfolding work_evolves_def by blast
  with r(2) have "inv_id r' = k" by (simp add: inv_evolves_def keeps_fixed_def)
  with r' row_of_unique [OF work_invD(1) [OF conjunct1 [OF kept]] r'(1)] show ?thesis by auto
qed

lemma phase_evolves: "inv_evolves r r' \<Longrightarrow> phase r \<le> phase r'"
  by (auto simp: phase_def inv_evolves_def)

interpretation investigations: fenced_rows "work_step maximum" "work_inv maximum"
  "\<lambda>db i. row_of inv_id i (db_investigations db)" phase "\<lambda>r. inv_status r \<noteq> StatusRunning"
  fence_accepts "\<lambda>_. 1" for maximum
proof (unfold_locales, goal_cases)
  case (1 s s')
  then show ?case using work_step_keeps by blast
next
  case (2 s s' k r)
  from evolved_row [OF this] obtain r' where "row_of inv_id k (db_investigations s') = Some r'" "inv_evolves r r'" by blast
  then show ?case using phase_evolves by (auto simp: inv_evolves_def)
qed (auto simp: fence_accepts_def held_def phase_def)

section \<open>Runs\<close>

definition empty_work :: work_db where
  "empty_work = \<lparr>db_incidents = [], db_conversations = [], db_messages = [], db_investigations = [],
     db_events = [], db_tool_runs = [], db_jobs = []\<rparr>"

definition work_reachable :: "int \<Rightarrow> work_db \<Rightarrow> bool" where
  "work_reachable maximum db \<longleftrightarrow> (work_step maximum)\<^sup>*\<^sup>* empty_work db"

lemma empty_work_inv: "work_inv maximum empty_work"
  by (simp add: work_inv_def empty_work_def rows_ok_def events_ok_def turns_ok_def turns_of_def messages_ok_def
      messages_of_def owned_ok_def capacity_ok_def jobs_inv_def)

lemma reachable_inv: "work_reachable maximum db \<Longrightarrow> work_inv maximum db"
  unfolding work_reachable_def by (rule investigations.run_invariant [OF _ empty_work_inv])

lemma work_run_keeps:
  assumes "(work_step maximum)\<^sup>*\<^sup>* db db'" "work_inv maximum db"
  shows "work_inv maximum db' \<and> work_evolves db db'"
  using assms
proof (induction rule: rtranclp_induct)
  case (step y z)
  with work_step_keeps [OF step.hyps(2)] work_evolves_trans show ?case by blast
qed simp

lemma evolved_by_run:
  assumes "(work_step maximum)\<^sup>*\<^sup>* db db'" "work_inv maximum db" "r \<in> set (db_investigations db)"
    and "r' \<in> set (db_investigations db')" "inv_id r' = inv_id r"
  shows "inv_evolves r r'"
proof -
  note kept = work_run_keeps [OF assms(1,2)]
  then obtain x where x: "x \<in> set (db_investigations db')" "inv_evolves r x"
    using assms(3) unfolding work_evolves_def by blast
  then have "x = r'" using assms(4,5) by (intro same_row [OF conjunct1 [OF kept]]) (auto simp: inv_evolves_def keeps_fixed_def)
  with x(2) show ?thesis by simp
qed

text \<open>An ended stream has its one terminal event, the last, and grows no more.\<close>

lemma ended_stream:
  assumes "stream_ok r es" "inv_status r \<noteq> StatusRunning"
  obtains e where "e \<in> set es" "ending_event (inv_status r) = Some (ie_type e)" "ie_sequence e = int (length es)"
    "\<And>x. x \<in> set es \<Longrightarrow> x \<noteq> e \<Longrightarrow> \<not> Terminal (ie_type x) \<and> ie_sequence x < ie_sequence e"
proof -
  from assms obtain e where e: "e \<in> set es" "Terminal (ie_type e)" by (auto simp: stream_ok_def)
  have num: "numbered (map ie_sequence es)" using assms(1) by (simp add: stream_ok_def)
  have final: "ending_event (inv_status r) = Some (ie_type x) \<and> ie_sequence x = int (length es)"
    if "x \<in> set es" "Terminal (ie_type x)" for x
    using assms(1) that by (simp add: stream_ok_def)
  have "\<not> Terminal (ie_type x) \<and> ie_sequence x < ie_sequence e" if x: "x \<in> set es" "x \<noteq> e" for x
  proof -
    have "ie_sequence x \<noteq> ie_sequence e"
      using numbered_distinct [OF num] x e(1) by (auto simp: distinct_map inj_on_def)
    moreover have "ie_sequence x \<in> {1..int (length es)}"
      using num x(1) unfolding numbered_def by (metis imageI length_map list.set_map)
    ultimately show ?thesis using final [OF e] final [OF x(1)] by auto
  qed
  with that [OF e(1)] final [OF e] show ?thesis by blast
qed

lemma ended_stream_fixed:
  assumes "stream_ok r es" "stream_ok r (es @ later)" "inv_status r \<noteq> StatusRunning"
  shows "later = []"
proof -
  from assms(1,3) obtain e where e: "e \<in> set es" "Terminal (ie_type e)" by (auto simp: stream_ok_def)
  have final: "ie_sequence e = int (length xs)" if "stream_ok r xs" "e \<in> set xs" for xs
    using that e(2) by (simp add: stream_ok_def)
  from final [OF assms(1) e(1)] final [OF assms(2)] e(1) show ?thesis by simp
qed

lemma run_ended_stream:
  assumes "(work_step maximum)\<^sup>*\<^sup>* db db'" "work_inv maximum db" "r \<in> set (db_investigations db)" "inv_status r \<noteq> StatusRunning"
  shows "r \<in> set (db_investigations db')"
    "events_of (inv_id r) (db_events db') = events_of (inv_id r) (db_events db)"
    "runs_of (inv_id r) (db_tool_runs db') = runs_of (inv_id r) (db_tool_runs db)"
proof -
  note kept = work_run_keeps [OF assms(1,2)]
  show there: "r \<in> set (db_investigations db')" by (rule work_evolves_ended [OF conjunct2 [OF kept] assms(3,4)])
  from kept obtain es where "db_events db' = db_events db @ es" unfolding work_evolves_def by blast
  then have "events_of (inv_id r) (db_events db') = events_of (inv_id r) (db_events db) @ events_of (inv_id r) es" by simp
  with ended_stream_fixed [OF work_invD(3) [OF assms(2,3)] _ assms(4)] work_invD(3) [OF conjunct1 [OF kept] there]
  show "events_of (inv_id r) (db_events db') = events_of (inv_id r) (db_events db)" by simp
  show "runs_of (inv_id r) (db_tool_runs db') = runs_of (inv_id r) (db_tool_runs db)"
    using kept assms(3,4) unfolding work_evolves_def by blast
qed

section \<open>A run to evaluate on\<close>

definition work_sample_waiting :: investigation_row where
  "work_sample_waiting = blank_investigation 100 7 3 None ''disk full'' 0 10"

definition work_sample_claim :: InvestigationClaim where
  "work_sample_claim = \<lparr>claim_Worker = ''w'', claim_InvestigationLease = 50, claim_Token = 9\<rparr>"

definition work_sample_leased :: work_db where
  "work_sample_leased = empty_work\<lparr>db_investigations := [leased 110 9 work_sample_claim work_sample_waiting]\<rparr>"

definition work_sample_cancelled :: work_db where
  "work_sample_cancelled = empty_work\<lparr>db_investigations := [cancelled 120 (leased 110 9 work_sample_claim work_sample_waiting)],
     db_events := [\<lparr>ie_investigation = 7, ie_org = 3, ie_sequence = 1, ie_at = 120, ie_type = EventCancelled,
                   ie_payload = payload_fields CancelledPayload\<rparr>]\<rparr>"

lemmas work_sample_defs = work_sample_waiting_def work_sample_claim_def work_sample_leased_def work_sample_cancelled_def empty_work_def
  blank_investigation_def leased_def cancelled_def investigation_checks_def violated_def checked_update_def

lemma work_sample_created:
  "create_investigation (\<lambda>_. []) 100 7 3 \<lparr>new_IncidentID = 0, new_Subject = ''disk full'', new_WindowFrom = 0, new_WindowUntil = 10\<rparr> 5 empty_work
     = Inr (scanInvestigation work_sample_waiting, \<lparr>target_Kind = ''investigation'', target_ID = []\<rparr>,
            [(''subject'', DString ''disk full'')], empty_work\<lparr>db_investigations := [work_sample_waiting]\<rparr>)"
  by (simp add: create_investigation_def reserved_def reserveWaitingInvestigations_def insert_investigation_def
      investigation_clash_def nullableUUID_def Let_def work_sample_defs)

lemma work_sample_claimed_step:
  "ClaimInvestigation 110 (\<lambda>_. False) 9 work_sample_claim (empty_work\<lparr>db_investigations := [work_sample_waiting]\<rparr>)
     = Inr (Some (3, (scanInvestigation (leased 110 9 work_sample_claim work_sample_waiting))\<lparr>i_ClaimToken := 9\<rparr>), work_sample_leased)"
  by (simp add: ClaimInvestigation_def claim_choice_def work_sample_defs)

lemma work_sample_cancel_step:
  "cancel_investigation (\<lambda>_. []) 120 3 7 work_sample_leased
     = Inr (scanInvestigation (cancelled 120 (leased 110 9 work_sample_claim work_sample_waiting)),
            \<lparr>target_Kind = ''investigation'', target_ID = []\<rparr>, [(''subject'', DString ''disk full'')], work_sample_cancelled)"
  by (simp add: cancel_investigation_def running_row_def append_event_def insert_event_def next_event_sequence_def
      cancelInvestigationJobs_def work_sample_defs)

lemma work_sample_leased_reachable: "work_reachable 5 work_sample_leased"
proof -
  have "work_step 5 empty_work (empty_work\<lparr>db_investigations := [work_sample_waiting]\<rparr>)"
    by (rule work_step.create [OF work_sample_created])
  moreover have "work_step 5 (empty_work\<lparr>db_investigations := [work_sample_waiting]\<rparr>) work_sample_leased"
    by (rule work_step.claim [OF work_sample_claimed_step])
  ultimately show ?thesis unfolding work_reachable_def by (meson r_into_rtranclp rtranclp_trans)
qed

lemma work_sample_cancels: "work_step 5 work_sample_leased work_sample_cancelled"
  by (rule work_step.cancel [OF work_sample_cancel_step])

lemma work_sample_cancelled_reachable: "work_reachable 5 work_sample_cancelled"
  using work_sample_leased_reachable work_sample_cancels unfolding work_reachable_def by (rule rtranclp.rtrancl_into_rtrancl)

section \<open>Properties\<close>

text \<open>
  C2. An investigation ends once. Whatever transactions run afterwards, the row of an ended
  investigation does not change, its stream of events and its tool runs are what they were, and the
  stream is numbered without gaps from 1, with exactly one terminal event, of the kind of the
  ending and behind all others.
\<close>

theorem investigation_ends_once:
  assumes "work_reachable maximum db" "(work_step maximum)\<^sup>*\<^sup>* db db'"
    and "r \<in> set (db_investigations db)" "inv_status r \<noteq> StatusRunning"
  shows "r \<in> set (db_investigations db')
    \<and> events_of (inv_id r) (db_events db') = events_of (inv_id r) (db_events db)
    \<and> runs_of (inv_id r) (db_tool_runs db') = runs_of (inv_id r) (db_tool_runs db)
    \<and> set (map ie_sequence (events_of (inv_id r) (db_events db))) = {1..int (length (events_of (inv_id r) (db_events db)))}
    \<and> (\<exists>e \<in> set (events_of (inv_id r) (db_events db)). ending_event (inv_status r) = Some (ie_type e)
         \<and> (\<forall>x \<in> set (events_of (inv_id r) (db_events db)). x \<noteq> e \<longrightarrow> \<not> Terminal (ie_type x) \<and> ie_sequence x < ie_sequence e))"
proof -
  note inv = reachable_inv [OF assms(1)]
  note stream = work_invD(3) [OF inv assms(3)]
  obtain e where "e \<in> set (events_of (inv_id r) (db_events db))" "ending_event (inv_status r) = Some (ie_type e)"
      "\<forall>x \<in> set (events_of (inv_id r) (db_events db)). x \<noteq> e \<longrightarrow> \<not> Terminal (ie_type x) \<and> ie_sequence x < ie_sequence e"
    by (rule ended_stream [OF stream assms(4)]) blast
  moreover have "numbered (map ie_sequence (events_of (inv_id r) (db_events db)))"
    using stream by (simp add: stream_ok_def)
  ultimately show ?thesis
    using run_ended_stream [OF assms(2) inv assms(3,4)] by (auto simp: numbered_def)
qed

theorem investigation_ends_once_witness:
  "\<exists>r \<in> set (db_investigations work_sample_cancelled). inv_status r = StatusCancelled
     \<and> (\<exists>e \<in> set (events_of 7 (db_events work_sample_cancelled)). ie_type e = EventCancelled)"
proof -
  let ?r = "cancelled 120 (leased 110 9 work_sample_claim work_sample_waiting)"
  have r: "?r \<in> set (db_investigations work_sample_cancelled)" "inv_status ?r \<noteq> StatusRunning" "inv_id ?r = 7"
      "inv_status ?r = StatusCancelled"
    by (simp_all add: work_sample_defs)
  from investigation_ends_once [OF work_sample_cancelled_reachable rtranclp.rtrancl_refl r(1,2)] r(3,4)
  have "\<exists>e \<in> set (events_of 7 (db_events work_sample_cancelled)). Some EventCancelled = Some (ie_type e)"
    by (elim conjE bexE) (intro bexI, simp_all)
  then have "\<exists>e \<in> set (events_of 7 (db_events work_sample_cancelled)). ie_type e = EventCancelled" by (auto simp: eq_commute)
  with r show ?thesis by blast
qed



text \<open>An investigation that ended owns no new relay work, and ended relay jobs stay as they are.\<close>

lemma ended_accepts_no_job:
  assumes "work_inv maximum db" "r \<in> set (db_investigations db)" "inv_status r \<noteq> StatusRunning"
    and "rj_InvestigationID job = inv_id r" "inv_id r \<noteq> uuid_Nil"
  shows "EnqueueVerifiedJob later organization job ints (states_of db) (db_jobs db) \<noteq> Inr jobs"
proof
  assume "EnqueueVerifiedJob later organization job ints (states_of db) (db_jobs db) = Inr jobs"
  then have permits: "investigation_permits organization job (states_of db)"
    by (auto simp: EnqueueVerifiedJob_def split: if_splits)
  have "nullableUUID (rj_InvestigationID job) = Some (inv_id r)" using assms(4,5) by (simp add: nullableUUID_def)
  with permits obtain x where "x \<in> set (db_investigations db)" "inv_id x = inv_id r" "inv_status x = StatusRunning"
    by (auto simp: investigation_permits_def states_of_def list_ex_iff)
  with same_row [OF assms(1) _ assms(2)] assms(3) show False by auto
qed

lemma insert_investigations_jobs: "insert_investigations rs db = Inr db' \<Longrightarrow> db_jobs db' = db_jobs db"
  by (induction rs arbitrary: db) (auto dest: insert_investigation_Inr(1) split: sum.splits)

lemma put_message_jobs:
  "put_message now go_now go_later organization c said provider lead db = Inr (m, db') \<Longrightarrow> db_jobs db' = db_jobs db"
  by (erule put_message_Inr) simp

lemma openTurn_jobs: "openTurn now iid organization c db = Inr (turn, db') \<Longrightarrow> db_jobs db' = db_jobs db"
  by (erule openTurn_Inr) (auto simp: attach_queued_def dest: insert_investigation_Inr(1))

lemma reply_jobs: "reply_in_conversation now organization reply r db = Inr db' \<Longrightarrow> db_jobs db' = db_jobs db"
  by (auto simp: reply_in_conversation_def dest!: insert_message_Inr split: option.splits if_splits sum.splits)

lemma endInvestigation_jobs:
  assumes "endInvestigation now clock organization iid token status conclusion stoppedBy reason reply usage payload db = Inr db'"
    and "work_inv maximum db"
  shows "db_jobs db' = db_jobs db"
  using assms(2,1)
proof (cases rule: endInvestigation_Inr)
  case (1 r e)
  from reply_jobs [OF 1(9)] show ?thesis by simp
qed

lemma work_step_jobs:
  assumes "work_step maximum db db'" "work_inv maximum db"
  shows "db_jobs db' = db_jobs db \<or> job_step (db_jobs db) (db_jobs db')"
  using assms
proof (induction rule: work_step.induct)
  case web_conversation
  then show ?case by (auto dest!: open_conversation_insert simp: insert_conversation_def split: if_splits)
next
  case slack_conversation
  then show ?case by (auto simp: insert_conversation_def split: if_splits)
next
  case create
  then show ?case
    by (auto simp: create_investigation_def reserved_Inr Let_def dest!: insert_investigation_Inr(1) split: sum.splits sql_error.splits)
next
  case alerts
  then show ?case
    by (auto simp: openAlertInvestigations_def reserved_Inr dest!: insert_investigations_jobs split: if_splits sum.splits)
next
  case web_message
  from web_message(1) show ?case
    by (elim append_and_open_Inr)
       (auto simp: appendMessage_def dest!: openTurn_jobs put_message_jobs split: if_splits)
next
  case slack_message
  then show ?case by (auto simp: appendSlackMessage_def dest: put_message_jobs)
next
  case turn
  then show ?case by (auto dest: openTurn_jobs)
next
  case claim
  from claim(1) show ?case by (cases rule: ClaimInvestigation_Inr) auto
next
  case heartbeat
  then show ?case by (auto simp: Heartbeat_def in_organization_def Let_def split: sum.splits if_splits)
next
  case tell
  then show ?case
    by (auto simp: AppendEvent_def in_organization_def append_event_def dest!: insert_event_Inr split: sum.splits if_splits)
next
  case recover
  from recover(1) show ?case
    unfolding RecoverStale_def by (auto dest!: recoverStaleIn_Inr(2) [OF recover(2)] split: if_splits)
next
  case tool_run
  then show ?case
    by (auto simp: RecordToolRun_def insert_tool_run_def in_organization_def split: sum.splits if_splits option.splits)
next
  case conclude
  then show ?case unfolding ConcludeInvestigation_def by (blast dest: endInvestigation_jobs)
next
  case fail
  then show ?case unfolding FailInvestigation_def by (blast dest: endInvestigation_jobs)
next
  case cancel
  from cancel(2,1) show ?case
  proof (cases rule: cancel_investigation_Inr)
    case (1 r e)
    show ?thesis unfolding 1(10) by (simp add: job_step.cancel_investigation)
  qed
next
  case enqueue_job
  then show ?case by (auto intro: job_step.enqueue)
qed auto

lemma ended_jobs_stay:
  assumes "(work_step maximum)\<^sup>*\<^sup>* db db'" "work_inv maximum db"
    and "j \<in> set (db_jobs db)" "terminal (job_status j)"
  shows "j \<in> set (db_jobs db')"
proof -
  have run: "job_step\<^sup>*\<^sup>* (db_jobs db) (db_jobs db')"
    using assms(1,2)
  proof (induction rule: rtranclp_induct)
    case (step y z)
    then have "db_jobs z = db_jobs y \<or> job_step (db_jobs y) (db_jobs z)"
      using work_step_jobs work_run_keeps by blast
    with step show ?case by (auto intro: rtranclp.rtrancl_into_rtrancl)
  qed simp
  have inv: "jobs_inv (db_jobs db)" using assms(2) by (simp add: work_inv_def owned_ok_def)
  then have "row_of job_id (job_id j) (db_jobs db) = Some j" using assms(3) by (simp add: row_of_unique jobs_inv_def)
  from jobs.closed_forever [OF run inv this assms(4)] row_of_Some show ?thesis by fastforce
qed

text \<open>What a cancellation does to one job of the relays.\<close>

definition job_cancelled :: "instant \<Rightarrow> uuid \<Rightarrow> uuid \<Rightarrow> relay_job \<Rightarrow> relay_job \<Rightarrow> bool" where
  "job_cancelled now organization iid j j' \<longleftrightarrow>
     (if job_org j = organization \<and> job_investigation j = Some iid \<and> \<not> terminal (job_status j)
      then job_id j' = job_id j \<and> job_cancel_requested_at j' \<noteq> None
        \<and> (if job_status j = JobPending then job_status j' = JobCancelled \<and> job_terminal_at j' = Some now
            else job_status j' = JobLeased \<and> job_lease_session j' = job_lease_session j
              \<and> job_lease_epoch j' = job_lease_epoch j)
      else j' = j)"

lemma jobs_are_cancelled:
  "list_all2 (job_cancelled now organization iid) t (cancelInvestigationJobs now organization iid t)"
proof -
  have "job_status j = JobLeased" if "\<not> terminal (job_status j)" "job_status j \<noteq> JobPending" for j
    using that by (cases "job_status j") simp_all
  then show ?thesis
    by (auto simp: cancelInvestigationJobs_def update_where_def list_all2_map2 list_all2_same job_cancelled_def cancel_row_def
        split: option.splits)
qed

text \<open>
  C20. Cancelling an investigation stops everything. The same transaction that cancels it drops its
  lease, cancels every queued relay job it owns, asks for every leased one to be stopped, leaves
  every other job alone and writes the audit event. From then on, whatever runs, the investigation
  stays cancelled without a lease, its stream is what it was before with the one event that says it
  was cancelled at the end, each relay job it owns is over or still marked to be stopped, those
  that were cancelled outright stay so, no relay job can be enqueued for it, and no tool run is added.
\<close>

theorem cancellation_stops_everything:
  assumes "work_reachable maximum db"
    and "CancelInvestigation unicode_lower uuid_string clock eventID now who organization iid (db, trail) = Inr (v, db1, trail1)"
    and "(work_step maximum)\<^sup>*\<^sup>* db1 db2" "iid \<noteq> uuid_Nil"
  shows "i_Status v = StatusCancelled
    \<and> (\<exists>r \<in> set (db_investigations db2). inv_id r = iid \<and> inv_org r = organization
         \<and> inv_status r = StatusCancelled \<and> inv_lease_token r = None)
    \<and> events_of iid (db_events db2) = events_of iid (db_events db)
        @ [\<lparr>ie_investigation = iid, ie_org = organization, ie_sequence = int (length (events_of iid (db_events db))) + 1,
             ie_at = now, ie_type = EventCancelled, ie_payload = payload_fields CancelledPayload\<rparr>]
    \<and> list_all2 (job_cancelled now organization iid) (db_jobs db) (db_jobs db1)
    \<and> (\<forall>j \<in> set (db_jobs db1). terminal (job_status j) \<longrightarrow> j \<in> set (db_jobs db2))
    \<and> (\<forall>j \<in> set (db_jobs db2). job_investigation j = Some iid \<and> job_org j = organization \<longrightarrow>
         terminal (job_status j) \<or> job_cancel_requested_at j \<noteq> None)
    \<and> (rj_InvestigationID job = iid \<longrightarrow>
         (\<forall>jobs. EnqueueVerifiedJob later organization job ints (states_of db2) (db_jobs db2) \<noteq> Inr jobs))
    \<and> runs_of iid (db_tool_runs db2) = runs_of iid (db_tool_runs db)
    \<and> (\<exists>row. trail1 = trail @ [row] \<and> ev_Action (ae_event row) = ''investigation.cancelled'')"
proof -
  note inv = reachable_inv [OF assms(1)]
  from audited_Inr [OF assms(2) [unfolded CancelInvestigation_def]] obtain target detail event where
      run: "cancel_investigation uuid_string now organization iid db = Inr (v, target, detail, db1)"
    and audit: "writeEvent unicode_lower clock eventID event trail = Inr trail1" "ev_Action event = ''investigation.cancelled''"
    by blast
  from inv run obtain r e where r: "r \<in> set (db_investigations db)" "running_row organization iid r"
    and e: "ie_investigation e = inv_id r" "ie_org e = inv_org r" "ie_type e = EventCancelled"
      "ie_sequence e = int (length (events_of (inv_id r) (db_events db))) + 1" "ie_at e = now"
      "ie_payload e = payload_fields CancelledPayload"
    and v: "v = scanInvestigation (cancelled now r)"
    and db1: "db1 = db\<lparr>db_investigations := update_where (running_row organization iid) (cancelled now) (db_investigations db),
              db_jobs := cancelInvestigationJobs now organization iid (db_jobs db), db_events := db_events db @ [e]\<rparr>"
    by (rule cancel_investigation_Inr) (rule that, assumption+)
  let ?c = "cancelled now r"
  have named: "inv_id r = iid" "inv_org r = organization" using r(2) by (simp_all add: running_row_def)
  have c: "?c \<in> set (db_investigations db1)" "inv_status ?c = StatusCancelled" "inv_id ?c = iid" "inv_org ?c = organization"
      "inv_lease_token ?c = None"
    using r by (auto simp: db1 set_update_where cancelled_def running_row_def)
  have inv1: "work_inv maximum db1" using cancel_keeps_inv [OF inv run] by simp
  have inv2: "work_inv maximum db2" using work_run_keeps [OF assms(3) inv1] by simp
  have ended: "inv_status ?c \<noteq> StatusRunning" using c by simp
  note final = run_ended_stream [OF assms(3) inv1 c(1) ended]
  have "terminal (job_status j) \<or> job_cancel_requested_at j \<noteq> None"
    if "j \<in> set (db_jobs db2)" "job_investigation j = Some iid" "job_org j = organization" for j
    using inv2 final(1) c that unfolding work_inv_def owned_ok_def stopped_def by metis
  moreover have "EnqueueVerifiedJob later organization job ints (states_of db2) (db_jobs db2) \<noteq> Inr jobs"
    if "rj_InvestigationID job = iid" for jobs
    using ended_accepts_no_job [OF inv2 final(1) ended, of job] that assms(4) c(3) by simp
  moreover have "events_of iid (db_events db2) = events_of iid (db_events db) @ [e]"
    using final(2) c(3) e(1) named by (simp add: db1 events_of_def)
  moreover have "e = \<lparr>ie_investigation = iid, ie_org = organization,
      ie_sequence = int (length (events_of iid (db_events db))) + 1, ie_at = now, ie_type = EventCancelled,
      ie_payload = payload_fields CancelledPayload\<rparr>"
    using e named by (intro event_row.equality) simp_all
  moreover obtain row where "trail1 = trail @ [row]" "ev_Action (ae_event row) = ''investigation.cancelled''"
    using writeEvent_Inr [OF audit(1)] audit(2) by (auto simp: Bounded_def)
  moreover have "list_all2 (job_cancelled now organization iid) (db_jobs db) (db_jobs db1)"
    using jobs_are_cancelled by (simp add: db1)
  moreover have "\<forall>j \<in> set (db_jobs db1). terminal (job_status j) \<longrightarrow> j \<in> set (db_jobs db2)"
    using ended_jobs_stay [OF assms(3) inv1] by blast
  moreover have "i_Status v = StatusCancelled" by (simp add: v scanInvestigation_def cancelled_def)
  moreover have "runs_of iid (db_tool_runs db2) = runs_of iid (db_tool_runs db)" using final(3) c by (simp add: db1)
  ultimately show ?thesis using final(1) c by blast
qed

lemma work_sample_cancel_run:
  "\<exists>trail v. CancelInvestigation id (uuid_String sample_uuid_lib) 5 9 120 sample_principal 3 7 (work_sample_leased, sample_trail)
     = Inr (v, work_sample_cancelled, trail)"
proof -
  have name: "uuid_String sample_uuid_lib 3 \<noteq> []" by (simp add: sample_uuid_lib_def)
  have "\<exists>v target detail. cancel_investigation (uuid_String sample_uuid_lib) 120 3 7 work_sample_leased = Inr (v, target, detail, work_sample_cancelled)"
    by (simp add: cancel_investigation_def running_row_def append_event_def insert_event_def next_event_sequence_def
        cancelInvestigationJobs_def work_sample_defs)
  then obtain v target detail where
      "cancel_investigation (uuid_String sample_uuid_lib) 120 3 7 work_sample_leased = Inr (v, target, detail, work_sample_cancelled)"
    by blast
  then show ?thesis
    by (simp add: CancelInvestigation_def audited_def auditedWithAction_def sample_principal_def sample_guard_def Organization_def
        writeEvent_def Bounded_def nullableOrganization_def sample_trail_def Let_def name)
qed

theorem cancellation_stops_everything_witness:
  "\<exists>r \<in> set (db_investigations work_sample_cancelled). inv_id r = 7 \<and> inv_status r = StatusCancelled"
proof -
  obtain v trail where run: "CancelInvestigation id (uuid_String sample_uuid_lib) 5 9 120 sample_principal 3 7
      (work_sample_leased, sample_trail) = Inr (v, work_sample_cancelled, trail)"
    using work_sample_cancel_run by blast
  have "(7 :: uuid) \<noteq> uuid_Nil" by simp
  from cancellation_stops_everything [OF work_sample_leased_reachable run rtranclp.rtrancl_refl this, THEN conjunct2, THEN conjunct1]
  show ?thesis by (elim bexE conjE) (intro bexI conjI)
qed

text \<open>
  C21. Waiting work is bounded. With a positive limit no organization ever has more investigations
  waiting for a worker than the limit, nor more than 100 messages queued, whichever way they come
  in; at the limit, opening another investigation or saying another thing is refused as a full
  queue and changes nothing.
\<close>

theorem waiting_work_is_bounded:
  assumes "work_reachable maximum db" "0 < maximum"
  shows "int (rows_affected (waiting organization) (db_investigations db)) \<le> maximum
    \<and> rows_affected (queued organization) (db_messages db) \<le> 100
    \<and> (int (rows_affected (waiting organization) (db_investigations db)) = maximum \<longrightarrow>
         create_investigation uuid_string now iid organization wanted maximum db = Inl ErrQueueFull)
    \<and> (rows_affected (queued organization) (db_messages db) = 100 \<and> said_Role said = RoleUser \<longrightarrow>
         appendMessage now go_now go_later organization c said lead db = Inl ErrQueueFull)"
proof -
  note inv = reachable_inv [OF assms(1)]
  then have "int (rows_affected (waiting organization) (db_investigations db)) \<le> maximum"
    "rows_affected (queued organization) (db_messages db) \<le> 100"
    using assms(2) by (simp_all add: work_inv_def capacity_ok_def messages_ok_def)
  then show ?thesis
    using assms(2)
    by (auto simp: create_investigation_def reserved_def reserveWaitingInvestigations_def appendMessage_def reserveQueuedMessage_def)
qed

theorem waiting_work_is_bounded_witness:
  "int (rows_affected (waiting 3) (db_investigations work_sample_leased)) \<le> 5"
  using waiting_work_is_bounded [OF work_sample_leased_reachable] by simp

section \<open>Conversations\<close>

text \<open>The batch of a turn is the whole queue, since an organization queues no more than a batch holds.\<close>

lemma batch_is_queue:
  assumes ok: "messages_ok db" and m: "m \<in> set (db_messages db)" "queued_in organization c m"
  shows "msg_sequence m \<le> queuedBatch organization c db"
proof -
  have "length (queue_of organization c db) \<le> rows_affected (queued organization) (db_messages db)"
  proof -
    have "length (filter (queued_in organization c) t) \<le> length (filter (queued organization) t)" for t
      by (induction t) (auto simp: queued_in_def)
    then show ?thesis by (simp add: queue_of_def rows_affected_def)
  qed
  also have "\<dots> \<le> maxQueuedMessages" using ok by (simp add: messages_ok_def)
  finally have all: "take maxQueuedMessages (queue_of organization c db) = queue_of organization c db" by simp
  have mem: "m \<in> set (queue_of organization c db)" using m by (simp add: queue_of_set)
  then obtain x rest where rev: "rev (queue_of organization c db) = x # rest"
    by (cases "rev (queue_of organization c db)") simp_all
  have "sorted (map msg_sequence (queue_of organization c db))" by (simp add: queue_of_def)
  then have "sorted_wrt (\<ge>) (map msg_sequence (x # rest))"
    unfolding rev [symmetric] rev_map [symmetric] sorted_wrt_rev by simp
  moreover have "m \<in> set (x # rest)" using mem unfolding rev [symmetric] by simp
  ultimately have "msg_sequence m \<le> msg_sequence x" by auto
  then show ?thesis unfolding queuedBatch_def all rev by simp
qed

lemma openTurn_takes_queue:
  assumes inv: "work_inv maximum db" and run: "openTurn now iid organization c db = Inr (Some turn, db')"
  shows "(\<forall>m \<in> set (db_messages db'). \<not> queued_in organization c m)
    \<and> (\<forall>m \<in> set (db_messages db). queued_in organization c m \<longrightarrow> m\<lparr>msg_investigation := Some iid\<rparr> \<in> set (db_messages db'))"
  using run
proof (cases rule: openTurn_Inr)
  case (some x m rest db1)
  let ?p = "\<lambda>m. queued_in organization c m \<and> msg_sequence m \<le> queuedBatch organization c db"
  have ok: "messages_ok db" using inv by (simp add: work_inv_def)
  have msgs: "db_messages db' = update_where ?p (msg_investigation_update (\<lambda>_. Some iid)) (db_messages db)"
    using insert_investigation_Inr(1) [OF some(6)] by (simp add: some(8) attach_queued_def)
  show ?thesis
  proof (intro conjI ballI impI)
    fix y
    assume "y \<in> set (db_messages db')"
    from update_where_mem [OF this [unfolded msgs]] obtain z where "z \<in> set (db_messages db)"
        "y = (if ?p z then z\<lparr>msg_investigation := Some iid\<rparr> else z)" by blast
    with batch_is_queue [OF ok, of z organization c] show "\<not> queued_in organization c y"
      by (auto simp: queued_in_def queued_def split: if_splits)
  next
    fix y
    assume y: "y \<in> set (db_messages db)" "queued_in organization c y"
    with batch_is_queue [OF ok y] show "y\<lparr>msg_investigation := Some iid\<rparr> \<in> set (db_messages db')"
      unfolding msgs set_update_where by (intro image_eqI [of _ _ y]) simp_all
  qed
qed simp_all

text \<open>
  C22. A conversation is answered turn by turn. At any time it has at most one running turn; its
  turns and its messages are numbered from 1 without gaps; and a message given to a turn belongs to
  the conversation of the turn and asked about the turn's window. Opening a turn takes everything
  the conversation has queued and leaves nothing behind.
\<close>

theorem conversation_is_answered_turn_by_turn:
  assumes "work_reachable maximum db"
  shows "length (filter (\<lambda>r. inv_org r = organization \<and> inv_conversation r = Some c \<and> inv_status r = StatusRunning)
           (db_investigations db)) \<le> 1
    \<and> set (turns_of organization c (db_investigations db)) = {1..int (length (turns_of organization c (db_investigations db)))}
    \<and> set (map msg_sequence (messages_of organization c (db_messages db))) = {1..int (length (messages_of organization c (db_messages db)))}
    \<and> (\<forall>m \<in> set (db_messages db). msg_investigation m \<noteq> None \<longrightarrow> (\<exists>r \<in> set (db_investigations db). answered_by m r))
    \<and> (openTurn now iid organization c db = Inr (Some turn, db') \<longrightarrow>
         (\<forall>m \<in> set (db_messages db'). \<not> queued_in organization c m)
         \<and> (\<forall>m \<in> set (db_messages db). queued_in organization c m \<longrightarrow>
              m\<lparr>msg_investigation := Some iid\<rparr> \<in> set (db_messages db')))"
proof -
  note inv = reachable_inv [OF assms]
  then have "turns_ok (db_investigations db)" and ok: "messages_ok db" by (simp_all add: work_inv_def)
  then have "length (filter (\<lambda>r. inv_org r = organization \<and> inv_conversation r = Some c \<and> inv_status r = StatusRunning)
        (db_investigations db)) \<le> 1"
    and num: "numbered (turns_of organization c (db_investigations db))"
      "numbered (map msg_sequence (messages_of organization c (db_messages db)))"
    by (simp_all add: turns_ok_def messages_ok_def)
  moreover have "\<forall>m \<in> set (db_messages db). msg_investigation m \<noteq> None \<longrightarrow> (\<exists>r \<in> set (db_investigations db). answered_by m r)"
    using ok unfolding messages_ok_def by blast
  moreover note openTurn_takes_queue [OF inv]
  ultimately show ?thesis unfolding numbered_def length_map by blast
qed

definition talk_conversation :: conversation_row where
  "talk_conversation = \<lparr>conv_id = 4, conv_org = 3, conv_incident = None, conv_source = ''slack'', conv_subject = ''help'',
     conv_created_by = ''U1'', conv_created_at = 1, conv_last_activity = 1\<rparr>"

definition talk_said :: SlackMessage where
  "talk_said = \<lparr>slack_Integration = 6, slack_ContentDigest = [], slack_Channel = ''C1'', slack_Thread = ''1'',
     slack_MessageID = ''1'', slack_Subject = ''help'', slack_AuthorID = ''U1'', slack_AuthorName = ''U1'', slack_Text = ''why?''\<rparr>"

definition talk_message :: message_row where
  "talk_message = \<lparr>msg_conversation = 4, msg_org = 3, msg_sequence = 1, msg_role = RoleUser, msg_author_id = ''U1'',
     msg_author_name = ''U1'', msg_text = ''why?'', msg_provider_id = ''1'', msg_source_reference = [],
     msg_investigation = None, msg_created_at = 2, msg_window_from = 3600000000000, msg_window_until = 90000000000000\<rparr>"

definition work_sample_talk :: work_db where
  "work_sample_talk = empty_work\<lparr>db_conversations := [talk_conversation\<lparr>conv_last_activity := 2\<rparr>], db_messages := [talk_message]\<rparr>"

lemmas talk_defs = talk_conversation_def talk_said_def talk_message_def work_sample_talk_def empty_work_def

lemma work_sample_talk_reachable: "work_reachable 5 work_sample_talk"
proof -
  have "insert_conversation talk_conversation empty_work = Inr (empty_work\<lparr>db_conversations := [talk_conversation]\<rparr>)"
    by (simp add: insert_conversation_def talk_defs)
  then have first: "work_step 5 empty_work (empty_work\<lparr>db_conversations := [talk_conversation]\<rparr>)"
    by (rule work_step.slack_conversation)
  have "appendSlackMessage 2 90000000000000 90000000000000 3 4 talk_said (empty_work\<lparr>db_conversations := [talk_conversation]\<rparr>)
      = Inr (talk_message, work_sample_talk)"
    by (simp add: appendSlackMessage_def put_message_def lockConversation_def has_conversation_def acceptedWindow_def
        queue_of_def turnWindow_def QuestionWindow_def Normalized_def truncate_microsecond_def Valid_def said_message_def
        next_message_sequence_def insert_message_def touch_conversation_def Let_def talk_defs)
  then have "work_step 5 (empty_work\<lparr>db_conversations := [talk_conversation]\<rparr>) work_sample_talk"
    by (rule work_step.slack_message [rotated]) (simp add: reserveQueuedMessage_def empty_work_def)
  with first show ?thesis unfolding work_reachable_def by (meson r_into_rtranclp rtranclp_trans)
qed

theorem conversation_is_answered_turn_by_turn_witness:
  "\<exists>turn db'. openTurn 200 8 3 4 work_sample_talk = Inr (Some turn, db')
     \<and> talk_message\<lparr>msg_investigation := Some 8\<rparr> \<in> set (db_messages db')"
proof -
  have "\<exists>turn db'. openTurn 200 8 3 4 work_sample_talk = Inr (Some turn, db')"
    by (simp add: openTurn_def turn_running_def queuedBatch_def queue_of_def queued_in_def queued_def turn_row_def next_turn_def
        insert_investigation_def investigation_clash_def has_conversation_def violated_def investigation_checks_def
        blank_investigation_def Let_def talk_defs)
  then obtain turn db' where run: "openTurn 200 8 3 4 work_sample_talk = Inr (Some turn, db')" by blast
  have m: "talk_message \<in> set (db_messages work_sample_talk)" "queued_in 3 4 talk_message"
    by (simp_all add: queued_in_def queued_def talk_defs)
  have "\<forall>m \<in> set (db_messages work_sample_talk). queued_in 3 4 m \<longrightarrow> m\<lparr>msg_investigation := Some 8\<rparr> \<in> set (db_messages db')"
    using conversation_is_answered_turn_by_turn [OF work_sample_talk_reachable, of 3 4 200 8 turn db'] run by blast
  with m run show ?thesis by blast
qed

lemma length_filter_selected:
  assumes "distinct (map k t)" "set s \<subseteq> set t" "distinct s"
  shows "length (filter (\<lambda>r. k r \<in> k ` set s) t) = length s"
proof -
  have "set (filter (\<lambda>r. k r \<in> k ` set s) t) = set s"
    using key_in_sublist [OF assms(1,2)] assms(2) by auto
  moreover have "distinct (filter (\<lambda>r. k r \<in> k ` set s) t)"
    using assms(1) by (simp add: distinct_map)
  ultimately show ?thesis using assms(3) by (metis distinct_card)
qed

lemma lapsed_selection_facts:
  fixes now locked limit t
  defines "s \<equiv> lapsed_selection now locked limit t"
  shows "set s \<subseteq> set t" "distinct (map inv_id t) \<Longrightarrow> distinct s"
    "length s = min (nat limit) (length (filter (\<lambda>r. lapsed now r \<and> \<not> locked (inv_id r)) t))"
    "length s < nat limit \<Longrightarrow> set s = {r \<in> set t. lapsed now r \<and> \<not> locked (inv_id r)}"
proof -
  let ?all = "sort_key (\<lambda>r. the (inv_lease_expires_at r)) (filter (\<lambda>r. lapsed now r \<and> \<not> locked (inv_id r)) t)"
  show "set s \<subseteq> set t"
    unfolding s_def lapsed_selection_def by (rule subset_trans [OF set_take_subset]) auto
  show "distinct s" if "distinct (map inv_id t)"
    using that unfolding s_def lapsed_selection_def by (intro distinct_take) (simp add: distinct_map)
  show "length s = min (nat limit) (length (filter (\<lambda>r. lapsed now r \<and> \<not> locked (inv_id r)) t))"
    unfolding s_def lapsed_selection_def by (simp add: min.commute)
  show "set s = {r \<in> set t. lapsed now r \<and> \<not> locked (inv_id r)}" if "length s < nat limit"
    using that unfolding s_def lapsed_selection_def by auto
qed

lemma lapsed_selection_oldest:
  assumes "x \<in> set (lapsed_selection now locked limit t)" "y \<in> set t" "lapsed now y" "\<not> locked (inv_id y)"
    and "y \<notin> set (lapsed_selection now locked limit t)"
  shows "the (inv_lease_expires_at x) \<le> the (inv_lease_expires_at y)"
proof -
  let ?key = "\<lambda>r. the (inv_lease_expires_at r)"
  let ?all = "sort_key ?key (filter (\<lambda>r. lapsed now r \<and> \<not> locked (inv_id r)) t)"
  have split: "?all = take (nat limit) ?all @ drop (nat limit) ?all" by simp
  have "sorted (map ?key (take (nat limit) ?all @ drop (nat limit) ?all))" unfolding split [symmetric] by simp
  moreover have "x \<in> set (take (nat limit) ?all)" using assms(1) by (simp add: lapsed_selection_def)
  moreover have "y \<in> set ?all" using assms(2-4) by simp
  then have "y \<in> set (drop (nat limit) ?all)"
    using assms(5) unfolding lapsed_selection_def by (subst (asm) split) (simp only: set_append Un_iff simp_thms)
  ultimately show ?thesis by (simp only: map_append sorted_append set_map) blast
qed

lemma events_of_failed:
  shows "i \<notin> inv_id ` set rows \<Longrightarrow> events_of i (map (failed_event now reason before) rows) = []"
    and "distinct (map inv_id rows) \<Longrightarrow> r \<in> set rows \<Longrightarrow>
      events_of (inv_id r) (map (failed_event now reason before) rows) = [failed_event now reason before r]"
proof -
  have named: "ie_investigation (failed_event now reason before x) = inv_id x" for x by (simp add: failed_event_def)
  show none: "i \<notin> inv_id ` set rows \<Longrightarrow> events_of i (map (failed_event now reason before) rows) = []" for i rows
    by (induction rows) (auto simp: events_of_def named)
  show "distinct (map inv_id rows) \<Longrightarrow> r \<in> set rows \<Longrightarrow>
      events_of (inv_id r) (map (failed_event now reason before) rows) = [failed_event now reason before r]"
  proof (induction rows)
    case (Cons x rows)
    then show ?case using none [of "inv_id x" rows] by (cases "r = x") (auto simp: events_of_def named)
  qed simp
qed

text \<open>What a sweep does, by the rows it selects.\<close>

lemma sweep_result:
  assumes inv: "work_inv maximum db" and run: "RecoverStale now locked reason limit db = Inr (n, db')" and limit: "0 < limit"
  defines "s \<equiv> lapsed_selection now locked limit (db_investigations db)"
  shows "n = length s" "distinct s" "set s \<subseteq> {r \<in> set (db_investigations db). lapsed now r \<and> \<not> locked (inv_id r)}"
    "db_investigations db' = map (\<lambda>r. if r \<in> set s then recovered now reason r else r) (db_investigations db)"
    "r \<in> set s \<Longrightarrow> events_of (inv_id r) (db_events db') = events_of (inv_id r) (db_events db) @ [failed_event now reason (db_events db) r]"
    "i \<notin> inv_id ` set s \<Longrightarrow> events_of i (db_events db') = events_of i (db_events db)"
    "db' = db\<lparr>db_investigations := db_investigations db', db_events := db_events db'\<rparr>"
proof -
  let ?t = "db_investigations db"
  let ?p = "\<lambda>r. inv_id r \<in> inv_id ` set s"
  let ?swept = "filter ?p ?t"
  from run limit have "recoverStaleIn now locked reason limit db = Inr (n, db')" by (simp add: RecoverStale_def)
  note result = recoverStaleIn_Inr [OF inv this limit, folded s_def]
  note dist = work_invD(1) [OF inv]
  note sel = lapsed_selection_facts [where now = now and locked = locked and limit = limit and t = ?t, folded s_def]
  show "n = length s"
    unfolding result(1) rows_affected_def by (rule length_filter_selected [OF dist sel(1) sel(2) [OF dist]])
  show "distinct s" by (rule sel(2) [OF dist])
  have same: "?p r \<longleftrightarrow> r \<in> set s" if "r \<in> set ?t" for r
    using lapsed_selection_mem(1) [OF inv that] unfolding s_def by blast
  show "set s \<subseteq> {r \<in> set ?t. lapsed now r \<and> \<not> locked (inv_id r)}"
    using lapsed_selection_mem(2,3) [OF inv] sel(1) unfolding s_def by blast
  show "db_investigations db' = map (\<lambda>r. if r \<in> set s then recovered now reason r else r) ?t"
    by (simp add: result(2) update_where_def same)
  have swept: "set ?swept = set s" using sel(1) same by auto
  have names: "distinct (map inv_id ?swept)" using dist by (rule distinct_map_filter)
  have events: "events_of i (db_events db') = events_of i (db_events db)
      @ events_of i (map (failed_event now reason (db_events db)) ?swept)" for i
    by (simp add: result(2) events_of_def)
  show "events_of (inv_id r) (db_events db') = events_of (inv_id r) (db_events db) @ [failed_event now reason (db_events db) r]"
    if "r \<in> set s"
    unfolding events by (subst events_of_failed(2) [OF names]) (simp_all only: swept that)
  show "events_of i (db_events db') = events_of i (db_events db)" if "i \<notin> inv_id ` set s"
    unfolding events by (subst events_of_failed(1)) (simp_all only: swept that not_False_eq_True append_Nil2)
  show "db' = db\<lparr>db_investigations := db_investigations db', db_events := db_events db'\<rparr>" by (simp add: result(2))
qed

text \<open>
  C23. Recovery is exact. A sweep chooses as many lapsed, unlocked leases as its limit allows, those
  that expired first, and fails just these: each chosen row becomes the failed row with the given
  reason and no lease, in its place, and its stream gets one more event, the failure with that
  reason under the next number. No other row and no other stream changes, nor anything else. A
  sweep that did not reach its limit leaves no unlocked lapsed lease.
\<close>

theorem recovery_is_exact:
  assumes "work_reachable maximum db" "RecoverStale now locked reason limit db = Inr (n, db')" "0 < limit"
  shows "\<exists>chosen. distinct chosen \<and> length chosen = n
    \<and> n = min (nat limit) (length (filter (\<lambda>r. lapsed now r \<and> \<not> locked (inv_id r)) (db_investigations db)))
    \<and> set chosen \<subseteq> {r \<in> set (db_investigations db). lapsed now r \<and> \<not> locked (inv_id r)}
    \<and> (\<forall>x \<in> set chosen. \<forall>y \<in> set (db_investigations db). lapsed now y \<and> \<not> locked (inv_id y) \<and> y \<notin> set chosen \<longrightarrow>
         the (inv_lease_expires_at x) \<le> the (inv_lease_expires_at y))
    \<and> db_investigations db' = map (\<lambda>r. if r \<in> set chosen
         then r\<lparr>inv_status := StatusFailed, inv_error := reason, inv_concluded_at := Some now,
                inv_lease_worker := [], inv_lease_token := None, inv_lease_expires_at := None\<rparr>
         else r) (db_investigations db)
    \<and> (\<forall>r \<in> set chosen. events_of (inv_id r) (db_events db') = events_of (inv_id r) (db_events db)
         @ [\<lparr>ie_investigation = inv_id r, ie_org = inv_org r,
              ie_sequence = int (length (events_of (inv_id r) (db_events db))) + 1, ie_at = now, ie_type = EventFailed,
              ie_payload = payload_fields (FailedPayload reason)\<rparr>])
    \<and> (\<forall>i. i \<notin> inv_id ` set chosen \<longrightarrow> events_of i (db_events db') = events_of i (db_events db))
    \<and> db' = db\<lparr>db_investigations := db_investigations db', db_events := db_events db'\<rparr>
    \<and> (n < nat limit \<longrightarrow> (\<forall>r \<in> set (db_investigations db'). \<not> (lapsed now r \<and> \<not> locked (inv_id r))))"
proof -
  let ?t = "db_investigations db"
  let ?s = "lapsed_selection now locked limit ?t"
  note swept = sweep_result [OF reachable_inv [OF assms(1)] assms(2,3)]
  note sel = lapsed_selection_facts [where now = now and locked = locked and limit = limit and t = ?t]
  have rest: "\<not> (lapsed now r' \<and> \<not> locked (inv_id r'))" if "n < nat limit" "r' \<in> set (db_investigations db')" for r'
  proof -
    from that(1) swept(1) have all: "set ?s = {r \<in> set ?t. lapsed now r \<and> \<not> locked (inv_id r)}" by (intro sel(4)) simp
    from that(2) swept(4) obtain r where "r \<in> set ?t" "r' = (if r \<in> set ?s then recovered now reason r else r)" by auto
    then show ?thesis using all by (auto simp: lapsed_def recovered_def)
  qed
  have "length ?s = n" using swept(1) by simp
  moreover have "n = min (nat limit) (length (filter (\<lambda>r. lapsed now r \<and> \<not> locked (inv_id r)) ?t))"
    using swept(1) sel(3) by simp
  moreover have "\<forall>x \<in> set ?s. \<forall>y \<in> set ?t. lapsed now y \<and> \<not> locked (inv_id y) \<and> y \<notin> set ?s \<longrightarrow>
      the (inv_lease_expires_at x) \<le> the (inv_lease_expires_at y)"
    using lapsed_selection_oldest by blast
  moreover have "\<forall>r \<in> set ?s. events_of (inv_id r) (db_events db') = events_of (inv_id r) (db_events db)
      @ [\<lparr>ie_investigation = inv_id r, ie_org = inv_org r,
           ie_sequence = int (length (events_of (inv_id r) (db_events db))) + 1, ie_at = now, ie_type = EventFailed,
           ie_payload = payload_fields (FailedPayload reason)\<rparr>]"
    using swept(5) by (simp add: failed_event_def)
  moreover have "\<forall>i. i \<notin> inv_id ` set ?s \<longrightarrow> events_of i (db_events db') = events_of i (db_events db)"
    using swept(6) by blast
  moreover have "n < nat limit \<longrightarrow> (\<forall>r \<in> set (db_investigations db'). \<not> (lapsed now r \<and> \<not> locked (inv_id r)))"
    using rest by blast
  ultimately show ?thesis
    using swept(2,3,7) swept(4) [unfolded recovered_def] by (intro exI [of _ ?s] conjI) assumption+
qed

theorem recovery_is_exact_witness:
  "\<exists>db' r. RecoverStale 200 (\<lambda>_. False) ''worker interrupted'' 50 work_sample_leased = Inr (1, db')
     \<and> db_investigations db' = [r] \<and> inv_id r = 7 \<and> inv_status r = StatusFailed \<and> inv_error r = ''worker interrupted''"
proof -
  have "\<exists>db'. RecoverStale 200 (\<lambda>_. False) ''worker interrupted'' 50 work_sample_leased = Inr (1, db')"
    by (simp add: RecoverStale_def recoverStaleIn_def lapsed_selection_def lapsed_def recovered_def insert_event_def Let_def work_sample_defs)
  then obtain db' where run: "RecoverStale 200 (\<lambda>_. False) ''worker interrupted'' 50 work_sample_leased = Inr (1, db')" by blast
  let ?r = "leased 110 9 work_sample_claim work_sample_waiting"
  have rows: "db_investigations work_sample_leased = [?r]" "inv_id ?r = 7" by (simp_all add: work_sample_defs)
  from recovery_is_exact [OF work_sample_leased_reachable run] obtain chosen where
      "length chosen = 1" "set chosen \<subseteq> {?r}"
      "db_investigations db' = map (\<lambda>r. if r \<in> set chosen
         then r\<lparr>inv_status := StatusFailed, inv_error := ''worker interrupted'', inv_concluded_at := Some 200,
                inv_lease_worker := [], inv_lease_token := None, inv_lease_expires_at := None\<rparr> else r) [?r]"
    by (auto simp: rows(1))
  moreover then have "set chosen = {?r}" by (cases chosen) auto
  ultimately show ?thesis using run rows(2) by (intro exI [of _ db']) simp
qed

text \<open>
  C24. Claims are fair and take one investigation each. A worker with a name always gets an answer:
  nothing, when no unlocked investigation waits, or else the one that has waited longest, under
  the fresh token; no other row changes.
\<close>

theorem claim_takes_the_oldest:
  assumes "work_reachable maximum db" "claim_Worker claim \<noteq> []"
  shows "\<exists>got db'. ClaimInvestigation now locked token claim db = Inr (got, db')
    \<and> (case got of
         None \<Rightarrow> db' = db \<and> (\<forall>r \<in> set (db_investigations db). waiting (inv_org r) r \<longrightarrow> locked (inv_id r))
       | Some (organization, i) \<Rightarrow>
           \<exists>r \<in> set (db_investigations db). waiting organization r \<and> \<not> locked (inv_id r) \<and> i_ID i = inv_id r \<and> i_ClaimToken i = token
             \<and> (\<forall>x \<in> set (db_investigations db). waiting (inv_org x) x \<and> \<not> locked (inv_id x) \<longrightarrow>
                  (inv_created_at r, inv_id r) \<le> (inv_created_at x, inv_id x))
             \<and> leased now token claim r \<in> set (db_investigations db')
             \<and> (\<forall>x \<in> set (db_investigations db). x \<noteq> r \<longrightarrow> x \<in> set (db_investigations db')))"
proof (cases "claim_choice locked (db_investigations db)")
  case None
  then have "filter (\<lambda>r. inv_status r = StatusRunning \<and> inv_lease_worker r = [] \<and> \<not> locked (inv_id r)) (db_investigations db) = []"
    by (auto simp: claim_choice_def split: list.splits)
       (metis (no_types, lifting) sort_key_simps(1) length_0_conv length_sort)
  then have "\<forall>r \<in> set (db_investigations db). waiting (inv_org r) r \<longrightarrow> locked (inv_id r)"
    by (auto simp: filter_empty_conv waiting_def)
  with None show ?thesis by (simp add: ClaimInvestigation_def)
next
  case (Some r)
  note inv = reachable_inv [OF assms(1)]
  let ?t = "db_investigations db"
  let ?key = "\<lambda>r. (inv_created_at r, inv_id r)"
  let ?q = "\<lambda>r. inv_status r = StatusRunning \<and> inv_lease_worker r = [] \<and> \<not> locked (inv_id r)"
  note r = claim_choice_Some [OF Some]
  have only: "x = r" if "x \<in> set ?t" "inv_id x = inv_id r" for x using same_row [OF inv that(1) r(1) that(2)] .
  have "list_all snd (investigation_checks r)" by (rule work_invD(2) [OF inv r(1)])
  then have "list_all snd (investigation_checks (leased now token claim r))"
    using r assms(2) by (simp add: investigation_checks_def leased_def)
  then have checks: "\<forall>x \<in> set ?t. inv_id x = inv_id r \<longrightarrow> list_all snd (investigation_checks (leased now token claim x))"
    using only by blast
  let ?u = "update_where (\<lambda>x. inv_id x = inv_id r) (leased now token claim) ?t"
  have run: "ClaimInvestigation now locked token claim db =
      Inr (Some (inv_org r, (scanInvestigation (leased now token claim r))\<lparr>i_ClaimToken := token\<rparr>), db\<lparr>db_investigations := ?u\<rparr>)"
    using Some checks checked_update_Inr [of investigation_checks "\<lambda>x. inv_id x = inv_id r" "leased now token claim" ?t ?u]
    by (simp add: ClaimInvestigation_def)
  obtain rest where sorted: "sort_key ?key (filter ?q ?t) = r # rest"
    using Some by (auto simp: claim_choice_def split: list.splits)
  have "sorted (map ?key (r # rest))" unfolding sorted [symmetric] by simp
  moreover have "set (r # rest) = set (filter ?q ?t)" unfolding sorted [symmetric] by simp
  ultimately have oldest: "?key r \<le> ?key x" if "x \<in> set ?t" "waiting (inv_org x) x \<and> \<not> locked (inv_id x)" for x
    using that by (auto simp: waiting_def)
  have written: "leased now token claim r \<in> set ?u" using r(1) by (auto simp: set_update_where)
  have kept: "x \<in> set ?u" if "x \<in> set ?t" "x \<noteq> r" for x
    using only [OF that(1)] that by (auto simp: set_update_where)
  let ?i = "(scanInvestigation (leased now token claim r))\<lparr>i_ClaimToken := token\<rparr>"
  have names: "i_ID ?i = inv_id r" "i_ClaimToken ?i = token" by (simp_all add: scanInvestigation_def leased_def)
  have "waiting (inv_org r) r" using r by (simp add: waiting_def)
  with r names oldest written kept
  have body: "\<exists>y \<in> set ?t. waiting (inv_org r) y \<and> \<not> locked (inv_id y) \<and> i_ID ?i = inv_id y \<and> i_ClaimToken ?i = token
      \<and> (\<forall>x \<in> set ?t. waiting (inv_org x) x \<and> \<not> locked (inv_id x) \<longrightarrow> ?key y \<le> ?key x)
      \<and> leased now token claim y \<in> set ?u \<and> (\<forall>x \<in> set ?t. x \<noteq> y \<longrightarrow> x \<in> set ?u)"
    by blast
  show ?thesis
    by (rule exI [of _ "Some (inv_org r, ?i)"], rule exI [of _ "db\<lparr>db_investigations := ?u\<rparr>"], rule conjI, rule run)
       (use body in simp)
qed

theorem claim_takes_the_oldest_witness:
  "\<exists>got db'. ClaimInvestigation 300 (\<lambda>_. False) 12 work_sample_claim work_sample_leased = Inr (got, db')"
proof -
  have "claim_Worker work_sample_claim \<noteq> []" by (simp add: work_sample_claim_def)
  from claim_takes_the_oldest [OF work_sample_leased_reachable this] show ?thesis by blast
qed

end
