(* ===== verification/AgentRun.thy ===== *)
theory AgentRun
  imports Agent WorkProperties
begin

text \<open>
  What a run of the agent does to the world it shares: the tables move only by their own
  transactions, every run it counts on is stored, its budgets hold, it reads only what it was
  offered, and no credential is used before its audit event is written.
\<close>

section \<open>The claim of a run\<close>

text \<open>
  The others run transactions of their own. While the investigation is running under the token of
  this claim none of them concludes it: the store accepts that from the holder of the token only.
\<close>

definition companions :: "int \<Rightarrow> uuid \<Rightarrow> uuid \<Rightarrow> agent_env \<Rightarrow> bool" where
  "companions maximum iid token env \<longleftrightarrow>
     (\<forall>k db. work_reachable maximum db \<longrightarrow>
        (work_step maximum)\<^sup>*\<^sup>* db (ag_others env k db)
        \<and> (\<forall>r \<in> set (db_investigations db).
             inv_id r = iid \<and> inv_status r = StatusRunning \<and> inv_lease_token r = Some token \<longrightarrow>
             (\<forall>r' \<in> set (db_investigations (ag_others env k db)). inv_id r' = iid \<longrightarrow> inv_status r' \<noteq> StatusConcluded)))"

definition our_row :: "uuid \<Rightarrow> uuid \<Rightarrow> uuid \<Rightarrow> work_db \<Rightarrow> bool" where
  "our_row organization iid token db \<longleftrightarrow>
     (\<exists>r \<in> set (db_investigations db). inv_id r = iid \<and> inv_org r = organization
        \<and> (if inv_status r = StatusRunning then inv_lease_token r = Some token \<and> inv_lease_worker r \<noteq> []
           else inv_status r \<noteq> StatusConcluded))"

lemma our_row_unique:
  assumes "work_inv maximum db" "our_row organization iid token db" "r \<in> set (db_investigations db)" "inv_id r = iid"
  shows "inv_org r = organization"
    "inv_status r = StatusRunning \<Longrightarrow> inv_lease_token r = Some token \<and> inv_lease_worker r \<noteq> []"
    "inv_status r \<noteq> StatusConcluded"
  using assms(2) same_row [OF assms(1,3)] assms(4) unfolding our_row_def by (metis InvestigationStatus.distinct(1))+

lemma our_row_kept:
  assumes inv: "work_inv maximum db" and run: "(work_step maximum)\<^sup>*\<^sup>* db db'" and ours: "our_row organization iid token db"
    and quiet: "\<And>r r'. r \<in> set (db_investigations db) \<Longrightarrow> inv_id r = iid \<Longrightarrow> inv_status r = StatusRunning \<Longrightarrow>
      inv_lease_token r = Some token \<Longrightarrow> r' \<in> set (db_investigations db') \<Longrightarrow> inv_id r' = iid \<Longrightarrow> inv_status r' \<noteq> StatusConcluded"
  shows "our_row organization iid token db'"
proof -
  from ours obtain r where r: "r \<in> set (db_investigations db)" "inv_id r = iid" unfolding our_row_def by blast
  note row = our_row_unique [OF inv ours r]
  from work_run_keeps [OF run inv] r(1) obtain r' where r': "r' \<in> set (db_investigations db')" "inv_evolves r r'"
    unfolding work_evolves_def by blast
  then have fixed: "inv_id r' = iid" "inv_org r' = organization" using r(2) row(1) by (simp_all add: inv_evolves_def keeps_fixed_def)
  have "if inv_status r' = StatusRunning then inv_lease_token r' = Some token \<and> inv_lease_worker r' \<noteq> []
      else inv_status r' \<noteq> StatusConcluded"
  proof (cases "inv_status r = StatusRunning")
    case True
    with r'(2) row(2) quiet [OF r True _ r'(1) fixed(1)] show ?thesis by (auto simp: inv_evolves_def)
  next
    case False
    with r'(2) row(3) show ?thesis by (auto simp: inv_evolves_def)
  qed
  with r'(1) fixed show ?thesis unfolding our_row_def by blast
qed

section \<open>The state of a run\<close>

text \<open>Every run the agent counts is stored under its position, with its outcome.\<close>

definition recorded :: "run_frame \<Rightarrow> ToolRun list \<Rightarrow> work_db \<Rightarrow> bool" where
  "recorded f runs db \<longleftrightarrow>
     (\<forall>n < length runs. run_Ordinal (runs ! n) = int n + 1
        \<and> (\<exists>x \<in> set (db_tool_runs db). tr_org x = rf_org f \<and> tr_investigation x = i_ID (rf_opened f)
             \<and> run_Ordinal (tr_run x) = int n + 1 \<and> run_Outcome (tr_run x) = run_Outcome (runs ! n)))"

text \<open>The event that an integration's credential was opened for this investigation is in the trail.\<close>

definition unseal_audited :: "agent_env \<Rightarrow> run_frame \<Rightarrow> uuid \<Rightarrow> audit_row list \<Rightarrow> bool" where
  "unseal_audited env f integration trail \<longleftrightarrow>
     (\<exists>clock eventID before row.
        RecordEvent (ag_lower env) clock eventID (rf_org f)
          (unseal_event env (rf_org f) (i_ID (rf_opened f)) integration) before = Inr (before @ [row])
        \<and> row \<in> set trail)"

definition proper_read :: "agent_env \<Rightarrow> run_frame \<Rightarrow> audit_row list \<Rightarrow> Tool \<times> ToolRequest \<Rightarrow> bool" where
  "proper_read env f trail = (\<lambda>(tool, request).
     \<exists>source \<in> set (rf_offered f). \<exists>credential call.
       tool \<in> set (src_Tools source)
       \<and> request = tool_request f (src_Integration source) credential call
       \<and> (credential \<noteq> [] \<longrightarrow> unseal_audited env f (integ_ID (src_Integration source)) trail))"

definition run_ok ::
  "int \<Rightarrow> agent_env \<Rightarrow> run_frame \<Rightarrow> ToolRun list \<Rightarrow> credential_cache \<Rightarrow> agent_world \<Rightarrow> bool"
where
  "run_ok maximum env f runs cache w \<longleftrightarrow>
     companions maximum (i_ID (rf_opened f)) (i_ClaimToken (rf_opened f)) env
     \<and> work_reachable maximum (w_db w)
     \<and> our_row (rf_org f) (i_ID (rf_opened f)) (i_ClaimToken (rf_opened f)) (w_db w)
     \<and> recorded f runs (w_db w)
     \<and> (\<forall>(i, credential) \<in> set (cc_opened cache). credential \<noteq> [] \<longrightarrow> unseal_audited env f i (w_trail w))
     \<and> (\<forall>x \<in> set (w_reads w). proper_read env f (w_trail w) x)"

abbreviation state_ok :: "int \<Rightarrow> agent_env \<Rightarrow> run_frame \<Rightarrow> run_state \<times> agent_world \<Rightarrow> bool" where
  "state_ok maximum env f s \<equiv>
     run_ok maximum env f (rs_runs (fst s)) (rs_credentials (fst s)) (snd s)"

text \<open>
  One part of a run, with at most \<open>n\<close> prompts: it keeps the state in order, moves the tables by
  transactions, and pays for each tool it runs with one of its reads.
\<close>

definition advances ::
  "int \<Rightarrow> nat \<Rightarrow> agent_env \<Rightarrow> run_frame \<Rightarrow> run_state \<times> agent_world \<Rightarrow> run_state \<times> agent_world \<Rightarrow> bool"
where
  "advances maximum n env f s s' \<longleftrightarrow>
     (state_ok maximum env f s \<longrightarrow>
        state_ok maximum env f s' \<and> (work_step maximum)\<^sup>*\<^sup>* (w_db (snd s)) (w_db (snd s')))
     \<and> length (w_prompts (snd s')) \<le> length (w_prompts (snd s)) + n
     \<and> (rs_executed (fst s) \<le> rf_maxRuns f \<longrightarrow> rs_executed (fst s') \<le> rf_maxRuns f)
     \<and> int (length (w_reads (snd s'))) - rs_executed (fst s') \<le> int (length (w_reads (snd s))) - rs_executed (fst s)"

lemma advances_refl [simp]: "advances maximum n env f s s"
  by (simp add: advances_def)

lemma advances_trans:
  assumes "advances maximum n env f s s'" "advances maximum m env f s' s''"
  shows "advances maximum (n + m) env f s s''"
  using assms unfolding advances_def by (auto intro: rtranclp_trans)

lemma advances_step: "advances maximum 0 env f s s' \<Longrightarrow> advances maximum 0 env f s' s'' \<Longrightarrow> advances maximum 0 env f s s''"
  using advances_trans [of maximum 0 env f s s' 0 s''] by simp

lemma advances_prompts: "advances maximum n env f s s' \<Longrightarrow> n \<le> m \<Longrightarrow> advances maximum m env f s s'"
  by (auto simp: advances_def)

text \<open>Parts of the state the invariant does not speak of.\<close>

lemma advances_same:
  "rs_runs st' = rs_runs st \<Longrightarrow> rs_executed st' = rs_executed st \<Longrightarrow> rs_credentials st' = rs_credentials st \<Longrightarrow>
     advances maximum n env f (st, w) (st', w)"
  by (simp add: advances_def)

lemma advances_after:
  "advances maximum n env f s (st, w) \<Longrightarrow> rs_runs st' = rs_runs st \<Longrightarrow> rs_executed st' = rs_executed st \<Longrightarrow>
     rs_credentials st' = rs_credentials st \<Longrightarrow> advances maximum n env f s (st', w)"
  by (simp add: advances_def)

section \<open>Calls to the store\<close>

lemma unseal_audited_mono: "unseal_audited env f i trail \<Longrightarrow> set trail \<subseteq> set trail' \<Longrightarrow> unseal_audited env f i trail'"
  unfolding unseal_audited_def by blast

lemma proper_read_mono: "proper_read env f trail x \<Longrightarrow> set trail \<subseteq> set trail' \<Longrightarrow> proper_read env f trail' x"
  using unseal_audited_mono by (fastforce simp: proper_read_def)

lemma recorded_kept: "recorded f runs db \<Longrightarrow> work_evolves db db' \<Longrightarrow> recorded f runs db'"
  by (fastforce simp: recorded_def work_evolves_def)

lemma reachable_steps: "work_reachable maximum db \<Longrightarrow> (work_step maximum)\<^sup>*\<^sup>* db db' \<Longrightarrow> work_reachable maximum db'"
  unfolding work_reachable_def by (rule rtranclp_trans)

lemma run_ok_steps:
  assumes "run_ok maximum env f runs cache w" "(work_step maximum)\<^sup>*\<^sup>* (w_db w) db"
    and "our_row (rf_org f) (i_ID (rf_opened f)) (i_ClaimToken (rf_opened f)) db"
    and "w_db w' = db" "w_trail w' = w_trail w" "w_reads w' = w_reads w"
  shows "run_ok maximum env f runs cache w'"
proof -
  have old: "work_reachable maximum (w_db w)" "recorded f runs (w_db w)" using assms(1) by (simp_all add: run_ok_def)
  note kept = work_run_keeps [OF assms(2) reachable_inv [OF old(1)]]
  from reachable_steps [OF old(1) assms(2)] recorded_kept [OF old(2) conjunct2 [OF kept]] assms(1,3-) show ?thesis
    by (simp add: run_ok_def)
qed

lemma others_ok:
  assumes "run_ok maximum env f runs cache w"
  shows "(work_step maximum)\<^sup>*\<^sup>* (w_db w) (ag_others env k (w_db w))"
    "our_row (rf_org f) (i_ID (rf_opened f)) (i_ClaimToken (rf_opened f)) (ag_others env k (w_db w))"
proof -
  from assms have ok: "companions maximum (i_ID (rf_opened f)) (i_ClaimToken (rf_opened f)) env"
      "work_inv maximum (w_db w)" "our_row (rf_org f) (i_ID (rf_opened f)) (i_ClaimToken (rf_opened f)) (w_db w)"
      "work_reachable maximum (w_db w)"
    by (simp_all add: run_ok_def reachable_inv)
  from ok(1,4) show steps: "(work_step maximum)\<^sup>*\<^sup>* (w_db w) (ag_others env k (w_db w))" by (simp add: companions_def)
  show "our_row (rf_org f) (i_ID (rf_opened f)) (i_ClaimToken (rf_opened f)) (ag_others env k (w_db w))"
    by (rule our_row_kept [OF ok(2) steps ok(3)]) (use ok(1,4) in \<open>auto simp: companions_def\<close>)
qed

text \<open>A statement that leaves the rows of investigations alone.\<close>

definition rowless :: "int \<Rightarrow> (instant \<Rightarrow> instant \<Rightarrow> work_db \<Rightarrow> store_error + 'a \<times> work_db) \<Rightarrow> bool" where
  "rowless maximum g \<longleftrightarrow>
     (\<forall>now clock db v db'. g now clock db = Inr (v, db') \<longrightarrow>
        (work_step maximum)\<^sup>*\<^sup>* db db' \<and> db_investigations db' = db_investigations db)"

lemma store_call_result:
  assumes "store_call env g w = (r, w')"
  shows "w_prompts w' = w_prompts w" "w_reads w' = w_reads w" "w_trail w' = w_trail w" "w_tick w' = w_tick w + 1"
    "w_db w' = ag_others env (w_tick w) (w_db w)
     \<or> (\<exists>v db'. g (ag_now env (w_tick w)) (ag_clock env (w_tick w)) (ag_others env (w_tick w) (w_db w)) = Inr (v, db')
          \<and> w_db w' = db')"
    "r = Inr v \<Longrightarrow> g (ag_now env (w_tick w)) (ag_clock env (w_tick w)) (ag_others env (w_tick w) (w_db w)) = Inr (v, w_db w')"
  using assms by (auto simp: store_call_def Let_def split: if_splits sum.splits)

lemma store_call_advances:
  assumes "rowless maximum g" "store_call env g w = (r, w')"
  shows "advances maximum 0 env f (st, w) (st, w')"
proof -
  note result = store_call_result [OF assms(2)]
  let ?mid = "ag_others env (w_tick w) (w_db w)"
  have "state_ok maximum env f (st, w') \<and> (work_step maximum)\<^sup>*\<^sup>* (w_db w) (w_db w')" if ok: "state_ok maximum env f (st, w)"
  proof -
    note others = others_ok [OF that, simplified, of "w_tick w"]
    from result(5) have steps: "(work_step maximum)\<^sup>*\<^sup>* ?mid (w_db w') \<and> db_investigations (w_db w') = db_investigations ?mid"
      using assms(1) unfolding rowless_def by (elim disjE exE conjE) simp_all
    then have all: "(work_step maximum)\<^sup>*\<^sup>* (w_db w) (w_db w')" using others(1) by (meson rtranclp_trans)
    moreover have "our_row (rf_org f) (i_ID (rf_opened f)) (i_ClaimToken (rf_opened f)) (w_db w')"
      using others(2) steps by (simp add: our_row_def)
    ultimately show ?thesis using run_ok_steps [of maximum env f _ _ w "w_db w'" w'] ok result(2,3) by simp
  qed
  then show ?thesis using result by (simp add: advances_def)
qed

lemma rowless_reading: "rowless maximum (reading g)"
  by (auto simp: rowless_def reading_def split: sum.splits)

lemma AppendEvent_rows: "AppendEvent clock organization iid token event db = Inr db' \<Longrightarrow> db_investigations db' = db_investigations db"
  by (auto simp: AppendEvent_def append_event_def insert_event_def split: sum.splits if_splits EventType.splits)

lemma RecordToolRun_rows:
  assumes "RecordToolRun clock ints organization iid token run db = Inr db'"
  shows "db_investigations db' = db_investigations db"
    "\<exists>x. db_tool_runs db' = db_tool_runs db @ [x] \<and> tr_org x = organization \<and> tr_investigation x = iid \<and> tr_run x = stored_run run"
  using assms by (auto simp: RecordToolRun_def insert_tool_run_def split: sum.splits option.splits if_splits)

lemma rowless_event:
  "\<not> Terminal (e_Type event) \<Longrightarrow> rowless maximum (writing (\<lambda>now clock. AppendEvent clock organization iid token event))"
  using work_step.tell AppendEvent_rows
  by (fastforce simp: rowless_def writing_def split: sum.splits)

lemma rowless_tool_run: "rowless maximum (writing (\<lambda>now clock. RecordToolRun clock ints organization iid token run))"
  using work_step.tool_run RecordToolRun_rows(1)
  by (fastforce simp: rowless_def writing_def split: sum.splits)

section \<open>Announcements and credentials\<close>

abbreviation live_payload :: "EventPayload \<Rightarrow> bool" where
  "live_payload payload \<equiv> \<not> Terminal (payload_EventType payload)"

lemma live_payloads [simp]:
  "live_payload (StartedPayload txt)" "live_payload (ProgressPayload txt)"
  "live_payload (ToolStartedPayload run integration name)" "live_payload (ToolCompletedPayload run)"
  by (simp_all add: StartedPayload_def ProgressPayload_def ToolStartedPayload_def ToolCompletedPayload_def Terminal_def Let_def)

lemma announce_advances:
  assumes "live_payload payload" "announce env organization opened payload (events, w) = (events', w')"
  shows "advances maximum 0 env f (st, w) (st, w')"
proof -
  define event where "event = \<lparr>e_Sequence = st_sequence events + 1, e_At = ag_time env (w_tick w),
    e_Type = payload_EventType payload, e_Payload = safePayload (ag_lower env) (payload_fields payload)\<rparr>"
  have "w' = w \<or> (\<exists>r. store_call env
      (writing (\<lambda>now clock. AppendEvent clock organization (i_ID opened) (i_ClaimToken opened) event)) w = (r, w'))"
    using assms(2)
    by (auto simp: announce_def Emit_def emit_def append_own_event_def event_def [symmetric] split: if_splits prod.splits sum.splits)
  moreover have "\<not> Terminal (e_Type event)" using assms(1) by (simp add: event_def)
  ultimately show ?thesis using store_call_advances [OF rowless_event] by fastforce
qed

lemma tell_advances:
  assumes "live_payload payload"
  shows "advances maximum 0 env f s (tell env f payload s)"
proof -
  obtain st w where s: "s = (st, w)" by (cases s)
  obtain events' w' where told: "announce env (rf_org f) (rf_opened f) payload (rs_events st, w) = (events', w')" by fastforce
  then have "tell env f payload s = (st\<lparr>rs_events := events'\<rparr>, w')" by (simp add: tell_def s)
  with announce_advances [OF assms told, of maximum f st] show ?thesis by (simp add: s advances_def)
qed

lemma tell_state [simp]:
  "rs_runs (fst (tell env f payload s)) = rs_runs (fst s)" "rs_executed (fst (tell env f payload s)) = rs_executed (fst s)"
  "rs_credentials (fst (tell env f payload s)) = rs_credentials (fst s)"
  by (cases s, simp add: tell_def split: prod.split)+

lemma toolNamed_Some:
  assumes "toolNamed uuids selected call = Some (source, tool)"
  shows "source \<in> set selected" "tool \<in> set (src_Tools source)" "tool_Name tool = tc_Tool call"
proof -
  from assms have "matching_tools uuids selected call = [(source, tool)]"
    by (auto simp: toolNamed_def split: list.splits)
  then have "(source, tool) \<in> set (matching_tools uuids selected call)" by simp
  then show "source \<in> set selected" "tool \<in> set (src_Tools source)" "tool_Name tool = tc_Tool call"
    by (auto simp: matching_tools_def)
qed

lemma RecordEvent_Inr: "RecordEvent lower clock eventID organization event t = Inr t' \<Longrightarrow> \<exists>row. t' = t @ [row]"
  by (auto simp: RecordEvent_def writeEvent_def Let_def split: if_splits)

lemma unseal_recorded:
  assumes "RecordCredentialUnseal env (rf_org f) (i_ID (rf_opened f)) i w = (r, w')"
  shows "w_db w' = w_db w" "w_prompts w' = w_prompts w" "w_reads w' = w_reads w" "set (w_trail w) \<subseteq> set (w_trail w')"
    "r = None \<Longrightarrow> unseal_audited env f i (w_trail w')"
proof -
  let ?go = "RecordEvent (ag_lower env) (ag_clock env (w_tick w)) (ag_eventID env (w_tick w)) (rf_org f)
    (unseal_event env (rf_org f) (i_ID (rf_opened f)) i) (w_trail w)"
  have cases: "w_db w' = w_db w \<and> w_prompts w' = w_prompts w \<and> w_reads w' = w_reads w
      \<and> (w_trail w' = w_trail w \<and> r \<noteq> None \<or> ?go = Inr (w_trail w'))"
    using assms by (auto simp: RecordCredentialUnseal_def Let_def split: if_splits sum.splits)
  moreover have "\<exists>row. w_trail w' = w_trail w @ [row]" if "?go = Inr (w_trail w')" using RecordEvent_Inr [OF that] .
  ultimately show "w_db w' = w_db w" "w_prompts w' = w_prompts w" "w_reads w' = w_reads w" "set (w_trail w) \<subseteq> set (w_trail w')"
    by auto
  assume "r = None"
  with cases have go: "?go = Inr (w_trail w')" by simp
  with RecordEvent_Inr [OF go] show "unseal_audited env f i (w_trail w')"
    unfolding unseal_audited_def by (metis in_set_conv_decomp)
qed

lemma run_ok_trail:
  assumes "run_ok maximum env f runs cache w" "w_db w' = w_db w" "w_reads w' = w_reads w"
    and "set (w_trail w) \<subseteq> set (w_trail w')"
    and "\<And>i credential. (i, credential) \<in> set (cc_opened cache') \<Longrightarrow> credential \<noteq> [] \<Longrightarrow>
      (i, credential) \<in> set (cc_opened cache) \<or> unseal_audited env f i (w_trail w')"
  shows "run_ok maximum env f runs cache' w'"
proof -
  have "unseal_audited env f i (w_trail w')" if "(i, credential) \<in> set (cc_opened cache')" "credential \<noteq> []" for i credential
    using assms(5) [OF that] assms(1) that(2) unseal_audited_mono [OF _ assms(4)] unfolding run_ok_def by fastforce
  with assms(1-3) proper_read_mono [OF _ assms(4)] show ?thesis unfolding run_ok_def by auto
qed

lemma open_credential_ok:
  assumes "open_credential env f i (cache, w) = (r, cache', w')"
  shows "run_ok maximum env f runs cache w \<Longrightarrow> run_ok maximum env f runs cache' w'"
    and "run_ok maximum env f runs cache w \<Longrightarrow> r = Inr credential \<Longrightarrow> credential \<noteq> [] \<Longrightarrow>
      unseal_audited env f (integ_ID i) (w_trail w')"
    and "w_db w' = w_db w" "w_prompts w' = w_prompts w" "w_reads w' = w_reads w"
proof -
  consider (known) c where "map_of (cc_opened cache) (integ_ID i) = Some c" "r = Inr c" "cache' = cache" "w' = w"
    | (broken) e where "r = Inl e" "cache' = cache" "w' = w"
    | (blank) "r = Inr []" "cc_opened cache' = (integ_ID i, []) # cc_opened cache" "w' = w"
    | (refused) e e' where "r = Inl e'" "cc_opened cache' = cc_opened cache"
        "RecordCredentialUnseal env (rf_org f) (i_ID (rf_opened f)) (integ_ID i) w = (e, w')"
    | (fresh) c where "r = Inr c" "cc_opened cache' = (integ_ID i, c) # cc_opened cache"
        "RecordCredentialUnseal env (rf_org f) (i_ID (rf_opened f)) (integ_ID i) w = (None, w')"
    using assms by (auto simp: open_credential_def split: option.splits if_splits prod.splits sum.splits)
  note cases = this
  show "w_db w' = w_db w" "w_prompts w' = w_prompts w" "w_reads w' = w_reads w"
    using cases by (cases; simp add: unseal_recorded)+
  assume ok: "run_ok maximum env f runs cache w"
  show "run_ok maximum env f runs cache' w'"
    using cases
  proof cases
    case refused
    with unseal_recorded [OF refused(3)] show ?thesis by (intro run_ok_trail [OF ok]) simp_all
  next
    case fresh
    with unseal_recorded [OF fresh(3)] show ?thesis by (intro run_ok_trail [OF ok]) auto
  next
    case blank
    then show ?thesis by (intro run_ok_trail [OF ok]) auto
  qed (use ok in simp_all)
  assume r: "r = Inr credential" "credential \<noteq> []"
  show "unseal_audited env f (integ_ID i) (w_trail w')"
    using cases
  proof cases
    case known
    with r ok map_of_SomeD [OF known(1)] show ?thesis unfolding run_ok_def by fastforce
  next
    case fresh
    with unseal_recorded(5) [OF fresh(3)] show ?thesis by simp
  qed (use r in simp_all)
qed

section \<open>The calls of one turn\<close>

text \<open>What an execution does to a state that still has a read to spend.\<close>

lemma execute_tool_ok:
  assumes "execute_tool env f call ordinal (cache, w) = (r, cache', w')"
  shows "w_db w' = w_db w" "w_prompts w' = w_prompts w" "length (w_reads w') \<le> length (w_reads w) + 1"
    "r = Inl e \<Longrightarrow> w_reads w' = w_reads w" "r = Inr run \<Longrightarrow> run_Ordinal run = ordinal"
    "run_ok maximum env f runs cache w \<Longrightarrow> run_ok maximum env f runs cache' w'"
proof -
  consider (none) run' where "r = Inr run'" "run_Ordinal run' = ordinal" "cache' = cache" "w' = w"
    | (refused) i e where "open_credential env f i (cache, w) = (Inl e, cache', w')"
        "case r of Inl _ \<Rightarrow> True | Inr run' \<Rightarrow> run_Ordinal run' = ordinal"
    | (called) source tool credential w1 run' where
        "toolNamed (ag_uuids env) (rf_offered f) call = Some (source, tool)"
        "open_credential env f (src_Integration source) (cache, w) = (Inr credential, cache', w1)"
        "r = Inr run'" "run_Ordinal run' = ordinal"
        "w' = w1\<lparr>w_tick := w_tick w1 + 1,
                 w_reads := w_reads w1 @ [(tool, tool_request f (src_Integration source) credential call)]\<rparr>"
    using assms
    by (auto simp: execute_tool_def Let_def started_run_def with_result_def
          split: option.splits prod.splits sum.splits if_splits)
  note cases = this
  show "w_db w' = w_db w" "w_prompts w' = w_prompts w" "length (w_reads w') \<le> length (w_reads w) + 1"
    "r = Inl e \<Longrightarrow> w_reads w' = w_reads w" "r = Inr run \<Longrightarrow> run_Ordinal run = ordinal"
    using cases by (cases; simp add: open_credential_ok)+
  assume ok: "run_ok maximum env f runs cache w"
  show "run_ok maximum env f runs cache' w'"
    using cases
  proof cases
    case refused
    from open_credential_ok(1) [OF refused(1) ok] show ?thesis .
  next
    case called
    note opened = open_credential_ok [OF called(2)]
    from opened(2) [OF ok refl] toolNamed_Some(1,2) [OF called(1)]
    have "proper_read env f (w_trail w1) (tool, tool_request f (src_Integration source) credential call)"
      unfolding proper_read_def by blast
    with opened(1) [OF ok] show ?thesis by (simp add: called(5) run_ok_def)
  qed (use ok in simp)
qed

text \<open>A read of the history is paid like a tool's, and runs none.\<close>

lemma advances_paid:
  assumes "rs_executed st < rf_maxRuns f" "rs_runs st' = rs_runs st" "rs_credentials st' = rs_credentials st"
    and "rs_executed st' = rs_executed st + 1"
  shows "advances maximum 0 env f (st, w) (st', w)"
  using assms by (simp add: advances_def run_ok_def)

lemma readHistory_advances:
  assumes "readHistory env f call s = (run, s')"
  shows "advances maximum 0 env f s s'"
proof -
  obtain st w where s: "s = (st, w)" by (cases s)
  define paid where "paid = st\<lparr>rs_executed := rs_executed st + 1\<rparr>"
  have paying: "advances maximum 0 env f s (paid, w)" if "rs_executed st < rf_maxRuns f"
    using that by (simp add: s paid_def advances_paid)
  consider (same) "s' = s"
    | (one) g r w1 where "rs_executed st < rf_maxRuns f" "store_call env (reading g) w = (r :: store_error + HistoryPage, w1)" "s' = (paid, w1)"
    | (two) g r w1 g' r' w2 st' where "rs_executed st < rf_maxRuns f"
        "store_call env (reading g) w = (r :: store_error + HistoryPage, w1)"
        "store_call env (reading g') w1 = (r' :: store_error + bool, w2)"
        "s' = (st', w2)" "rs_runs st' = rs_runs paid" "rs_executed st' = rs_executed paid" "rs_credentials st' = rs_credentials paid"
    using assms
    by (auto simp: readHistory_def s Let_def paid_def [symmetric] split: if_splits option.splits prod.splits sum.splits)
  then show ?thesis
  proof cases
    case one
    from paying [OF one(1)] store_call_advances [OF rowless_reading one(2)] show ?thesis unfolding one(3) by (rule advances_step)
  next
    case two
    from paying [OF two(1)] store_call_advances [OF rowless_reading two(2)]
    have "advances maximum 0 env f s (paid, w1)" by (rule advances_step)
    from advances_step [OF this store_call_advances [OF rowless_reading two(3)]] show ?thesis
      unfolding two(4) by (rule advances_after) (use two in simp_all)
  qed simp
qed

lemma perform_history_advances:
  assumes "perform_history env f call s = (feedback, s')"
  shows "advances maximum 0 env f s s'"
proof -
  obtain run st w where read: "(if tc_Error call \<noteq> [] then (history_failure (tc_Error call), s) else readHistory env f call s) = (run, st, w)"
    by (metis prod.exhaust)
  then have "advances maximum 0 env f s (st, w)" using readHistory_advances by (auto split: if_splits)
  then show ?thesis using assms
    by (auto simp: perform_history_def read Let_def advances_def split: option.splits run_content.splits)
qed

lemma announceToolStarted_advances: "advances maximum 0 env f s (announceToolStarted env f call ordinal s)"
  by (auto simp: announceToolStarted_def split: option.split intro: tell_advances)

lemma announceToolStarted_state [simp]:
  "rs_runs (fst (announceToolStarted env f call ordinal s)) = rs_runs (fst s)"
  "rs_executed (fst (announceToolStarted env f call ordinal s)) = rs_executed (fst s)"
  by (auto simp: announceToolStarted_def split: option.split)

text \<open>An execution is paid with one read of the budget.\<close>

lemma execution_advances:
  assumes "execute_tool env f call ordinal (rs_credentials st, w) = (r, cache, w')" "rs_executed st < rf_maxRuns f"
    and "rs_runs st' = rs_runs st" "rs_credentials st' = cache"
    and "rs_executed st' = (case r of Inl e \<Rightarrow> rs_executed st | Inr run \<Rightarrow> rs_executed st + 1)"
  shows "advances maximum 0 env f (st, w) (st', w')"
proof -
  note effect = execute_tool_ok [OF assms(1)]
  have "state_ok maximum env f (st', w')" if "state_ok maximum env f (st, w)"
    using effect(6) [of maximum "rs_runs st"] that assms(2-) by (auto simp: run_ok_def split: sum.splits)
  moreover have "int (length (w_reads w')) - rs_executed st' \<le> int (length (w_reads w)) - rs_executed st"
      "rs_executed st' \<le> rf_maxRuns f"
    using effect(3,4) assms(2,5) by (cases r; auto)+
  ultimately show ?thesis using effect(1,2) by (simp add: advances_def)
qed

lemma unexecuted_ordinal [simp]:
  "run_Ordinal (droppedRun opened call ordinal reason now) = ordinal"
  "run_Ordinal (suppressedRun opened call ordinal original now) = ordinal"
  by (simp_all add: droppedRun_def suppressedRun_def started_run_def)

lemma make_run_advances:
  assumes "make_run env f call executedCalls s = (r, s')"
  shows "advances maximum 0 env f s s'" "rs_runs (fst s') = rs_runs (fst s)"
    "r = Inr (run, executed, executedCalls') \<Longrightarrow> run_Ordinal run = int (length (rs_runs (fst s))) + 1"
proof -
  let ?n = "int (length (rs_runs (fst s))) + 1"
  obtain st w where s: "s = (st, w)" by (cases s)
  obtain st1 w1 where started: "announceToolStarted env f call ?n s = (st1, w1)" by fastforce
  have kept: "rs_runs st1 = rs_runs st" "rs_executed st1 = rs_executed st"
    by (metis announceToolStarted_state fst_conv s started)+
  obtain answer cache w2 where executing: "execute_tool env f call ?n (rs_credentials st1, w1) = (answer, cache, w2)"
    by (metis prod.exhaust)
  consider (quiet) run1 where "s' = s" "r = Inr (run1, False, executedCalls)" "run_Ordinal run1 = ?n"
    | (told) payload run1 where "live_payload payload" "s' = tell env f payload s"
        "r = Inr (run1, False, executedCalls)" "run_Ordinal run1 = ?n"
    | (ran) st' where "rs_executed st < rf_maxRuns f" "s' = (st', w2)" "rs_runs st' = rs_runs st1" "rs_credentials st' = cache"
        "rs_executed st' = (case answer of Inl e \<Rightarrow> rs_executed st1 | Inr run \<Rightarrow> rs_executed st1 + 1)"
        "\<And>run1 executed1 executedCalls1. r = Inr (run1, executed1, executedCalls1) \<Longrightarrow> answer = Inr run1"
  proof (cases "tc_Error call \<noteq> []")
    case True
    then show thesis using assms by (intro quiet) (auto simp: make_run_def s Let_def)
  next
    case error: False
    show thesis
    proof (cases "map_of executedCalls (callIdentityOf call)")
      case (Some original)
      then show thesis using assms error by (intro told [OF live_payloads(2)]) (auto simp: make_run_def s Let_def)
    next
      case None
      show thesis
      proof (cases "rs_executed st \<ge> rf_maxRuns f")
        case True
        then show thesis using assms error None by (intro told [OF live_payloads(2)]) (auto simp: make_run_def s Let_def)
      next
        case False
        then show thesis using assms error None started executing
          by (intro ran [of "fst s'"]; cases answer) (auto simp: make_run_def s Let_def)
      qed
    qed
  qed
  note cases = this
  show "advances maximum 0 env f s s'"
    using cases
  proof cases
    case told
    then show ?thesis using tell_advances by simp
  next
    case ran
    from announceToolStarted_advances [of maximum env f s call ?n] have "advances maximum 0 env f s (st1, w1)" by (simp add: started)
    from advances_step [OF this execution_advances [OF executing _ ran(3,4,5)]] show ?thesis using ran kept by simp
  qed simp
  show "rs_runs (fst s') = rs_runs (fst s)"
    using cases by cases (simp_all add: s kept)
  assume r: "r = Inr (run, executed, executedCalls')"
  show "run_Ordinal run = ?n"
    using cases
  proof cases
    case ran
    from execute_tool_ok(5) [OF executing ran(6) [OF r]] show ?thesis .
  qed (use r in simp_all)
qed

lemma prepareObservation_kept [simp]:
  "run_Ordinal (prepareObservation uuids nano lower opened run) = run_Ordinal run"
  "run_Outcome (prepareObservation uuids nano lower opened run) = run_Outcome run"
  by (simp_all add: prepareObservation_def redacted_run_def Let_def split: prod.split)

lemma prepared_run_kept [simp]:
  "run_Ordinal (prepared_run env f call st run) = run_Ordinal run"
  "run_Outcome (prepared_run env f call st run) = run_Outcome run"
  by (simp_all add: prepared_run_def split: option.split)

lemma recorded_append:
  assumes "recorded f runs db" "run_Ordinal run = int (length runs) + 1"
    and "x \<in> set (db_tool_runs db)" "tr_org x = rf_org f" "tr_investigation x = i_ID (rf_opened f)"
      "run_Ordinal (tr_run x) = run_Ordinal run" "run_Outcome (tr_run x) = run_Outcome run"
  shows "recorded f (runs @ [run]) db"
  using assms by (auto simp: recorded_def nth_append less_Suc_eq)

lemma record_run_advances:
  assumes "record_run env f run s = (saved, s')" "run_Ordinal run = int (length (rs_runs (fst s))) + 1"
  shows "advances maximum 0 env f s s'"
proof -
  obtain st w where s: "s = (st, w)" by (cases s)
  define ints where "ints = ag_ints env (w_tick w)"
  let ?g = "writing (\<lambda>now clock. RecordToolRun clock ints (rf_org f) (i_ID (rf_opened f)) (i_ClaimToken (rf_opened f)) run)"
  obtain r w1 where call: "store_call env ?g w = (r, w1)" by fastforce
  note step = store_call_advances [OF rowless_tool_run call, of maximum f st]
  show ?thesis
  proof (cases r)
    case (Inl e)
    then show ?thesis using assms(1) call step by (simp add: record_run_def s Let_def ints_def)
  next
    case (Inr u)
    then have s': "s' = (st\<lparr>rs_runs := rs_runs st @ [run]\<rparr>, w1)" using assms(1) call by (simp add: record_run_def s Let_def ints_def)
    let ?mid = "ag_others env (w_tick w) (w_db w)"
    from store_call_result(6) [OF call Inr]
    have "RecordToolRun (ag_clock env (w_tick w)) ints (rf_org f) (i_ID (rf_opened f)) (i_ClaimToken (rf_opened f)) run ?mid = Inr (w_db w1)"
      by (auto simp: writing_def split: sum.splits)
    from RecordToolRun_rows(2) [OF this] obtain x where x: "x \<in> set (db_tool_runs (w_db w1))" "tr_org x = rf_org f"
        "tr_investigation x = i_ID (rf_opened f)" "tr_run x = stored_run run" by (metis in_set_conv_decomp)
    have "recorded f (rs_runs st @ [run]) (w_db w1)" if "recorded f (rs_runs st) (w_db w1)"
      by (rule recorded_append [OF that _ x(1-3)]) (use assms(2) x(4) in \<open>simp_all add: s stored_run_def\<close>)
    then show ?thesis using step by (simp add: s s' advances_def run_ok_def)
  qed
qed

lemma perform_read_advances:
  assumes "perform_read env f call executedCalls s = (r, s')"
  shows "advances maximum 0 env f s s'"
proof -
  obtain made s1 where make: "make_run env f (selected_call env f call) executedCalls s = (made, s1)" by (metis prod.exhaust)
  note first = make_run_advances [OF make]
  show ?thesis
  proof (cases made)
    case (Inl e)
    then show ?thesis using assms make first(1) by (simp add: perform_read_def)
  next
    case (Inr out)
    obtain run executed executedCalls' where out: "out = (run, executed, executedCalls')" by (metis prod.exhaust)
    obtain st1 w1 where s1: "s1 = (st1, w1)" by (cases s1)
    let ?run = "prepared_run env f call st1 run"
    obtain saved s2 where save: "record_run env f ?run s1 = (saved, s2)" by (metis prod.exhaust)
    have "run_Ordinal ?run = int (length (rs_runs (fst s1))) + 1" using first(3) Inr out first(2) by simp
    from advances_step [OF first(1) record_run_advances [OF save this]] have stored: "advances maximum 0 env f s s2" .
    have "s' = (if saved \<and> executed then tell env f (ToolCompletedPayload ?run) s2 else s2)"
      using assms make save by (auto simp: perform_read_def Inr out s1 Let_def split: bool.splits if_splits)
    then show ?thesis using stored advances_step [OF stored tell_advances [OF live_payloads(4)]] by simp
  qed
qed

lemma perform_calls_advances: "perform_calls env f calls executedCalls s = (r, s') \<Longrightarrow> advances maximum 0 env f s s'"
proof (induction calls arbitrary: executedCalls s r s')
  case (Cons call calls)
  show ?case
  proof (cases "tc_Tool call = historyToolName")
    case True
    obtain feedback s1 where one: "perform_history env f call s = (feedback, s1)" by (metis prod.exhaust)
    obtain r1 s2 where rest: "perform_calls env f calls executedCalls s1 = (r1, s2)" by (metis prod.exhaust)
    from Cons.prems True one rest have "s' = s2" by (auto split: sum.splits)
    with perform_history_advances [OF one] Cons.IH [OF rest] show ?thesis by (metis advances_step)
  next
    case False
    obtain r1 s1 where one: "perform_read env f call executedCalls s = (r1, s1)" by (metis prod.exhaust)
    show ?thesis
    proof (cases r1)
      case (Inl e)
      with Cons.prems False one perform_read_advances [OF one] show ?thesis by simp
    next
      case (Inr out)
      obtain r2 s2 where rest: "perform_calls env f calls (snd out) s1 = (r2, s2)" by (metis prod.exhaust)
      from Cons.prems False one rest Inr have "s' = s2" by (cases out) (auto split: sum.splits)
      with perform_read_advances [OF one] Cons.IH [OF rest] show ?thesis by (metis advances_step)
    qed
  qed
qed simp

section \<open>What a conclusion rests on\<close>

text \<open>
  Every finding cites something, its own reads succeeded in this run, and what it takes from
  earlier investigations is stored.
\<close>

definition grounded :: "run_frame \<Rightarrow> Conclusion \<Rightarrow> ToolRun list \<Rightarrow> work_db \<Rightarrow> bool" where
  "grounded f c runs db \<longleftrightarrow>
     (\<forall>finding \<in> set (conclusion_Findings c).
        (finding_RunRefs finding \<noteq> [] \<or> finding_EvidenceRefs finding \<noteq> [])
        \<and> (\<forall>n \<in> set (finding_RunRefs finding). run_succeeded runs n))
     \<and> \<not> evidence_missing (rf_org f) (concat (map finding_EvidenceRefs (conclusion_Findings c))) db"

lemma first_error_None: "first_error g xs = None \<longleftrightarrow> (\<forall>x \<in> set xs. g x = None)"
  by (induction xs) (auto split: option.split)

lemma first_of_None: "first_of es = None \<longleftrightarrow> (\<forall>e \<in> set es. e = None)"
  by (induction es rule: first_of.induct) auto

lemma unless_None [simp]: "unless ok message = None \<longleftrightarrow> ok"
  by (simp add: unless_def)

lemma MarkMissingEvidence_findings [simp]: "conclusion_Findings (MarkMissingEvidence c) = conclusion_Findings c"
  by (simp add: MarkMissingEvidence_def)

lemma decodeConclusion_Inr:
  assumes "decodeConclusion lib uuids document runs allowed = Inr c"
  obtains d where "document_error lib runs allowed d = None" "validateConclusionStatus c = None" "c = document_conclusion d"
  using assms by (auto simp: decodeConclusion_def Let_def split: raw_message.splits option.splits)

lemma decoded_findings:
  assumes "decodeConclusion lib uuids document runs allowed = Inr c" "finding \<in> set (conclusion_Findings c)"
  shows "finding_RunRefs finding \<noteq> [] \<or> finding_EvidenceRefs finding \<noteq> []"
    "n \<in> set (finding_RunRefs finding) \<Longrightarrow> run_succeeded runs n"
proof -
  from assms(1) obtain d where d: "document_error lib runs allowed d = None" "c = document_conclusion d"
    by (rule decodeConclusion_Inr)
  have "finding_error lib runs allowed finding = None"
    using d assms(2) by (simp add: document_error_def first_of_None first_error_None document_conclusion_def)
  then show "finding_RunRefs finding \<noteq> [] \<or> finding_EvidenceRefs finding \<noteq> []"
    "n \<in> set (finding_RunRefs finding) \<Longrightarrow> run_succeeded runs n"
    by (simp_all add: finding_error_def first_of_None first_error_None)
qed

section \<open>One exchange with the model\<close>

abbreviation standing :: "exchange \<Rightarrow> run_state \<times> agent_world" where
  "standing x \<equiv> (ex_state x, ex_world x)"

lemma complete_advances: "complete env prompt w = (out, w') \<Longrightarrow> advances maximum 1 env f (st, w) (st, w')"
  by (auto simp: complete_def advances_def run_ok_def)

lemma shrink_advances:
  assumes "shrink env f prompt e x = (r, x')"
  shows "advances maximum 0 env f (standing x) (standing x')"
proof -
  let ?st = "(ex_state x)\<lparr>rs_stopped := ''context''\<rparr>"
  let ?payload = "ProgressPayload (ceilingProgress ''context'')"
  have told: "advances maximum 0 env f (standing x) (tell env f ?payload (?st, ex_world x))"
    by (rule advances_step [OF _ tell_advances]) (simp_all add: advances_same)
  obtain st1 w1 where tell: "tell env f ?payload (?st, ex_world x) = (st1, w1)" by fastforce
  show ?thesis using assms told
    by (auto simp: shrink_def Let_def tell advances_same split: if_splits)
qed

lemma shrink_end: "shrink env f prompt e x = (r, x') \<Longrightarrow> r = Again \<or> r = Ended (Inl (ProviderError e))"
  by (auto simp: shrink_def Let_def split: if_splits prod.splits)

lemma weigh_advances:
  assumes "weigh env f completion reads conclusions x = (v, w')"
  shows "advances maximum 0 env f (standing x) (ex_state x, w')"
proof -
  have "w' = ex_world x \<or> (\<exists>g r. store_call env (reading g) (ex_world x) = (r :: store_error + bool, w'))"
    using assms by (fastforce simp: weigh_def Let_def split: if_splits list.splits sum.splits prod.splits)
  then show ?thesis using store_call_advances [OF rowless_reading] by fastforce
qed

lemma weigh_accepts:
  assumes "weigh env f completion reads conclusions x = (Accept c, w')"
  shows "grounded f c (rs_runs (ex_state x)) (w_db w')"
proof -
  from assms obtain call where calls: "conclusions = [call]" and reads: "reads = []"
    by (auto simp: weigh_def Let_def split: if_splits list.splits)
  obtain c0 where decoded: "decodeConclusion (ag_json env) (ag_uuids env) (call_Arguments call) (rs_runs (ex_state x))
      (allowed_evidence env (ex_state x)) = Inr c0"
    using assms by (auto simp: weigh_def Let_def calls reads split: sum.splits)
  let ?refs = "concat (map finding_EvidenceRefs (conclusion_Findings c0))"
  have same: "conclusion_Findings c = conclusion_Findings c0"
    using assms by (auto simp: weigh_def Let_def calls reads decoded split: if_splits sum.splits prod.splits)
  have "?refs = [] \<or> store_call env (reading (EvidenceMissing (rf_org f) ?refs)) (ex_world x) = (Inr False, w')"
    using assms by (auto simp: weigh_def Let_def calls reads decoded split: if_splits sum.splits prod.splits)
  then have "\<not> evidence_missing (rf_org f) ?refs (w_db w')"
  proof
    assume "store_call env (reading (EvidenceMissing (rf_org f) ?refs)) (ex_world x) = (Inr False, w')"
    from store_call_result(6) [OF this refl] show ?thesis
      by (auto simp: reading_def EvidenceMissing_def in_organization_def split: sum.splits if_splits)
  qed (auto simp: evidence_missing_def list_ex_iff)
  with decoded_findings [OF decoded] same show ?thesis by (simp add: grounded_def)
qed

text \<open>A finished exchange that concludes does so on grounded findings.\<close>

definition concludes_on_evidence :: "run_frame \<Rightarrow> agent_error + move \<Rightarrow> run_state \<times> agent_world \<Rightarrow> bool" where
  "concludes_on_evidence f r s \<longleftrightarrow>
     (\<forall>c. r = Inr (MoveConclusion c) \<longrightarrow> grounded f c (rs_runs (fst s)) (w_db (snd s)))"

lemma judge_ok:
  assumes "judge env f first completion x = (r, x')"
  shows "advances maximum 0 env f (standing x) (standing x')"
    "r = Ended out \<Longrightarrow> concludes_on_evidence f out (standing x')"
proof -
  consider (bad) e where "r = Ended (Inl e)" "x' = x"
    | (reads) calls where "r = Ended (Inr (MoveCalls calls))" "ex_world x' = ex_world x"
        "rs_runs (ex_state x') = rs_runs (ex_state x)" "rs_executed (ex_state x') = rs_executed (ex_state x)"
        "rs_credentials (ex_state x') = rs_credentials (ex_state x)"
    | (weighed) reads conclusions v where "weigh env f completion reads conclusions x = (v, ex_world x')"
        "rs_runs (ex_state x') = rs_runs (ex_state x)" "rs_executed (ex_state x') = rs_executed (ex_state x)"
        "rs_credentials (ex_state x') = rs_credentials (ex_state x)"
        "\<And>c. r = Ended (Inr (MoveConclusion c)) \<Longrightarrow> v = Accept c"
  proof (cases "splitCalls (comp_ToolCalls completion)")
    case (Inl e)
    then show thesis using assms by (intro bad) (auto simp: judge_def Let_def)
  next
    case (Inr out)
    obtain these conclusions where out: "out = (these, conclusions)" by (cases out)
    show thesis
    proof (cases "these \<noteq> [] \<and> \<not> ex_forced x")
      case True
      then show thesis using assms Inr out by (intro reads) (auto simp: judge_def Let_def)
    next
      case False
      obtain v w where "weigh env f completion these conclusions x = (v, w)" by fastforce
      then show thesis using assms Inr out False
        by (intro weighed [of these conclusions v]) (auto simp: judge_def Let_def split: verdict.splits if_splits)
    qed
  qed
  note cases = this
  show "advances maximum 0 env f (standing x) (standing x')"
    using cases
  proof cases
    case weighed
    from weigh_advances [OF weighed(1)] show ?thesis by (rule advances_after) (use weighed in simp_all)
  qed (simp_all add: advances_same)
  assume r: "r = Ended out"
  show "concludes_on_evidence f out (standing x')"
    using cases
  proof cases
    case weighed
    then show ?thesis using weigh_accepts [of env f completion reads conclusions x _ "ex_world x'"] r
      by (auto simp: concludes_on_evidence_def)
  qed (use r in \<open>simp_all add: concludes_on_evidence_def\<close>)
qed

lemma attempt_ok:
  assumes "attempt env f first x = (r, x')"
  shows "advances maximum 1 env f (standing x) (standing x')"
    "r = Ended out \<Longrightarrow> concludes_on_evidence f out (standing x')"
proof -
  let ?st = "ex_state x"
  define prompt where "prompt = modelPrompt (ag_uuids env) (ag_texts env) (ag_config env) (rs_orientation ?st) (rs_transcript ?st)
    (allowed_evidence env ?st \<noteq> []) (ex_forced x) (ex_reason x)"
  obtain completion failure w where asked: "complete env prompt (ex_world x) = ((completion, failure), w)" by (metis prod.exhaust)
  define x1 where "x1 = x\<lparr>ex_state := ?st\<lparr>rs_usage := Usage_Add (rs_usage ?st) (usageOf (comp_Usage completion))\<rparr>, ex_world := w\<rparr>"
  have before: "advances maximum 1 env f (standing x) (standing x1)"
    using complete_advances [OF asked, of maximum f ?st] by (simp add: x1_def advances_def)
  consider (bad) "case r of Again \<Rightarrow> True | Ended out \<Rightarrow> \<exists>e. out = Inl e" "x' = x1"
    | (shrunk) e where "shrink env f prompt e x1 = (r, x')" | (judged) "judge env f first completion x1 = (r, x')"
  proof (cases failure)
    case None
    then show thesis using assms bad judged
      by (auto simp: attempt_def Let_def prompt_def [symmetric] asked x1_def [symmetric] split: if_splits)
  next
    case (Some e)
    then show thesis using assms bad shrunk
      by (auto simp: attempt_def Let_def prompt_def [symmetric] asked x1_def [symmetric] split: if_splits)
  qed
  note cases = this
  have after: "advances maximum 0 env f (standing x1) (standing x')"
    using cases by cases (simp_all add: shrink_advances judge_ok(1))
  from advances_trans [OF before after] show "advances maximum 1 env f (standing x) (standing x')" by simp
  assume r: "r = Ended out"
  show "concludes_on_evidence f out (standing x')"
    using cases
  proof cases
    case shrunk
    with shrink_end [OF shrunk] r show ?thesis by (auto simp: concludes_on_evidence_def)
  qed (use r judge_ok(2) in \<open>auto simp: concludes_on_evidence_def\<close>)
qed

lemma decide_ok:
  assumes "decide env f x = (r, x')"
  shows "advances maximum 2 env f (standing x) (standing x')" "concludes_on_evidence f r (standing x')"
proof -
  obtain r1 x1 where one: "attempt env f True x = (r1, x1)" by fastforce
  obtain r2 x2 where two: "attempt env f False x1 = (r2, x2)" by fastforce
  note first = attempt_ok [OF one] and second = attempt_ok [OF two]
  have both: "advances maximum 2 env f (standing x) (standing x2)"
    using advances_trans [OF first(1) second(1)] by (simp add: numeral_2_eq_2)
  from assms one two show "advances maximum 2 env f (standing x) (standing x')"
    using both advances_prompts [OF first(1), of 2] by (auto simp: decide_def split: attempt_end.splits)
  from assms one two show "concludes_on_evidence f r (standing x')"
    using first(2) second(2) by (auto simp: decide_def concludes_on_evidence_def split: attempt_end.splits)
qed

section \<open>The turns of a run\<close>

lemma give_results_state [simp]:
  "rs_runs (give_results env results st) = rs_runs st" "rs_executed (give_results env results st) = rs_executed st"
  "rs_credentials (give_results env results st) = rs_credentials st"
  by (simp_all add: give_results_def Let_def)

lemma opened_turn_advances: "advances maximum 0 env f s (standing (opened_turn env f turn results s))"
proof -
  obtain st w where s: "s = (st, w)" by (cases s)
  obtain st1 w1 where began: "begin_turn env f turn s = (st1, w1)" by fastforce
  have "advances maximum 0 env f s (st1, w1)"
  proof (cases "rs_stopped st \<noteq> [] \<or> ceiling env f turn st w = []")
    case True
    then have "begin_turn env f turn s = s" by (auto simp: begin_turn_def s Let_def)
    then show ?thesis using began by simp
  next
    case False
    let ?st = "st\<lparr>rs_stopped := ceiling env f turn st w\<rparr>"
    have "advances maximum 0 env f s (?st, w)" by (simp add: s advances_same)
    from advances_step [OF this tell_advances [OF live_payloads(2)]]
    have "advances maximum 0 env f s (begin_turn env f turn s)" using False by (simp add: begin_turn_def s Let_def)
    then show ?thesis using began by simp
  qed
  then show ?thesis
    by (simp add: opened_turn_def began advances_def)
qed

text \<open>
  A run ends with one terminal write: a failure, or a conclusion that is grounded in what the
  tables held when it was accepted.
\<close>

definition ends_with :: "agent_env \<Rightarrow> run_frame \<Rightarrow> run_state \<times> agent_world \<Rightarrow> store_error option \<times> run_state \<times> agent_world \<Rightarrow> bool" where
  "ends_with env f s out \<longleftrightarrow>
     (\<exists>reason usage r w. fail_run env (rf_org f) (rf_opened f) reason usage (snd s) = (r, w) \<and> out = (r, fst s, w))
     \<or> (\<exists>c r w. conclude_run env f c (fst s) (snd s) = (r, w) \<and> out = (r, fst s, w)
          \<and> grounded f c (rs_runs (fst s)) (w_db (snd s)))"

lemma ends_with_fail: "ends_with env f s (fail_with env f e s)"
  by (cases s) (auto simp: ends_with_def fail_with_def split: prod.split)

lemma run_loop_ends:
  "\<exists>s'. (\<forall>maximum. advances maximum (2 * nat (rf_maxTurns f + 1 - turn) + 2) env f s s')
     \<and> ends_with env f s' (run_loop env f turn results s)"
proof (induction env f turn results s rule: run_loop.induct)
  case (1 env f turn results s)
  let ?n = "2 * nat (rf_maxTurns f + 1 - turn) + 2"
  note unfolded = run_loop.simps [of env f turn results s]
  show ?case
  proof (cases "ag_done env (w_tick (snd s))")
    case True
    then show ?thesis unfolding unfolded by (intro exI [of _ s]) (simp add: ends_with_fail)
  next
    case going: False
    obtain r x where decided: "decide env f (opened_turn env f turn results s) = (r, x)" by fastforce
    note moved = advances_trans [OF opened_turn_advances decide_ok(1) [OF decided], unfolded add_0]
    have here: ?thesis if "ends_with env f (standing x) (run_loop env f turn results s)"
      using that advances_prompts [OF moved, of ?n] by (intro exI [of _ "standing x"]) simp
    consider (bad) e where "r = Inl e" | (concluded) c where "r = Inr (MoveConclusion c)"
      | (stuck) calls where "r = Inr (MoveCalls calls)" "ex_forced x" | (reads) calls where "r = Inr (MoveCalls calls)" "\<not> ex_forced x"
      by (metis sum.exhaust move.exhaust)
    then show ?thesis
    proof cases
      case bad
      with going decided show ?thesis by (intro here) (simp add: unfolded ends_with_fail)
    next
      case stuck
      with going decided show ?thesis by (intro here) (simp add: unfolded ends_with_fail)
    next
      case concluded
      obtain r' w' where "conclude_run env f c (ex_state x) (ex_world x) = (r', w')" by fastforce
      with going decided concluded decide_ok(2) [OF decided] show ?thesis
        by (intro here) (simp add: unfolded ends_with_def concludes_on_evidence_def, blast)
    next
      case reads
      then have turn: "turn \<le> rf_maxTurns f"
        using decide_forced [OF decided] opened_turn_forced [of f turn env results s] by fastforce
      obtain out s1 where performed: "perform_calls env f calls [] (standing x) = (out, s1)" by (metis prod.exhaust)
      note upto1 = advances_trans [OF moved perform_calls_advances [OF performed], unfolded add_0_right]
      show ?thesis
      proof (cases out)
        case (Inl e)
        with going decided reads performed have "ends_with env f s1 (run_loop env f turn results s)"
          by (simp add: unfolded ends_with_fail)
        then show ?thesis using advances_prompts [OF upto1, of ?n] by (intro exI [of _ s1]) simp
      next
        case (Inr results')
        have loop: "run_loop env f turn results s = run_loop env f (turn + 1) results' s1"
          using going decided reads performed Inr by (simp add: unfolded)
        from "1.IH" [OF going decided [symmetric]] reads performed Inr obtain s2 where
          s2: "\<And>maximum. advances maximum (2 * nat (rf_maxTurns f + 1 - (turn + 1)) + 2) env f s1 s2"
            "ends_with env f s2 (run_loop env f (turn + 1) results' s1)" by metis
        have "2 + (2 * nat (rf_maxTurns f + 1 - (turn + 1)) + 2) \<le> ?n" using turn by simp
        from advances_prompts [OF advances_trans [OF upto1 s2(1)] this] s2(2) show ?thesis unfolding loop by blast
      qed
    qed
  qed
qed

section \<open>The terminal write\<close>

lemma reply_rows: "reply_in_conversation now organization reply r db = Inr db' \<Longrightarrow>
    db_investigations db' = db_investigations db \<and> db_tool_runs db' = db_tool_runs db"
  by (auto simp: reply_in_conversation_def touch_conversation_def insert_message_def Let_def
      split: option.splits if_splits sum.splits)

text \<open>What the row of this run may say after it: a conclusion is the one that was written.\<close>

definition outcome_row :: "uuid \<Rightarrow> uuid \<Rightarrow> Conclusion option \<Rightarrow> bool \<Rightarrow> work_db \<Rightarrow> bool" where
  "outcome_row organization iid written settled db \<longleftrightarrow>
     (\<forall>x \<in> set (db_investigations db). inv_id x = iid \<longrightarrow>
        inv_org x = organization
        \<and> (inv_status x = StatusConcluded \<longrightarrow> written \<noteq> None \<and> inv_conclusion x = written)
        \<and> (settled \<longrightarrow> inv_status x \<noteq> StatusRunning))"

lemma outcome_row_ended:
  assumes inv: "work_inv maximum db" and ours: "our_row organization iid token db"
    and run: "endInvestigation now clock organization iid token status conclusion stoppedBy reason reply usage payload db = Inr db'"
    and kind: "status = StatusFailed \<or> status = StatusConcluded \<and> conclusion \<noteq> None"
  shows "outcome_row organization iid conclusion settled db'"
  using inv run
proof (cases rule: endInvestigation_Inr)
  case (1 r e)
  let ?p = "held clock organization iid token" and ?f = "ended now status conclusion stoppedBy reason usage"
  have rows: "db_investigations db' = update_where ?p ?f (db_investigations db)" using reply_rows [OF 1(9)] by simp
  have r: "inv_id r = iid" "inv_org r = organization" using 1(2) by (simp_all add: held_def)
  have "x = ?f r" if x: "x \<in> set (db_investigations db')" "inv_id x = iid" for x
  proof -
    from x(1) obtain y where y: "y \<in> set (db_investigations db)" "x = (if ?p y then ?f y else y)"
      unfolding rows by (auto simp: set_update_where)
    then have "inv_id y = iid" using x(2) by (auto simp: ended_def split: if_splits)
    then have "y = r" using same_row [OF inv y(1) 1(1)] r by simp
    with y(2) 1(2) show ?thesis by simp
  qed
  moreover have "inv_org (?f r) = organization" "inv_status (?f r) = status" "inv_conclusion (?f r) = conclusion"
    using r by (simp_all add: ended_def)
  ultimately show ?thesis using kind unfolding outcome_row_def by fastforce
qed

lemma terminal_write:
  assumes ok: "run_ok maximum env f runs cache w"
    and call: "store_call env (writing (\<lambda>now clock. endInvestigation now clock (rf_org f) (i_ID (rf_opened f))
        (i_ClaimToken (rf_opened f)) status conclusion stoppedBy reason reply usage payload)) w = (r, w')"
    and kind: "status = StatusFailed \<or> status = StatusConcluded \<and> conclusion \<noteq> None"
    and step: "\<And>now clock db db'. endInvestigation now clock (rf_org f) (i_ID (rf_opened f))
        (i_ClaimToken (rf_opened f)) status conclusion stoppedBy reason reply usage payload db = Inr db' \<Longrightarrow> work_step maximum db db'"
  shows "(work_step maximum)\<^sup>*\<^sup>* (w_db w) (w_db w')"
    "outcome_row (rf_org f) (i_ID (rf_opened f)) conclusion (r = Inr ()) (w_db w')"
proof -
  let ?mid = "ag_others env (w_tick w) (w_db w)"
  let ?finish = "\<lambda>db. endInvestigation (ag_now env (w_tick w)) (ag_clock env (w_tick w)) (rf_org f) (i_ID (rf_opened f))
    (i_ClaimToken (rf_opened f)) status conclusion stoppedBy reason reply usage payload db"
  note others = others_ok [OF ok, of "w_tick w"] and result = store_call_result [OF call]
  have inv: "work_inv maximum ?mid"
    using ok others(1) work_run_keeps reachable_inv unfolding run_ok_def by blast
  let ?both = "(work_step maximum)\<^sup>*\<^sup>* (w_db w) (w_db w')
    \<and> outcome_row (rf_org f) (i_ID (rf_opened f)) conclusion (r = Inr ()) (w_db w')"
  have ending: ?both if "?finish ?mid = Inr (w_db w')"
    using others(1) step [OF that] outcome_row_ended [OF inv others(2) that kind] by simp
  from result(5) consider (same) "w_db w' = ?mid" | (wrote) "?finish ?mid = Inr (w_db w')"
    by (auto simp: writing_def split: sum.splits)
  then have ?both
  proof cases
    case same
    show ?thesis
    proof (cases r)
      case (Inl e)
      then show ?thesis using same others(1) our_row_unique [OF inv others(2)] by (auto simp: outcome_row_def)
    next
      case (Inr u)
      then have "?finish ?mid = Inr (w_db w')" using result(6) [of u] by (auto simp: writing_def split: sum.splits)
      then show ?thesis by (rule ending)
    qed
  qed (rule ending)
  then show "(work_step maximum)\<^sup>*\<^sup>* (w_db w) (w_db w')"
    "outcome_row (rf_org f) (i_ID (rf_opened f)) conclusion (r = Inr ()) (w_db w')" by simp_all
qed

lemma ends_with_outcome:
  assumes ok: "state_ok maximum env f s" and ends: "ends_with env f s (r, s')"
  obtains written where "(work_step maximum)\<^sup>*\<^sup>* (w_db (snd s)) (w_db (snd s'))"
    "outcome_row (rf_org f) (i_ID (rf_opened f)) written (r = None) (w_db (snd s'))"
    "\<And>c. written = Some c \<Longrightarrow> grounded f c (rs_runs (fst s)) (w_db (snd s))"
proof -
  obtain st w where s: "s = (st, w)" by (cases s)
  from ends consider (failed) reason usage w' where "fail_run env (rf_org f) (rf_opened f) reason usage w = (r, w')" "s' = (st, w')"
    | (concluded) c w' where "conclude_run env f c st w = (r, w')" "s' = (st, w')" "grounded f c (rs_runs st) (w_db w)"
    unfolding ends_with_def by (auto simp: s)
  then show thesis
  proof cases
    case failed
    let ?g = "writing (\<lambda>now clock. FailInvestigation now clock (rf_org f) (i_ID (rf_opened f)) (i_ClaimToken (rf_opened f))
      (boundedRunes reason maxRunErrorLength) usage)"
    obtain r1 where call: "store_call env ?g w = (r1, w')" and out: "r = None \<longleftrightarrow> r1 = Inr ()"
      using failed(1) by (auto simp: fail_run_def split: sum.splits prod.splits)
    note wrote = terminal_write [OF ok [unfolded s, simplified] call [unfolded FailInvestigation_def] disjI1 [OF refl],
        folded FailInvestigation_def, OF work_step.fail]
    show thesis
      by (rule that [of None]) (use wrote store_call_result [OF call] out failed in \<open>simp_all add: s\<close>)
  next
    case concluded
    let ?g = "writing (\<lambda>now clock. ConcludeInvestigation now clock (rf_org f) (i_ID (rf_opened f)) (i_ClaimToken (rf_opened f))
      c (rs_stopped st) (rs_usage st))"
    obtain r1 where call: "store_call env ?g w = (r1, w')" and out: "r = None \<longleftrightarrow> r1 = Inr ()"
      using concluded(1) by (auto simp: conclude_run_def split: sum.splits prod.splits)
    have kind: "StatusConcluded = StatusFailed \<or> StatusConcluded = StatusConcluded \<and> Some c \<noteq> None" by simp
    note wrote = terminal_write [OF ok [unfolded s, simplified] call [unfolded ConcludeInvestigation_def] kind,
        folded ConcludeInvestigation_def, OF work_step.conclude]
    show thesis
      by (rule that [of "Some c"]) (use wrote store_call_result [OF call] out concluded in \<open>simp_all add: s\<close>)
  qed
qed

lemma ends_with_traces:
  assumes "ends_with env f s (r, st', w')"
  shows "w_reads w' = w_reads (snd s)" "w_prompts w' = w_prompts (snd s)" "w_trail w' = w_trail (snd s)"
proof -
  from assms obtain g r1 where call: "store_call env (writing g) (snd s) = (r1, w')"
    unfolding ends_with_def
  proof (elim disjE exE conjE)
    fix reason usage r2 w2
    assume that: "\<And>g r1. store_call env (writing g) (snd s) = (r1, w') \<Longrightarrow> thesis"
      and "fail_run env (rf_org f) (rf_opened f) reason usage (snd s) = (r2, w2)" "(r, st', w') = (r2, fst s, w2)"
    then show thesis by (auto simp: fail_run_def split: sum.splits prod.splits intro: that)
  next
    fix c r2 w2
    assume that: "\<And>g r1. store_call env (writing g) (snd s) = (r1, w') \<Longrightarrow> thesis"
      and "conclude_run env f c (fst s) (snd s) = (r2, w2)" "(r, st', w') = (r2, fst s, w2)"
    then show thesis by (auto simp: conclude_run_def split: sum.splits prod.splits intro: that)
  qed
  from store_call_result(1-3) [OF call]
  show "w_reads w' = w_reads (snd s)" "w_prompts w' = w_prompts (snd s)" "w_trail w' = w_trail (snd s)" by simp_all
qed

section \<open>The start of a run\<close>

lemma other_read_advances: "other_read answer w = (v, w') \<Longrightarrow> advances maximum 0 env f (st, w) (st, w')"
  by (auto simp: other_read_def advances_def run_ok_def)

lemma conversation_scope_advances:
  assumes "conversation_scope env organization opened w = (r, w')"
  shows "advances maximum 0 env f (st, w) (st, w')"
proof (cases "i_ConversationID opened = uuid_Nil")
  case True
  then show ?thesis using assms by (simp add: conversation_scope_def)
next
  case False
  obtain origin w1 where one: "other_read (ag_origin env) w = (origin, w1)" by fastforce
  let ?g = "reading (InvestigationMessages organization (i_ConversationID opened) (i_ID opened))"
  obtain messages w2 where two: "store_call env ?g w1 = (messages, w2)" by fastforce
  have "w' = w1 \<or> w' = w2"
    using assms False one two by (auto simp: conversation_scope_def split: sum.splits if_splits)
  with other_read_advances [OF one] store_call_advances [OF rowless_reading two] show ?thesis using advances_step by blast
qed

lemma conversationBrief_advances:
  assumes "conversationBrief env organization opened w = (brief, w')"
  shows "advances maximum 0 env f (st, w) (st, w')"
proof -
  have "w' = w \<or> (\<exists>g r. store_call env (reading g) w = (r :: store_error + Brief, w'))"
    using assms by (auto simp: conversationBrief_def split: if_splits sum.splits prod.splits)
  then show ?thesis using store_call_advances [OF rowless_reading] by fastforce
qed

lemma orient_advances:
  assumes "orient env opened offered brief messages w = (oriented, w')"
  shows "advances maximum 0 env f (st, w) (st, w')"
proof -
  let ?seen = "if i_IncidentID opened = uuid_Nil then (None, w)
      else (case other_read (ag_trigger env) w of (Inl e, w') \<Rightarrow> (None, w') | (Inr t, w') \<Rightarrow> (Some t, w'))"
  obtain t w1 where one: "?seen = (t, w1)" by (cases ?seen)
  obtain v w2 where two: "other_read (ag_inventory env) w1 = (v, w2)" by fastforce
  have "w1 = w \<or> (\<exists>v. other_read (ag_trigger env) w = (v, w1))"
    using one by (auto split: if_splits sum.splits prod.splits)
  then have "advances maximum 0 env f (st, w) (st, w1)" using other_read_advances by (elim disjE exE) simp_all
  moreover have "w' = w2" using assms one two by (auto simp: orient_def Let_def split: sum.splits prod.splits)
  ultimately show ?thesis using other_read_advances [OF two] advances_step by blast
qed

text \<open>What a run may read: the sources the catalog offers of the integrations of the moment.\<close>

definition scoped :: "agent_env \<Rightarrow> run_frame \<Rightarrow> bool" where
  "scoped env f \<longleftrightarrow>
     (\<exists>k candidates. ag_candidates env k = Inr candidates
        \<and> rf_offered f = offeredSourcesForConversation (ag_catalog env) candidates (rf_origin f))
     \<and> (if i_ConversationID (rf_opened f) = uuid_Nil then rf_origin f = None else \<exists>k. ag_origin env k = Inr (rf_origin f))"

lemma conversation_scope_origin:
  "conversation_scope env organization opened w = (Inr (origin, messages), w') \<Longrightarrow>
     if i_ConversationID opened = uuid_Nil then origin = None else \<exists>k. ag_origin env k = Inr origin"
  by (auto simp: conversation_scope_def other_read_def split: if_splits sum.splits prod.splits)

lemma agent_frame_fields [simp]:
  "rf_org (agent_frame env organization opened offered origin) = organization"
  "rf_opened (agent_frame env organization opened offered origin) = opened"
  "rf_offered (agent_frame env organization opened offered origin) = offered"
  "rf_origin (agent_frame env organization opened offered origin) = origin"
  by (simp_all add: agent_frame_def)

lemma agent_begin_advances:
  assumes "agent_begin env organization opened w = (r, w')"
  shows "advances maximum 0 env f (st, w) (st, w')"
    "r = Inr (f', st') \<Longrightarrow> (\<exists>offered origin. f' = agent_frame env organization opened offered origin) \<and> scoped env f'
       \<and> (\<exists>brief oriented events. st' = run_start brief oriented events)"
proof -
  obtain scope w1 where one: "conversation_scope env organization opened w = (scope, w1)" by fastforce
  note first = conversation_scope_advances [OF one, of maximum f st]
  obtain candidates w2 where two: "other_read (ag_candidates env) w1 = (candidates, w2)" by fastforce
  note second = advances_step [OF first other_read_advances [OF two]]
  obtain brief w3 where three: "conversationBrief env organization opened w2 = (brief, w3)" by fastforce
  note third = advances_step [OF second conversationBrief_advances [OF three]]
  let ?payload = "StartedPayload ''Reviewing this request and available evidence sources.''"
  obtain events w4 where four: "announce env organization opened ?payload (newStream, w3) = (events, w4)" by fastforce
  note fourth = advances_step [OF third announce_advances [OF live_payloads(1) four]]
  have fifth: "advances maximum 0 env f (st, w) (st, w5)" if "orient env opened offered brief messages w4 = (oriented, w5)"
    for offered messages oriented w5
    using advances_step [OF fourth orient_advances [OF that]] .
  show "advances maximum 0 env f (st, w) (st, w')"
    using assms one two three four first second fifth
    by (auto simp: agent_begin_def Let_def split: sum.splits prod.splits)
  assume r: "r = Inr (f', st')"
  then obtain origin messages where scope: "scope = Inr (origin, messages)"
    using assms one by (cases scope) (auto simp: agent_begin_def)
  obtain found where found: "candidates = Inr found"
    using assms one two r scope by (cases candidates) (auto simp: agent_begin_def)
  have f': "f' = agent_frame env organization opened (offeredSourcesForConversation (ag_catalog env) found origin) origin
      \<and> (\<exists>brief oriented events. st' = run_start brief oriented events)"
    using assms one two three four r scope found by (auto simp: agent_begin_def Let_def split: prod.splits)
  have "ag_candidates env (w_tick w1) = Inr found" using two found by (simp add: other_read_def)
  then have "scoped env f'" using f' conversation_scope_origin [OF one [unfolded scope]] unfolding scoped_def by auto
  with f' show "(\<exists>offered origin. f' = agent_frame env organization opened offered origin) \<and> scoped env f'
       \<and> (\<exists>brief oriented events. st' = run_start brief oriented events)" by blast
qed

section \<open>A whole run\<close>

definition fresh_world :: "work_db \<Rightarrow> audit_row list \<Rightarrow> agent_world" where
  "fresh_world db trail = \<lparr>w_tick = 0, w_db = db, w_trail = trail, w_prompts = [], w_reads = []\<rparr>"

lemma agent_frame_limits:
  "1 \<le> rf_maxRuns (agent_frame env organization opened offered origin)"
  "1 \<le> rf_maxTurns (agent_frame env organization opened offered origin)"
  by (simp_all add: agent_frame_def)

text \<open>A state that has done nothing yet.\<close>

definition idle :: "run_state \<Rightarrow> bool" where
  "idle st \<longleftrightarrow> rs_runs st = [] \<and> rs_executed st = 0 \<and> cc_opened (rs_credentials st) = []"

lemma idle_start: "idle (run_start brief oriented events)"
  by (simp add: idle_def run_start_def)

lemma run_ok_start:
  assumes "companions maximum (i_ID opened) (i_ClaimToken opened) env" "work_reachable maximum (w_db w)"
    "our_row organization (i_ID opened) (i_ClaimToken opened) (w_db w)" "w_reads w = []" "idle st"
  shows "state_ok maximum env (agent_frame env organization opened offered origin) (st, w)"
  using assms agent_frame_limits(1) [of env organization opened offered origin] by (simp add: run_ok_def recorded_def idle_def)

text \<open>
  A run is a start, some turns and a terminal write; what it did is read off the state before
  that write.
\<close>

lemma Agent_Run_parts:
  assumes run: "Agent_Run env organization opened w0 = (r, w)"
  obtains f st s' st' offered origin where "f = agent_frame env organization opened offered origin" "idle st"
    "rf_offered f = [] \<or> scoped env f"
    "\<And>maximum. advances maximum (2 * nat (rf_maxTurns f) + 2) env f (st, w0) s'" "ends_with env f s' (r, st', w)"
proof -
  obtain start w1 where began: "agent_begin env organization opened w0 = (start, w1)" by fastforce
  note begun = agent_begin_advances [OF began]
  show thesis
  proof (cases start)
    case (Inl reason)
    obtain st where idle: "idle st" using idle_start by blast
    let ?f = "agent_frame env organization opened [] None"
    have "fail_run env organization opened reason no_usage w1 = (r, w)" using run began Inl by (simp add: Agent_Run_def)
    then have "ends_with env ?f (st, w1) (r, st, w)" unfolding ends_with_def by auto
    then show thesis by (rule that [OF refl idle _ advances_prompts [OF begun(1)], rotated 2]) simp_all
  next
    case (Inr out)
    obtain f st where out: "out = (f, st)" by (cases out)
    from begun(2) [of f st] obtain offered origin where f: "f = agent_frame env organization opened offered origin"
      and idle: "idle st" and scoped: "scoped env f"
      using Inr out idle_start by auto
    obtain r' st' w' where loop: "run_loop env f 1 [] (st, w1) = (r', st', w')" by (metis prod.exhaust)
    with run began Inr out have same: "r' = r" "w' = w" by (simp_all add: Agent_Run_def)
    obtain s' where s': "\<And>maximum. advances maximum (2 * nat (rf_maxTurns f) + 2) env f (st, w1) s'" "ends_with env f s' (r, st', w)"
      using run_loop_ends [of f 1 env "(st, w1)" "[]"] unfolding loop same by auto
    have "advances maximum (2 * nat (rf_maxTurns f) + 2) env f (st, w0) s'" for maximum
      using advances_trans [OF begun(1) s'(1)] by simp
    from that [OF f idle _ this s'(2)] scoped show thesis by simp
  qed
qed

text \<open>The limits hold whatever the environment answers.\<close>

lemma Agent_Run_limits:
  assumes "Agent_Run env organization opened (fresh_world db trail) = (r, w)"
  shows "length (w_prompts w) \<le> 2 * nat (rf_maxTurns (agent_frame env organization opened [] None)) + 2"
    "int (length (w_reads w)) \<le> rf_maxRuns (agent_frame env organization opened [] None)"
proof -
  from assms obtain f st s' st' offered origin where parts: "f = agent_frame env organization opened offered origin" "idle st"
      "\<And>maximum. advances maximum (2 * nat (rf_maxTurns f) + 2) env f (st, fresh_world db trail) s'" "ends_with env f s' (r, st', w)"
    by (rule Agent_Run_parts) blast
  note moved = parts(3) [of 0, unfolded advances_def, THEN conjunct2]
  from parts(1) have limits: "rf_maxTurns f = rf_maxTurns (agent_frame env organization opened [] None)"
      "rf_maxRuns f = rf_maxRuns (agent_frame env organization opened [] None)" "0 \<le> rf_maxRuns f"
    by (simp_all add: agent_frame_def)
  show "length (w_prompts w) \<le> 2 * nat (rf_maxTurns (agent_frame env organization opened [] None)) + 2"
    using moved ends_with_traces [OF parts(4)] limits(1) by (simp add: fresh_world_def)
  have "int (length (w_reads w)) \<le> rs_executed (fst s')"
    using moved ends_with_traces [OF parts(4)] parts(2) by (simp add: fresh_world_def idle_def)
  also have "\<dots> \<le> rf_maxRuns f" using moved parts(2) limits(3) by (simp add: idle_def)
  finally show "int (length (w_reads w)) \<le> rf_maxRuns (agent_frame env organization opened [] None)" using limits(2) by simp
qed

lemma Agent_Run_outcome:
  assumes ours: "companions maximum (i_ID opened) (i_ClaimToken opened) env" "work_reachable maximum db"
      "our_row organization (i_ID opened) (i_ClaimToken opened) db"
    and run: "Agent_Run env organization opened (fresh_world db trail) = (r, w)"
  obtains f st w1 written offered origin where "f = agent_frame env organization opened offered origin"
    "rf_offered f = [] \<or> scoped env f"
    "state_ok maximum env f (st, w1)" "(work_step maximum)\<^sup>*\<^sup>* db (w_db w1)" "(work_step maximum)\<^sup>*\<^sup>* (w_db w1) (w_db w)"
    "outcome_row organization (i_ID opened) written (r = None) (w_db w)"
    "\<And>c. written = Some c \<Longrightarrow> grounded f c (rs_runs st) (w_db w1)"
    "w_reads w = w_reads w1" "w_trail w = w_trail w1"
proof -
  from run obtain f st s' st' offered origin where parts: "f = agent_frame env organization opened offered origin" "idle st"
      "rf_offered f = [] \<or> scoped env f"
      "\<And>maximum. advances maximum (2 * nat (rf_maxTurns f) + 2) env f (st, fresh_world db trail) s'" "ends_with env f s' (r, st', w)"
    by (rule Agent_Run_parts) blast
  obtain st1 w1 where s': "s' = (st1, w1)" by (cases s')
  have "state_ok maximum env f (st, fresh_world db trail)"
    unfolding parts(1) by (rule run_ok_start) (use ours parts(2) in \<open>simp_all add: fresh_world_def\<close>)
  with parts(4) [of maximum] have moved: "state_ok maximum env f (st1, w1)" "(work_step maximum)\<^sup>*\<^sup>* db (w_db w1)"
    by (simp_all add: s' advances_def fresh_world_def)
  from ends_with_outcome [OF moved(1) parts(5) [unfolded s']] obtain written where
    wrote: "(work_step maximum)\<^sup>*\<^sup>* (w_db w1) (w_db w)" "outcome_row organization (i_ID opened) written (r = None) (w_db w)"
      "\<And>c. written = Some c \<Longrightarrow> grounded f c (rs_runs st1) (w_db w1)"
    by (auto simp: parts(1))
  show thesis
    by (rule that [OF parts(1,3) moved(1,2) wrote]) (use ends_with_traces [OF parts(5)] in \<open>simp_all add: s'\<close>)
qed

end
