(* ===== verification/Observations.thy ===== *)
theory Observations
  imports AgentRun
begin

text \<open>
  What is stored of a read fits its table: the texts are bounded in runes and in bytes, and a run
  that was made states a reason exactly when it failed, but for a tool that fails with an empty error.
\<close>

section \<open>Observations fit their column\<close>

lemma rune_width_le4: "rune_width s \<le> 4"
  by (auto simp: rune_width_def sequence_length_def Let_def split: list.splits)

lemma length_runes: "e \<in> set (runes s) \<Longrightarrow> length e \<le> 4"
proof (induction s rule: runes.induct)
  case (1 s)
  from "1.prems" show ?case
    using "1.IH" rune_width_le4 [of s] by (subst (asm) runes.simps) (auto split: if_splits)
qed

lemma length_le_runes: "length s \<le> 4 * RuneCountInString s"
proof (induction s rule: runes.induct)
  case (1 s)
  then show ?case using rune_width_le4 [of s] rune_width_le [of s] by (subst runes.simps) (auto split: if_splits)
qed

lemma length_concat_le: "\<forall>x \<in> set xs. length x \<le> k \<Longrightarrow> length (concat xs) \<le> k * length xs"
  by (induction xs) auto

lemma length_boundedRunes: "length (boundedRunes s limit) \<le> 4 * limit"
proof (cases "RuneCountInString s \<le> limit")
  case True
  with length_le_runes [of s] show ?thesis by (simp add: boundedRunes_def)
next
  case False
  have "length (concat (take limit (runes s))) \<le> 4 * length (take limit (runes s))"
    by (rule length_concat_le) (auto dest!: in_set_takeD intro: length_runes)
  with False show ?thesis by (simp add: boundedRunes_def)
qed

lemma runes_empty [simp]: "runes [] = []"
  by (simp add: runes.simps)

lemma runes_Nil: "runes s = [] \<longleftrightarrow> s = []"
  by (subst runes.simps) auto

lemma boundedRunes_Nil [simp]: "0 < limit \<Longrightarrow> boundedRunes s limit = [] \<longleftrightarrow> s = []"
proof -
  assume "0 < limit"
  then have "concat (take limit (runes s)) \<noteq> []" if "\<not> RuneCountInString s \<le> limit"
    using that runes_encode [of s] by (cases "runes s"; cases limit) (auto simp: encodes_rune_def)
  then show ?thesis by (cases "RuneCountInString s \<le> limit") (auto simp: boundedRunes_def)
qed

lemma RuneCount_boundedRunes: "RuneCountInString (boundedRunes s limit) \<le> limit"
proof (cases "RuneCountInString s \<le> limit")
  case False
  have "\<forall>e \<in> set (take limit (runes s)). encodes_rune e" using runes_encode [of s] by (auto dest: in_set_takeD)
  with runes_concat [of "take limit (runes s)" "[]"] False show ?thesis by (simp add: boundedRunes_def)
qed (simp add: boundedRunes_def)

lemma redact_Nil [simp]: "redact secrets s = [] \<longleftrightarrow> s = []"
  by (subst redact.simps) (auto split: option.split)

lemma length_decimal: "n < 10 ^ Suc k \<Longrightarrow> length (decimal n) \<le> Suc k"
proof (induction k arbitrary: n)
  case 0
  then show ?case by (subst decimal.simps) simp
next
  case (Suc k)
  have "n div 10 < 10 ^ Suc k" using Suc.prems by (simp add: div_less_iff_less_mult mult.commute)
  from Suc.IH [OF this] show ?case by (subst decimal.simps) simp
qed

lemma length_FormatInt: "0 \<le> n \<Longrightarrow> n < 100000 \<Longrightarrow> length (FormatInt n) \<le> 5"
  using length_decimal [of "nat n" 4] by (simp add: FormatInt_def)

lemma prepareObservation_fields:
  "run_Error (prepareObservation uuids nano lower opened run) = [] \<longleftrightarrow> run_Error run = []"
  "run_IntegrationID (prepareObservation uuids nano lower opened run) = run_IntegrationID run"
  "RuneCountInString (run_Tool (prepareObservation uuids nano lower opened run)) \<le> 128"
  by (simp_all add: prepareObservation_def redacted_run_def Let_def RuneCount_boundedRunes split: prod.split)

lemma prepareObservation_bound:
  assumes "1 \<le> run_Ordinal run" "run_Ordinal run \<le> 32767"
  shows "\<exists>s. run_ObservationText (prepareObservation uuids nano lower opened run) = Some s \<and> length s \<le> MaxObservationBytes"
proof -
  define secrets where "secrets = secrets_of opened"
  define safe where "safe = redacted_run lower secrets run"
  obtain s clipped where seen: "observed_text uuids nano (redact secrets) safe = (s, clipped)" by fastforce
  have "run_Ordinal safe = run_Ordinal run" "length (run_Tool safe) \<le> 512"
    using length_boundedRunes [of _ 128] by (simp_all add: safe_def redacted_run_def Let_def)
  then show ?thesis using length_FormatInt [of "run_Ordinal run"] assms length_FormatInt [of 65536]
    by (simp add: prepareObservation_def Let_def secrets_def [symmetric] safe_def [symmetric] seen newline_def)
qed

text \<open>A run that was made is over: it failed for a reason, or succeeded without one.\<close>

definition settled_run :: "ToolRun \<Rightarrow> bool" where
  "settled_run run \<longleftrightarrow>
     run_Outcome run = RunFailed \<and> run_Error run \<noteq> [] \<or> run_Outcome run = RunSucceeded \<and> run_Error run = []"

text \<open>The call ran a tool, and the tool failed with an error that has no text.\<close>

definition failed_silently :: "agent_world \<Rightarrow> agent_world \<Rightarrow> bool" where
  "failed_silently w w' \<longleftrightarrow>
     (\<exists>tool request. w_reads w' = w_reads w @ [(tool, request)] \<and> tool_Run tool (w_tick w' - 1) request = Inl [])"

lemma no_read_is_not_silent: "w_reads w' = w_reads w \<Longrightarrow> \<not> failed_silently w w'"
  by (simp add: failed_silently_def)

lemma tell_reads: "tell env f payload s = (st', w') \<Longrightarrow> w_reads w' = w_reads (snd s)"
  by (cases s)
    (auto simp: tell_def announce_def Emit_def emit_def append_own_event_def Let_def dest: store_call_result(2)
      split: prod.splits if_splits option.splits sum.splits)

lemma settled_with_result:
  "run_Error run = [] \<Longrightarrow> settled_run (with_result run answer) \<longleftrightarrow> answer \<noteq> Inl []"
  by (cases answer) (auto simp: with_result_def settled_run_def split: option.split)

lemma execute_tool_settled:
  assumes "execute_tool env f call ordinal (cache, w) = (Inr run, cache', w')"
  shows "settled_run run \<longleftrightarrow> \<not> failed_silently w w'"
proof (cases "toolNamed (ag_uuids env) (rf_offered f) call")
  case None
  then show ?thesis using assms by (auto simp: execute_tool_def settled_run_def no_read_is_not_silent Let_def)
next
  case (Some found)
  obtain source tool where found: "found = (source, tool)" by (cases found)
  obtain opened cache1 w1 where tried: "open_credential env f (src_Integration source) (cache, w) = (opened, cache1, w1)" by (metis prod.exhaust)
  note kept = open_credential_ok(5) [OF tried]
  show ?thesis
  proof (cases opened)
    case (Inl e)
    then show ?thesis using assms Some found tried kept
      by (cases e) (auto simp: execute_tool_def settled_run_def no_read_is_not_silent Let_def split: if_splits)
  next
    case (Inr credential)
    then obtain run0 request where "run = with_result run0 (tool_Run tool (w_tick w1) request)" "run_Error run0 = []"
      "w' = w1\<lparr>w_tick := w_tick w1 + 1, w_reads := w_reads w1 @ [(tool, request)]\<rparr>"
      using assms Some found tried by (auto simp: execute_tool_def started_run_def Let_def)
    then show ?thesis using kept by (auto simp: settled_with_result failed_silently_def)
  qed
qed

lemma unexecuted_settled:
  "reason \<noteq> [] \<Longrightarrow> settled_run (droppedRun opened call ordinal reason now)"
  "settled_run (suppressedRun opened call ordinal original now)"
  by (simp_all add: settled_run_def droppedRun_def suppressedRun_def)

lemma make_run_settled:
  assumes made: "make_run env f call executedCalls s = (Inr (run, executed, executedCalls'), st', w')"
  shows "settled_run run \<longleftrightarrow> \<not> failed_silently (snd s) w'"
proof -
  obtain st w where s: "s = (st, w)" by (cases s)
  show ?thesis
  proof (cases "tc_Error call = [] \<and> map_of executedCalls (callIdentityOf call) = None \<and> rs_executed st < rf_maxRuns f")
    case True
    obtain st1 w1 where started: "announceToolStarted env f call (int (length (rs_runs st)) + 1) (st, w) = (st1, w1)" by fastforce
    then have kept: "w_reads w1 = w_reads w" by (auto simp: announceToolStarted_def dest: tell_reads split: option.splits)
    obtain answer cache w2 where ran: "execute_tool env f call (int (length (rs_runs st)) + 1) (rs_credentials st1, w1) = (answer, cache, w2)"
      by (metis prod.exhaust)
    from made True have "answer = Inr run" "w2 = w'" by (cases answer; simp add: make_run_def s Let_def started ran)+
    with execute_tool_settled [of env f call] ran kept show ?thesis by (auto simp: s failed_silently_def)
  next
    case False
    then have "w_reads w' = w_reads w" using made
      by (auto simp: make_run_def s Let_def dest!: tell_reads split: option.splits if_splits)
    moreover have "settled_run run" using False made
      by (auto simp: make_run_def s Let_def unexecuted_settled settled_run_def split: option.splits if_splits)
         (auto simp: droppedRun_def suppressedRun_def)
    ultimately show ?thesis by (simp add: s no_read_is_not_silent)
  qed
qed

lemma prepared_run_fits:
  assumes "make_run env f call executedCalls s = (Inr (run, executed, executedCalls'), st', w')"
  shows "run_Ordinal (prepared_run env f call' st' run) = int (length (rs_runs (fst s))) + 1"
    and "RuneCountInString (run_Tool (prepared_run env f call' st' run)) \<le> 128"
    and "violated (tool_run_checks (prepared_run env f call' st' run)) = None
        \<and> in_int16 (run_Ordinal (prepared_run env f call' st' run))
      \<longleftrightarrow> int (length (rs_runs (fst s))) < 32767 \<and> \<not> failed_silently (snd s) w'"
proof -
  define base where "base = (case toolNamed (ag_uuids env) (rf_offered f) call' of None \<Rightarrow> run
    | Some (source, tool) \<Rightarrow> run\<lparr>run_IntegrationID := integ_ID (src_Integration source)\<rparr>)\<lparr>run_Purpose := tc_Purpose call'\<rparr>"
  let ?p = "prepareObservation (ag_uuids env) (ag_nano env) (ag_lower env) (map snd (cc_opened (rs_credentials st'))) base"
  have same: "run_Ordinal base = run_Ordinal run" "run_Error base = run_Error run" "run_Outcome base = run_Outcome run"
    by (simp_all add: base_def split: option.split)
  have prepared: "prepared_run env f call' st' run = ?p" by (simp add: prepared_run_def base_def)
  have ordinal: "run_Ordinal base = int (length (rs_runs (fst s))) + 1"
    using make_run_advances(3) [OF assms refl] same by simp
  then show "run_Ordinal (prepared_run env f call' st' run) = int (length (rs_runs (fst s))) + 1"
    "RuneCountInString (run_Tool (prepared_run env f call' st' run)) \<le> 128"
    by (simp_all add: prepared prepareObservation_fields)
  have settled: "settled_run base \<longleftrightarrow> \<not> failed_silently (snd s) w'"
    using make_run_settled [OF assms] same by (simp add: settled_run_def)
  have checks: "violated (tool_run_checks ?p) = None \<longleftrightarrow> settled_run base
      \<and> (case run_ObservationText ?p of None \<Rightarrow> True | Some s \<Rightarrow> length s \<le> MaxObservationBytes)"
    using ordinal by (auto simp: tool_run_checks_def violated_None prepareObservation_fields settled_run_def)
  have "\<exists>s. run_ObservationText ?p = Some s \<and> length s \<le> MaxObservationBytes" if "run_Ordinal base \<le> 32767"
    by (rule prepareObservation_bound) (use that ordinal in auto)
  then show "violated (tool_run_checks (prepared_run env f call' st' run)) = None
        \<and> in_int16 (run_Ordinal (prepared_run env f call' st' run))
      \<longleftrightarrow> int (length (rs_runs (fst s))) < 32767 \<and> \<not> failed_silently (snd s) w'"
    using ordinal settled checks by (auto simp: prepared)
qed

end
