(* ===== verification/AgentSample.thy ===== *)
theory AgentSample
  imports Observations
begin

text \<open>
  One run of the agent, evaluated: the model asks for the logs of its only source, whose sealed
  credential is opened, and then concludes from them.
\<close>

section \<open>A run to evaluate on\<close>

definition sample_tool :: Tool where
  "sample_tool = \<lparr>tool_Name = ''read_logs'', tool_Description = [], tool_Arguments = [], tool_RequiredGrants = [''logs''],
     tool_SupportsThreadScope = False,
     tool_Run = (\<lambda>k request. Inr \<lparr>res_Content = Some (JArray []), res_Truncated = False, res_Summary = ''no lines'',
                               res_Sources = [], res_WindowFrom = None, res_WindowUntil = None\<rparr>)\<rparr>"

definition sample_source :: Integration where
  "sample_source = \<lparr>integ_ID = 6, integ_OrgID = [], integ_Provider = ''k8s'', integ_Name = ''prod'', integ_Configuration = [],
     integ_RelayID = 0, integ_WebhookSecretDigest = [], integ_CredentialSealed = ''s'', integ_Status = ''verified'',
     integ_VerifiedAt = Some 1, integ_VerificationGrants = [''logs''], integ_Disabled = False, integ_CreatedAt = 0\<rparr>"

definition sample_counts :: TokenUsage where
  "sample_counts = (let none = \<lparr>count_Tokens = 0, count_IsReported = False\<rparr> in
     \<lparr>tu_Input = none, tu_Output = none, tu_CacheWrite = none, tu_CacheRead = none, tu_Reasoning = none\<rparr>)"

definition sample_answer :: "string \<Rightarrow> json \<Rightarrow> Completion" where
  "sample_answer name arguments = \<lparr>comp_Model = ''m'', comp_Document = [],
     comp_ToolCalls = [\<lparr>call_ID = ''c'', call_Name = name, call_Arguments = Whole arguments\<rparr>], comp_Raw = [],
     comp_Stop = StopToolUse, comp_Usage = sample_counts\<rparr>"

definition sample_conclusion :: json where
  "sample_conclusion = JObject
     [(''status'', JString ''supported_explanation''), (''summary'', JString ''the disk is full''),
      (''impact'', JObject [(''summary'', JString ''writes fail''), (''run_refs'', JArray [JNumber ''1''])]),
      (''findings'', JArray [JObject [(''statement'', JString ''no space left''), (''kind'', JString ''cause''),
         (''mechanism'', JString ''logs grow''), (''run_refs'', JArray [JNumber ''1'']), (''evidence_refs'', JArray [])]]),
      (''hypotheses'', JArray []), (''actions'', JArray []), (''limitations'', JArray [])]"

definition sample_agent :: agent_env where
  "sample_agent = \<lparr>ag_uuids = sample_uuid_lib,
     ag_json = \<lparr>jl_float = (\<lambda>s. s), jl_complaint = (\<lambda>v. []), jl_quote = (\<lambda>s. s)\<rparr>,
     ag_lower = (\<lambda>s. s), ag_nano = (\<lambda>i. []), ag_texts = ([], []),
     ag_config = \<lparr>mc_Provider = ''p'', mc_Model = ''m'', mc_Effort = [], mc_MaxOutputTokens = 100\<rparr>,
     ag_catalog = [\<lparr>def_Key = ''k8s'', def_Tools = [sample_tool]\<rparr>], ag_MaxToolRuns = 2, ag_MaxTurns = 2,
     ag_now = (\<lambda>k. 120), ag_clock = (\<lambda>k. 120), ag_time = (\<lambda>k. 120), ag_done = (\<lambda>k. False), ag_deadline = None,
     ag_others = (\<lambda>k db. db), ag_fate = (\<lambda>k. if k = 1 \<or> k = 4 \<or> k = 8 then Lost else Reported),
     ag_ints = (\<lambda>k. [\<lparr>int_id = 6, int_org = 3, int_provider = ''k8s'', int_relay_id = None, int_disabled = False, int_verification_status = None, int_verified_at = None, int_verification_grants = []\<rparr>]), ag_eventID = (\<lambda>k. k),
     ag_complete = (\<lambda>k prompt. (if k < 9 then sample_answer ''read_logs'' (JObject [(''input'', JObject [])])
                                  else sample_answer ''conclude'' sample_conclusion, None)),
     ag_unseal = (\<lambda>sealed i. Inr ''hunter2''), ag_storeText = (\<lambda>e. []), ag_origin = (\<lambda>k. Inr None),
     ag_candidates = (\<lambda>k. Inr [sample_source]), ag_trigger = (\<lambda>k. Inl ErrDatabase), ag_inventory = (\<lambda>k. Inr [])\<rparr>"

definition sample_claimed :: Investigation where
  "sample_claimed = (scanInvestigation (leased 110 9 work_sample_claim work_sample_waiting))\<lparr>i_ClaimToken := 9\<rparr>"

section \<open>The run of the example\<close>

definition sample_frame :: run_frame where
  "sample_frame = agent_frame sample_agent 3 sample_claimed [\<lparr>src_Integration = sample_source, src_Tools = [sample_tool]\<rparr>] None"

definition sample_call :: toolCall where
  "sample_call = \<lparr>tc_ID = ''c'', tc_Tool = ''read_logs'', tc_IntegrationID = [], tc_Purpose = [], tc_Arguments = Some [], tc_Error = []\<rparr>"

lemma sample_claimed_fields [simp]:
  "i_ID sample_claimed = 7" "i_IncidentID sample_claimed = 0" "i_ConversationID sample_claimed = 0" "i_ClaimToken sample_claimed = 9"
  by (simp_all add: sample_claimed_def work_sample_defs scanInvestigation_def)

lemma sample_scope: "offeredSourcesForConversation (ag_catalog sample_agent) [sample_source] None
    = [\<lparr>src_Integration = sample_source, src_Tools = [sample_tool]\<rparr>]"
  by (simp add: offeredSourcesForConversation_def offeredSources_def offered_source_def Lookup_def SupportedTools_def
      integrationEligible_def missingGrants_def sample_agent_def sample_source_def sample_tool_def)

text \<open>The announcements of the example are lost on their way to the tables, which ends nothing.\<close>

lemma sample_lost:
  assumes "ag_fate sample_agent (w_tick w) = Lost" "\<not> st_closed events"
  shows "announce sample_agent 3 sample_claimed payload (events, w) = (events, w\<lparr>w_tick := w_tick w + 1\<rparr>)"
  using assms by (simp add: announce_def Emit_def emit_def append_own_event_def store_call_def Let_def sample_agent_def)

lemma sample_told:
  assumes "ag_fate sample_agent (w_tick w) = Lost" "\<not> st_closed (rs_events st)"
  shows "tell sample_agent sample_frame payload (st, w) = (st, w\<lparr>w_tick := w_tick w + 1\<rparr>)"
  using assms by (simp add: tell_def sample_frame_def sample_lost)

definition sample_world :: "nat \<Rightarrow> agent_world" where
  "sample_world k = (fresh_world work_sample_leased [])\<lparr>w_tick := k\<rparr>"

definition sample_start :: run_state where
  "sample_start = run_start None
     \<lparr>or_Subject = ''disk full'', or_Question = [], or_WindowFrom = 0, or_WindowUntil = 10, or_Trigger = None,
      or_Sources = rf_offered sample_frame, or_Inventory = [], or_Brief = None\<rparr> newStream"

lemma sample_begin:
  "agent_begin sample_agent 3 sample_claimed (fresh_world work_sample_leased []) = (Inr (sample_frame, sample_start), sample_world 3)"
proof -
  have claimed: "i_Subject sample_claimed = ''disk full''" "i_WindowFrom sample_claimed = 0" "i_WindowUntil sample_claimed = 10"
    by (simp_all add: sample_claimed_def work_sample_defs scanInvestigation_def)
  have reads: "other_read (ag_candidates sample_agent) (fresh_world work_sample_leased []) = (Inr [sample_source], sample_world 1)"
      "other_read (ag_inventory sample_agent) (sample_world 2) = (Inr [], sample_world 3)"
    by (simp_all add: other_read_def sample_world_def sample_agent_def fresh_world_def)
  have "announce sample_agent 3 sample_claimed payload (newStream, sample_world 1) = (newStream, sample_world 2)" for payload
    by (subst sample_lost) (simp_all add: sample_world_def sample_agent_def newStream_def)
  then show ?thesis
    by (simp add: agent_begin_def conversation_scope_def conversationBrief_def reads sample_scope orient_def Let_def claimed
        sample_frame_def sample_start_def)
qed

definition sample_state :: "ToolRun list \<Rightarrow> int \<Rightarrow> run_state \<Rightarrow> bool" where
  "sample_state runs executed st \<longleftrightarrow>
     rs_runs st = runs \<and> rs_executed st = executed \<and> \<not> st_closed (rs_events st) \<and> rs_stopped st = []
     \<and> \<not> rs_missing st \<and> rs_prior st = [] \<and> or_Brief (rs_orientation st) = None \<and> rs_usage st = no_usage
     \<and> cc_failed (rs_credentials st) = []"

lemma sample_opened:
  assumes "sample_state runs executed st" "executed < 2" "turn \<le> 2"
  obtains x where "opened_turn sample_agent sample_frame turn results (st, w) = x" "\<not> ex_forced x" "ex_world x = w"
    "sample_state runs executed (ex_state x)" "rs_credentials (ex_state x) = rs_credentials st"
proof -
  have "begin_turn sample_agent sample_frame turn (st, w) = (st, w)"
    using assms by (simp add: begin_turn_def Agent.ceiling_def wallClockAlmostOver_def Let_def sample_state_def sample_frame_def
        agent_frame_def sample_agent_def)
  moreover have "rf_offered sample_frame \<noteq> []" by (simp add: sample_frame_def)
  ultimately show thesis
    using assms(1) by (intro that [OF refl]) (auto simp: opened_turn_def sample_state_def give_results_def Let_def)
qed

lemma sample_usage: "Usage_Add no_usage (usageOf sample_counts) = no_usage"
  by (simp add: Usage_Add_def usageOf_def sample_counts_def Count_Or_def no_usage_def Let_def uint64_of_int64_def int64_of_uint64_def)

definition sample_lib :: json_lib where
  "sample_lib = \<lparr>jl_float = (\<lambda>s. s), jl_complaint = (\<lambda>v. []), jl_quote = (\<lambda>s. s)\<rparr>"

lemma sample_libs [simp]: "ag_json sample_agent = sample_lib" "ag_uuids sample_agent = sample_uuid_lib"
  by (simp_all add: sample_agent_def sample_lib_def)

lemma sample_text: "TrimSpace ''c'' = ''c''"
  by code_simp

lemma sample_decoded_call:
  "decodeToolCalls sample_lib [\<lparr>call_ID = ''c'', call_Name = ''read_logs'', call_Arguments = Whole (JObject [(''input'', JObject [])])\<rparr>]
     = [sample_call]"
  by code_simp

text \<open>The first answer of the model asks for the logs.\<close>

lemma sample_asks:
  assumes "sample_state runs executed (ex_state x)" "\<not> ex_forced x" "w_tick (ex_world x) < 9"
  obtains x' prompt where "decide sample_agent sample_frame x = (Inr (MoveCalls [sample_call]), x')" "\<not> ex_forced x'"
    "ex_world x' = (ex_world x)\<lparr>w_tick := w_tick (ex_world x) + 1, w_prompts := w_prompts (ex_world x) @ [prompt]\<rparr>"
    "sample_state runs executed (ex_state x')" "rs_credentials (ex_state x') = rs_credentials (ex_state x)"
proof -
  let ?answer = "sample_answer ''read_logs'' (JObject [(''input'', JObject [])])"
  obtain prompt where asked: "complete sample_agent prompt (ex_world x)
      = ((?answer, None), (ex_world x)\<lparr>w_tick := w_tick (ex_world x) + 1, w_prompts := w_prompts (ex_world x) @ [prompt]\<rparr>)"
    and prompt: "prompt = modelPrompt (ag_uuids sample_agent) (ag_texts sample_agent) (ag_config sample_agent)
      (rs_orientation (ex_state x)) (rs_transcript (ex_state x)) (allowed_evidence sample_agent (ex_state x) \<noteq> []) (ex_forced x) (ex_reason x)"
    using assms(3) by (auto simp: complete_def sample_agent_def)
  have stop: "comp_Stop ?answer = StopToolUse" "comp_Usage ?answer = sample_counts"
      "splitCalls (comp_ToolCalls ?answer) = Inr (comp_ToolCalls ?answer, [])"
      "decodeToolCalls sample_lib (comp_ToolCalls ?answer) = [sample_call]" "comp_ToolCalls ?answer \<noteq> []"
    by (simp_all add: sample_answer_def splitCalls_def ConcludeToolName_def sample_text sample_decoded_call)
  have "\<exists>x'. attempt sample_agent sample_frame True x = (Ended (Inr (MoveCalls [sample_call])), x') \<and> \<not> ex_forced x'
      \<and> ex_world x' = (ex_world x)\<lparr>w_tick := w_tick (ex_world x) + 1, w_prompts := w_prompts (ex_world x) @ [prompt]\<rparr>
      \<and> sample_state runs executed (ex_state x') \<and> rs_credentials (ex_state x') = rs_credentials (ex_state x)"
    unfolding Agent.attempt_def Let_def prompt [symmetric] asked using assms(1,2)
    by (simp add: stop judge_def Let_def sample_state_def sample_usage)
  then show thesis using that by (auto simp: decide_def)
qed

definition sample_selected :: toolCall where
  "sample_selected = selected_call sample_agent sample_frame sample_call"

lemma sample_tool_named:
  "tc_Tool call = ''read_logs'' \<Longrightarrow> tc_IntegrationID call = [] \<or> tc_IntegrationID call = uuid_String sample_uuid_lib 6 \<Longrightarrow>
     toolNamed sample_uuid_lib (rf_offered sample_frame) call
     = Some (\<lparr>src_Integration = sample_source, src_Tools = [sample_tool]\<rparr>, sample_tool)"
  by (auto simp: toolNamed_def matching_tools_def sample_frame_def sample_tool_def sample_source_def)

lemma sample_call_fields [simp]: "tc_Tool sample_call = ''read_logs''" "tc_IntegrationID sample_call = []" "tc_Error sample_call = []"
    "tc_ID sample_call = ''c''" "tc_Purpose sample_call = []"
  by (simp_all add: sample_call_def)

lemma sample_selected_fields [simp]: "tc_Tool sample_selected = ''read_logs''" "tc_Error sample_selected = []"
    "tc_IntegrationID sample_selected = uuid_String sample_uuid_lib 6"
  by (simp_all add: sample_selected_def selected_call_def sample_tool_named) (simp add: sample_source_def)

lemma sample_frame_fields [simp]: "rf_org sample_frame = 3" "rf_opened sample_frame = sample_claimed" "rf_maxRuns sample_frame = 2"
    "rf_maxTurns sample_frame = 2"
  by (simp_all add: sample_frame_def agent_frame_def sample_agent_def)

lemma sample_unsealed: "\<exists>row. RecordEvent (ag_lower sample_agent) 120 k 3 (unseal_event sample_agent 3 7 6) [] = Inr [row]"
  by (simp add: RecordEvent_def in_organization_known writeEvent_def Bounded_def unseal_event_def nullableOrganization_def
      sample_uuid_lib_def Let_def)

lemma sample_executed:
  assumes "w_tick w = 5" "w_trail w = []" "cc_opened cache = []" "cc_failed cache = []"
  obtains run row where "execute_tool sample_agent sample_frame sample_selected 1 (cache, w)
      = (Inr run, cache\<lparr>cc_opened := [(6, ''hunter2'')]\<rparr>,
         w\<lparr>w_tick := 7, w_trail := [row],
           w_reads := w_reads w @ [(sample_tool, tool_request sample_frame sample_source ''hunter2'' sample_selected)]\<rparr>)"
    "run_Ordinal run = 1" "run_Outcome run = RunSucceeded" "run_Error run = []"
proof -
  obtain row where row: "RecordEvent (ag_lower sample_agent) 120 5 3 (unseal_event sample_agent 3 7 6) [] = Inr [row]"
    using sample_unsealed by blast
  have answers: "ag_fate sample_agent 5 = Reported" "ag_clock sample_agent 5 = 120" "ag_eventID sample_agent 5 = 5"
      "ag_unseal sample_agent sealed i = Inr ''hunter2''" for sealed i
    by (simp_all add: sample_agent_def)
  have source: "integ_ID sample_source = 6" "integ_CredentialSealed sample_source = ''s''" by (simp_all add: sample_source_def)
  have "RecordCredentialUnseal sample_agent 3 7 6 w = (None, w\<lparr>w_tick := 6, w_trail := [row]\<rparr>)"
    using assms row by (simp add: RecordCredentialUnseal_def Let_def answers)
  then have opened: "open_credential sample_agent sample_frame sample_source (cache, w)
      = (Inr ''hunter2'', cache\<lparr>cc_opened := [(6, ''hunter2'')]\<rparr>, w\<lparr>w_tick := 6, w_trail := [row]\<rparr>)"
    using assms by (simp add: open_credential_def source answers)
  have tool: "tool_Run sample_tool k request = Inr \<lparr>res_Content = Some (JArray []), res_Truncated = False, res_Summary = ''no lines'',
      res_Sources = [], res_WindowFrom = None, res_WindowUntil = None\<rparr>" for k request
    by (simp add: sample_tool_def)
  show thesis
    by (rule that [where row = row], simp add: execute_tool_def sample_tool_named opened tool with_result_def
        started_run_def Let_def assms) simp_all
qed

lemma sample_made:
  assumes "sample_state [] 0 st" "cc_opened (rs_credentials st) = []" "w_tick w = 4" "w_trail w = []"
  obtains run row st' where "make_run sample_agent sample_frame sample_selected [] (st, w)
      = (Inr (run, True, [(callIdentityOf sample_selected, 1)]), st',
         w\<lparr>w_tick := 7, w_trail := [row],
           w_reads := w_reads w @ [(sample_tool, tool_request sample_frame sample_source ''hunter2'' sample_selected)]\<rparr>)"
    "sample_state [] 1 st'" "run_Ordinal run = 1" "run_Outcome run = RunSucceeded"
proof -
  have "ag_fate sample_agent 4 = Lost" by (simp add: sample_agent_def)
  then have started: "announceToolStarted sample_agent sample_frame sample_selected 1 (st, w) = (st, w\<lparr>w_tick := 5\<rparr>)"
    using assms by (simp add: announceToolStarted_def sample_tool_named sample_told sample_state_def)
  obtain run row where ran: "execute_tool sample_agent sample_frame sample_selected 1 (rs_credentials st, w\<lparr>w_tick := 5\<rparr>)
      = (Inr run, (rs_credentials st)\<lparr>cc_opened := [(6, ''hunter2'')]\<rparr>,
         (w\<lparr>w_tick := 5\<rparr>)\<lparr>w_tick := 7, w_trail := [row],
           w_reads := w_reads (w\<lparr>w_tick := 5\<rparr>) @ [(sample_tool, tool_request sample_frame sample_source ''hunter2'' sample_selected)]\<rparr>)"
    and run: "run_Ordinal run = 1" "run_Outcome run = RunSucceeded"
    by (rule sample_executed [of "w\<lparr>w_tick := 5\<rparr>" "rs_credentials st"]) (use assms in \<open>simp_all add: sample_state_def\<close>)
  have empty: "rs_runs st = []" "rs_executed st = 0" using assms(1) by (simp_all add: sample_state_def)
  show thesis
    by (rule that [of run _ row], simp add: make_run_def Let_def started ran empty run)
      (use assms(1) run in \<open>simp_all add: sample_state_def\<close>)
qed

lemma sample_not_silent: "w_reads w' = w_reads w @ [(sample_tool, request)] \<Longrightarrow> \<not> failed_silently w w'"
  by (auto simp: failed_silently_def sample_tool_def)

lemma sample_saved:
  assumes "list_all snd (tool_run_checks run)" "run_Ordinal run = 1" "run_IntegrationID run = 6"
  obtains x where "RecordToolRun 120 (ag_ints sample_agent 7) 3 7 9 run work_sample_leased
      = Inr (work_sample_leased\<lparr>db_tool_runs := [x]\<rparr>)"
proof -
  have row: "list_ex (held 120 3 7 9) (db_investigations work_sample_leased)"
    by (simp add: held_def work_sample_defs)
  have locked: "lockInvestigation 3 7 work_sample_leased = Inr ()"
    by (simp add: lockInvestigation_def has_investigation_def work_sample_defs)
  have none: "db_tool_runs work_sample_leased = []" by (simp add: work_sample_leased_def empty_work_def)
  have "violated (tool_run_checks run) = None" using assms(1) by (simp add: violated_None)
  then have "\<exists>x. insert_tool_run (ag_ints sample_agent 7) 3 7 run work_sample_leased = Inr (work_sample_leased\<lparr>db_tool_runs := [x]\<rparr>)"
    using assms(3) by (intro exI [of _ "\<lparr>tr_investigation = 7, tr_org = 3, tr_integration = nullableUUID 6, tr_run = stored_run run\<rparr>"])
      (simp add: insert_tool_run_def none sample_agent_def)
  then obtain x where inserted: "insert_tool_run (ag_ints sample_agent 7) 3 7 run work_sample_leased
      = Inr (work_sample_leased\<lparr>db_tool_runs := [x]\<rparr>)" by blast
  have "\<not> (case run_ObservationText run of None \<Rightarrow> False | Some s \<Rightarrow> length s > MaxObservationBytes)"
    using assms(1) by (auto simp: tool_run_checks_def split: option.splits)
  with assms(2) show thesis
    by (intro that [of x]) (simp add: RecordToolRun_def locked row inserted)
qed

lemma sample_performed:
  assumes "sample_state [] 0 st" "cc_opened (rs_credentials st) = []" "w_tick w = 4" "w_trail w = []" "w_db w = work_sample_leased"
  obtains run row st' x result where "perform_calls sample_agent sample_frame [sample_call] [] (st, w)
      = (Inr [result], st', w\<lparr>w_tick := 9, w_trail := [row], w_db := work_sample_leased\<lparr>db_tool_runs := [x]\<rparr>,
           w_reads := w_reads w @ [(sample_tool, tool_request sample_frame sample_source ''hunter2'' sample_selected)]\<rparr>)"
    "sample_state [run] 1 st'" "run_Outcome run = RunSucceeded"
proof -
  obtain run row st1 where made: "make_run sample_agent sample_frame sample_selected [] (st, w)
      = (Inr (run, True, [(callIdentityOf sample_selected, 1)]), st1,
         w\<lparr>w_tick := 7, w_trail := [row],
           w_reads := w_reads w @ [(sample_tool, tool_request sample_frame sample_source ''hunter2'' sample_selected)]\<rparr>)"
    and st1: "sample_state [] 1 st1" and run: "run_Ordinal run = 1" "run_Outcome run = RunSucceeded"
    by (rule sample_made [OF assms(1-4)])
  let ?run = "prepared_run sample_agent sample_frame sample_call st1 run"
  let ?w1 = "w\<lparr>w_tick := 7, w_trail := [row],
    w_reads := w_reads w @ [(sample_tool, tool_request sample_frame sample_source ''hunter2'' sample_selected)]\<rparr>"
  have "rs_runs st = []" using assms(1) by (simp add: sample_state_def)
  then have checks: "list_all snd (tool_run_checks ?run)"
    using prepared_run_fits(3) [OF made, of sample_call]
    by (subst (asm) sample_not_silent [THEN eqTrueI]) (simp_all add: violated_None)
  have integration: "run_IntegrationID ?run = 6"
    by (simp add: prepared_run_def sample_tool_named prepareObservation_fields) (simp add: sample_source_def)
  obtain x where saved: "RecordToolRun 120 (ag_ints sample_agent 7) 3 7 9 ?run work_sample_leased
      = Inr (work_sample_leased\<lparr>db_tool_runs := [x]\<rparr>)"
    by (rule sample_saved [OF checks _ integration]) (simp_all add: run)
  have answers: "ag_fate sample_agent 7 = Reported" "ag_fate sample_agent 8 = Lost" "ag_clock sample_agent k = 120" "ag_others sample_agent k db = db" for k db
    by (simp_all add: sample_agent_def)
  define st2 where "st2 = st1\<lparr>rs_runs := rs_runs st1 @ [?run]\<rparr>"
  let ?w2 = "?w1\<lparr>w_tick := 8, w_db := work_sample_leased\<lparr>db_tool_runs := [x]\<rparr>\<rparr>"
  have stored: "record_run sample_agent sample_frame ?run (st1, ?w1) = (True, st2, ?w2)"
    using assms saved by (simp add: record_run_def store_call_def writing_def Let_def answers st2_def)
  have st2: "sample_state [?run] 1 st2" using st1 by (simp add: st2_def sample_state_def)
  then have told: "tell sample_agent sample_frame payload (st2, ?w2) = (st2, ?w2\<lparr>w_tick := 9\<rparr>)" for payload
    by (subst sample_told) (simp_all add: answers sample_state_def)
  have "perform_read sample_agent sample_frame sample_call [] (st, w)
      = (Inr (\<lparr>fb_CallID = ''c'', fb_ToolRun = ?run, fb_Semantic = False\<rparr>, [(callIdentityOf sample_selected, 1)]), st2, ?w2\<lparr>w_tick := 9\<rparr>)"
    unfolding perform_read_def sample_selected_def [symmetric] made using stored told by (simp add: Let_def)
  then show thesis
    by - (rule that [where result = "\<lparr>fb_CallID = ''c'', fb_ToolRun = ?run, fb_Semantic = False\<rparr>" and row = row and x = x
            and run = ?run and st' = st2], simp_all add: historyToolName_def st2 run)
qed

declare perform_calls.simps [simp del]

definition sample_finding :: Finding where
  "sample_finding = \<lparr>finding_Statement = ''no space left'', finding_Kind = ''cause'', finding_Mechanism = ''logs grow'',
     finding_RunRefs = [1], finding_EvidenceRefs = []\<rparr>"

definition sample_document :: conclusion_document where
  "sample_document = \<lparr>doc_Status = ''supported_explanation'', doc_Summary = ''the disk is full'',
     doc_Impact = Some (Some ''writes fail'', Some [1]), doc_Findings = [sample_finding], doc_Hypotheses = [], doc_Actions = [],
     doc_Limitations = []\<rparr>"

lemma sample_folded:
  "folded ''status'' = ''status''" "folded ''summary'' = ''summary''" "folded ''impact'' = ''impact''"
  "folded ''findings'' = ''findings''" "folded ''hypotheses'' = ''hypotheses''" "folded ''actions'' = ''actions''"
  "folded ''limitations'' = ''limitations''" "folded ''statement'' = ''statement''" "folded ''kind'' = ''kind''"
  "folded ''mechanism'' = ''mechanism''" "folded ''run_refs'' = ''run_refs''" "folded ''evidence_refs'' = ''evidence_refs''"
  by code_simp+

lemma sample_number: "ParseInt ''1'' = Some 1"
  by code_simp

lemma sample_document_decoded: "decode_document sample_uuid_lib sample_conclusion = Some sample_document"
  by (simp add: decode_document_def sample_conclusion_def sample_document_def decode_impact_def decode_finding_def
      sample_finding_def json_member_def known_members_def run_refs_def of_slice_def sample_folded sample_number)

lemma sample_trimmed: "TrimSpace ''the disk is full'' \<noteq> []" "TrimSpace ''writes fail'' \<noteq> []" "TrimSpace ''logs grow'' \<noteq> []"
  by code_simp+

lemma sample_concluded:
  assumes "run_Outcome run = RunSucceeded"
  shows "decodeConclusion sample_lib sample_uuid_lib (Whole sample_conclusion) [run] allowed = Inr (document_conclusion sample_document)"
proof -
  have "RuneCountInString ''the disk is full'' \<le> 4096"
    using RuneCount_le_length [of "''the disk is full''"] by simp
  then have "document_error sample_lib [run] allowed sample_document = None"
    using assms by (simp add: document_error_def first_of_None sample_document_def impact_error_def validateRunRefs_def
        sample_trimmed newConclusionStatuses_def finding_error_def sample_finding_def FindingKinds_def run_succeeded_def unless_def)
  moreover have "validateConclusionStatus (document_conclusion sample_document) = None"
    by (simp add: validateConclusionStatus_def document_conclusion_def sample_document_def sample_finding_def causalFinding_def)
  ultimately show ?thesis by (simp add: decodeConclusion_def sample_document_decoded)
qed

text \<open>The second answer concludes.\<close>

lemma sample_decides:
  assumes "sample_state [run] 1 (ex_state x)" "\<not> ex_forced x" "w_tick (ex_world x) = 9" "run_Outcome run = RunSucceeded"
  obtains x' prompt where "decide sample_agent sample_frame x = (Inr (MoveConclusion (document_conclusion sample_document)), x')"
    "ex_world x' = (ex_world x)\<lparr>w_tick := 10, w_prompts := w_prompts (ex_world x) @ [prompt]\<rparr>"
    "sample_state [run] 1 (ex_state x')"
proof -
  let ?answer = "sample_answer ''conclude'' sample_conclusion"
  obtain prompt where asked: "complete sample_agent prompt (ex_world x)
      = ((?answer, None), (ex_world x)\<lparr>w_tick := 10, w_prompts := w_prompts (ex_world x) @ [prompt]\<rparr>)"
    and prompt: "prompt = modelPrompt (ag_uuids sample_agent) (ag_texts sample_agent) (ag_config sample_agent)
      (rs_orientation (ex_state x)) (rs_transcript (ex_state x)) (allowed_evidence sample_agent (ex_state x) \<noteq> []) (ex_forced x) (ex_reason x)"
    using assms(3) by (auto simp: complete_def sample_agent_def)
  have stop: "comp_Stop ?answer = StopToolUse" "comp_Usage ?answer = sample_counts"
      "splitCalls [\<lparr>call_ID = ''c'', call_Name = ''conclude'', call_Arguments = Whole sample_conclusion\<rparr>]
         = Inr ([], [\<lparr>call_ID = ''c'', call_Name = ''conclude'', call_Arguments = Whole sample_conclusion\<rparr>])"
      "comp_ToolCalls ?answer = [\<lparr>call_ID = ''c'', call_Name = ''conclude'', call_Arguments = Whole sample_conclusion\<rparr>]"
    by (simp_all add: sample_answer_def splitCalls_def ConcludeToolName_def sample_text)
  have findings: "conclusion_Findings (document_conclusion sample_document) = [sample_finding]" "finding_EvidenceRefs sample_finding = []"
    by (simp_all add: document_conclusion_def sample_document_def sample_finding_def)
  have "\<exists>x'. attempt sample_agent sample_frame True x = (Ended (Inr (MoveConclusion (document_conclusion sample_document))), x')
      \<and> ex_world x' = (ex_world x)\<lparr>w_tick := 10, w_prompts := w_prompts (ex_world x) @ [prompt]\<rparr> \<and> sample_state [run] 1 (ex_state x')"
    unfolding Agent.attempt_def Let_def prompt [symmetric] asked using assms(1,2)
    by (simp add: stop judge_def weigh_def Let_def sample_state_def sample_usage sample_concluded [OF assms(4)] findings)
  then show thesis using that by (auto simp: decide_def)
qed

lemma sample_recorded:
  assumes "db_investigations db = db_investigations work_sample_leased" "db_events db = []"
  obtains db' x where "ConcludeInvestigation 120 120 3 7 9 c [] no_usage db = Inr db'" "x \<in> set (db_investigations db')"
    "inv_id x = 7" "inv_status x = StatusConcluded" "inv_conclusion x = Some c"
proof -
  let ?r = "leased 110 9 work_sample_claim work_sample_waiting"
  have rows: "db_investigations db = [?r]" using assms(1) by (simp add: work_sample_leased_def)
  have r: "inv_id ?r = 7" "inv_org ?r = 3" "inv_conversation ?r = None" "held 120 3 7 9 ?r"
    by (simp_all add: work_sample_defs held_def)
  let ?e = "ended 120 StatusConcluded (Some c) [] [] no_usage ?r"
  have "violated (investigation_checks ?e) = None"
    by (simp add: violated_None investigation_checks_def ended_def no_usage_def work_sample_waiting_def blank_investigation_def leased_def)
  then have upd: "checked_update investigation_checks (held 120 3 7 9) (ended 120 StatusConcluded (Some c) [] [] no_usage) (db_investigations db)
      = Inr [?e]" using r(4) by (simp add: rows checked_update_def)
  have "\<exists>db1. append_event 120 3 7 (payload_EventType (ConcludedPayload c)) (payload_fields (ConcludedPayload c)) (db\<lparr>db_investigations := [?e]\<rparr>)
      = Inr db1 \<and> db_investigations db1 = [?e]"
    by (simp add: append_event_def insert_event_def assms(2) ConcludedPayload_def)
  then show thesis
    using r upd by (auto simp: ConcludeInvestigation_def endInvestigation_def Let_def rows reply_in_conversation_def ended_def intro!: that)
qed

lemma sample_run:
  obtains w row x where "Agent_Run sample_agent 3 sample_claimed (fresh_world work_sample_leased []) = (None, w)"
    "w_reads w = [(sample_tool, tool_request sample_frame sample_source ''hunter2'' sample_selected)]" "length (w_prompts w) = 2"
    "w_trail w = [row]" "x \<in> set (db_investigations (w_db w))" "inv_id x = 7" "inv_status x = StatusConcluded"
    "inv_conclusion x = Some (document_conclusion sample_document)"
proof -
  have live: "ag_done sample_agent k = False" for k by (simp add: sample_agent_def)
  have start: "sample_state [] 0 sample_start" "cc_opened (rs_credentials sample_start) = []"
    by (simp_all add: sample_state_def sample_start_def run_start_def newStream_def)
  have world: "w_tick (sample_world 3) = 3" "w_db (sample_world 3) = work_sample_leased" "w_trail (sample_world 3) = []"
      "w_reads (sample_world 3) = []" "w_prompts (sample_world 3) = []"
    by (simp_all add: sample_world_def fresh_world_def)
  obtain x0 where x0: "opened_turn sample_agent sample_frame 1 [] (sample_start, sample_world 3) = x0" "\<not> ex_forced x0"
      "ex_world x0 = sample_world 3" "sample_state [] 0 (ex_state x0)" "rs_credentials (ex_state x0) = rs_credentials sample_start"
    by (rule sample_opened [OF start(1), where turn = 1 and results = "[]" and w = "sample_world 3"]) simp_all
  obtain x1 p where x1: "decide sample_agent sample_frame x0 = (Inr (MoveCalls [sample_call]), x1)" "\<not> ex_forced x1"
      "ex_world x1 = (ex_world x0)\<lparr>w_tick := w_tick (ex_world x0) + 1, w_prompts := w_prompts (ex_world x0) @ [p]\<rparr>"
      "sample_state [] 0 (ex_state x1)" "rs_credentials (ex_state x1) = rs_credentials (ex_state x0)"
    by (rule sample_asks [OF x0(4,2)]) (simp add: x0 world)
  have w1: "ex_world x1 = (sample_world 3)\<lparr>w_tick := 4, w_prompts := [p]\<rparr>" using x0 x1(3) world by simp
  obtain run row st2 t result where done2: "perform_calls sample_agent sample_frame [sample_call] [] (ex_state x1, ex_world x1)
      = (Inr [result], st2, (ex_world x1)\<lparr>w_tick := 9, w_trail := [row], w_db := work_sample_leased\<lparr>db_tool_runs := [t]\<rparr>,
          w_reads := w_reads (ex_world x1) @ [(sample_tool, tool_request sample_frame sample_source ''hunter2'' sample_selected)]\<rparr>)"
    and st2: "sample_state [run] 1 st2" and run: "run_Outcome run = RunSucceeded"
    by (rule sample_performed [OF x1(4), where w = "ex_world x1"]) (simp_all add: x0(5) x1(5) start(2) w1 world)
  let ?w2 = "(ex_world x1)\<lparr>w_tick := 9, w_trail := [row], w_db := work_sample_leased\<lparr>db_tool_runs := [t]\<rparr>,
          w_reads := w_reads (ex_world x1) @ [(sample_tool, tool_request sample_frame sample_source ''hunter2'' sample_selected)]\<rparr>"
  obtain x3 where x3: "opened_turn sample_agent sample_frame 2 [result] (st2, ?w2) = x3" "\<not> ex_forced x3"
      "ex_world x3 = ?w2" "sample_state [run] 1 (ex_state x3)"
    by (rule sample_opened [OF st2, where turn = 2 and results = "[result]" and w = ?w2]) simp_all
  obtain x4 q where x4: "decide sample_agent sample_frame x3 = (Inr (MoveConclusion (document_conclusion sample_document)), x4)"
      "ex_world x4 = (ex_world x3)\<lparr>w_tick := 10, w_prompts := w_prompts (ex_world x3) @ [q]\<rparr>" "sample_state [run] 1 (ex_state x4)"
    by (rule sample_decides [OF x3(4,2) _ run]) (simp add: x3)
  have w4: "w_tick (ex_world x4) = 10" "w_db (ex_world x4) = work_sample_leased\<lparr>db_tool_runs := [t]\<rparr>" "w_prompts (ex_world x4) = [p, q]"
      "w_trail (ex_world x4) = [row]" "w_reads (ex_world x4) = [(sample_tool, tool_request sample_frame sample_source ''hunter2'' sample_selected)]"
    using x3(3) x4(2) w1 world by simp_all
  obtain db' x where wrote: "ConcludeInvestigation 120 120 3 7 9 (document_conclusion sample_document) [] no_usage
      (work_sample_leased\<lparr>db_tool_runs := [t]\<rparr>) = Inr db'"
    and x: "x \<in> set (db_investigations db')" "inv_id x = 7" "inv_status x = StatusConcluded"
      "inv_conclusion x = Some (document_conclusion sample_document)"
    by (rule sample_recorded [of "work_sample_leased\<lparr>db_tool_runs := [t]\<rparr>"]) (simp_all add: work_sample_leased_def empty_work_def)
  have ended: "conclude_run sample_agent sample_frame (document_conclusion sample_document) (ex_state x4) (ex_world x4)
      = (None, (ex_world x4)\<lparr>w_tick := 11, w_db := db'\<rparr>)"
    using wrote x4(3) w4 by (simp add: conclude_run_def store_call_def writing_def Let_def sample_state_def sample_agent_def)
  have "run_loop sample_agent sample_frame 2 [result] (st2, ?w2) = (None, ex_state x4, (ex_world x4)\<lparr>w_tick := 11, w_db := db'\<rparr>)"
    by (subst run_loop.simps) (simp add: live x3(1) x4(1) ended)
  then have "run_loop sample_agent sample_frame 1 [] (sample_start, sample_world 3)
      = (None, ex_state x4, (ex_world x4)\<lparr>w_tick := 11, w_db := db'\<rparr>)"
    by (subst run_loop.simps) (simp add: live x0(1) x1(1,2) done2)
  then show thesis
    by (intro that [of "(ex_world x4)\<lparr>w_tick := 11, w_db := db'\<rparr>" row x]) (use w4 x in \<open>simp_all add: Agent_Run_def sample_begin\<close>)
qed

end
