(* ===== verification/AgentProperties.thy ===== *)
theory AgentProperties
  imports AgentSample
begin

text \<open>
  What the runs of the agent promise, stated over whole runs against tables that other workers
  change at the same time.
\<close>

text \<open>
  C8. Whatever a model asks for, the run that is prepared for its call takes the next number, its tool's
  name fits its column, and it satisfies every constraint of the table of tool runs (it has an outcome,
  states a reason exactly when it failed, is numbered within 16 bits, and its observation fits
  64 KiB) but in two cases, and in these it does not: 32767 runs were recorded before it, or its
  call executed a tool that failed with an error without text.
\<close>

theorem recorded_runs_fit_their_table:
  assumes "make_run env f (selected_call env f call) executedCalls s = (Inr (run, executed, executedCalls'), st', w')"
  shows "let stored = prepared_run env f call st' run in
    run_Ordinal stored = int (length (rs_runs (fst s))) + 1 \<and> RuneCountInString (run_Tool stored) \<le> 128
    \<and> (violated (tool_run_checks stored) = None \<and> in_int16 (run_Ordinal stored) \<longleftrightarrow>
         int (length (rs_runs (fst s))) < 32767
         \<and> \<not> (\<exists>tool request. w_reads w' = w_reads (snd s) @ [(tool, request)]
                \<and> tool_Run tool (w_tick w' - 1) request = Inl []))"
  using prepared_run_fits [OF assms, of call] unfolding failed_silently_def Let_def by blast

theorem recorded_runs_fit_their_table_witness:
  "\<exists>run st' w'. make_run sample_agent sample_frame (selected_call sample_agent sample_frame sample_call) [] (sample_start, sample_world 4)
     = (Inr (run, True, [(callIdentityOf sample_selected, 1)]), st', w')
   \<and> violated (tool_run_checks (prepared_run sample_agent sample_frame sample_call st' run)) = None"
proof -
  have "sample_state [] 0 sample_start" "cc_opened (rs_credentials sample_start) = []"
    by (simp_all add: sample_state_def sample_start_def run_start_def newStream_def)
  then obtain run row st1 where made: "make_run sample_agent sample_frame sample_selected [] (sample_start, sample_world 4)
      = (Inr (run, True, [(callIdentityOf sample_selected, 1)]), st1,
         (sample_world 4)\<lparr>w_tick := 7, w_trail := [row],
           w_reads := w_reads (sample_world 4) @ [(sample_tool, tool_request sample_frame sample_source ''hunter2'' sample_selected)]\<rparr>)"
    by (rule sample_made [where w = "sample_world 4"]) (simp_all add: sample_world_def fresh_world_def)
  have "int (length (rs_runs (fst (sample_start, sample_world 4)))) < 32767" by (simp add: sample_start_def run_start_def)
  moreover have "tool_Run sample_tool k request \<noteq> Inl []" for k request by (simp add: sample_tool_def)
  ultimately have "violated (tool_run_checks (prepared_run sample_agent sample_frame sample_call st1 run)) = None"
    using recorded_runs_fit_their_table [OF made [unfolded sample_selected_def]] by (simp add: Let_def)
  with made show ?thesis by (auto simp: sample_selected_def)
qed

section \<open>Conclusions rest on reads that happened\<close>

lemma evidence_missing_append [simp]:
  "evidence_missing organization (xs @ ys) db \<longleftrightarrow> evidence_missing organization xs db \<or> evidence_missing organization ys db"
  by (simp add: evidence_missing_def)

lemma evidence_stays: "\<not> evidence_missing organization refs db \<Longrightarrow> work_evolves db db' \<Longrightarrow> \<not> evidence_missing organization refs db'"
  by (fastforce simp: evidence_missing_def work_evolves_def list_ex_iff)

lemma run_evidence:
  assumes "recorded f runs db" "\<forall>n \<in> set refs. run_succeeded runs n"
  shows "\<not> evidence_missing (rf_org f)
    (map (\<lambda>ordinal. \<lparr>ref_InvestigationID = i_ID (rf_opened f), ref_ToolRunOrdinal = ordinal\<rparr>) refs) db"
proof -
  have "\<exists>x \<in> set (db_tool_runs db). tr_org x = rf_org f \<and> tr_investigation x = i_ID (rf_opened f)
      \<and> run_Ordinal (tr_run x) = n \<and> run_Outcome (tr_run x) = RunSucceeded" if "n \<in> set refs" for n
  proof -
    from that assms(2) have n: "1 \<le> n" "n \<le> int (length runs)" "run_Outcome (runs ! nat (n - 1)) = RunSucceeded"
      by (auto simp: run_succeeded_def)
    then have "nat (n - 1) < length runs" "int (nat (n - 1)) + 1 = n" by auto
    with assms(1) n(3) show ?thesis unfolding recorded_def by metis
  qed
  then show ?thesis by (auto simp: evidence_missing_def list_ex_iff)
qed

lemma findings_evidence:
  assumes "recorded f runs db" "\<forall>finding \<in> set findings. \<forall>n \<in> set (finding_RunRefs finding). run_succeeded runs n"
    and "\<not> evidence_missing (rf_org f) (concat (map finding_EvidenceRefs findings)) db"
  shows "\<not> evidence_missing (rf_org f) (finding_evidence (i_ID (rf_opened f)) findings) db"
  using assms(2,3)
proof (induction findings)
  case (Cons finding findings)
  then show ?case using run_evidence [OF assms(1)] by simp
qed (simp add: evidence_missing_def)

lemma find_only:
  assumes "x \<in> set xs" "P x" "\<forall>y \<in> set xs. P y \<longrightarrow> y = x"
  shows "List.find P xs = Some x"
proof (cases "List.find P xs")
  case None
  with assms(1,2) show ?thesis by (simp add: find_None_iff)
next
  case (Some z)
  then have "z \<in> set xs" "P z" by (auto simp: find_Some_iff)
  with assms(3) Some show ?thesis by simp
qed

text \<open>
  C3. When a run of the agent ends with its investigation concluded, every finding of the stored
  conclusion cites something, and everything it cites (the reads of this investigation and those
  of earlier ones) is a stored tool run of the organization that succeeded. It stays so however
  the tables move on: a reader gets the conclusion as it was written, never marked as missing
  evidence. The other workers may do anything but conclude this investigation under its own token.
\<close>

theorem agent_conclusions_are_grounded:
  assumes "companions maximum (i_ID opened) (i_ClaimToken opened) env" "work_reachable maximum db"
    and "our_row organization (i_ID opened) (i_ClaimToken opened) db" "organization \<noteq> uuid_Nil"
    and "Agent_Run env organization opened (fresh_world db trail) = (r, w)"
    and "x \<in> set (db_investigations (w_db w))" "inv_id x = i_ID opened" "inv_status x = StatusConcluded"
    and "(work_step maximum)\<^sup>*\<^sup>* (w_db w) later"
  shows "\<not> evidence_missing organization (resultEvidence (scanInvestigation x)) later
    \<and> ReadInvestigation organization (i_ID opened) later = Inr (scanInvestigation x)
    \<and> (\<forall>finding \<in> set (conclusion_Findings (i_Conclusion (scanInvestigation x))).
         finding_RunRefs finding \<noteq> [] \<or> finding_EvidenceRefs finding \<noteq> [])"
proof -
  obtain f st w1 written offered origin where f: "f = agent_frame env organization opened offered origin"
    and ok: "state_ok maximum env f (st, w1)" and moved: "(work_step maximum)\<^sup>*\<^sup>* (w_db w1) (w_db w)"
    and row: "outcome_row organization (i_ID opened) written (r = None) (w_db w)"
    and rests: "\<And>c. written = Some c \<Longrightarrow> grounded f c (rs_runs st) (w_db w1)"
    by (rule Agent_Run_outcome [OF assms(1,2,3,5)]) blast
  have "written \<noteq> None \<and> inv_conclusion x = written" "inv_org x = organization"
    using row assms(6-8) by (simp_all add: outcome_row_def)
  then obtain c where c: "written = Some c" "inv_conclusion x = Some c" "inv_org x = organization" by auto
  have conclusion: "i_Conclusion (scanInvestigation x) = c" "i_ID (scanInvestigation x) = i_ID opened"
    using c assms(7) by (simp_all add: scanInvestigation_def)
  from ok have reached: "work_reachable maximum (w_db w1)" and recorded: "recorded f (rs_runs st) (w_db w1)"
    by (simp_all add: run_ok_def)
  note inv1 = reachable_inv [OF reached] and invw = reachable_inv [OF reachable_steps [OF reached moved]]
  from rests [OF c(1)] have "\<not> evidence_missing organization (finding_evidence (i_ID opened) (conclusion_Findings c)) (w_db w1)"
    using findings_evidence [OF recorded] f by (simp add: grounded_def)
  then have "\<not> evidence_missing organization (resultEvidence (scanInvestigation x)) (w_db w1)"
    by (simp add: resultEvidence_def conclusion)
  from evidence_stays [OF this conjunct2 [OF work_run_keeps [OF rtranclp_trans [OF moved assms(9)] inv1]]]
  have cited: "\<not> evidence_missing organization (resultEvidence (scanInvestigation x)) later" .
  have there: "x \<in> set (db_investigations later)"
    using run_ended_stream(1) [OF assms(9) invw assms(6)] assms(8) by simp
  have "work_inv maximum later" using work_run_keeps [OF assms(9) invw] by simp
  then have "List.find (\<lambda>r. inv_id r = i_ID opened \<and> inv_org r = organization) (db_investigations later) = Some x"
    using assms(7) c(3) by (intro find_only [OF there]) (auto intro: same_row [OF _ _ there])
  then have "ReadInvestigation organization (i_ID opened) later = Inr (scanInvestigation x)"
    using assms(4) cited by (simp add: ReadInvestigation_def)
  with cited rests [OF c(1)] show ?thesis by (simp add: conclusion grounded_def)
qed

lemma sample_assumptions:
  "companions 5 (i_ID sample_claimed) (i_ClaimToken sample_claimed) sample_agent"
  "our_row 3 (i_ID sample_claimed) (i_ClaimToken sample_claimed) work_sample_leased"
proof -
  show "companions 5 (i_ID sample_claimed) (i_ClaimToken sample_claimed) sample_agent"
    using same_row [OF reachable_inv] by (fastforce simp: companions_def sample_agent_def)
  show "our_row 3 (i_ID sample_claimed) (i_ClaimToken sample_claimed) work_sample_leased"
    by (simp add: our_row_def work_sample_defs)
qed

theorem agent_conclusions_are_grounded_witness:
  "\<exists>w x. Agent_Run sample_agent 3 sample_claimed (fresh_world work_sample_leased []) = (None, w)
     \<and> x \<in> set (db_investigations (w_db w)) \<and> resultEvidence (scanInvestigation x) = [\<lparr>ref_InvestigationID = 7, ref_ToolRunOrdinal = 1\<rparr>]
     \<and> \<not> evidence_missing 3 (resultEvidence (scanInvestigation x)) (w_db w)"
proof -
  obtain w row x where run: "Agent_Run sample_agent 3 sample_claimed (fresh_world work_sample_leased []) = (None, w)"
    and x: "x \<in> set (db_investigations (w_db w))" "inv_id x = 7" "inv_status x = StatusConcluded"
      "inv_conclusion x = Some (document_conclusion sample_document)"
    by (rule sample_run)
  have "resultEvidence (scanInvestigation x) = [\<lparr>ref_InvestigationID = 7, ref_ToolRunOrdinal = 1\<rparr>]"
    using x by (simp add: resultEvidence_def scanInvestigation_def document_conclusion_def sample_document_def sample_finding_def)
  moreover have "inv_id x = i_ID sample_claimed" "(3 :: uuid) \<noteq> uuid_Nil" using x(2) by simp_all
  ultimately show ?thesis
    using agent_conclusions_are_grounded [OF sample_assumptions(1) work_sample_leased_reachable sample_assumptions(2) _ run x(1) _ x(3)
        rtranclp.rtrancl_refl] run x(1) by auto
qed

section \<open>What a run may read\<close>

text \<open>The tools of a source a turn is offered are granted, and stay inside the thread it answers.\<close>

lemma offered_sources:
  assumes "source \<in> set (offeredSources catalog candidates)" "tool \<in> set (src_Tools source)"
  shows "src_Integration source \<in> set candidates"
    "\<exists>d. Lookup catalog (integ_Provider (src_Integration source)) = Some d \<and> tool \<in> set (SupportedTools d (src_Integration source))"
  using assms by (auto simp: offeredSources_def offered_source_def Let_def split: option.splits if_splits) (metis option.inject)

lemma thread_scoped_tools:
  assumes "source \<in> set (thread_scoped provider s)" "tool \<in> set (src_Tools source)"
  shows "src_Integration source = src_Integration s" "tool \<in> set (src_Tools s)"
    "integ_Provider (src_Integration s) = provider \<Longrightarrow> tool_SupportsThreadScope tool"
  using assms by (auto simp: thread_scoped_def Let_def split: if_splits)

definition stays_in_thread :: "ConversationOrigin \<Rightarrow> Integration list \<Rightarrow> Integration \<Rightarrow> Tool \<Rightarrow> bool" where
  "stays_in_thread g candidates i tool \<longleftrightarrow>
     (\<exists>own \<in> set candidates. integ_ID own = origin_IntegrationID g
        \<and> (integ_Provider i = integ_Provider own \<longrightarrow> integ_ID i = origin_IntegrationID g \<and> tool_SupportsThreadScope tool))"

lemma conversation_sources:
  assumes "source \<in> set (offeredSourcesForConversation catalog candidates origin)" "tool \<in> set (src_Tools source)"
  shows "src_Integration source \<in> set candidates"
    "\<exists>d. Lookup catalog (integ_Provider (src_Integration source)) = Some d \<and> tool \<in> set (SupportedTools d (src_Integration source))"
    "origin = Some g \<Longrightarrow> stays_in_thread g candidates (src_Integration source) tool"
proof -
  have all: "src_Integration source \<in> set candidates
      \<and> (\<exists>d. Lookup catalog (integ_Provider (src_Integration source)) = Some d \<and> tool \<in> set (SupportedTools d (src_Integration source)))
      \<and> (\<forall>g. origin = Some g \<longrightarrow> stays_in_thread g candidates (src_Integration source) tool)"
  proof (cases origin)
    case None
    with assms offered_sources show ?thesis by (simp add: offeredSourcesForConversation_def)
  next
    case (Some g)
    obtain own where own: "List.find (\<lambda>c. integ_ID c = origin_IntegrationID g) candidates = Some own"
      using assms Some by (cases "List.find (\<lambda>c. integ_ID c = origin_IntegrationID g) candidates")
        (auto simp: offeredSourcesForConversation_def split: if_splits)
    then have own_in: "own \<in> set candidates" "integ_ID own = origin_IntegrationID g" by (auto simp: find_Some_iff)
    let ?allowed = "filter (\<lambda>c. integ_Provider c \<noteq> integ_Provider own \<or> integ_ID c = origin_IntegrationID g) candidates"
    obtain s where s: "s \<in> set (offeredSources catalog ?allowed)" "source \<in> set (thread_scoped (integ_Provider own) s)"
      using assms Some own by (auto simp: offeredSourcesForConversation_def Let_def split: if_splits)
    note scoped = thread_scoped_tools [OF s(2) assms(2)]
    note offered = offered_sources [OF s(1) scoped(2)]
    have "stays_in_thread g candidates (src_Integration source) tool"
      unfolding stays_in_thread_def using own_in offered(1) scoped by (intro bexI [of _ own]) auto
    with offered scoped(1) Some show ?thesis by auto
  qed
  then show "src_Integration source \<in> set candidates"
    "\<exists>d. Lookup catalog (integ_Provider (src_Integration source)) = Some d \<and> tool \<in> set (SupportedTools d (src_Integration source))"
    "origin = Some g \<Longrightarrow> stays_in_thread g candidates (src_Integration source) tool" by blast+
qed

text \<open>
  C4. Every tool a run executes belongs to a connected integration it was offered, one that is
  enabled, verified and granted everything the tool requires, and is asked about this investigation
  and its window. A turn that answers a provider's thread uses no other integration of that
  provider, and its own only with tools that support being confined to a thread; each request to
  this integration names the channel and the thread the turn answers, and no other request names
  any. No tool is handed a credential before the audit trail says that it was opened, for which
  integration and for which investigation. This holds against every model and every tool.
\<close>

theorem agent_reads_only_what_it_may:
  assumes "companions maximum (i_ID opened) (i_ClaimToken opened) env" "work_reachable maximum db"
    and "our_row organization (i_ID opened) (i_ClaimToken opened) db"
    and "Agent_Run env organization opened (fresh_world db trail) = (r, w)" "(tool, request) \<in> set (w_reads w)"
  shows "\<exists>k candidates i d. ag_candidates env k = Inr candidates \<and> i \<in> set candidates \<and> req_Integration request = i
    \<and> Lookup (ag_catalog env) (integ_Provider i) = Some d \<and> tool \<in> set (def_Tools d)
    \<and> \<not> integ_Disabled i \<and> integ_Status i = ''verified'' \<and> set (tool_RequiredGrants tool) \<subseteq> set (integ_VerificationGrants i)
    \<and> req_InvestigationID request = i_ID opened
    \<and> req_WindowFrom request = i_WindowFrom opened \<and> req_WindowUntil request = i_WindowUntil opened
    \<and> (\<exists>origin. (if i_ConversationID opened = uuid_Nil then origin = None else \<exists>k. ag_origin env k = Inr origin)
         \<and> (case origin of
              None \<Rightarrow> req_OriginChannel request = [] \<and> req_OriginThread request = []
            | Some g \<Rightarrow> stays_in_thread g candidates i tool
                \<and> (if integ_ID i = origin_IntegrationID g
                   then req_OriginChannel request = origin_Channel g \<and> req_OriginThread request = origin_Thread g
                   else req_OriginChannel request = [] \<and> req_OriginThread request = [])))
    \<and> (req_Credential request \<noteq> [] \<longrightarrow>
         (\<exists>clock eventID before row. row \<in> set (w_trail w)
            \<and> RecordEvent (ag_lower env) clock eventID organization
                (unseal_event env organization (i_ID opened) (integ_ID i)) before = Inr (before @ [row])))"
proof -
  obtain f st w1 offered origin where f: "f = agent_frame env organization opened offered origin"
    and scope: "rf_offered f = [] \<or> scoped env f" and ok: "state_ok maximum env f (st, w1)"
    and traces: "w_reads w = w_reads w1" "w_trail w = w_trail w1"
    by (rule Agent_Run_outcome [OF assms(1-4)]) blast
  from ok assms(5) traces have "proper_read env f (w_trail w) (tool, request)" by (auto simp: run_ok_def)
  then obtain source credential call where source: "source \<in> set (rf_offered f)" "tool \<in> set (src_Tools source)"
      "request = tool_request f (src_Integration source) credential call"
      "credential \<noteq> [] \<longrightarrow> unseal_audited env f (integ_ID (src_Integration source)) (w_trail w)"
    unfolding proper_read_def by blast
  let ?i = "src_Integration source"
  have request: "req_Integration request = ?i" "req_Credential request = credential" "req_InvestigationID request = i_ID opened"
      "req_WindowFrom request = i_WindowFrom opened" "req_WindowUntil request = i_WindowUntil opened"
    using source(3) f by (simp_all add: tool_request_def Let_def)
  from scope source(1) obtain k candidates where k: "ag_candidates env k = Inr candidates"
      "rf_offered f = offeredSourcesForConversation (ag_catalog env) candidates (rf_origin f)"
      "if i_ConversationID opened = uuid_Nil then rf_origin f = None else \<exists>k. ag_origin env k = Inr (rf_origin f)"
    using f by (auto simp: scoped_def)
  note may = conversation_sources [OF source(1) [unfolded k(2)] source(2)]
  obtain d where d: "Lookup (ag_catalog env) (integ_Provider ?i) = Some d" "tool \<in> set (SupportedTools d ?i)" using may(2) by blast
  have "case rf_origin f of
      None \<Rightarrow> req_OriginChannel request = [] \<and> req_OriginThread request = []
    | Some g \<Rightarrow> stays_in_thread g candidates ?i tool
        \<and> (if integ_ID ?i = origin_IntegrationID g
           then req_OriginChannel request = origin_Channel g \<and> req_OriginThread request = origin_Thread g
           else req_OriginChannel request = [] \<and> req_OriginThread request = [])"
    using may(3) source(3) by (simp add: tool_request_def Let_def split: option.split)
  with k(3) have "\<exists>origin. (if i_ConversationID opened = uuid_Nil then origin = None else \<exists>k. ag_origin env k = Inr origin)
      \<and> (case origin of
           None \<Rightarrow> req_OriginChannel request = [] \<and> req_OriginThread request = []
         | Some g \<Rightarrow> stays_in_thread g candidates ?i tool
             \<and> (if integ_ID ?i = origin_IntegrationID g
                then req_OriginChannel request = origin_Channel g \<and> req_OriginThread request = origin_Thread g
                else req_OriginChannel request = [] \<and> req_OriginThread request = []))"
    by (intro exI [of _ "rf_origin f"] conjI)
  moreover have "credential \<noteq> [] \<longrightarrow> (\<exists>clock eventID before row. row \<in> set (w_trail w)
      \<and> RecordEvent (ag_lower env) clock eventID organization (unseal_event env organization (i_ID opened) (integ_ID ?i)) before
          = Inr (before @ [row]))"
    using source(4) f unfolding unseal_audited_def by auto
  ultimately show ?thesis
    using k(1) may(1) d request SupportedTools_granted [OF d(2)] by (intro exI [of _ k] exI [of _ candidates] exI [of _ ?i] exI [of _ d]) simp
qed

theorem agent_reads_only_what_it_may_witness:
  "\<exists>w row. Agent_Run sample_agent 3 sample_claimed (fresh_world work_sample_leased []) = (None, w)
     \<and> w_reads w = [(sample_tool, tool_request sample_frame sample_source ''hunter2'' sample_selected)] \<and> w_trail w = [row]
     \<and> (\<exists>clock eventID. RecordEvent (ag_lower sample_agent) clock eventID 3 (unseal_event sample_agent 3 7 6) [] = Inr [row])"
proof -
  obtain w row where run: "Agent_Run sample_agent 3 sample_claimed (fresh_world work_sample_leased []) = (None, w)"
    and reads: "w_reads w = [(sample_tool, tool_request sample_frame sample_source ''hunter2'' sample_selected)]"
    and trail: "w_trail w = [row]"
    by (rule sample_run)
  have request: "req_Integration (tool_request sample_frame sample_source ''hunter2'' sample_selected) = sample_source"
      "req_Credential (tool_request sample_frame sample_source ''hunter2'' sample_selected) = ''hunter2''" "integ_ID sample_source = 6"
    by (simp_all add: tool_request_def Let_def sample_source_def)
  from agent_reads_only_what_it_may [OF sample_assumptions(1) work_sample_leased_reachable sample_assumptions(2) run, of sample_tool
      "tool_request sample_frame sample_source ''hunter2'' sample_selected"]
  obtain clock eventID before where event: "RecordEvent (ag_lower sample_agent) clock eventID 3 (unseal_event sample_agent 3 7 6) before
      = Inr (before @ [row])" by (auto simp: reads trail request)
  then have "RecordEvent (ag_lower sample_agent) clock eventID 3 (unseal_event sample_agent 3 7 6) [] = Inr [row]"
    by (auto simp: RecordEvent_def writeEvent_def Let_def split: if_splits)
  with run reads trail show ?thesis by blast
qed

section \<open>A run ends\<close>

text \<open>
  C5. A run is bounded whatever the model and the tools answer and whatever becomes of its
  transactions: it sends at most two prompts for each turn and two more to conclude, and executes
  at most as many tools as its budget of reads.
\<close>

theorem agent_run_is_bounded:
  "length (w_prompts (snd (Agent_Run env organization opened (fresh_world db trail))))
     \<le> 2 * nat (if ag_MaxTurns env \<le> 0 then 20 else ag_MaxTurns env) + 2
   \<and> int (length (w_reads (snd (Agent_Run env organization opened (fresh_world db trail)))))
     \<le> (if ag_MaxToolRuns env \<le> 0 then 30 else ag_MaxToolRuns env)"
proof (cases "Agent_Run env organization opened (fresh_world db trail)")
  case (Pair r w)
  with Agent_Run_limits [OF Pair] show ?thesis by (simp add: agent_frame_def)
qed

text \<open>
  C6. A run that reports success has ended its investigation: the row is no longer running, and
  neither the row nor its stream of events nor its tool runs change afterwards.
\<close>

theorem agent_success_ends_the_investigation:
  assumes "companions maximum (i_ID opened) (i_ClaimToken opened) env" "work_reachable maximum db"
    and "our_row organization (i_ID opened) (i_ClaimToken opened) db"
    and "Agent_Run env organization opened (fresh_world db trail) = (None, w)"
    and "(work_step maximum)\<^sup>*\<^sup>* (w_db w) later"
  shows "\<exists>x \<in> set (db_investigations later). x \<in> set (db_investigations (w_db w))
    \<and> inv_id x = i_ID opened \<and> inv_org x = organization \<and> inv_status x \<noteq> StatusRunning
    \<and> events_of (i_ID opened) (db_events later) = events_of (i_ID opened) (db_events (w_db w))
    \<and> runs_of (i_ID opened) (db_tool_runs later) = runs_of (i_ID opened) (db_tool_runs (w_db w))"
proof -
  obtain f st w1 written where ok: "state_ok maximum env f (st, w1)" and to: "(work_step maximum)\<^sup>*\<^sup>* db (w_db w1)"
    and moved: "(work_step maximum)\<^sup>*\<^sup>* (w_db w1) (w_db w)" and row: "outcome_row organization (i_ID opened) written True (w_db w)"
    by (rule Agent_Run_outcome [OF assms(1-4)]) simp
  note steps = rtranclp_trans [OF to moved] and inv = reachable_inv [OF assms(2)]
  note kept = work_run_keeps [OF steps inv]
  from assms(3) obtain y where y: "y \<in> set (db_investigations db)" "inv_id y = i_ID opened" unfolding our_row_def by blast
  with kept obtain x where x: "x \<in> set (db_investigations (w_db w))" "inv_evolves y x" unfolding work_evolves_def by blast
  then have named: "inv_id x = i_ID opened" using y(2) by (simp add: inv_evolves_def keeps_fixed_def)
  with row x(1) have out: "inv_org x = organization" "inv_status x \<noteq> StatusRunning" by (simp_all add: outcome_row_def)
  from run_ended_stream [OF assms(5) conjunct1 [OF kept] x(1) out(2)] named out x(1) show ?thesis by auto
qed

theorem agent_success_ends_the_investigation_witness:
  "\<exists>w x. Agent_Run sample_agent 3 sample_claimed (fresh_world work_sample_leased []) = (None, w)
     \<and> x \<in> set (db_investigations (w_db w)) \<and> inv_id x = 7 \<and> inv_org x = 3 \<and> inv_status x \<noteq> StatusRunning"
proof -
  obtain w where run: "Agent_Run sample_agent 3 sample_claimed (fresh_world work_sample_leased []) = (None, w)"
    by (rule sample_run)
  from agent_success_ends_the_investigation [OF sample_assumptions(1) work_sample_leased_reachable sample_assumptions(2) run
      rtranclp.rtrancl_refl] run show ?thesis by auto
qed

section \<open>Which documents conclude\<close>

text \<open>What is asked of a conclusion, said once and without an order.\<close>

definition acceptable :: "ToolRun list \<Rightarrow> EvidenceRef list \<Rightarrow> Conclusion \<Rightarrow> bool" where
  "acceptable runs allowed c \<longleftrightarrow>
     (let cited = {1..int (length runs)}; kinds = finding_Kind ` set (conclusion_Findings c) in
      TrimSpace (conclusion_Summary c) \<noteq> [] \<and> RuneCountInString (conclusion_Summary c) \<le> MaxSummaryLength
      \<and> conclusion_Status c \<in> {''supported_explanation'', ''inconclusive'', ''answer_only''}
      \<and> set (impact_RunRefs (conclusion_Impact c)) \<subseteq> cited
      \<and> (TrimSpace (impact_Summary (conclusion_Impact c)) \<noteq> []
         \<or> conclusion_Status c = ''answer_only'' \<and> impact_RunRefs (conclusion_Impact c) = [])
      \<and> (\<forall>g \<in> set (conclusion_Findings c).
           finding_Statement g \<noteq> [] \<and> length (finding_Statement g) \<le> maxStatementLength
           \<and> finding_Kind g \<in> set FindingKinds \<and> (finding_RunRefs g \<noteq> [] \<or> finding_EvidenceRefs g \<noteq> [])
           \<and> (\<forall>n \<in> set (finding_RunRefs g). n \<in> cited \<and> run_Outcome (runs ! nat (n - 1)) = RunSucceeded)
           \<and> distinct (finding_EvidenceRefs g)
           \<and> (\<forall>e \<in> set (finding_EvidenceRefs g). e \<in> set allowed \<and> ref_InvestigationID e \<noteq> uuid_Nil \<and> 0 < ref_ToolRunOrdinal e)
           \<and> (finding_Kind g \<in> {''cause'', ''contributing_factor''} \<longrightarrow> TrimSpace (finding_Mechanism g) \<noteq> []))
      \<and> (\<forall>h \<in> set (conclusion_Hypotheses c). hypothesis_Statement h \<noteq> [] \<and> hypothesis_Test h \<noteq> []
           \<and> hypothesis_Status h \<in> set HypothesisStatuses \<and> set (hypothesis_RunRefs h) \<subseteq> cited)
      \<and> length (conclusion_Actions c) \<le> MaxConclusionActions
      \<and> (\<forall>a \<in> set (conclusion_Actions c).
           (\<forall>t \<in> {action_Title a, action_Rationale a, action_Verification a}. t \<noteq> [] \<and> length t \<le> MaxActionTextLength)
           \<and> action_RunRefs a \<noteq> [] \<and> set (action_RunRefs a) \<subseteq> cited)
      \<and> (\<forall>l \<in> set (conclusion_Limitations c). limitation_Statement l \<noteq> [] \<and> limitation_Type l \<in> set LimitationTypes
           \<and> set (limitation_RunRefs l) \<subseteq> cited)
      \<and> (conclusion_Status c = ''supported_explanation'' \<longrightarrow> kinds \<inter> {''cause'', ''contributing_factor''} \<noteq> {})
      \<and> (conclusion_Status c = ''inconclusive'' \<longrightarrow> ''cause'' \<notin> kinds)
      \<and> (conclusion_Status c = ''answer_only'' \<longrightarrow> kinds \<subseteq> {''observation'', ''ruled_out''}))"

lemma validateRunRefs_None: "validateRunRefs refs n owner = None \<longleftrightarrow> set refs \<subseteq> {1..int n}"
  by (auto simp: validateRunRefs_def first_error_None)

lemma evidence_error_None:
  "evidence_error allowed seen refs = None \<longleftrightarrow> distinct refs \<and> set refs \<inter> set seen = {}
     \<and> (\<forall>e \<in> set refs. e \<in> set allowed \<and> ref_InvestigationID e \<noteq> uuid_Nil \<and> 0 < ref_ToolRunOrdinal e)"
  by (induction refs arbitrary: seen) auto

lemma finding_error_None:
  "finding_error lib runs allowed g = None \<longleftrightarrow>
     finding_Statement g \<noteq> [] \<and> length (finding_Statement g) \<le> maxStatementLength
     \<and> finding_Kind g \<in> set FindingKinds \<and> (finding_RunRefs g \<noteq> [] \<or> finding_EvidenceRefs g \<noteq> [])
     \<and> (\<forall>n \<in> set (finding_RunRefs g). n \<in> {1..int (length runs)} \<and> run_Outcome (runs ! nat (n - 1)) = RunSucceeded)
     \<and> distinct (finding_EvidenceRefs g)
     \<and> (\<forall>e \<in> set (finding_EvidenceRefs g). e \<in> set allowed \<and> ref_InvestigationID e \<noteq> uuid_Nil \<and> 0 < ref_ToolRunOrdinal e)
     \<and> (finding_Kind g \<in> {''cause'', ''contributing_factor''} \<longrightarrow> TrimSpace (finding_Mechanism g) \<noteq> [])"
  by (auto simp: finding_error_def first_of_None first_error_None validateRunRefs_None evidence_error_None run_succeeded_def causalFinding_def)

lemma action_error_None:
  "action_error lib n a = None \<longleftrightarrow>
     (\<forall>t \<in> {action_Title a, action_Rationale a, action_Verification a}. t \<noteq> [] \<and> length t \<le> MaxActionTextLength)
     \<and> action_RunRefs a \<noteq> [] \<and> set (action_RunRefs a) \<subseteq> {1..int n}"
  by (auto simp: action_error_def first_of_None validateRunRefs_None)

lemma hypothesis_error_None:
  "hypothesis_error n h = None \<longleftrightarrow> hypothesis_Statement h \<noteq> [] \<and> hypothesis_Test h \<noteq> []
     \<and> hypothesis_Status h \<in> set HypothesisStatuses \<and> set (hypothesis_RunRefs h) \<subseteq> {1..int n}"
  by (auto simp: hypothesis_error_def first_of_None validateRunRefs_None)

lemma limitation_error_None:
  "limitation_error n l = None \<longleftrightarrow> limitation_Statement l \<noteq> [] \<and> limitation_Type l \<in> set LimitationTypes
     \<and> set (limitation_RunRefs l) \<subseteq> {1..int n}"
  by (auto simp: limitation_error_def first_of_None validateRunRefs_None)

lemma impact_error_None:
  "impact_error n status impact = None \<longleftrightarrow>
     (\<exists>summary refs. impact = Some (Some summary, Some refs) \<and> set refs \<subseteq> {1..int n}
        \<and> (TrimSpace summary \<noteq> [] \<or> status = ''answer_only'' \<and> refs = []))"
  by (auto simp: impact_error_def first_of_None validateRunRefs_None split: option.splits)

lemma validateConclusionStatus_None:
  "validateConclusionStatus c = None \<longleftrightarrow>
     (let kinds = finding_Kind ` set (conclusion_Findings c) in
      (conclusion_Status c = ''supported_explanation'' \<longrightarrow> kinds \<inter> {''cause'', ''contributing_factor''} \<noteq> {})
      \<and> (conclusion_Status c = ''inconclusive'' \<longrightarrow> ''cause'' \<notin> kinds)
      \<and> (conclusion_Status c = ''answer_only'' \<longrightarrow> kinds \<subseteq> {''observation'', ''ruled_out''}))"
proof -
  have causal: "list_ex causalFinding (map finding_Kind gs) \<longleftrightarrow> finding_Kind ` set gs \<inter> {''cause'', ''contributing_factor''} \<noteq> {}" for gs
    by (induction gs) (auto simp: causalFinding_def)
  have plain: "list_all (\<lambda>kind. kind = ''observation'' \<or> kind = ''ruled_out'') (map finding_Kind gs)
      \<longleftrightarrow> finding_Kind ` set gs \<subseteq> {''observation'', ''ruled_out''}" for gs
    by (induction gs) auto
  show ?thesis unfolding validateConclusionStatus_def Let_def causal plain by simp
qed

lemma document_error_None:
  "document_error lib runs allowed d = None \<and> validateConclusionStatus (document_conclusion d) = None \<longleftrightarrow>
     (\<exists>summary refs. doc_Impact d = Some (Some summary, Some refs)) \<and> acceptable runs allowed (document_conclusion d)"
proof (cases "\<exists>summary refs. doc_Impact d = Some (Some summary, Some refs)")
  case True
  then obtain summary refs where impact: "doc_Impact d = Some (Some summary, Some refs)" by blast
  have "document_error lib runs allowed d = None \<longleftrightarrow>
      TrimSpace (doc_Summary d) \<noteq> [] \<and> RuneCountInString (doc_Summary d) \<le> MaxSummaryLength
      \<and> doc_Status d \<in> set newConclusionStatuses \<and> impact_error (length runs) (doc_Status d) (doc_Impact d) = None
      \<and> (\<forall>g \<in> set (doc_Findings d). finding_error lib runs allowed g = None)
      \<and> (\<forall>h \<in> set (doc_Hypotheses d). hypothesis_error (length runs) h = None)
      \<and> length (doc_Actions d) \<le> MaxConclusionActions
      \<and> (\<forall>a \<in> set (doc_Actions d). action_error lib (length runs) a = None)
      \<and> (\<forall>l \<in> set (doc_Limitations d). limitation_error (length runs) l = None)"
    by (simp add: document_error_def first_of_None first_error_None)
  then show ?thesis
    unfolding acceptable_def Let_def validateConclusionStatus_None finding_error_None hypothesis_error_None action_error_None
      limitation_error_None impact_error_None
    by (simp only: document_conclusion_def impact Conclusion.simps Impact.simps option.simps prod.simps of_slice_def
        newConclusionStatuses_def list.set insert_iff empty_iff simp_thms conj_assoc ex_simps)
next
  case False
  then have "impact_error (length runs) (doc_Status d) (doc_Impact d) \<noteq> None" by (auto simp: impact_error_None)
  with False show ?thesis by (auto simp: document_error_def first_of_None)
qed

text \<open>
  C7. Which documents conclude an investigation, exactly: a single JSON value that decodes into
  the declared document, names its impact with a summary and runs, and is acceptable (in its
  vocabulary and bounds, with evidence for every finding and every cited run among those that
  ran). Such a document is taken as it stands, and every other one is refused with a complaint.
\<close>

theorem decodeConclusion_is_exact:
  "decodeConclusion lib uuids document runs allowed = Inr c \<longleftrightarrow>
     (\<exists>v d summary refs. document = Whole v \<and> decode_document uuids v = Some d
        \<and> doc_Impact d = Some (Some summary, Some refs) \<and> c = document_conclusion d \<and> acceptable runs allowed c)"
proof -
  have "decodeConclusion lib uuids document runs allowed = Inr c \<longleftrightarrow>
      (\<exists>v d. document = Whole v \<and> decode_document uuids v = Some d \<and> c = document_conclusion d
        \<and> document_error lib runs allowed d = None \<and> validateConclusionStatus (document_conclusion d) = None)"
    by (auto simp: decodeConclusion_def Let_def split: raw_message.splits option.splits)
  then show ?thesis using document_error_None by blast
qed

end
