(* ===== verification/Passwords.thy ===== *)
theory Passwords
  imports Cursors
begin

text \<open>
  Local passwords (\<^verbatim>\<open>internal/auth/identity/local.go\<close>): how a password becomes the text the
  database keeps, and how a presented password is checked against it. The Argon2 function is an
  argument; all that is used of it is the length of its key.
\<close>

section \<open>Standard base64 without padding\<close>

text \<open>\<^verbatim>\<open>base64.RawStdEncoding\<close> differs from the URL alphabet in its last two letters.\<close>

definition std_letter :: "char \<Rightarrow> char" where
  "std_letter c = (if c = CHR ''-'' then CHR ''+'' else if c = CHR ''_'' then CHR ''/'' else c)"

definition url_letter :: "char \<Rightarrow> char" where
  "url_letter c = (if c = CHR ''+'' then CHR ''-'' else if c = CHR ''/'' then CHR ''_'' else c)"

definition RawStd_EncodeToString :: "string \<Rightarrow> string" where
  "RawStd_EncodeToString s = map std_letter (EncodeToString s)"

definition RawStd_DecodeString :: "string \<Rightarrow> string option" where
  "RawStd_DecodeString s =
     (if CHR ''-'' \<in> set s \<or> CHR ''_'' \<in> set s then None else DecodeString (map url_letter s))"

lemma dec6_others: "dec6 CHR ''+'' = None" "dec6 CHR ''/'' = None" "dec6 CHR ''$'' = None"
  by (simp_all add: dec6_def)

lemma EncodeToString_letters:
  assumes "c \<in> set (EncodeToString s)"
  shows "c \<noteq> CHR ''+''" "c \<noteq> CHR ''/''" "c \<noteq> CHR ''$''"
proof -
  have "\<forall>b \<in> set (map of_char s). (b :: nat) < 256" by auto
  from sextets_bound [OF this] assms obtain n where "n < 64" "c = enc6 n" by (auto simp: EncodeToString_def)
  then have "dec6 c = Some n" by (simp add: dec6_enc6)
  then show "c \<noteq> CHR ''+''" "c \<noteq> CHR ''/''" "c \<noteq> CHR ''$''" using dec6_others by (metis option.distinct(1))+
qed

lemma RawStd_round_trip [simp]: "RawStd_DecodeString (RawStd_EncodeToString s) = Some s"
proof -
  have "map url_letter (RawStd_EncodeToString s) = EncodeToString s"
    unfolding RawStd_EncodeToString_def map_map
    by (rule map_idI) (auto simp: std_letter_def url_letter_def dest: EncodeToString_letters)
  moreover have "CHR ''-'' \<notin> set (RawStd_EncodeToString s)" "CHR ''_'' \<notin> set (RawStd_EncodeToString s)"
    by (auto simp: RawStd_EncodeToString_def std_letter_def dest: EncodeToString_letters split: if_splits)
  ultimately show ?thesis by (simp add: RawStd_DecodeString_def)
qed

lemma RawStd_no_dollar: "CHR ''$'' \<notin> set (RawStd_EncodeToString s)"
  by (auto simp: RawStd_EncodeToString_def std_letter_def dest: EncodeToString_letters split: if_splits)

section \<open>Splitting and unsigned integers\<close>

text \<open>\<^verbatim>\<open>strings.Split\<close> by a separator of one byte, and \<^verbatim>\<open>strconv.ParseUint(s, 10, 32)\<close>.\<close>

fun Split :: "char \<Rightarrow> string \<Rightarrow> string list" where
  "Split sep [] = [[]]"
| "Split sep (c # s) =
     (if c = sep then [] # Split sep s
      else (case Split sep s of part # parts \<Rightarrow> (c # part) # parts | [] \<Rightarrow> [[c]]))"

definition ParseUint32 :: "string \<Rightarrow> nat option" where
  "ParseUint32 s =
     (if s = [] then None
      else (case digits_value 0 s of None \<Rightarrow> None | Some n \<Rightarrow> if n < 2 ^ 32 then Some n else None))"

lemma Split_plain: "sep \<notin> set s \<Longrightarrow> Split sep s = [s]"
  by (induction s) auto

lemma Split_append: "sep \<notin> set s \<Longrightarrow> Split sep (s @ sep # t) = s # Split sep t"
  by (induction s) auto

lemma ParseUint32_decimal: "n < 2 ^ 32 \<Longrightarrow> ParseUint32 (decimal n) = Some n"
  by (simp add: ParseUint32_def digits_value_decimal)

lemma decimal_no_dollar: "digit_value c = None \<Longrightarrow> c \<notin> set (decimal n)"
  using decimal_digits by blast

section \<open>Hashes\<close>

text \<open>\<open>argon2 password salt iterations memory parallelism keyBytes\<close> is \<^verbatim>\<open>argon2.IDKey\<close>.\<close>

type_synonym argon2 = "string \<Rightarrow> string \<Rightarrow> nat \<Rightarrow> nat \<Rightarrow> nat \<Rightarrow> nat \<Rightarrow> string"

abbreviation passwordMemory :: nat where "passwordMemory \<equiv> 65536"
abbreviation passwordIterations :: nat where "passwordIterations \<equiv> 3"
abbreviation passwordParallelism :: nat where "passwordParallelism \<equiv> 4"
abbreviation passwordSaltBytes :: nat where "passwordSaltBytes \<equiv> 16"
abbreviation passwordKeyBytes :: nat where "passwordKeyBytes \<equiv> 32"
abbreviation minPasswordBytes :: nat where "minPasswordBytes \<equiv> 12"
abbreviation maxPasswordBytes :: nat where "maxPasswordBytes \<equiv> 1024"

text \<open>\<^verbatim>\<open>argon2.Version\<close>, the version number 1.3 of the Argon2 specification.\<close>

abbreviation argon2_Version :: nat where "argon2_Version \<equiv> 19"

definition encodePassword :: "argon2 \<Rightarrow> string \<Rightarrow> string \<Rightarrow> nat \<Rightarrow> nat \<Rightarrow> nat \<Rightarrow> string" where
  "encodePassword argon2 password salt memory iterations parallelism =
     ''$argon2id$v='' @ decimal argon2_Version @ ''$m='' @ decimal memory @ '',t='' @ decimal iterations
       @ '',p='' @ decimal parallelism @ ''$'' @ RawStd_EncodeToString salt @ ''$''
       @ RawStd_EncodeToString (argon2 password salt iterations memory parallelism passwordKeyBytes)"

text \<open>\<open>salt\<close> is what \<^verbatim>\<open>rand.Read\<close> puts into the 16 bytes, or its failure.\<close>

definition hashPassword :: "argon2 \<Rightarrow> string option \<Rightarrow> string \<Rightarrow> string + string" where
  "hashPassword argon2 salt password =
     (if length password < minPasswordBytes \<or> length password > maxPasswordBytes
      then Inl ''password must be between 12 and 1024 bytes''
      else (case salt of
              None \<Rightarrow> Inl ''minting a password salt''
            | Some bytes \<Rightarrow>
                Inr (encodePassword argon2 password bytes passwordMemory passwordIterations passwordParallelism)))"

definition parsePasswordParameter :: "string \<Rightarrow> string \<Rightarrow> nat option" where
  "parsePasswordParameter raw name =
     (case CutPrefix raw (name @ ''='') of None \<Rightarrow> None | Some number \<Rightarrow> ParseUint32 number)"

text \<open>
  A check finds the stored text unusable, or answers whether the password is the right one and
  whether its parameters are outdated. \<^verbatim>\<open>argon2.IDKey\<close> panics on a parallelism of zero, which
  the code does not refuse.
\<close>

datatype verification = UnusableFormat | Argon2Panics | Checked bool bool

definition verifyPassword :: "argon2 \<Rightarrow> string \<Rightarrow> string \<Rightarrow> verification" where
  "verifyPassword argon2 encoded password =
     (case Split CHR ''$'' encoded of
        [_, algorithm, release, parameters, salt64, key64] \<Rightarrow>
          if algorithm \<noteq> ''argon2id'' \<or> parsePasswordParameter release ''v'' \<noteq> Some argon2_Version then UnusableFormat
          else (case Split CHR '','' parameters of
                  [m, t, p] \<Rightarrow>
                    (case (parsePasswordParameter m ''m'', parsePasswordParameter t ''t'', parsePasswordParameter p ''p'',
                           RawStd_DecodeString salt64, RawStd_DecodeString key64) of
                       (Some memory, Some iterations, Some parallel, Some salt, Some want) \<Rightarrow>
                         if parallel > 255 \<or> memory = 0 \<or> iterations = 0 \<or> length salt < 8 \<or> length salt > 64
                            \<or> length want \<noteq> passwordKeyBytes
                         then UnusableFormat
                         else if parallel = 0 then Argon2Panics
                         else Checked (argon2 password salt iterations memory parallel (length want) = want)
                                (memory \<noteq> passwordMemory \<or> iterations \<noteq> passwordIterations
                                   \<or> parallel \<noteq> passwordParallelism)
                     | _ \<Rightarrow> UnusableFormat)
                | _ \<Rightarrow> UnusableFormat)
      | _ \<Rightarrow> UnusableFormat)"

section \<open>What is stored can be checked\<close>

lemma parsePasswordParameter_decimal:
  "n < 2 ^ 32 \<Longrightarrow> parsePasswordParameter (name @ ''='' @ decimal n) name = Some n"
  using ParseUint32_decimal [of n] by (simp add: parsePasswordParameter_def CutPrefix_def HasPrefix_def)

text \<open>Documented behaviour of Argon2: the key has the length that is asked for.\<close>

definition argon2_ok :: "argon2 \<Rightarrow> bool" where
  "argon2_ok argon2 \<longleftrightarrow> (\<forall>password salt t m p n. length (argon2 password salt t m p n) = n)"

lemma verify_encoded:
  assumes "argon2_ok argon2" "8 \<le> length salt" "length salt \<le> 64"
    and "0 < memory" "memory < 2 ^ 32" "0 < iterations" "iterations < 2 ^ 32" "0 < parallelism" "parallelism \<le> 255"
  shows "verifyPassword argon2 (encodePassword argon2 password salt memory iterations parallelism) presented =
    Checked (argon2 presented salt iterations memory parallelism passwordKeyBytes
               = argon2 password salt iterations memory parallelism passwordKeyBytes)
      (memory \<noteq> passwordMemory \<or> iterations \<noteq> passwordIterations \<or> parallelism \<noteq> passwordParallelism)"
proof -
  let ?key = "argon2 password salt iterations memory parallelism passwordKeyBytes"
  let ?ps = "''m='' @ decimal memory @ '',t='' @ decimal iterations @ '',p='' @ decimal parallelism"
  have signs: "digit_value CHR ''$'' = None" "digit_value CHR '','' = None" by (simp_all add: digit_value_def)
  have dollars: "CHR ''$'' \<notin> set ?ps" "CHR ''$'' \<notin> set (''v='' @ decimal argon2_Version)"
    using decimal_no_dollar [OF signs(1)] by auto
  have "encodePassword argon2 password salt memory iterations parallelism =
      [] @ CHR ''$'' # ''argon2id'' @ CHR ''$'' # (''v='' @ decimal argon2_Version) @ CHR ''$'' # ?ps @ CHR ''$''
        # RawStd_EncodeToString salt @ CHR ''$'' # RawStd_EncodeToString ?key"
    by (simp add: encodePassword_def)
  moreover have "CHR ''$'' \<notin> set ([] :: string)" "CHR ''$'' \<notin> set ''argon2id''" by simp_all
  ultimately have parts: "Split CHR ''$'' (encodePassword argon2 password salt memory iterations parallelism) =
      [[], ''argon2id'', ''v='' @ decimal argon2_Version, ?ps, RawStd_EncodeToString salt, RawStd_EncodeToString ?key]"
    using dollars RawStd_no_dollar by (simp only: Split_append Split_plain simp_thms)
  have "?ps = (''m='' @ decimal memory) @ CHR '','' # (''t='' @ decimal iterations) @ CHR '','' # ''p='' @ decimal parallelism"
    by simp
  moreover have "CHR '','' \<notin> set (''m='' @ decimal memory)" "CHR '','' \<notin> set (''t='' @ decimal iterations)"
      "CHR '','' \<notin> set (''p='' @ decimal parallelism)"
    using decimal_no_dollar [OF signs(2)] by auto
  ultimately have ps: "Split CHR '','' ?ps = [''m='' @ decimal memory, ''t='' @ decimal iterations, ''p='' @ decimal parallelism]"
    by (simp only: Split_append Split_plain simp_thms)
  have numbers: "parsePasswordParameter (''v='' @ decimal argon2_Version) ''v'' = Some argon2_Version"
      "parsePasswordParameter (''m='' @ decimal memory) ''m'' = Some memory"
      "parsePasswordParameter (''t='' @ decimal iterations) ''t'' = Some iterations"
      "parsePasswordParameter (''p='' @ decimal parallelism) ''p'' = Some parallelism"
    using assms(5,7,9) parsePasswordParameter_decimal [of _ "''v''"] parsePasswordParameter_decimal [of _ "''m''"]
      parsePasswordParameter_decimal [of _ "''t''"] parsePasswordParameter_decimal [of _ "''p''"] by simp_all
  show ?thesis
    unfolding verifyPassword_def parts list.case numbers ps RawStd_round_trip
    using assms by (simp add: argon2_ok_def)
qed

section \<open>What is stored fits its column\<close>

definition ascii :: "string \<Rightarrow> bool" where
  "ascii s \<longleftrightarrow> (\<forall>c \<in> set s. (of_char c :: nat) < 128)"

lemma ascii_Nil [simp]: "ascii []"
  by (simp add: ascii_def)

lemma ascii_Cons [simp]: "ascii (c # s) \<longleftrightarrow> (of_char c :: nat) < 128 \<and> ascii s"
  by (auto simp: ascii_def)

lemma ascii_append [simp]: "ascii (s @ t) \<longleftrightarrow> ascii s \<and> ascii t"
  by (auto simp: ascii_def)

lemma runes_ascii: "ascii s \<Longrightarrow> RuneCountInString s = length s"
proof -
  assume "ascii s"
  then have "\<forall>e \<in> set (map (\<lambda>c. [c]) s). encodes_rune e" by (auto simp: ascii_def ascii_encodes)
  from runes_concat [OF this, of "[]"] show ?thesis by (simp add: runes.simps [of "[]"])
qed

lemma ascii_decimal: "ascii (decimal n)"
  unfolding ascii_def
proof
  fix c assume "c \<in> set (decimal n)"
  from decimal_digits [OF this] show "(of_char c :: nat) < 128" by (auto simp: digit_value_def Let_def split: if_splits)
qed

lemma ascii_RawStd: "ascii (RawStd_EncodeToString s)"
  unfolding ascii_def
proof
  fix c assume "c \<in> set (RawStd_EncodeToString s)"
  then obtain d where d: "d \<in> set (EncodeToString s)" "c = std_letter d" by (auto simp: RawStd_EncodeToString_def)
  have "\<forall>b \<in> set (map of_char s). (b :: nat) < 256" by auto
  from sextets_bound [OF this] d(1) obtain n where "n < 64" "d = enc6 n" by (auto simp: EncodeToString_def)
  then have "(of_char d :: nat) < 128" using dec6_enc6 [of n] by (auto simp: dec6_def Let_def split: if_splits)
  with d(2) show "(of_char c :: nat) < 128" by (auto simp: std_letter_def)
qed

lemma length_sextets: "length (sextets bs) = (4 * length bs + 2) div 3"
  by (induction bs rule: sextets.induct) auto

lemma length_RawStd: "length (RawStd_EncodeToString s) = (4 * length s + 2) div 3"
  by (simp add: RawStd_EncodeToString_def EncodeToString_def length_sextets)

lemma encoded_length:
  assumes "argon2_ok argon2" "length salt = passwordSaltBytes"
  shows "RuneCountInString (encodePassword argon2 password salt passwordMemory passwordIterations passwordParallelism) = 97"
proof -
  have digits: "length (decimal passwordMemory) = 5" "length (decimal argon2_Version) = 2" "length (decimal passwordIterations) = 1"
    "length (decimal passwordParallelism) = 1" by (simp_all add: decimal.simps)
  have "ascii (encodePassword argon2 password salt passwordMemory passwordIterations passwordParallelism)"
    unfolding encodePassword_def using ascii_decimal ascii_RawStd by (simp only: ascii_append) simp
  from runes_ascii [OF this] show ?thesis
    using assms digits by (simp add: encodePassword_def length_RawStd argon2_ok_def)
qed

end
