(* ===== verification/IdentityStore.thy ===== *)
theory IdentityStore
  imports AuditTrail Passwords
begin

text \<open>
  Users, memberships, passwords and browser sessions in the database (\<^verbatim>\<open>identity.go\<close>,
  \<^verbatim>\<open>local_identity.go\<close>, \<^verbatim>\<open>local_password.go\<close>, \<^verbatim>\<open>session.go\<close> and \<^verbatim>\<open>deployment_oidc.go\<close>
  of \<^verbatim>\<open>internal/store/postgres\<close>, with the structures of \<^verbatim>\<open>internal/auth/session\<close>). A
  transaction that holds the row it decides on is one step; where it decides on rows it does not
  hold, what the others commit in the meantime is the argument \<open>between\<close>. Two queries outside a
  transaction read two states.
\<close>

section \<open>Tables\<close>

record app_user =
  us_id :: uuid
  us_issuer :: string
  us_subject :: string
  us_email :: string
  us_display_name :: string
  us_disabled_at :: "instant option"
  us_created_at :: instant

record membership_row =
  ms_org :: uuid
  ms_user :: uuid
  ms_role :: string
  ms_created_at :: instant

record password_row =
  pw_user :: uuid
  pw_hash :: string
  pw_changed_at :: instant

record session_row =
  se_id :: uuid
  se_digest :: bytes
  se_user :: uuid
  se_expires_at :: instant

record organization_row =
  og_id :: uuid
  og_display_name :: string
  og_created_at :: instant
  og_retention :: int

record flow_row =
  fl_digest :: bytes
  fl_verifier :: "string option"
  fl_nonce :: "string option"
  fl_return_to :: string
  fl_expires_at :: instant

record identity_db =
  id_users :: "app_user list"
  id_memberships :: "membership_row list"
  id_passwords :: "password_row list"
  id_sessions :: "session_row list"
  id_organizations :: "organization_row list"
  id_flows :: "flow_row list"

section \<open>Structures\<close>

record Session =
  session_ID :: uuid
  session_UserID :: uuid
  session_ExpiresAt :: instant

record User =
  user_ID :: uuid
  user_Issuer :: string
  user_Subject :: string
  user_Email :: string
  user_DisplayName :: string
  user_DisabledAt :: "instant option"
  user_CreatedAt :: instant

record Identity =
  identity_Issuer :: string
  identity_Subject :: string
  identity_Email :: string
  identity_DisplayName :: string

record Member =
  member_UserID :: uuid
  member_Email :: string
  member_DisplayName :: string
  member_Role :: Role
  member_Disabled :: bool
  member_CreatedAt :: instant

record SignedIn =
  signed_Session :: Session
  signed_User :: User
  signed_Membership :: Membership

record LocalIdentity =
  local_User :: User
  local_Membership :: Membership
  local_PasswordHash :: string

record DeploymentSignInFlow =
  flow_CodeVerifier :: string
  flow_Nonce :: string
  flow_ReturnTo :: string
  flow_ExpiresAt :: instant

definition LocalIssuer :: string where
  "LocalIssuer = ''opencluster:local''"

text \<open>
  What the statements take from outside: the Unicode tables of Go and of PostgreSQL's
  \<^verbatim>\<open>lower\<close>, the \<^verbatim>\<open>uuid\<close> package, and by moment the clocks and the identifiers made.
\<close>

record identity_lib =
  il_lower :: "string \<Rightarrow> string"
  il_sql_lower :: "string \<Rightarrow> string"
  il_uuids :: uuid_lib
  il_now :: "nat \<Rightarrow> instant"
  il_clock :: "nat \<Rightarrow> instant"
  il_user_id :: "nat \<Rightarrow> uuid"
  il_org_id :: "nat \<Rightarrow> uuid"
  il_session_id :: "nat \<Rightarrow> uuid"
  il_event_id :: "nat \<Rightarrow> uuid"

section \<open>Inserting rows\<close>

definition insert_user ::
  "identity_lib \<Rightarrow> nat \<Rightarrow> string \<Rightarrow> string \<Rightarrow> string \<Rightarrow> identity_db \<Rightarrow> sql_error + app_user \<times> identity_db"
where
  "insert_user lib k issuer email displayName db =
     (if \<exists>u \<in> set (id_users db). us_issuer u = issuer \<and> us_subject u = email
      then Inl (UniqueViolation ''app_user_identity_is_the_issuer_and_subject'')
      else if il_user_id lib k \<in> us_id ` set (id_users db) then Inl (UniqueViolation ''app_user_pkey'')
      else let u = \<lparr>us_id = il_user_id lib k, us_issuer = issuer, us_subject = email, us_email = email,
                    us_display_name = displayName, us_disabled_at = None, us_created_at = il_now lib k\<rparr> in
           Inr (u, db\<lparr>id_users := id_users db @ [u]\<rparr>))"

definition insert_membership ::
  "identity_lib \<Rightarrow> nat \<Rightarrow> uuid \<Rightarrow> uuid \<Rightarrow> string \<Rightarrow> identity_db \<Rightarrow> sql_error + membership_row \<times> identity_db"
where
  "insert_membership lib k organization user role db =
     (if role \<notin> {''admin'', ''editor'', ''viewer''} then Inl (CheckViolation ''organization_membership_role_check'')
      else if \<exists>m \<in> set (id_memberships db). ms_org m = organization \<and> ms_user m = user
      then Inl (UniqueViolation ''organization_membership_pkey'')
      else if user \<in> ms_user ` set (id_memberships db)
      then Inl (UniqueViolation ''organization_membership_user_is_unique'')
      else if organization \<notin> og_id ` set (id_organizations db)
      then Inl (ForeignKeyViolation ''organization_membership_organization_exists'')
      else if user \<notin> us_id ` set (id_users db)
      then Inl (ForeignKeyViolation ''organization_membership_user_id_fkey'')
      else let m = \<lparr>ms_org = organization, ms_user = user, ms_role = role, ms_created_at = il_now lib k\<rparr> in
           Inr (m, db\<lparr>id_memberships := id_memberships db @ [m]\<rparr>))"

definition password_checks :: "password_row \<Rightarrow> (string \<times> bool) list" where
  "password_checks p =
     [(''local_password_password_hash_check'', 32 \<le> RuneCountInString (pw_hash p) \<and> RuneCountInString (pw_hash p) \<le> 512)]"

definition insert_password ::
  "identity_lib \<Rightarrow> nat \<Rightarrow> uuid \<Rightarrow> string \<Rightarrow> identity_db \<Rightarrow> sql_error + identity_db"
where
  "insert_password lib k user hash db =
     (let p = \<lparr>pw_user = user, pw_hash = hash, pw_changed_at = il_now lib k\<rparr> in
      case violated (password_checks p) of
        Some name \<Rightarrow> Inl (CheckViolation name)
      | None \<Rightarrow>
          if user \<in> pw_user ` set (id_passwords db) then Inl (UniqueViolation ''local_password_pkey'')
          else if user \<notin> us_id ` set (id_users db) then Inl (ForeignKeyViolation ''local_password_user_id_fkey'')
          else Inr (db\<lparr>id_passwords := id_passwords db @ [p]\<rparr>))"

definition insert_session ::
  "identity_lib \<Rightarrow> nat \<Rightarrow> bytes \<Rightarrow> Session \<Rightarrow> identity_db \<Rightarrow> sql_error + Session \<times> identity_db"
where
  "insert_session lib k digest issued db =
     (if length digest \<noteq> 32 then Inl (CheckViolation ''session_credential_digest_check'')
      else if digest \<in> se_digest ` set (id_sessions db)
      then Inl (UniqueViolation ''session_credential_digest_is_unique'')
      else if il_session_id lib k \<in> se_id ` set (id_sessions db) then Inl (UniqueViolation ''session_pkey'')
      else if session_UserID issued \<notin> us_id ` set (id_users db)
      then Inl (ForeignKeyViolation ''session_user_id_fkey'')
      else Inr (issued\<lparr>session_ID := il_session_id lib k\<rparr>,
                db\<lparr>id_sessions := id_sessions db @
                     [\<lparr>se_id = il_session_id lib k, se_digest = digest, se_user = session_UserID issued,
                       se_expires_at = session_ExpiresAt issued\<rparr>]\<rparr>))"

section \<open>Sessions\<close>

definition user_of :: "app_user \<Rightarrow> User" where
  "user_of u =
     \<lparr>user_ID = us_id u, user_Issuer = us_issuer u, user_Subject = us_subject u, user_Email = us_email u,
      user_DisplayName = us_display_name u, user_DisabledAt = us_disabled_at u, user_CreatedAt = us_created_at u\<rparr>"

definition sign_in_event ::
  "identity_lib \<Rightarrow> uuid \<Rightarrow> Session \<Rightarrow> Actor \<Rightarrow> string \<Rightarrow> Detail \<Rightarrow> Event"
where
  "sign_in_event lib organization issued actor sourceAddress detail =
     \<lparr>ev_Organization = uuid_String (il_uuids lib) organization, ev_Actor = actor, ev_Action = ''session.sign-in.completed'',
      ev_Target = \<lparr>target_Kind = ''session'', target_ID = uuid_String (il_uuids lib) (session_ID issued)\<rparr>,
      ev_Outcome = OutcomeAllowed, ev_SourceAddress = sourceAddress, ev_RequestID = [], ev_OccurredAt = None,
      ev_Detail = detail\<rparr>"

definition issueSessionIn ::
  "identity_lib \<Rightarrow> nat \<Rightarrow> uuid \<Rightarrow> Session \<Rightarrow> bytes \<Rightarrow> Actor \<Rightarrow> string \<Rightarrow> Detail
     \<Rightarrow> identity_db \<times> audit_row list \<Rightarrow> store_error + Session \<times> identity_db \<times> audit_row list"
where
  "issueSessionIn lib k organization issued digest actor sourceAddress detail = (\<lambda>(db, trail).
     case insert_session lib k digest issued db of
       Inl e \<Rightarrow> Inl (ErrSql e)
     | Inr (stored, db') \<Rightarrow>
         (case writeEvent (il_lower lib) (il_clock lib k) (il_event_id lib k)
                 (sign_in_event lib organization stored actor sourceAddress detail) trail of
            Inl e \<Rightarrow> Inl e
          | Inr trail' \<Rightarrow> Inr (stored, db', trail')))"

definition IssueSession ::
  "identity_lib \<Rightarrow> nat \<Rightarrow> uuid \<Rightarrow> Session \<Rightarrow> bytes \<Rightarrow> Actor \<Rightarrow> string \<Rightarrow> Detail
     \<Rightarrow> identity_db \<times> audit_row list \<Rightarrow> store_error + Session \<times> identity_db \<times> audit_row list"
where
  "IssueSession lib k organization issued digest actor sourceAddress detail s =
     in_organization organization (issueSessionIn lib k organization issued digest actor sourceAddress detail s)"

text \<open>
  \<open>enabled_local\<close> is the join of a password with its user that the statements on passwords
  select. A sign-in shares the lock of the password row, so a change of the password waits for it.
\<close>

definition enabled_local :: "uuid \<Rightarrow> identity_db \<Rightarrow> bool" where
  "enabled_local user db \<longleftrightarrow>
     (\<exists>u \<in> set (id_users db). us_id u = user \<and> us_issuer u = LocalIssuer \<and> us_disabled_at u = None)"

definition stored_hash :: "uuid \<Rightarrow> identity_db \<Rightarrow> string option" where
  "stored_hash user db =
     (if enabled_local user db then map_option pw_hash (row_of pw_user user (id_passwords db)) else None)"

definition IssueLocalSession ::
  "identity_lib \<Rightarrow> nat \<Rightarrow> uuid \<Rightarrow> Session \<Rightarrow> bytes \<Rightarrow> Actor \<Rightarrow> string \<Rightarrow> Detail \<Rightarrow> string
     \<Rightarrow> identity_db \<times> audit_row list \<Rightarrow> store_error + Session \<times> identity_db \<times> audit_row list"
where
  "IssueLocalSession lib k organization issued digest actor sourceAddress detail previous s =
     in_organization organization
       (if stored_hash (session_UserID issued) (fst s) \<noteq> Some previous then Inl ErrLocalCredentialUnknown
        else issueSessionIn lib k organization issued digest actor sourceAddress detail s)"

text \<open>One user has at most one membership, in an organization that exists.\<close>

definition membershipOf :: "uuid \<Rightarrow> identity_db \<Rightarrow> store_error + Membership" where
  "membershipOf user db =
     (case row_of ms_user user (id_memberships db) of
        None \<Rightarrow> Inl ErrMembershipUnknown
      | Some m \<Rightarrow>
          (case row_of og_id (ms_org m) (id_organizations db) of
             None \<Rightarrow> Inl ErrMembershipUnknown
           | Some g \<Rightarrow>
               (case ParseRole (ms_role m) of
                  (role, True) \<Rightarrow>
                    Inr \<lparr>mem_Organization = ms_org m, mem_DisplayName = og_display_name g, mem_Role = role\<rparr>
                | _ \<Rightarrow> Inl ErrMembershipUnknown)))"

definition membership_from :: "uuid \<Rightarrow> store_error + identity_db \<Rightarrow> store_error + Membership" where
  "membership_from user later = (case later of Inl e \<Rightarrow> Inl e | Inr db \<Rightarrow> membershipOf user db)"

text \<open>
  The session with its user is read from \<open>db\<close>, the membership afterwards from \<open>later\<close>, which may
  fail. The user's
  subject and creation time are not selected and stay zero, \<open>created_at\<close> being the zero time.
\<close>

definition signedInFrom ::
  "instant \<Rightarrow> bytes \<Rightarrow> identity_db \<Rightarrow> store_error + identity_db \<Rightarrow> store_error + SignedIn"
where
  "signedInFrom clock digest db later =
     (case row_of se_digest digest (id_sessions db) of
        None \<Rightarrow> Inl ErrSessionUnknown
      | Some s \<Rightarrow>
          (case row_of us_id (se_user s) (id_users db) of
             None \<Rightarrow> Inl ErrSessionUnknown
           | Some u \<Rightarrow>
               if \<not> clock < se_expires_at s then Inl ErrSessionExpired
               else if us_disabled_at u \<noteq> None then Inl ErrSessionUnknown
               else (case membership_from (se_user s) later of
                       Inl ErrMembershipUnknown \<Rightarrow> Inl ErrSessionUnknown
                     | Inl e \<Rightarrow> Inl e
                     | Inr membership \<Rightarrow>
                         Inr \<lparr>signed_Session = \<lparr>session_ID = se_id s, session_UserID = se_user s,
                                                session_ExpiresAt = se_expires_at s\<rparr>,
                              signed_User = \<lparr>user_ID = se_user s, user_Issuer = us_issuer u, user_Subject = [],
                                             user_Email = us_email u, user_DisplayName = us_display_name u,
                                             user_DisabledAt = None, user_CreatedAt = 0\<rparr>,
                              signed_Membership = membership\<rparr>)))"

definition SessionByToken ::
  "instant \<Rightarrow> bytes \<Rightarrow> identity_db \<Rightarrow> store_error + identity_db \<Rightarrow> store_error + SignedIn"
where
  "SessionByToken = signedInFrom"

definition DeleteCurrentSession ::
  "identity_lib \<Rightarrow> nat \<Rightarrow> Principal \<Rightarrow> identity_db \<times> audit_row list
     \<Rightarrow> store_error + identity_db \<times> audit_row list"
where
  "DeleteCurrentSession lib k who = (\<lambda>(db, trail).
     let own = (\<lambda>s. se_id s = pr_sessionID who \<and> se_user s = pr_userID who) in
     if pr_userID who = uuid_Nil \<or> pr_sessionID who = uuid_Nil then Inl ErrSessionUnknown
     else if rows_affected own (id_sessions db) \<noteq> 1 then Inl ErrSessionUnknown
     else (case writeEvent (il_lower lib) (il_clock lib k) (il_event_id lib k)
                  \<lparr>ev_Organization = [], ev_Actor = Actor_of (uuid_String (il_uuids lib)) who,
                   ev_Action = ''session.signed-out'',
                   ev_Target = \<lparr>target_Kind = ''session'', target_ID = uuid_String (il_uuids lib) (pr_sessionID who)\<rparr>,
                   ev_Outcome = OutcomeAllowed, ev_SourceAddress = pr_sourceAddress who,
                   ev_RequestID = pr_requestID who, ev_OccurredAt = None, ev_Detail = []\<rparr> trail of
             Inl e \<Rightarrow> Inl e
           | Inr trail' \<Rightarrow> Inr (db\<lparr>id_sessions := filter (Not \<circ> own) (id_sessions db)\<rparr>, trail')))"

text \<open>A thousand expired sessions at a time, oldest first, passing over the locked ones.\<close>

definition expired_sessions :: "instant \<Rightarrow> uuid set \<Rightarrow> identity_db \<Rightarrow> session_row list" where
  "expired_sessions now locked db =
     take 1000 (sort_key (\<lambda>s. (se_expires_at s, se_id s))
       (filter (\<lambda>s. se_expires_at s \<le> now \<and> se_id s \<notin> locked) (id_sessions db)))"

definition PruneSessions :: "instant \<Rightarrow> uuid set \<Rightarrow> identity_db \<Rightarrow> nat \<times> identity_db" where
  "PruneSessions now locked db =
     (let chosen = se_id ` set (expired_sessions now locked db) in
      (rows_affected (\<lambda>s. se_id s \<in> chosen) (id_sessions db),
       db\<lparr>id_sessions := filter (\<lambda>s. se_id s \<notin> chosen) (id_sessions db)\<rparr>))"

section \<open>Passwords\<close>

definition LocalPasswordHash :: "Principal \<Rightarrow> identity_db \<Rightarrow> store_error + string" where
  "LocalPasswordHash who db =
     (if pr_userID who = uuid_Nil then Inl ErrLocalCredentialUnknown
      else (case stored_hash (pr_userID who) db of
              None \<Rightarrow> Inl ErrLocalCredentialUnknown
            | Some hash \<Rightarrow> Inr hash))"

text \<open>Replacing a password ends every session of its user in the same transaction.\<close>

definition replaceLocalPassword ::
  "identity_lib \<Rightarrow> nat \<Rightarrow> uuid \<Rightarrow> string option \<Rightarrow> string \<Rightarrow> Event \<Rightarrow> identity_db \<times> audit_row list
     \<Rightarrow> store_error + identity_db \<times> audit_row list"
where
  "replaceLocalPassword lib k user previous replacement event = (\<lambda>(db, trail).
     let p = (\<lambda>r. pw_user r = user \<and> (previous = None \<or> Some (pw_hash r) = previous) \<and> enabled_local user db) in
     case checked_update password_checks p (\<lambda>r. r\<lparr>pw_hash := replacement, pw_changed_at := il_now lib k\<rparr>)
            (id_passwords db) of
       Inl e \<Rightarrow> Inl (ErrSql e)
     | Inr passwords \<Rightarrow>
         if rows_affected p (id_passwords db) \<noteq> 1 then Inl ErrLocalCredentialUnknown
         else (case writeEvent (il_lower lib) (il_clock lib k) (il_event_id lib k)
                      (event\<lparr>ev_Target := \<lparr>target_Kind = ''user'', target_ID = uuid_String (il_uuids lib) user\<rparr>,
                             ev_Outcome := OutcomeAllowed\<rparr>) trail of
                 Inl e \<Rightarrow> Inl e
               | Inr trail' \<Rightarrow>
                   Inr (db\<lparr>id_passwords := passwords,
                           id_sessions := filter (\<lambda>s. se_user s \<noteq> user) (id_sessions db)\<rparr>, trail')))"

definition ChangeLocalPassword ::
  "identity_lib \<Rightarrow> nat \<Rightarrow> Principal \<Rightarrow> string \<Rightarrow> string \<Rightarrow> identity_db \<times> audit_row list
     \<Rightarrow> store_error + identity_db \<times> audit_row list"
where
  "ChangeLocalPassword lib k who previous replacement s =
     (if pr_userID who = uuid_Nil then Inl ErrLocalCredentialUnknown
      else replaceLocalPassword lib k (pr_userID who) (Some previous) replacement
             \<lparr>ev_Organization = [], ev_Actor = Actor_of (uuid_String (il_uuids lib)) who,
              ev_Action = ''local.password-changed'', ev_Target = \<lparr>target_Kind = [], target_ID = []\<rparr>,
              ev_Outcome = OutcomeAllowed, ev_SourceAddress = pr_sourceAddress who,
              ev_RequestID = pr_requestID who, ev_OccurredAt = None, ev_Detail = []\<rparr> s)"

definition Store_RecoverLocalPassword ::
  "identity_lib \<Rightarrow> nat \<Rightarrow> uuid \<Rightarrow> string \<Rightarrow> identity_db \<times> audit_row list
     \<Rightarrow> store_error + identity_db \<times> audit_row list"
where
  "Store_RecoverLocalPassword lib k user replacement s =
     (if user = uuid_Nil then Inl ErrLocalCredentialUnknown
      else replaceLocalPassword lib k user None replacement
             \<lparr>ev_Organization = [], ev_Actor = System ''deployment operator'',
              ev_Action = ''local.password-recovered'', ev_Target = \<lparr>target_Kind = [], target_ID = []\<rparr>,
              ev_Outcome = OutcomeAllowed, ev_SourceAddress = [], ev_RequestID = [], ev_OccurredAt = None,
              ev_Detail = []\<rparr> s)"

definition RehashLocalPassword ::
  "identity_lib \<Rightarrow> nat \<Rightarrow> uuid \<Rightarrow> string \<Rightarrow> string \<Rightarrow> identity_db \<Rightarrow> store_error + identity_db"
where
  "RehashLocalPassword lib k user previous replacement db =
     (case checked_update password_checks
             (\<lambda>r. pw_user r = user \<and> pw_hash r = previous \<and> user \<in> ms_user ` set (id_memberships db))
             (\<lambda>r. r\<lparr>pw_hash := replacement, pw_changed_at := il_now lib k\<rparr>) (id_passwords db) of
        Inl e \<Rightarrow> Inl (ErrSql e)
      | Inr passwords \<Rightarrow> Inr (db\<lparr>id_passwords := passwords\<rparr>))"

text \<open>
  The identity is read from \<open>db\<close> and its membership afterwards from \<open>later\<close>. A row that several
  users match is the first the database meets.
\<close>

definition LocalIdentityByEmail ::
  "identity_lib \<Rightarrow> string \<Rightarrow> identity_db \<Rightarrow> store_error + identity_db \<Rightarrow> store_error + LocalIdentity"
where
  "LocalIdentityByEmail lib email db later =
     (case List.find
             (\<lambda>u. us_issuer u = LocalIssuer \<and> il_sql_lower lib (us_email u) = il_sql_lower lib (TrimSpace email)
                \<and> us_id u \<in> pw_user ` set (id_passwords db) \<and> us_id u \<in> ms_user ` set (id_memberships db))
             (id_users db) of
        None \<Rightarrow> Inl ErrLocalCredentialUnknown
      | Some u \<Rightarrow>
          if us_disabled_at u \<noteq> None then Inl ErrUserDisabled
          else (case (membership_from (us_id u) later, row_of pw_user (us_id u) (id_passwords db)) of
                  (Inl ErrMembershipUnknown, _) \<Rightarrow> Inl ErrLocalCredentialUnknown
                | (Inl e, _) \<Rightarrow> Inl e
                | (Inr membership, Some p) \<Rightarrow>
                    Inr \<lparr>local_User = user_of u, local_Membership = membership, local_PasswordHash = pw_hash p\<rparr>
                | (Inr membership, None) \<Rightarrow> Inl ErrLocalCredentialUnknown))"

section \<open>Members\<close>

text \<open>
  Changing and removing a membership locks the row of its own user and then counts the other
  administrators, whose rows it does not lock: \<open>between\<close> is what other transactions commit before
  this one writes.
\<close>

definition refuseIfLastAdmin :: "uuid \<Rightarrow> uuid \<Rightarrow> identity_db \<Rightarrow> store_error option" where
  "refuseIfLastAdmin organization except db =
     (if rows_affected (\<lambda>m. ms_org m = organization \<and> ms_role m = ''admin'' \<and> ms_user m \<noteq> except)
           (id_memberships db) = 0
      then Some ErrLastAdmin else None)"

abbreviation membership_key :: "uuid \<Rightarrow> uuid \<Rightarrow> membership_row \<Rightarrow> bool" where
  "membership_key organization user m \<equiv> ms_org m = organization \<and> ms_user m = user"

definition member_of :: "membership_row \<Rightarrow> app_user \<Rightarrow> Member" where
  "member_of m u =
     \<lparr>member_UserID = ms_user m, member_Email = us_email u, member_DisplayName = us_display_name u,
      member_Role = ms_role m, member_Disabled = (us_disabled_at u \<noteq> None), member_CreatedAt = ms_created_at m\<rparr>"

definition write_role :: "uuid \<Rightarrow> uuid \<Rightarrow> Role \<Rightarrow> identity_db \<Rightarrow> identity_db" where
  "write_role organization user role db =
     db\<lparr>id_memberships := update_where (membership_key organization user) (\<lambda>m. m\<lparr>ms_role := role\<rparr>) (id_memberships db)\<rparr>"

definition delete_membership :: "uuid \<Rightarrow> uuid \<Rightarrow> identity_db \<Rightarrow> identity_db" where
  "delete_membership organization user db =
     db\<lparr>id_memberships := filter (Not \<circ> membership_key organization user) (id_memberships db)\<rparr>"

definition update_membership ::
  "identity_lib \<Rightarrow> (identity_db \<Rightarrow> identity_db) \<Rightarrow> uuid \<Rightarrow> uuid \<Rightarrow> Role \<Rightarrow> identity_db
     \<Rightarrow> store_error + Member \<times> Target \<times> Detail \<times> identity_db"
where
  "update_membership lib between organization user role db =
     (case List.find (membership_key organization user) (id_memberships db) of
        None \<Rightarrow> Inl ErrMembershipUnknown
      | Some m \<Rightarrow>
          (case (if ms_role m = ''admin'' \<and> role \<noteq> ''admin'' then refuseIfLastAdmin organization user db else None) of
             Some e \<Rightarrow> Inl e
           | None \<Rightarrow>
               let db1 = between db in
               if role \<notin> {''admin'', ''editor'', ''viewer''}
               then Inl (ErrSql (CheckViolation ''organization_membership_role_check''))
               else (case row_of us_id user (id_users db1) of
                       None \<Rightarrow> Inl ErrDatabase
                     | Some u \<Rightarrow>
                         Inr (member_of (m\<lparr>ms_role := role\<rparr>) u,
                              \<lparr>target_Kind = ''user'', target_ID = uuid_String (il_uuids lib) user\<rparr>,
                              [(''beforeRole'', DString (ms_role m)), (''afterRole'', DString role)],
                              write_role organization user role db1))))"

definition UpdateMembership ::
  "identity_lib \<Rightarrow> (identity_db \<Rightarrow> identity_db) \<Rightarrow> nat \<Rightarrow> Principal \<Rightarrow> uuid \<Rightarrow> uuid \<Rightarrow> Role
     \<Rightarrow> identity_db \<times> audit_row list \<Rightarrow> store_error + Member \<times> identity_db \<times> audit_row list"
where
  "UpdateMembership lib between k who organization user role s =
     audited (il_lower lib) (uuid_String (il_uuids lib)) (il_clock lib k) (il_event_id lib k) who organization
       ''membership.changed'' (update_membership lib between organization user role) s"

definition remove_membership ::
  "identity_lib \<Rightarrow> (identity_db \<Rightarrow> identity_db) \<Rightarrow> uuid \<Rightarrow> uuid \<Rightarrow> identity_db
     \<Rightarrow> store_error + unit \<times> Target \<times> Detail \<times> identity_db"
where
  "remove_membership lib between organization user db =
     (case List.find (membership_key organization user) (id_memberships db) of
        None \<Rightarrow> Inl ErrMembershipUnknown
      | Some m \<Rightarrow>
          (case (if ms_role m = ''admin'' then refuseIfLastAdmin organization user db else None) of
             Some e \<Rightarrow> Inl e
           | None \<Rightarrow>
               let db1 = between db in
               Inr ((), \<lparr>target_Kind = ''user'', target_ID = uuid_String (il_uuids lib) user\<rparr>,
                    [(''before'', DString (ms_role m))],
                    delete_membership organization user db1)))"

definition RemoveMembership ::
  "identity_lib \<Rightarrow> (identity_db \<Rightarrow> identity_db) \<Rightarrow> nat \<Rightarrow> Principal \<Rightarrow> uuid \<Rightarrow> uuid
     \<Rightarrow> identity_db \<times> audit_row list \<Rightarrow> store_error + unit \<times> identity_db \<times> audit_row list"
where
  "RemoveMembership lib between k who organization user s =
     audited (il_lower lib) (uuid_String (il_uuids lib)) (il_clock lib k) (il_event_id lib k) who organization
       ''membership.revoked'' (remove_membership lib between organization user) s"

definition create_local_member ::
  "identity_lib \<Rightarrow> nat \<Rightarrow> uuid \<Rightarrow> string \<Rightarrow> string \<Rightarrow> string \<Rightarrow> Role \<Rightarrow> identity_db
     \<Rightarrow> store_error + Member \<times> Target \<times> Detail \<times> identity_db"
where
  "create_local_member lib k organization email displayName hash role db =
     (let normalized = ToLower (il_lower lib) (TrimSpace email) in
      case insert_user lib k LocalIssuer normalized displayName db of
        Inl (UniqueViolation name) \<Rightarrow>
          Inl (if name = ''app_user_identity_is_the_issuer_and_subject'' then ErrLocalAccountExists
               else ErrSql (UniqueViolation name))
      | Inl e \<Rightarrow> Inl (ErrSql e)
      | Inr (u, db1) \<Rightarrow>
          (case insert_password lib k (us_id u) hash db1 of
             Inl e \<Rightarrow> Inl (ErrSql e)
           | Inr db2 \<Rightarrow>
               (case insert_membership lib k organization (us_id u) role db2 of
                  Inl e \<Rightarrow> Inl (ErrSql e)
                | Inr (m, db3) \<Rightarrow>
                    Inr (member_of m u, \<lparr>target_Kind = ''user'', target_ID = uuid_String (il_uuids lib) (us_id u)\<rparr>,
                         [(''email'', DString normalized), (''role'', DString role)], db3))))"

definition CreateLocalMember ::
  "identity_lib \<Rightarrow> nat \<Rightarrow> Principal \<Rightarrow> uuid \<Rightarrow> string \<Rightarrow> string \<Rightarrow> string \<Rightarrow> Role
     \<Rightarrow> identity_db \<times> audit_row list \<Rightarrow> store_error + Member \<times> identity_db \<times> audit_row list"
where
  "CreateLocalMember lib k who organization email displayName hash role s =
     audited (il_lower lib) (uuid_String (il_uuids lib)) (il_clock lib k) (il_event_id lib k) who organization
       ''user.provisioned'' (create_local_member lib k organization email displayName hash role) s"

text \<open>The members of an organization, oldest first, page by page.\<close>

definition members_after ::
  "uuid \<Rightarrow> (instant \<times> uuid) option \<Rightarrow> nat \<Rightarrow> identity_db \<Rightarrow> (membership_row \<times> app_user) list"
where
  "members_after organization after limit db =
     take (Suc limit)
       (sort_key (\<lambda>(m, u). (ms_created_at m, ms_user m))
          (concat (map (\<lambda>m. map (Pair m) (filter (\<lambda>u. us_id u = ms_user m) (id_users db)))
             (filter (\<lambda>m. ms_org m = organization
                        \<and> (case after of None \<Rightarrow> True | Some k \<Rightarrow> k < (ms_created_at m, ms_user m)))
                (id_memberships db)))))"

definition ListMembers ::
  "uuid_lib \<Rightarrow> Principal \<Rightarrow> uuid \<Rightarrow> Page \<Rightarrow> identity_db \<Rightarrow> store_error + Member list \<times> string"
where
  "ListMembers uuids who organization page db =
     (if Organization who \<noteq> organization then Inl ErrNotAMember
      else in_organization organization
        (case decodeCursor uuids (page_After page) ''createdAt'' of
           Inl e \<Rightarrow> Inl e
         | Inr after \<Rightarrow>
             (let limit = pageLimit (page_Limit page);
                  (members, next) = collect_page limit [] (members_after organization after limit db) in
              Inr (map (\<lambda>(m, u). member_of m u) members,
                   case next of
                     None \<Rightarrow> []
                   | Some (m, u) \<Rightarrow> encodeCursor uuids ''createdAt'' (ms_created_at m) (ms_user m)))))"

section \<open>Policy\<close>

definition OrganizationAuditRetention :: "uuid \<Rightarrow> identity_db \<Rightarrow> store_error + int" where
  "OrganizationAuditRetention organization db =
     in_organization organization
       (Inr (case row_of og_id organization (id_organizations db) of None \<Rightarrow> 0 | Some g \<Rightarrow> og_retention g))"

definition set_retention ::
  "identity_lib \<Rightarrow> uuid \<Rightarrow> int \<Rightarrow> identity_db \<Rightarrow> store_error + unit \<times> Target \<times> Detail \<times> identity_db"
where
  "set_retention lib organization days db =
     (let before = (case row_of og_id organization (id_organizations db) of None \<Rightarrow> 0 | Some g \<Rightarrow> og_retention g) in
      if days < - 2147483648 \<or> 2147483647 < days then Inl (ErrSql NumericOutOfRange)
      else (case checked_update (\<lambda>g. [(''organization_audit_retention_days_check'', 0 \<le> og_retention g)])
                   (\<lambda>g. og_id g = organization) (\<lambda>g. g\<lparr>og_retention := days\<rparr>) (id_organizations db) of
              Inl e \<Rightarrow> Inl (ErrSql e)
            | Inr organizations \<Rightarrow>
                Inr ((), \<lparr>target_Kind = ''organization'', target_ID = uuid_String (il_uuids lib) organization\<rparr>,
                     [(''before'', DNested [(''auditRetentionDays'', DInt before)]),
                      (''after'', DNested [(''auditRetentionDays'', DInt days)])],
                     db\<lparr>id_organizations := organizations\<rparr>)))"

definition SetOrganizationAuditRetention ::
  "identity_lib \<Rightarrow> nat \<Rightarrow> Principal \<Rightarrow> uuid \<Rightarrow> int
     \<Rightarrow> identity_db \<times> audit_row list \<Rightarrow> store_error + unit \<times> identity_db \<times> audit_row list"
where
  "SetOrganizationAuditRetention lib k who organization days s =
     audited (il_lower lib) (uuid_String (il_uuids lib)) (il_clock lib k) (il_event_id lib k) who organization
       ''organization.policy.changed'' (set_retention lib organization days) s"

section \<open>The first administrator\<close>

text \<open>
  The table of users is locked against every other writer, so of two bootstraps one finds it empty.
  The organization's retention starts at its column's default.
\<close>

definition BootstrapLocalUser ::
  "identity_lib \<Rightarrow> nat \<Rightarrow> string \<Rightarrow> string \<Rightarrow> string \<Rightarrow> string \<Rightarrow> Session \<Rightarrow> bytes \<Rightarrow> string
     \<Rightarrow> identity_db \<times> audit_row list \<Rightarrow> store_error + (User \<times> Session) \<times> identity_db \<times> audit_row list"
where
  "BootstrapLocalUser lib k organizationName email displayName hash issued digest sourceAddress = (\<lambda>(db, trail).
     let normalized = ToLower (il_lower lib) (TrimSpace email) in
     if id_users db \<noteq> [] then Inl ErrLocalBootstrapComplete
     else (case insert_user lib k LocalIssuer normalized displayName db of
             Inl e \<Rightarrow> Inl (ErrSql e)
           | Inr (u, db1) \<Rightarrow>
               if il_org_id lib k \<in> og_id ` set (id_organizations db1)
               then Inl (ErrSql (UniqueViolation ''organization_pkey''))
               else (let db2 = db1\<lparr>id_organizations := id_organizations db1 @
                                     [\<lparr>og_id = il_org_id lib k, og_display_name = organizationName,
                                       og_created_at = il_now lib k, og_retention = 90\<rparr>]\<rparr> in
                     case insert_membership lib k (il_org_id lib k) (us_id u) ''admin'' db2 of
                       Inl e \<Rightarrow> Inl (ErrSql e)
                     | Inr (m, db3) \<Rightarrow>
                         (case insert_password lib k (us_id u) hash db3 of
                            Inl e \<Rightarrow> Inl (ErrSql e)
                          | Inr db4 \<Rightarrow>
                              (case insert_session lib k digest (issued\<lparr>session_UserID := us_id u\<rparr>) db4 of
                                 Inl e \<Rightarrow> Inl (ErrSql e)
                               | Inr (stored, db5) \<Rightarrow>
                                   (case writeEvent (il_lower lib) (il_clock lib k) (il_event_id lib k)
                                           \<lparr>ev_Organization = [], ev_Actor = System ''deployment bootstrap'',
                                            ev_Action = ''local.bootstrap-completed'',
                                            ev_Target = \<lparr>target_Kind = ''user'',
                                                         target_ID = uuid_String (il_uuids lib) (us_id u)\<rparr>,
                                            ev_Outcome = OutcomeAllowed, ev_SourceAddress = sourceAddress,
                                            ev_RequestID = [], ev_OccurredAt = None, ev_Detail = []\<rparr> trail of
                                      Inl e \<Rightarrow> Inl e
                                    | Inr trail' \<Rightarrow> Inr ((user_of u, stored), db5, trail')))))))"

section \<open>Sign-in through an identity provider\<close>

text \<open>\<open>digest\<close> is the SHA-256 of the state. Starting a sign-in is a sweep and an insert.\<close>

definition nullableText :: "string \<Rightarrow> string option" where
  "nullableText s = (if s = [] then None else Some s)"

definition orEmptyText :: "string option \<Rightarrow> string" where
  "orEmptyText s = (case s of None \<Rightarrow> [] | Some txt \<Rightarrow> txt)"

definition expire_flows :: "identity_lib \<Rightarrow> nat \<Rightarrow> identity_db \<Rightarrow> identity_db" where
  "expire_flows lib k db = db\<lparr>id_flows := filter (\<lambda>f. \<not> fl_expires_at f \<le> il_now lib k) (id_flows db)\<rparr>"

definition insert_flow :: "DeploymentSignInFlow \<Rightarrow> bytes \<Rightarrow> identity_db \<Rightarrow> store_error + identity_db" where
  "insert_flow flow digest db =
     (if length digest \<noteq> 32 then Inl (ErrSql (CheckViolation ''oidc_sign_in_flow_state_digest_check''))
      else if digest \<in> fl_digest ` set (id_flows db) then Inl (ErrSql (UniqueViolation ''oidc_sign_in_flow_pkey''))
      else Inr (db\<lparr>id_flows := id_flows db @
                     [\<lparr>fl_digest = digest, fl_verifier = nullableText (flow_CodeVerifier flow),
                       fl_nonce = nullableText (flow_Nonce flow), fl_return_to = flow_ReturnTo flow,
                       fl_expires_at = flow_ExpiresAt flow\<rparr>]\<rparr>))"

definition RedeemDeploymentSignIn ::
  "identity_lib \<Rightarrow> nat \<Rightarrow> bytes \<Rightarrow> identity_db \<Rightarrow> store_error + DeploymentSignInFlow \<times> identity_db"
where
  "RedeemDeploymentSignIn lib k digest db =
     (let redeemed = (\<lambda>f. fl_digest f = digest \<and> il_now lib k < fl_expires_at f) in
      case List.find redeemed (id_flows db) of
        None \<Rightarrow> Inl ErrFlowUnknown
      | Some f \<Rightarrow>
          Inr (\<lparr>flow_CodeVerifier = orEmptyText (fl_verifier f), flow_Nonce = orEmptyText (fl_nonce f),
                flow_ReturnTo = fl_return_to f, flow_ExpiresAt = fl_expires_at f\<rparr>,
               db\<lparr>id_flows := filter (Not \<circ> redeemed) (id_flows db)\<rparr>))"

text \<open>
  The statement refreshes the user an issuer and a subject name; the membership is read from
  \<open>later\<close> afterwards. A disabled user is refreshed and refused.
\<close>

definition OIDCIdentity ::
  "Identity \<Rightarrow> identity_db \<Rightarrow> (identity_db \<Rightarrow> store_error + identity_db)
     \<Rightarrow> (store_error + User \<times> Membership) \<times> identity_db"
where
  "OIDCIdentity identity db later =
     (let named = (\<lambda>u. us_issuer u = identity_Issuer identity \<and> us_subject u = identity_Subject identity
                      \<and> us_id u \<in> ms_user ` set (id_memberships db));
          refresh = (\<lambda>u. u\<lparr>us_email := identity_Email identity, us_display_name := identity_DisplayName identity\<rparr>) in
      case List.find named (id_users db) of
        None \<Rightarrow> (Inl ErrLocalCredentialUnknown, db)
      | Some u \<Rightarrow>
          let db1 = db\<lparr>id_users := update_where named refresh (id_users db)\<rparr> in
          (if us_disabled_at u \<noteq> None then Inl ErrUserDisabled
           else (case membership_from (us_id u) (later db1) of
                   Inl ErrMembershipUnknown \<Rightarrow> Inl ErrLocalCredentialUnknown
                 | Inl e \<Rightarrow> Inl e
                 | Inr membership \<Rightarrow> Inr (user_of (refresh u), membership)), db1))"

end
