(* ===== verification/SignIn.thy ===== *)
theory SignIn
  imports IdentityStore
begin

text \<open>
  Who is calling and how they signed in (\<^verbatim>\<open>internal/auth/identity\<close>): the resolver behind the
  guard of every route, the sign-ins with a password and through an identity provider, the members
  and the policy of an organization. A handler is a function of the request and the world; before
  each of its calls to the database the others act. A decoded body is an argument, \<open>None\<close> where the
  decoder refuses it.
\<close>

section \<open>The environment\<close>

text \<open>
  By moment: random bytes and password salts, how a call to the database fared, what the other
  transactions did, whether a slot for a password check was free, and what the identity provider
  answers. \<open>ie_address\<close> is \<^verbatim>\<open>mail.ParseAddress\<close>, by the address it finds.
\<close>

record claims =
  cl_Issuer :: string
  cl_Subject :: string
  cl_Nonce :: string
  cl_Email :: string
  cl_Name :: string
  cl_PreferredName :: string

text \<open>What the provider's token endpoint and the verification of its identity token come to.\<close>

datatype token_answer = CodeRefused | NoIdentityToken | TokenUnverified | ClaimsInvalid | Asserted claims

record authorization =
  authz_URL :: string
  authz_State :: string
  authz_CodeVerifier :: string
  authz_Nonce :: string

datatype handler_error =
    StoreError store_error
  | MintFailed
  | PasswordRefused string
  | ErrProviderUnreachable
  | ErrTokenRefused

record identity_env =
  ie_lib :: identity_lib
  ie_urls :: url_lib
  ie_sha256 :: "string \<Rightarrow> bytes"
  ie_argon2 :: argon2
  ie_rfc3339 :: "instant \<Rightarrow> string"
  ie_address :: "string \<Rightarrow> string option"
  ie_random :: "nat \<Rightarrow> string option"
  ie_salt :: "nat \<Rightarrow> string option"
  ie_slot :: "nat \<Rightarrow> bool"
  ie_fate :: "nat \<Rightarrow> db_fate"
  ie_others :: "nat \<Rightarrow> identity_db \<times> audit_row list \<Rightarrow> identity_db \<times> audit_row list"
  ie_authorize :: "nat \<Rightarrow> handler_error + authorization"
  ie_exchange :: "nat \<Rightarrow> string \<Rightarrow> string \<Rightarrow> token_answer"
  ie_loopback :: "string \<Rightarrow> bool"
  ie_OIDCIssuer :: string
  ie_PublicURL :: string
  ie_Bootstrap :: bytes
  ie_SessionLifetime :: duration

record identity_world =
  iw_tick :: nat
  iw_db :: identity_db
  iw_trail :: "audit_row list"

text \<open>A request: what the handlers read of its headers beside the body.\<close>

record web_request =
  wq_Cookie :: string
  wq_Authorization :: string
  wq_RemoteAddr :: string
  wq_RequestID :: string

datatype cookie = SetCookie string instant | ClearCookie

record sessionView =
  sv_ID :: string
  sv_DisplayName :: string
  sv_Email :: string
  sv_OrganizationID :: string
  sv_OrganizationName :: string
  sv_Role :: string

record policyView =
  pv_SessionLifetimeSeconds :: int
  pv_AuditRetentionDays :: int
  pv_AuditRetentionEnforced :: bool

datatype web_body =
    NoBody
  | ErrorBody string
  | FlagBody string
  | SessionBody sessionView
  | MemberBody Member
  | MembersBody "Member list" string
  | PolicyBody policyView

record web_reply =
  wr_Status :: nat
  wr_Body :: web_body
  wr_Cookie :: "cookie option"
  wr_Location :: string

definition respond :: "nat \<Rightarrow> web_body \<Rightarrow> web_reply" where
  "respond status body = \<lparr>wr_Status = status, wr_Body = body, wr_Cookie = None, wr_Location = []\<rparr>"

definition with_cookie :: "cookie \<Rightarrow> web_reply \<Rightarrow> web_reply" where
  "with_cookie c r = r\<lparr>wr_Cookie := Some c\<rparr>"

section \<open>Calling the database\<close>

definition id_observe :: "identity_env \<Rightarrow> identity_world \<Rightarrow> identity_world" where
  "id_observe env w =
     (let (db, trail) = ie_others env (iw_tick w) (iw_db w, iw_trail w) in
      w\<lparr>iw_tick := iw_tick w + 1, iw_db := db, iw_trail := trail\<rparr>)"

definition id_read :: "identity_env \<Rightarrow> identity_world \<Rightarrow> (store_error + identity_db) \<times> identity_world" where
  "id_read env w =
     (let w1 = id_observe env w in
      (if ie_fate env (iw_tick w) \<noteq> Reported then Inl ErrDatabase else Inr (iw_db w1), w1))"

definition id_write ::
  "identity_env \<Rightarrow> (nat \<Rightarrow> identity_db \<times> audit_row list \<Rightarrow> store_error + 'a \<times> identity_db \<times> audit_row list)
     \<Rightarrow> identity_world \<Rightarrow> (store_error + 'a) \<times> identity_world"
where
  "id_write env f w =
     (let k = iw_tick w; w1 = id_observe env w in
      if ie_fate env k = Lost then (Inl ErrDatabase, w1)
      else (case f k (iw_db w1, iw_trail w1) of
              Inl e \<Rightarrow> (Inl e, w1)
            | Inr (v, db, trail) \<Rightarrow>
                (if ie_fate env k = Unreported then Inl ErrDatabase else Inr v,
                 w1\<lparr>iw_db := db, iw_trail := trail\<rparr>)))"

text \<open>A statement without a result, and one that leaves the trail alone.\<close>

definition no_result ::
  "(nat \<Rightarrow> 's \<Rightarrow> store_error + 's) \<Rightarrow> nat \<Rightarrow> 's \<Rightarrow> store_error + unit \<times> 's"
where
  "no_result f k s = (case f k s of Inl e \<Rightarrow> Inl e | Inr s' \<Rightarrow> Inr ((), s'))"

definition on_tables ::
  "(nat \<Rightarrow> identity_db \<Rightarrow> store_error + 'a \<times> identity_db) \<Rightarrow> nat \<Rightarrow> identity_db \<times> audit_row list
     \<Rightarrow> store_error + 'a \<times> identity_db \<times> audit_row list"
where
  "on_tables f k = (\<lambda>(db, trail). case f k db of Inl e \<Rightarrow> Inl e | Inr (v, db') \<Rightarrow> Inr (v, db', trail))"

section \<open>Errors\<close>

fun fail :: "handler_error \<Rightarrow> web_reply" where
  "fail (StoreError ErrNotAMember) = respond 404 (ErrorBody ''organization not found'')"
| "fail (StoreError ErrUnknownOrganization) = respond 404 (ErrorBody ''organization not found'')"
| "fail (StoreError ErrLocalCredentialUnknown) = respond 404 (ErrorBody ''local account not found'')"
| "fail (StoreError ErrLocalAccountExists) = respond 409 (ErrorBody ''local account already exists'')"
| "fail (StoreError ErrMembershipUnknown) = respond 404 (ErrorBody ''membership not found'')"
| "fail (StoreError ErrSessionUnknown) = respond 404 (ErrorBody ''session not found'')"
| "fail (StoreError ErrLastAdmin) =
     respond 409 (ErrorBody ''an organization must keep at least one admin; appoint another first'')"
| "fail ErrProviderUnreachable = respond 502 (ErrorBody ''the identity provider could not be reached'')"
| "fail (StoreError ErrBadCursor) = respond 400 (ErrorBody ''cursor is not a page position from a previous response'')"
| "fail (StoreError (ErrAuditFailed e)) = respond 503 (ErrorBody ''the change was refused because it could not be recorded'')"
| "fail _ = respond 500 (ErrorBody ''request failed'')"

abbreviation bad_body :: web_reply where
  "bad_body \<equiv> respond 400 (ErrorBody ''the body is not valid JSON'')"

abbreviation refused_sign_in :: "nat \<Rightarrow> web_reply" where
  "refused_sign_in status \<equiv> respond status (ErrorBody ''this sign-in cannot be completed'')"

section \<open>Who is calling\<close>

definition displayNameOf :: "uuid_lib \<Rightarrow> User \<Rightarrow> string" where
  "displayNameOf uuids user =
     (if TrimSpace (user_DisplayName user) \<noteq> [] then TrimSpace (user_DisplayName user)
      else if TrimSpace (user_Email user) \<noteq> [] then TrimSpace (user_Email user)
      else uuid_String uuids (user_ID user))"

text \<open>The errors of the resolver are those of the guard; a rejected credential is one without a reason.\<close>

abbreviation ErrCredentialRejected :: auth_error where
  "ErrCredentialRejected \<equiv> OtherAuthError"

definition no_principal :: Principal where
  "no_principal =
     \<lparr>pr_userID = uuid_Nil, pr_sessionID = uuid_Nil, pr_displayName = [],
      pr_membership = \<lparr>mem_Organization = uuid_Nil, mem_DisplayName = [], mem_Role = []\<rparr>,
      pr_sourceAddress = [], pr_requestID = [], pr_email = []\<rparr>"

definition session_by_token ::
  "identity_env \<Rightarrow> bytes \<Rightarrow> identity_world \<Rightarrow> (store_error + SignedIn) \<times> identity_world"
where
  "session_by_token env digest w =
     (case id_read env w of
        (Inl e, w1) \<Rightarrow> (Inl e, w1)
      | (Inr db, w1) \<Rightarrow>
          (SessionByToken (il_clock (ie_lib env) (iw_tick w1)) digest db (fst (id_read env w1)), snd (id_read env w1)))"

definition fromSession ::
  "identity_env \<Rightarrow> string \<Rightarrow> identity_world \<Rightarrow> (auth_error + Principal) \<times> identity_world"
where
  "fromSession env token w =
     (case session_by_token env (ie_sha256 env token) w of
        (Inl ErrSessionExpired, w1) \<Rightarrow> (Inl (Refusal ''session_expired''), w1)
      | (Inl ErrSessionUnknown, w1) \<Rightarrow> (Inl ErrCredentialRejected, w1)
      | (Inl e, w1) \<Rightarrow> (Inl ErrAuthenticationUnavailable, w1)
      | (Inr found, w1) \<Rightarrow>
          (case NewPrincipal (user_ID (signed_User found)) (session_ID (signed_Session found))
                  (displayNameOf (il_uuids (ie_lib env)) (signed_User found)) (user_Email (signed_User found))
                  (signed_Membership found) of
             Inl e \<Rightarrow> (Inl ErrCredentialRejected, w1)
           | Inr who \<Rightarrow> (Inr who, w1)))"

definition Resolve ::
  "identity_env \<Rightarrow> web_request \<Rightarrow> identity_world \<Rightarrow> (Principal \<times> auth_error option) \<times> identity_world"
where
  "Resolve env rq w =
     (if wq_Cookie rq = [] then ((no_principal, Some ErrNoCredential), w)
      else (case fromSession env (wq_Cookie rq) w of
              (Inl e, w1) \<Rightarrow> ((no_principal, Some e), w1)
            | (Inr who, w1) \<Rightarrow> ((WithRequest who (wq_RemoteAddr rq) (wq_RequestID rq), None), w1)))"

text \<open>\<^verbatim>\<open>Bearer\<close> is compared without case, which its letters share with no other rune.\<close>

definition bearerToken :: "string \<Rightarrow> string option" where
  "bearerToken header =
     (if length header \<le> 7 \<or> map lower_byte (take 7 header) \<noteq> ''bearer '' then None
      else let token = TrimSpace (drop 7 header) in if token = [] then None else Some token)"

section \<open>Issuing sessions\<close>

definition Issue :: "identity_env \<Rightarrow> uuid \<Rightarrow> nat \<Rightarrow> handler_error + string \<times> bytes \<times> Session" where
  "Issue env user k =
     (case ie_random env k of
        None \<Rightarrow> Inl MintFailed
      | Some raw \<Rightarrow>
          let token = EncodeToString raw in
          Inr (token, ie_sha256 env token,
               \<lparr>session_ID = uuid_Nil, session_UserID = user,
                session_ExpiresAt = il_clock (ie_lib env) k + ie_SessionLifetime env\<rparr>))"

definition prepareSession ::
  "identity_env \<Rightarrow> web_request \<Rightarrow> uuid \<Rightarrow> uuid \<Rightarrow> identity_world
     \<Rightarrow> (handler_error + string \<times> bytes \<times> Session \<times> Detail) \<times> identity_world"
where
  "prepareSession env rq organization user w =
     (let minted = (\<lambda>k. case Issue env user k of
                          Inl e \<Rightarrow> Inl e
                        | Inr (token, digest, issued) \<Rightarrow>
                            Inr (token, digest, issued,
                                 [(''expiresAt'', DString (ie_rfc3339 env (session_ExpiresAt issued))),
                                  (''requestId'', DString (wq_RequestID rq))])) in
      if organization = uuid_Nil then (minted (iw_tick w), w)
      else (case id_read env w of
              (Inl e, w1) \<Rightarrow> (Inl (StoreError e), w1)
            | (Inr db, w1) \<Rightarrow>
                (case OrganizationAuditRetention organization db of
                   Inl e \<Rightarrow> (Inl (StoreError e), w1)
                 | Inr days \<Rightarrow> (minted (iw_tick w1), w1))))"

definition issueSession ::
  "identity_env \<Rightarrow> web_request \<Rightarrow> uuid \<Rightarrow> User \<Rightarrow> string \<Rightarrow> identity_world
     \<Rightarrow> (handler_error + cookie) \<times> identity_world"
where
  "issueSession env rq organization user hash w =
     (case prepareSession env rq organization (user_ID user) w of
        (Inl e, w1) \<Rightarrow> (Inl e, w1)
      | (Inr (token, digest, issued, detail), w1) \<Rightarrow>
          let actor = \<lparr>actor_Kind = ActorUser, actor_ID = uuid_String (il_uuids (ie_lib env)) (user_ID user),
                       actor_DisplayName = displayNameOf (il_uuids (ie_lib env)) user\<rparr> in
          (case id_write env
                  (\<lambda>k s. if hash \<noteq> []
                         then IssueLocalSession (ie_lib env) k organization issued digest actor
                                (wq_RemoteAddr rq) detail hash s
                         else IssueSession (ie_lib env) k organization issued digest actor
                                (wq_RemoteAddr rq) detail s) w1 of
             (Inl e, w2) \<Rightarrow> (Inl (StoreError e), w2)
           | (Inr stored, w2) \<Rightarrow> (Inr (SetCookie token (session_ExpiresAt stored)), w2)))"

section \<open>Local accounts\<close>

definition localEmail :: "identity_env \<Rightarrow> string \<Rightarrow> web_reply + string" where
  "localEmail env raw =
     (let normalized = ToLower (il_lower (ie_lib env)) (TrimSpace raw) in
      if ie_address env normalized \<noteq> Some normalized \<or> length normalized > 320
      then Inl (respond 400 (ErrorBody ''email is not an address'')) else Inr normalized)"

definition Bootstrap_accepts :: "identity_env \<Rightarrow> string \<Rightarrow> bool" where
  "Bootstrap_accepts env presented \<longleftrightarrow>
     ie_Bootstrap env \<noteq> [] \<and> ie_sha256 env presented = ie_Bootstrap env"

definition chosen_name :: "string \<Rightarrow> string \<Rightarrow> string" where
  "chosen_name displayName email = (if TrimSpace displayName = [] then email else TrimSpace displayName)"

definition name_too_long :: web_reply where
  "name_too_long = respond 400 (ErrorBody ''displayName must be at most 256 characters'')"

definition hash_password :: "identity_env \<Rightarrow> nat \<Rightarrow> string \<Rightarrow> string + string" where
  "hash_password env k password = hashPassword (ie_argon2 env) (ie_salt env k) password"

record localBootstrapRequest =
  boot_OrganizationName :: string
  boot_Email :: string
  boot_DisplayName :: string
  boot_Password :: string

record localSignInRequest =
  signin_Email :: string
  signin_Password :: string

record memberCreationRequest =
  create_Email :: string
  create_DisplayName :: string
  create_Password :: string
  create_Role :: string

record localPasswordChangeRequest =
  change_CurrentPassword :: string
  change_NewPassword :: string

definition bootstrapLocalAdmin ::
  "identity_env \<Rightarrow> web_request \<Rightarrow> localBootstrapRequest option \<Rightarrow> identity_world \<Rightarrow> web_reply \<times> identity_world"
where
  "bootstrapLocalAdmin env rq body w =
     (case body of
        None \<Rightarrow> (bad_body, w)
      | Some b \<Rightarrow>
          (case bearerToken (wq_Authorization rq) of
             None \<Rightarrow> (respond 401 (ErrorBody ''credential rejected''), w)
           | Some presented \<Rightarrow>
               if \<not> Bootstrap_accepts env presented then (respond 401 (ErrorBody ''credential rejected''), w)
               else (case localEmail env (boot_Email b) of
                       Inl refusal \<Rightarrow> (refusal, w)
                     | Inr email \<Rightarrow>
                         let displayName = chosen_name (boot_DisplayName b) email;
                             organizationName = TrimSpace (boot_OrganizationName b) in
                         if length displayName > 256 then (name_too_long, w)
                         else if organizationName = [] \<or> length organizationName > 256
                         then (respond 400 (ErrorBody ''organizationName must be between 1 and 256 characters''), w)
                         else (case hash_password env (iw_tick w) (boot_Password b) of
                                 Inl e \<Rightarrow> (respond 400 (ErrorBody e), w)
                               | Inr encoded \<Rightarrow>
                                   (case prepareSession env rq uuid_Nil uuid_Nil w of
                                      (Inl e, w1) \<Rightarrow> (fail e, w1)
                                    | (Inr (token, digest, issued, detail), w1) \<Rightarrow>
                                        (case id_write env
                                                (\<lambda>k. BootstrapLocalUser (ie_lib env) k organizationName email displayName
                                                       encoded issued digest (wq_RemoteAddr rq)) w1 of
                                           (Inl ErrLocalBootstrapComplete, w2) \<Rightarrow>
                                             (respond 409 (ErrorBody ''a local administrator already exists''), w2)
                                         | (Inl e, w2) \<Rightarrow> (fail (StoreError e), w2)
                                         | (Inr created, w2) \<Rightarrow>
                                             (with_cookie (SetCookie token (session_ExpiresAt issued))
                                                (respond 201 (FlagBody ''bootstrapped'')), w2)))))))"

text \<open>A missing account costs a check against a fixed hash, so that it takes as long.\<close>

definition dummyPasswordHash :: "identity_env \<Rightarrow> string" where
  "dummyPasswordHash env =
     encodePassword (ie_argon2 env) ''password that is never accepted'' ''fixed timing salt''
       passwordMemory passwordIterations passwordParallelism"

definition local_identity ::
  "identity_env \<Rightarrow> string \<Rightarrow> identity_world \<Rightarrow> (store_error + LocalIdentity) \<times> identity_world"
where
  "local_identity env email w =
     (case id_read env w of
        (Inl e, w1) \<Rightarrow> (Inl e, w1)
      | (Inr db, w1) \<Rightarrow>
          (LocalIdentityByEmail (ie_lib env) email db (fst (id_read env w1)), snd (id_read env w1)))"

text \<open>The second half of a sign-in, after the password was found right for \<open>found\<close>.\<close>

definition sign_in_found ::
  "identity_env \<Rightarrow> web_request \<Rightarrow> LocalIdentity \<Rightarrow> identity_world \<Rightarrow> web_reply \<times> identity_world"
where
  "sign_in_found env rq found w =
     (case issueSession env rq (mem_Organization (local_Membership found)) (local_User found)
             (local_PasswordHash found) w of
        (Inl (StoreError ErrLocalCredentialUnknown), w1) \<Rightarrow> (refused_sign_in 403, w1)
      | (Inl e, w1) \<Rightarrow> (fail e, w1)
      | (Inr c, w1) \<Rightarrow> (with_cookie c (respond 200 (FlagBody ''signedIn'')), w1))"

definition rehash_found ::
  "identity_env \<Rightarrow> LocalIdentity \<Rightarrow> string \<Rightarrow> identity_world \<Rightarrow> (handler_error + LocalIdentity) \<times> identity_world"
where
  "rehash_found env found password w =
     (case hash_password env (iw_tick w) password of
        Inl e \<Rightarrow> (Inl (PasswordRefused e), w)
      | Inr replacement \<Rightarrow>
          (case id_write env
                  (on_tables (no_result (\<lambda>k. RehashLocalPassword (ie_lib env) k (user_ID (local_User found))
                                              (local_PasswordHash found) replacement))) w of
             (Inl e, w1) \<Rightarrow> (Inl (StoreError e), w1)
           | (Inr _, w1) \<Rightarrow> (Inr (found\<lparr>local_PasswordHash := replacement\<rparr>), w1)))"

text \<open>\<open>None\<close> is the panic of Argon2 on a stored hash that asks for no parallelism.\<close>

definition localSignIn ::
  "identity_env \<Rightarrow> web_request \<Rightarrow> localSignInRequest option \<Rightarrow> identity_world \<Rightarrow> web_reply option \<times> identity_world"
where
  "localSignIn env rq body w =
     (if \<not> ie_slot env (iw_tick w) then (Some (refused_sign_in 429), w)
      else (case body of
              None \<Rightarrow> (Some bad_body, w)
            | Some b \<Rightarrow>
                (case localEmail env (signin_Email b) of
                   Inl refusal \<Rightarrow> (Some refusal, w)
                 | Inr email \<Rightarrow>
                     (case local_identity env email w of
                        (answer, w1) \<Rightarrow>
                          if \<exists>e. answer = Inl e \<and> e \<noteq> ErrLocalCredentialUnknown \<and> e \<noteq> ErrUserDisabled
                          then (Some (fail (StoreError (projl answer))), w1)
                          else (case (verifyPassword (ie_argon2 env)
                                        (case answer of Inl _ \<Rightarrow> dummyPasswordHash env | Inr found \<Rightarrow> local_PasswordHash found)
                                        (signin_Password b), answer) of
                                  (Argon2Panics, _) \<Rightarrow> (None, w1)
                                | (Checked True rehash, Inr found) \<Rightarrow>
                                    if rehash
                                    then (case rehash_found env found (signin_Password b) w1 of
                                            (Inl e, w2) \<Rightarrow> (Some (fail e), w2)
                                          | (Inr found', w2) \<Rightarrow> apfst Some (sign_in_found env rq found' w2))
                                    else apfst Some (sign_in_found env rq found w1)
                                | _ \<Rightarrow> (Some (refused_sign_in 403), w1))))))"

definition createMember ::
  "identity_env \<Rightarrow> Principal \<Rightarrow> memberCreationRequest option \<Rightarrow> identity_world \<Rightarrow> web_reply \<times> identity_world"
where
  "createMember env who body w =
     (case body of
        None \<Rightarrow> (bad_body, w)
      | Some b \<Rightarrow>
          (case localEmail env (create_Email b) of
             Inl refusal \<Rightarrow> (refusal, w)
           | Inr email \<Rightarrow>
               let displayName = chosen_name (create_DisplayName b) email in
               if length displayName > 256 then (name_too_long, w)
               else (case ParseRole (create_Role b) of
                       (role, known) \<Rightarrow>
                         if \<not> known then (respond 400 (ErrorBody ''role must be admin, editor, or viewer''), w)
                         else (case hash_password env (iw_tick w) (create_Password b) of
                                 Inl e \<Rightarrow> (respond 400 (ErrorBody e), w)
                               | Inr encoded \<Rightarrow>
                                   (case id_write env
                                           (\<lambda>k. CreateLocalMember (ie_lib env) k who (Organization who) email displayName
                                                  encoded role) w of
                                      (Inl e, w1) \<Rightarrow> (fail (StoreError e), w1)
                                    | (Inr member, w1) \<Rightarrow> (respond 201 (MemberBody member), w1))))))"

abbreviation refused_change :: web_reply where
  "refused_change \<equiv> respond 403 (ErrorBody ''local password change refused'')"

definition changeLocalPassword ::
  "identity_env \<Rightarrow> Principal \<Rightarrow> localPasswordChangeRequest option \<Rightarrow> identity_world \<Rightarrow> web_reply option \<times> identity_world"
where
  "changeLocalPassword env who body w =
     (case body of
        None \<Rightarrow> (Some bad_body, w)
      | Some b \<Rightarrow>
          if change_CurrentPassword b = [] \<or> length (change_CurrentPassword b) > maxPasswordBytes
             \<or> length (change_NewPassword b) < minPasswordBytes \<or> length (change_NewPassword b) > maxPasswordBytes
          then (Some (respond 400 (ErrorBody ''invalid password length'')), w)
          else if \<not> ie_slot env (iw_tick w)
          then (Some (respond 429 (ErrorBody ''password check capacity reached'')), w)
          else (case id_read env w of
                  (Inl e, w1) \<Rightarrow> (Some (fail (StoreError e)), w1)
                | (Inr db, w1) \<Rightarrow>
                    (case LocalPasswordHash who db of
                       Inl ErrLocalCredentialUnknown \<Rightarrow> (Some refused_change, w1)
                     | Inl e \<Rightarrow> (Some (fail (StoreError e)), w1)
                     | Inr previous \<Rightarrow>
                         (case verifyPassword (ie_argon2 env) previous (change_CurrentPassword b) of
                            Argon2Panics \<Rightarrow> (None, w1)
                          | UnusableFormat \<Rightarrow> (Some refused_change, w1)
                          | Checked valid _ \<Rightarrow>
                              if \<not> valid then (Some refused_change, w1)
                              else (case hash_password env (iw_tick w1) (change_NewPassword b) of
                                      Inl e \<Rightarrow> (Some (fail (PasswordRefused e)), w1)
                                    | Inr replacement \<Rightarrow>
                                        (case id_write env
                                                (no_result (\<lambda>k. ChangeLocalPassword (ie_lib env) k who previous replacement)) w1 of
                                           (Inl ErrLocalCredentialUnknown, w2) \<Rightarrow> (Some refused_change, w2)
                                         | (Inl e, w2) \<Rightarrow> (Some (fail (StoreError e)), w2)
                                         | (Inr _, w2) \<Rightarrow> (Some (with_cookie ClearCookie (respond 204 NoBody)), w2)))))))"

text \<open>\<open>raw\<close> is what is read of the input, \<open>maxPasswordBytes + 3\<close> bytes at most.\<close>

definition trim_suffix :: "char \<Rightarrow> string \<Rightarrow> string" where
  "trim_suffix c s = (if s \<noteq> [] \<and> last s = c then butlast s else s)"

definition RecoverLocalPassword ::
  "identity_env \<Rightarrow> uuid \<Rightarrow> string option \<Rightarrow> identity_world \<Rightarrow> string option \<times> identity_world"
where
  "RecoverLocalPassword env user input w =
     (case input of
        None \<Rightarrow> (Some ''cannot read recovery password'', w)
      | Some txt \<Rightarrow>
          let password = trim_suffix CHR 0x0D (trim_suffix CHR 0x0A (take (maxPasswordBytes + 3) txt)) in
          if length password < minPasswordBytes \<or> length password > maxPasswordBytes
          then (Some ''recovery password must be between 12 and 1024 bytes'', w)
          else (case hash_password env (iw_tick w) password of
                  Inl e \<Rightarrow> (Some ''cannot prepare recovery password'', w)
                | Inr encoded \<Rightarrow>
                    (case id_write env (no_result (\<lambda>k. Store_RecoverLocalPassword (ie_lib env) k user encoded)) w of
                       (Inl ErrLocalCredentialUnknown, w1) \<Rightarrow>
                         (Some ''recovery requires an existing enabled local User'', w1)
                     | (Inl e, w1) \<Rightarrow> (Some ''password recovery failed; no credential change was confirmed'', w1)
                     | (Inr _, w1) \<Rightarrow> (None, w1))))"

section \<open>Sign-in through an identity provider\<close>

definition claims_displayName :: "claims \<Rightarrow> string" where
  "claims_displayName c =
     (if TrimSpace (cl_Name c) \<noteq> [] then TrimSpace (cl_Name c)
      else if TrimSpace (cl_PreferredName c) \<noteq> [] then TrimSpace (cl_PreferredName c)
      else (case Cut CHR ''@'' (cl_Email c) of
              Some (local, _) \<Rightarrow> if local \<noteq> [] then local else cl_Subject c
            | None \<Rightarrow> cl_Subject c))"

text \<open>\<open>ie_loopback\<close> is what \<^verbatim>\<open>net.ParseIP\<close> says of an address that is not \<^verbatim>\<open>localhost\<close>.\<close>

definition isLoopback :: "identity_env \<Rightarrow> string \<Rightarrow> bool" where
  "isLoopback env host \<longleftrightarrow> host = ''localhost'' \<or> ie_loopback env host"

definition usableIssuer :: "identity_env \<Rightarrow> string \<Rightarrow> bool" where
  "usableIssuer env issuer \<longleftrightarrow>
     (case parseURL (ie_urls env) issuer of
        None \<Rightarrow> False
      | Some u \<Rightarrow> u_Host u \<noteq> [] \<and> (u_Scheme u = ''https'' \<or> u_Scheme u = ''http'' \<and> isLoopback env (u_Hostname u)))"

definition OIDC_Authorize :: "identity_env \<Rightarrow> nat \<Rightarrow> handler_error + authorization" where
  "OIDC_Authorize env k = (if usableIssuer env (ie_OIDCIssuer env) then ie_authorize env k else Inl ErrProviderUnreachable)"

text \<open>A code is exchanged for claims that answer this very sign-in, by its nonce.\<close>

definition OIDC_Exchange :: "identity_env \<Rightarrow> nat \<Rightarrow> string \<Rightarrow> string \<Rightarrow> string \<Rightarrow> handler_error + claims" where
  "OIDC_Exchange env k code verifier nonce =
     (if \<not> usableIssuer env (ie_OIDCIssuer env) then Inl ErrProviderUnreachable
      else (case ie_exchange env k code verifier of
              Asserted c \<Rightarrow> if cl_Nonce c \<noteq> nonce \<or> TrimSpace (cl_Subject c) = [] then Inl ErrTokenRefused else Inr c
            | _ \<Rightarrow> Inl ErrTokenRefused))"

definition returnTarget :: "identity_env \<Rightarrow> string \<Rightarrow> string option" where
  "returnTarget env asked =
     (if asked = [] then Some ''/''
      else if \<not> HasPrefix asked ''/'' \<or> HasPrefix asked ''//'' \<or> CHR 0x5C \<in> set asked \<or> length asked > 512 then None
      else (case parseURL (ie_urls env) asked of
              None \<Rightarrow> None
            | Some u \<Rightarrow> if u_Scheme u \<noteq> [] \<or> u_Host u \<noteq> [] then None else Some asked))"

definition TrimSuffix :: "char \<Rightarrow> string \<Rightarrow> string" where
  "TrimSuffix c s = trim_suffix c s"

definition consoleTarget :: "identity_env \<Rightarrow> string \<Rightarrow> string" where
  "consoleTarget env returnTo = TrimSuffix CHR ''/'' (ie_PublicURL env) @ (if returnTo = [] then ''/'' else returnTo)"

abbreviation flowLifetime :: duration where
  "flowLifetime \<equiv> 10 * Minute"

definition redirect :: "string \<Rightarrow> web_reply" where
  "redirect location = \<lparr>wr_Status = 302, wr_Body = NoBody, wr_Cookie = None, wr_Location = location\<rparr>"

definition StartDeploymentSignIn ::
  "identity_env \<Rightarrow> DeploymentSignInFlow \<Rightarrow> string \<Rightarrow> identity_world \<Rightarrow> (store_error + unit) \<times> identity_world"
where
  "StartDeploymentSignIn env flow state w =
     (case id_write env (on_tables (\<lambda>k db. Inr ((), expire_flows (ie_lib env) k db))) w of
        (Inl e, w1) \<Rightarrow> (Inl e, w1)
      | (Inr _, w1) \<Rightarrow> id_write env (on_tables (no_result (\<lambda>k. insert_flow flow (ie_sha256 env state)))) w1)"

definition startDeploymentOIDCSignIn :: "identity_env \<Rightarrow> string \<Rightarrow> identity_world \<Rightarrow> web_reply \<times> identity_world" where
  "startDeploymentOIDCSignIn env asked w =
     (if TrimSpace (ie_OIDCIssuer env) = [] then (respond 404 (ErrorBody ''no way in is configured here''), w)
      else (case returnTarget env asked of
              None \<Rightarrow> (respond 400 (ErrorBody ''returnTo must be a path on this site''), w)
            | Some returnTo \<Rightarrow>
                (case OIDC_Authorize env (iw_tick w) of
                   Inl e \<Rightarrow> (fail e, w)
                 | Inr a \<Rightarrow>
                     (case StartDeploymentSignIn env
                             \<lparr>flow_CodeVerifier = authz_CodeVerifier a, flow_Nonce = authz_Nonce a, flow_ReturnTo = returnTo,
                              flow_ExpiresAt = il_clock (ie_lib env) (iw_tick w) + flowLifetime\<rparr> (authz_State a) w of
                        (Inl e, w1) \<Rightarrow> (fail (StoreError e), w1)
                      | (Inr _, w1) \<Rightarrow> (redirect (authz_URL a), w1)))))"

definition oidc_identity ::
  "identity_env \<Rightarrow> Identity \<Rightarrow> identity_world \<Rightarrow> (store_error + User \<times> Membership) \<times> identity_world"
where
  "oidc_identity env identity w =
     (let k = iw_tick w; w1 = id_observe env w;
          (answer, db) = OIDCIdentity identity (iw_db w1) (\<lambda>db. fst (id_read env (w1\<lparr>iw_db := db\<rparr>))) in
      if ie_fate env k = Lost then (Inl ErrDatabase, w1)
      else if ie_fate env k = Unreported then (Inl ErrDatabase, w1\<lparr>iw_db := db\<rparr>)
      else (answer, snd (id_read env (w1\<lparr>iw_db := db\<rparr>))))"

definition completeDeploymentOIDCSignIn ::
  "identity_env \<Rightarrow> web_request \<Rightarrow> string \<Rightarrow> string \<Rightarrow> identity_world \<Rightarrow> web_reply \<times> identity_world"
where
  "completeDeploymentOIDCSignIn env rq state code w =
     (if state = [] \<or> code = [] then (respond 400 (ErrorBody ''this is not a sign-in''), w)
      else (case id_write env (on_tables (\<lambda>k. RedeemDeploymentSignIn (ie_lib env) k (ie_sha256 env state))) w of
              (Inl e, w1) \<Rightarrow> (refused_sign_in 400, w1)
            | (Inr flow, w1) \<Rightarrow>
                (case OIDC_Exchange env (iw_tick w1) code (flow_CodeVerifier flow) (flow_Nonce flow) of
                   Inl e \<Rightarrow> (refused_sign_in 403, w1)
                 | Inr asserted \<Rightarrow>
                     (case oidc_identity env
                             \<lparr>identity_Issuer = cl_Issuer asserted, identity_Subject = cl_Subject asserted,
                              identity_Email = cl_Email asserted, identity_DisplayName = claims_displayName asserted\<rparr> w1 of
                        (Inl e, w2) \<Rightarrow>
                          (if e = ErrLocalCredentialUnknown \<or> e = ErrUserDisabled then refused_sign_in 403
                           else fail (StoreError e), w2)
                      | (Inr (user, membership), w2) \<Rightarrow>
                          (case issueSession env rq (mem_Organization membership) user [] w2 of
                             (Inl e, w3) \<Rightarrow> (fail e, w3)
                           | (Inr c, w3) \<Rightarrow> (with_cookie c (redirect (consoleTarget env (flow_ReturnTo flow))), w3))))))"

section \<open>Sessions, members and policy\<close>

definition sessionViewOf :: "uuid_lib \<Rightarrow> Principal \<Rightarrow> sessionView" where
  "sessionViewOf uuids who =
     \<lparr>sv_ID = uuid_String uuids (pr_userID who), sv_DisplayName = pr_displayName who, sv_Email = pr_email who,
      sv_OrganizationID = uuid_String uuids (Organization who),
      sv_OrganizationName = mem_DisplayName (pr_membership who), sv_Role = mem_Role (pr_membership who)\<rparr>"

definition session_handler :: "identity_env \<Rightarrow> Principal \<Rightarrow> web_reply" where
  "session_handler env who = respond 200 (SessionBody (sessionViewOf (il_uuids (ie_lib env)) who))"

definition signOut :: "identity_env \<Rightarrow> Principal \<Rightarrow> identity_world \<Rightarrow> web_reply \<times> identity_world" where
  "signOut env who w =
     (let out = respond 200 (FlagBody ''signedOut'') in
      if IsEmpty who then (out, w)
      else (case id_write env (no_result (\<lambda>k. DeleteCurrentSession (ie_lib env) k who)) w of
              (Inl ErrSessionUnknown, w1) \<Rightarrow> (out, w1)
            | (Inl e, w1) \<Rightarrow> (fail (StoreError e), w1)
            | (Inr _, w1) \<Rightarrow> (out, w1)))"

text \<open>The cookie is cleared whatever becomes of the session. A refusal counts as a rejection.\<close>

definition protectSignOut ::
  "identity_env \<Rightarrow> string \<Rightarrow> request \<Rightarrow> web_request \<Rightarrow> identity_world \<Rightarrow> web_reply \<times> identity_world"
where
  "protectSignOut env origin request rq w =
     (if \<not> CookieOriginAllowed (ie_urls env) request origin
      then (respond 403 (ErrorBody ''request origin is not allowed''), w)
      else apfst (with_cookie ClearCookie)
        (case Resolve env rq w of
           ((who, err), w1) \<Rightarrow>
             (case err of
                Some ErrAuthenticationUnavailable \<Rightarrow> (respond 503 (ErrorBody ''authentication unavailable''), w1)
              | Some _ \<Rightarrow> signOut env no_principal w1
              | None \<Rightarrow> if IsEmpty who then (respond 503 (ErrorBody ''authentication unavailable''), w1)
                        else signOut env who w1)))"

definition listMembers ::
  "identity_env \<Rightarrow> Principal \<Rightarrow> Page \<Rightarrow> identity_world \<Rightarrow> web_reply \<times> identity_world"
where
  "listMembers env who page w =
     (case id_read env w of
        (Inl e, w1) \<Rightarrow> (fail (StoreError e), w1)
      | (Inr db, w1) \<Rightarrow>
          (case ListMembers (il_uuids (ie_lib env)) who (Organization who) page db of
             Inl e \<Rightarrow> (fail (StoreError e), w1)
           | Inr (members, next) \<Rightarrow> (respond 200 (MembersBody members next), w1)))"

definition path_identifier :: "uuid_lib \<Rightarrow> string \<Rightarrow> web_reply + uuid" where
  "path_identifier uuids segment =
     (case uuid_Parse uuids segment of
        None \<Rightarrow> Inl (respond 400 (ErrorBody ''user is not an identity''))
      | Some u \<Rightarrow> Inr u)"

definition setMember ::
  "identity_env \<Rightarrow> (identity_db \<Rightarrow> identity_db) \<Rightarrow> Principal \<Rightarrow> string \<Rightarrow> string option \<Rightarrow> identity_world
     \<Rightarrow> web_reply \<times> identity_world"
where
  "setMember env between who segment body w =
     (case path_identifier (il_uuids (ie_lib env)) segment of
        Inl refusal \<Rightarrow> (refusal, w)
      | Inr user \<Rightarrow>
          (case body of
             None \<Rightarrow> (bad_body, w)
           | Some asked \<Rightarrow>
               (case ParseRole asked of
                  (role, known) \<Rightarrow>
                    if \<not> known then (respond 400 (ErrorBody ''role is not one this build has''), w)
                    else (case id_write env
                                 (\<lambda>k. UpdateMembership (ie_lib env) between k who (Organization who) user role) w of
                            (Inl e, w1) \<Rightarrow> (fail (StoreError e), w1)
                          | (Inr member, w1) \<Rightarrow> (respond 200 (MemberBody member), w1)))))"

definition removeMember ::
  "identity_env \<Rightarrow> (identity_db \<Rightarrow> identity_db) \<Rightarrow> Principal \<Rightarrow> string \<Rightarrow> identity_world \<Rightarrow> web_reply \<times> identity_world"
where
  "removeMember env between who segment w =
     (case path_identifier (il_uuids (ie_lib env)) segment of
        Inl refusal \<Rightarrow> (refusal, w)
      | Inr user \<Rightarrow>
          (case id_write env (\<lambda>k. RemoveMembership (ie_lib env) between k who (Organization who) user) w of
             (Inl e, w1) \<Rightarrow> (fail (StoreError e), w1)
           | (Inr _, w1) \<Rightarrow> (respond 204 NoBody, w1)))"

definition policy_view :: "identity_env \<Rightarrow> int \<Rightarrow> policyView" where
  "policy_view env days =
     \<lparr>pv_SessionLifetimeSeconds = ie_SessionLifetime env div Second, pv_AuditRetentionDays = days,
      pv_AuditRetentionEnforced = True\<rparr>"

definition readPolicy :: "identity_env \<Rightarrow> Principal \<Rightarrow> identity_world \<Rightarrow> web_reply \<times> identity_world" where
  "readPolicy env who w =
     (case id_read env w of
        (Inl e, w1) \<Rightarrow> (fail (StoreError e), w1)
      | (Inr db, w1) \<Rightarrow>
          (case OrganizationAuditRetention (Organization who) db of
             Inl e \<Rightarrow> (fail (StoreError e), w1)
           | Inr days \<Rightarrow> (respond 200 (PolicyBody (policy_view env days)), w1)))"

definition writePolicy ::
  "identity_env \<Rightarrow> Principal \<Rightarrow> int option \<Rightarrow> identity_world \<Rightarrow> web_reply \<times> identity_world"
where
  "writePolicy env who body w =
     (case body of
        None \<Rightarrow> (bad_body, w)
      | Some days \<Rightarrow>
          if days < 0 then (respond 400 (ErrorBody ''auditRetentionDays must not be negative''), w)
          else (case id_write env
                       (\<lambda>k. SetOrganizationAuditRetention (ie_lib env) k who (Organization who) days) w of
                  (Inl e, w1) \<Rightarrow> (fail (StoreError e), w1)
                | (Inr _, w1) \<Rightarrow> (respond 200 (PolicyBody (policy_view env days)), w1)))"

text \<open>The guard of every route resolves its caller here.\<close>

definition identity_guard :: "identity_env \<Rightarrow> web_request \<Rightarrow> identity_world \<Rightarrow> string \<Rightarrow> Guard" where
  "identity_guard env rq w origin =
     \<lparr>g_Resolve = (\<lambda>request. fst (Resolve env rq w)), g_Record = True, g_Origin = origin\<rparr>"

end
