(* ===== verification/IdentityProperties.thy ===== *)
theory IdentityProperties
  imports SignIn
begin

text \<open>
  What sign-in and sessions guarantee: the steps of the identity tables and what they keep, whom a
  route is served to, what a sign-in with a password proves, what changing one ends, and the guard
  of the last administrator.
\<close>

section \<open>Steps\<close>

text \<open>
  Every transaction on the identity tables. The writing halves of a role change and of a removal
  are steps of their own: their guards have read an earlier state.
\<close>

inductive identity_step :: "identity_lib \<Rightarrow> identity_db \<Rightarrow> identity_db \<Rightarrow> bool" for lib where
  issue: "issueSessionIn lib k organization issued digest actor addr detail (db, trail) = Inr (stored, db', trail')
    \<Longrightarrow> identity_step lib db db'"
| sign_out: "DeleteCurrentSession lib k who (db, trail) = Inr (db', trail') \<Longrightarrow> identity_step lib db db'"
| prune_sessions: "PruneSessions now locked db = (n, db') \<Longrightarrow> identity_step lib db db'"
| replace: "replaceLocalPassword lib k user previous replacement event (db, trail) = Inr (db', trail')
    \<Longrightarrow> identity_step lib db db'"
| rehash: "RehashLocalPassword lib k user previous replacement db = Inr db' \<Longrightarrow> identity_step lib db db'"
| change_role: "identity_step lib db (write_role organization user role db)"
| remove_member: "identity_step lib db (delete_membership organization user db)"
| create: "create_local_member lib k organization email name hash role db = Inr (member, target, detail, db')
    \<Longrightarrow> identity_step lib db db'"
| policy: "set_retention lib organization days db = Inr (u, target, detail, db') \<Longrightarrow> identity_step lib db db'"
| bootstrap: "BootstrapLocalUser lib k organizationName email name hash issued digest addr (db, trail)
      = Inr (created, db', trail') \<Longrightarrow> identity_step lib db db'"
| expire: "identity_step lib db (expire_flows lib k db)"
| flow: "insert_flow f digest db = Inr db' \<Longrightarrow> identity_step lib db db'"
| redeem: "RedeemDeploymentSignIn lib k digest db = Inr (f, db') \<Longrightarrow> identity_step lib db db'"
| provider: "OIDCIdentity identity db later = (answer, db') \<Longrightarrow> identity_step lib db db'"

text \<open>The foreign keys to the users hold, no user goes, and a user without a membership gets none.\<close>

definition identity_inv :: "identity_db \<Rightarrow> bool" where
  "identity_inv db \<longleftrightarrow>
     ms_user ` set (id_memberships db) \<union> pw_user ` set (id_passwords db) \<union> se_user ` set (id_sessions db)
       \<subseteq> us_id ` set (id_users db)"

definition identity_evolves :: "identity_db \<Rightarrow> identity_db \<Rightarrow> bool" where
  "identity_evolves db db' \<longleftrightarrow>
     us_id ` set (id_users db) \<subseteq> us_id ` set (id_users db')
     \<and> (\<forall>user \<in> us_id ` set (id_users db).
          user \<notin> ms_user ` set (id_memberships db) \<longrightarrow> user \<notin> ms_user ` set (id_memberships db'))"

definition identity_keeps :: "identity_db \<Rightarrow> identity_db \<Rightarrow> bool" where
  "identity_keeps db db' \<longleftrightarrow> (identity_inv db \<longrightarrow> identity_inv db') \<and> identity_evolves db db'"

text \<open>The same over sets of identifiers, on which the prover is quick.\<close>

definition keeps_sets :: "uuid set \<Rightarrow> uuid set \<Rightarrow> uuid set \<Rightarrow> uuid set \<Rightarrow> uuid set \<Rightarrow> uuid set \<Rightarrow> bool" where
  "keeps_sets U M O1 U' M' O2 \<longleftrightarrow> (M \<union> O1 \<subseteq> U \<longrightarrow> M' \<union> O2 \<subseteq> U') \<and> U \<subseteq> U' \<and> (\<forall>u \<in> U. u \<notin> M \<longrightarrow> u \<notin> M')"

lemma identity_keeps_sets:
  "identity_keeps db db' \<longleftrightarrow>
     keeps_sets (us_id ` set (id_users db)) (ms_user ` set (id_memberships db))
       (pw_user ` set (id_passwords db) \<union> se_user ` set (id_sessions db))
       (us_id ` set (id_users db')) (ms_user ` set (id_memberships db'))
       (pw_user ` set (id_passwords db') \<union> se_user ` set (id_sessions db'))"
  unfolding identity_keeps_def identity_inv_def identity_evolves_def keeps_sets_def by (simp only: Un_assoc)

lemma keeps_sets_same: "M' \<subseteq> M \<Longrightarrow> O2 \<subseteq> O1 \<union> U \<Longrightarrow> keeps_sets U M O1 U M' O2"
  by (auto simp: keeps_sets_def)

lemma keeps_sets_new: "i \<notin> U \<Longrightarrow> O2 \<subseteq> insert i O1 \<Longrightarrow> keeps_sets U M O1 (insert i U) (insert i M) O2"
  by (auto simp: keeps_sets_def)

lemma keeps_sets_trans: "keeps_sets U M O1 U' M' O2 \<Longrightarrow> keeps_sets U' M' O2 U'' M'' O3 \<Longrightarrow> keeps_sets U M O1 U'' M'' O3"
  by (auto simp: keeps_sets_def)

lemma keeps_users:
  assumes "us_id ` set (id_users db') = us_id ` set (id_users db)"
    and "ms_user ` set (id_memberships db') \<subseteq> ms_user ` set (id_memberships db)"
    and "pw_user ` set (id_passwords db') \<subseteq> pw_user ` set (id_passwords db)"
    and "se_user ` set (id_sessions db') \<subseteq> se_user ` set (id_sessions db) \<union> us_id ` set (id_users db)"
  shows "identity_keeps db db'"
proof -
  have "A \<subseteq> B \<Longrightarrow> X \<subseteq> Y \<union> U \<Longrightarrow> A \<union> X \<subseteq> (B \<union> Y) \<union> U" for A B X Y U :: "uuid set" by auto
  from keeps_sets_same [OF assms(2) this [OF assms(3,4)]] show ?thesis unfolding identity_keeps_sets assms(1) .
qed

lemma keeps_new_user:
  assumes "us_id ` set (id_users db') = insert i (us_id ` set (id_users db))" "i \<notin> us_id ` set (id_users db)"
    and "ms_user ` set (id_memberships db') = insert i (ms_user ` set (id_memberships db))"
    and "pw_user ` set (id_passwords db') = insert i (pw_user ` set (id_passwords db))"
    and "se_user ` set (id_sessions db') \<subseteq> insert i (se_user ` set (id_sessions db))"
  shows "identity_keeps db db'"
proof -
  have "X \<subseteq> insert i Y \<Longrightarrow> insert i P \<union> X \<subseteq> insert i (P \<union> Y)" for X Y P :: "uuid set" by auto
  from keeps_sets_new [OF assms(2) this [OF assms(5)]] show ?thesis unfolding identity_keeps_sets assms(1,3,4) .
qed

lemma update_where_keys: "(\<And>r. k (f r) = k r) \<Longrightarrow> k ` set (update_where p f t) = k ` set t"
  by (metis map_update_where set_map)

lemma checked_update_keys:
  assumes "checked_update checks p f t = Inr t'" "\<And>r. k (f r) = k r"
  shows "k ` set t' = k ` set t"
  using assms by (auto simp: checked_update_Inr update_where_keys)

lemma insert_session_Inr:
  assumes "insert_session lib k digest issued db = Inr (stored, db')"
  shows "db' = db\<lparr>id_sessions := id_sessions db @
           [\<lparr>se_id = session_ID stored, se_digest = digest, se_user = session_UserID issued,
             se_expires_at = session_ExpiresAt issued\<rparr>]\<rparr>
    \<and> session_UserID issued \<in> us_id ` set (id_users db) \<and> session_ExpiresAt stored = session_ExpiresAt issued"
  using assms by (auto simp: insert_session_def split: if_splits)

lemma issueSessionIn_Inr:
  assumes "issueSessionIn lib k organization issued digest actor addr detail (db, trail) = Inr (stored, db', trail')"
  shows "insert_session lib k digest issued db = Inr (stored, db')"
  using assms by (auto simp: issueSessionIn_def split: sum.splits)

lemma insert_user_Inr:
  assumes "insert_user lib k issuer email name db = Inr (u, db')"
  shows "db' = db\<lparr>id_users := id_users db @ [u]\<rparr> \<and> us_id u \<notin> us_id ` set (id_users db)"
  using assms by (auto simp: insert_user_def Let_def split: if_splits)

lemma insert_membership_Inr:
  assumes "insert_membership lib k organization user role db = Inr (m, db')"
  shows "db' = db\<lparr>id_memberships := id_memberships db @ [m]\<rparr> \<and> ms_user m = user"
  using assms by (auto simp: insert_membership_def Let_def split: if_splits)

lemma insert_password_Inr:
  assumes "insert_password lib k user hash db = Inr db'"
  shows "\<exists>p. db' = db\<lparr>id_passwords := id_passwords db @ [p]\<rparr> \<and> pw_user p = user"
  using assms by (auto simp: insert_password_def Let_def split: option.splits if_splits)

lemma replaceLocalPassword_Inr:
  assumes "replaceLocalPassword lib k user previous replacement event (db, trail) = Inr (db', trail')"
  shows "\<exists>passwords. db' = db\<lparr>id_passwords := passwords, id_sessions := filter (\<lambda>s. se_user s \<noteq> user) (id_sessions db)\<rparr>
    \<and> checked_update password_checks
        (\<lambda>r. pw_user r = user \<and> (previous = None \<or> Some (pw_hash r) = previous) \<and> enabled_local user db)
        (\<lambda>r. r\<lparr>pw_hash := replacement, pw_changed_at := il_now lib k\<rparr>) (id_passwords db) = Inr passwords
    \<and> rows_affected (\<lambda>r. pw_user r = user \<and> (previous = None \<or> Some (pw_hash r) = previous) \<and> enabled_local user db)
        (id_passwords db) = 1"
  using assms by (auto simp: replaceLocalPassword_def Let_def split: sum.splits if_splits)

lemma create_local_member_Inr:
  assumes "create_local_member lib k organization email name hash role db = Inr (member, target, detail, db')"
  shows "\<exists>u p m. db' = db\<lparr>id_users := id_users db @ [u], id_passwords := id_passwords db @ [p],
        id_memberships := id_memberships db @ [m]\<rparr>
    \<and> us_id u \<notin> us_id ` set (id_users db) \<and> pw_user p = us_id u \<and> ms_user m = us_id u"
  using assms unfolding create_local_member_def Let_def
  by (auto split: sum.splits sql_error.splits dest!: insert_user_Inr insert_password_Inr insert_membership_Inr) blast

lemma BootstrapLocalUser_Inr:
  assumes "BootstrapLocalUser lib k organizationName email name hash issued digest addr (db, trail)
    = Inr (created, db', trail')"
  shows "\<exists>u g p m s. id_users db = [] \<and> db' = db\<lparr>id_users := [u], id_organizations := id_organizations db @ [g],
        id_memberships := id_memberships db @ [m], id_passwords := id_passwords db @ [p],
        id_sessions := id_sessions db @ [s]\<rparr>
    \<and> pw_user p = us_id u \<and> ms_user m = us_id u \<and> se_user s = us_id u"
proof -
  have empty: "id_users db = []" using assms by (auto simp: BootstrapLocalUser_def Let_def split: if_splits)
  with assms obtain u db1 g m db3 db4 stored where
      u: "insert_user lib k LocalIssuer (ToLower (il_lower lib) (TrimSpace email)) name db = Inr (u, db1)"
    and m: "insert_membership lib k (il_org_id lib k) (us_id u) ''admin'' (db1\<lparr>id_organizations := id_organizations db1 @ [g]\<rparr>)
        = Inr (m, db3)"
    and p: "insert_password lib k (us_id u) hash db3 = Inr db4"
    and s: "insert_session lib k digest (issued\<lparr>session_UserID := us_id u\<rparr>) db4 = Inr (stored, db')"
    by (auto simp: BootstrapLocalUser_def Let_def split: sum.splits if_splits)
  from insert_password_Inr [OF p] obtain q where q: "db4 = db3\<lparr>id_passwords := id_passwords db3 @ [q]\<rparr>" "pw_user q = us_id u"
    by blast
  show ?thesis
    using insert_user_Inr [OF u] insert_membership_Inr [OF m] insert_session_Inr [OF s] q empty
    by (intro exI [of _ u] exI [of _ g] exI [of _ q] exI [of _ m] exI [of _ "last (id_sessions db')"]) simp
qed

lemma identity_step_keeps: "identity_step lib db db' \<Longrightarrow> identity_keeps db db'"
proof (induction rule: identity_step.induct)
  case (issue k organization issued digest actor addr detail db trail stored db' trail')
  from insert_session_Inr [OF issueSessionIn_Inr [OF issue]] show ?case by (auto intro!: keeps_users)
next
  case (sign_out k who db trail db' trail')
  then show ?case by (auto simp: DeleteCurrentSession_def Let_def split: if_splits sum.splits intro!: keeps_users)
next
  case (prune_sessions now locked db n db')
  then show ?case by (auto simp: PruneSessions_def Let_def intro!: keeps_users)
next
  case (replace k user previous replacement event db trail db' trail')
  from replaceLocalPassword_Inr [OF this] obtain passwords p f where
    "db' = db\<lparr>id_passwords := passwords, id_sessions := filter (\<lambda>s. se_user s \<noteq> user) (id_sessions db)\<rparr>"
    "checked_update password_checks p (\<lambda>r. r\<lparr>pw_hash := replacement, pw_changed_at := il_now lib k\<rparr>) (id_passwords db)
       = Inr passwords" by blast
  with checked_update_keys [OF this(2), of pw_user] show ?case by (auto intro!: keeps_users)
next
  case (rehash k user previous replacement db db')
  then obtain passwords where db': "db' = db\<lparr>id_passwords := passwords\<rparr>" and upd: "checked_update password_checks
      (\<lambda>r. pw_user r = user \<and> pw_hash r = previous \<and> user \<in> ms_user ` set (id_memberships db))
      (\<lambda>r. r\<lparr>pw_hash := replacement, pw_changed_at := il_now lib k\<rparr>) (id_passwords db) = Inr passwords"
    by (auto simp: RehashLocalPassword_def split: sum.splits)
  from checked_update_keys [OF upd, of pw_user] db' show ?case by (auto intro!: keeps_users)
next
  case (change_role db organization user role)
  then show ?case by (intro keeps_users) (simp_all add: write_role_def update_where_keys)
next
  case (remove_member db organization user)
  then show ?case by (auto simp: delete_membership_def intro!: keeps_users)
next
  case (create k organization email name hash role db member target detail db')
  from create_local_member_Inr [OF this] obtain u p m where
    "db' = db\<lparr>id_users := id_users db @ [u], id_passwords := id_passwords db @ [p], id_memberships := id_memberships db @ [m]\<rparr>"
    "us_id u \<notin> us_id ` set (id_users db)" "pw_user p = us_id u" "ms_user m = us_id u" by blast
  then show ?case by (intro keeps_new_user [where i = "us_id u"]) auto
next
  case (policy organization days db u target detail db')
  then show ?case by (auto simp: set_retention_def Let_def split: if_splits sum.splits intro!: keeps_users)
next
  case (bootstrap k organizationName email name hash issued digest addr db trail created db' trail')
  from BootstrapLocalUser_Inr [OF this] obtain u g p m s where "id_users db = []"
    "db' = db\<lparr>id_users := [u], id_organizations := id_organizations db @ [g], id_memberships := id_memberships db @ [m],
        id_passwords := id_passwords db @ [p], id_sessions := id_sessions db @ [s]\<rparr>"
    "pw_user p = us_id u" "ms_user m = us_id u" "se_user s = us_id u" by blast
  then show ?case by (intro keeps_new_user [where i = "us_id u"]) simp_all
next
  case (expire db k)
  then show ?case by (auto simp: expire_flows_def intro!: keeps_users)
next
  case (flow f digest db db')
  then show ?case by (auto simp: insert_flow_def split: if_splits intro!: keeps_users)
next
  case (redeem k digest db f db')
  then show ?case by (auto simp: RedeemDeploymentSignIn_def Let_def split: option.splits intro!: keeps_users)
next
  case (provider identity db later answer db')
  define refresh :: "app_user \<Rightarrow> app_user" where "refresh = (\<lambda>u. u\<lparr>us_email := identity_Email identity, us_display_name := identity_DisplayName identity\<rparr>)"
  from provider obtain p where "db' = db \<or> db' = db\<lparr>id_users := update_where p refresh (id_users db)\<rparr>"
    unfolding refresh_def by (auto simp: OIDCIdentity_def Let_def split: option.splits)
  moreover have "us_id ` set (update_where p refresh (id_users db)) = us_id ` set (id_users db)"
    by (rule update_where_keys) (simp add: refresh_def)
  ultimately show ?case by (intro keeps_users) auto
qed

lemma identity_run_keeps: "(identity_step lib)\<^sup>*\<^sup>* db db' \<Longrightarrow> identity_keeps db db'"
proof (induction rule: rtranclp_induct)
  case base
  show ?case by (simp add: identity_keeps_def identity_evolves_def)
next
  case (step db1 db2)
  from identity_step_keeps [OF step(2)] step(3) show ?case
    unfolding identity_keeps_sets by (blast intro: keeps_sets_trans)
qed

definition empty_identity_db :: identity_db where
  "empty_identity_db =
     \<lparr>id_users = [], id_memberships = [], id_passwords = [], id_sessions = [], id_organizations = [], id_flows = []\<rparr>"

definition identity_reachable :: "identity_lib \<Rightarrow> identity_db \<Rightarrow> bool" where
  "identity_reachable lib db \<longleftrightarrow> (identity_step lib)\<^sup>*\<^sup>* empty_identity_db db"

lemma identity_reachable_inv: "identity_reachable lib db \<Longrightarrow> identity_inv db"
  using identity_run_keeps [of lib empty_identity_db db]
  by (simp add: identity_reachable_def identity_keeps_def identity_inv_def empty_identity_db_def)

text \<open>A user has one password.\<close>

definition one_password :: "identity_db \<Rightarrow> bool" where
  "one_password db \<longleftrightarrow> distinct (map pw_user (id_passwords db))"

lemma checked_update_map: "checked_update checks p f t = Inr t' \<Longrightarrow> (\<And>r. k (f r) = k r) \<Longrightarrow> map k t' = map k t"
  by (auto simp: checked_update_Inr update_where_def)

lemma identity_step_passwords: "identity_step lib db db' \<Longrightarrow> identity_inv db \<Longrightarrow> one_password db \<Longrightarrow> one_password db'"
proof (induction rule: identity_step.induct)
  case (issue k organization issued digest actor addr detail db trail stored db' trail')
  with insert_session_Inr [OF issueSessionIn_Inr [OF issue(1)]] show ?case by (auto simp: one_password_def)
next
  case (sign_out k who db trail db' trail')
  then show ?case by (auto simp: one_password_def DeleteCurrentSession_def Let_def split: if_splits sum.splits)
next
  case (prune_sessions now locked db n db')
  then show ?case by (auto simp: one_password_def PruneSessions_def Let_def)
next
  case (replace k user previous replacement event db trail db' trail')
  from replaceLocalPassword_Inr [OF this(1)] replace(3) checked_update_map [of password_checks _ _ _ _ pw_user] show ?case
    by (fastforce simp: one_password_def)
next
  case (rehash k user previous replacement db db')
  then show ?case using checked_update_map [of password_checks _ _ _ _ pw_user]
    by (fastforce simp: one_password_def RehashLocalPassword_def split: sum.splits)
next
  case (change_role db organization user role)
  then show ?case by (simp add: one_password_def write_role_def)
next
  case (remove_member db organization user)
  then show ?case by (simp add: one_password_def delete_membership_def)
next
  case (create k organization email name hash role db member target detail db')
  from create_local_member_Inr [OF create(1)] create(2,3) show ?case
    by (auto simp: one_password_def identity_inv_def)
next
  case (policy organization days db u target detail db')
  then show ?case by (auto simp: one_password_def set_retention_def Let_def split: if_splits sum.splits)
next
  case (bootstrap k organizationName email name hash issued digest addr db trail created db' trail')
  from BootstrapLocalUser_Inr [OF bootstrap(1)] bootstrap(2) show ?case
    by (auto simp: one_password_def identity_inv_def)
next
  case (expire db k)
  then show ?case by (simp add: one_password_def expire_flows_def)
next
  case (flow f digest db db')
  then show ?case by (auto simp: one_password_def insert_flow_def split: if_splits)
next
  case (redeem k digest db f db')
  then show ?case by (auto simp: one_password_def RedeemDeploymentSignIn_def Let_def split: option.splits)
next
  case (provider identity db later answer db')
  then show ?case by (auto simp: one_password_def OIDCIdentity_def Let_def split: option.splits)
qed

lemma identity_reachable_one_password:
  assumes "identity_reachable lib db"
  shows "one_password db"
  using assms unfolding identity_reachable_def
proof (induction rule: rtranclp_induct)
  case base
  show ?case by (simp add: one_password_def empty_identity_db_def)
next
  case (step db1 db2)
  then have "identity_inv db1" using identity_reachable_inv by (simp add: identity_reachable_def)
  with step identity_step_passwords show ?case by blast
qed

lemma identity_reachable_steps: "identity_reachable lib db \<Longrightarrow> (identity_step lib)\<^sup>*\<^sup>* db db' \<Longrightarrow> identity_reachable lib db'"
  unfolding identity_reachable_def by (rule rtranclp_trans)

section \<open>Whom a route is served to\<close>

lemma membershipOf_Inr:
  assumes "membershipOf user db = Inr membership"
  shows "\<exists>m \<in> set (id_memberships db). ms_user m = user \<and> ms_org m = mem_Organization membership
    \<and> TrimSpace (ms_role m) = mem_Role membership"
  using assms unfolding membershipOf_def
  by (auto simp: ParseRole_def Let_def split: option.splits bool.splits if_splits dest!: row_of_Some intro!: bexI)

lemma membership_from_Inr: "membership_from user later = Inr membership \<Longrightarrow> \<exists>db. later = Inr db \<and> membershipOf user db = Inr membership"
  by (auto simp: membership_from_def split: sum.splits)

lemma signedInFrom_Inr:
  assumes "signedInFrom clock digest db later = Inr found"
  shows "\<exists>s \<in> set (id_sessions db). \<exists>u \<in> set (id_users db). \<exists>db'. se_digest s = digest \<and> us_id u = se_user s
    \<and> clock < se_expires_at s \<and> us_disabled_at u = None \<and> later = Inr db'
    \<and> membershipOf (se_user s) db' = Inr (signed_Membership found)
    \<and> user_ID (signed_User found) = se_user s \<and> user_DisplayName (signed_User found) = us_display_name u
    \<and> session_ID (signed_Session found) = se_id s"
  using assms unfolding signedInFrom_def
  by (auto split: option.splits if_splits sum.splits store_error.splits dest!: row_of_Some membership_from_Inr
      intro!: bexI)

lemma id_read_Inr: "id_read env w = (Inr db, w') \<Longrightarrow> db = iw_db w' \<and> w' = id_observe env w"
  by (auto simp: id_read_def Let_def split: if_splits)

lemma id_read_world [simp]: "snd (id_read env w) = id_observe env w"
  by (simp add: id_read_def Let_def)

lemma Resolve_who:
  assumes "Resolve env rq w = ((who, None), w')"
  obtains s u m where "s \<in> set (id_sessions (iw_db (id_observe env w)))" "u \<in> set (id_users (iw_db (id_observe env w)))"
    "m \<in> set (id_memberships (iw_db (id_observe env (id_observe env w))))"
    "se_digest s = ie_sha256 env (wq_Cookie rq)" "us_id u = se_user s" "ms_user m = se_user s"
    "il_clock (ie_lib env) (iw_tick (id_observe env w)) < se_expires_at s" "us_disabled_at u = None"
    "pr_userID who = se_user s" "pr_sessionID who = se_id s" "Organization who = ms_org m"
    "mem_Role (pr_membership who) = TrimSpace (ms_role m)" "length (TrimSpace (us_display_name u)) \<le> maxIdentifierLength"
proof -
  from assms obtain who' where from_session: "fromSession env (wq_Cookie rq) w = (Inr who', w')"
    and who: "who = WithRequest who' (wq_RemoteAddr rq) (wq_RequestID rq)"
    by (auto simp: Resolve_def split: if_splits sum.splits prod.splits)
  from from_session obtain found where found: "fst (session_by_token env (ie_sha256 env (wq_Cookie rq)) w) = Inr found"
    and new: "NewPrincipal (user_ID (signed_User found)) (session_ID (signed_Session found))
        (displayNameOf (il_uuids (ie_lib env)) (signed_User found)) (user_Email (signed_User found))
        (signed_Membership found) = Inr who'"
    by (auto simp: fromSession_def split: prod.splits sum.splits store_error.splits)
  from found obtain db w1 where read: "id_read env w = (Inr db, w1)"
    and signed_in: "signedInFrom (il_clock (ie_lib env) (iw_tick w1)) (ie_sha256 env (wq_Cookie rq)) db (fst (id_read env w1)) = Inr found"
    by (auto simp: session_by_token_def SessionByToken_def split: prod.splits sum.splits)
  note w1 = id_read_Inr [OF read]
  from signedInFrom_Inr [OF signed_in] obtain s u db' where s: "s \<in> set (id_sessions db)" "u \<in> set (id_users db)"
      "se_digest s = ie_sha256 env (wq_Cookie rq)" "us_id u = se_user s" "us_disabled_at u = None"
      "il_clock (ie_lib env) (iw_tick w1) < se_expires_at s"
    and later: "fst (id_read env w1) = Inr db'" "membershipOf (se_user s) db' = Inr (signed_Membership found)"
    and user: "user_ID (signed_User found) = se_user s" "user_DisplayName (signed_User found) = us_display_name u"
      "session_ID (signed_Session found) = se_id s"
    by blast
  from later(1) have db': "db' = iw_db (id_observe env w1)"
    using id_read_Inr [of env w1 db' "snd (id_read env w1)"] by (simp add: prod_eq_iff)
  from membershipOf_Inr [OF later(2)] db' obtain m where m: "m \<in> set (id_memberships (iw_db (id_observe env w1)))"
      "ms_user m = se_user s" "ms_org m = mem_Organization (signed_Membership found)"
      "TrimSpace (ms_role m) = mem_Role (signed_Membership found)" by blast
  from new have fields: "pr_userID who = se_user s" "pr_sessionID who = se_id s"
      "pr_membership who = signed_Membership found"
      "length (displayNameOf (il_uuids (ie_lib env)) (signed_User found)) \<le> maxIdentifierLength"
    using user by (auto simp: NewPrincipal_def who WithRequest_def split: if_splits)
  have "length (TrimSpace (us_display_name u)) \<le> maxIdentifierLength"
    using fields(4) user(2) by (auto simp: displayNameOf_def split: if_splits)
  with that s m w1 fields show ?thesis by (simp add: Organization_def)
qed

text \<open>A world to evaluate on: one administrator with a password and a session.\<close>

definition sample_identity_lib :: identity_lib where
  "sample_identity_lib =
     \<lparr>il_lower = id, il_sql_lower = id, il_uuids = sample_uuid_lib, il_now = (\<lambda>k. 100), il_clock = (\<lambda>k. 100),
      il_user_id = (\<lambda>k. 20 + k), il_org_id = (\<lambda>k. 40 + k), il_session_id = (\<lambda>k. 60 + k), il_event_id = (\<lambda>k. 80 + k)\<rparr>"

definition sample_argon2 :: argon2 where
  "sample_argon2 = (\<lambda>password salt iterations memory parallelism n. take n (password @ replicate n CHR ''k''))"

lemma sample_argon2_ok: "argon2_ok sample_argon2"
  by (auto simp: argon2_ok_def sample_argon2_def)

definition sample_password :: string where
  "sample_password = ''correct horse''"

definition sample_salt :: string where
  "sample_salt = ''0123456789abcdef''"

definition sample_hash :: string where
  "sample_hash = encodePassword sample_argon2 sample_password sample_salt passwordMemory passwordIterations passwordParallelism"

definition sample_identity_env :: identity_env where
  "sample_identity_env =
     \<lparr>ie_lib = sample_identity_lib, ie_urls = \<lparr>parseURL = (\<lambda>s. None), equalFold = (=)\<rparr>,
      ie_sha256 = (\<lambda>s. take 32 (s @ replicate 32 CHR ''x'')), ie_argon2 = sample_argon2, ie_rfc3339 = (\<lambda>i. ''now''),
      ie_address = Some, ie_random = (\<lambda>k. Some ''token''), ie_salt = (\<lambda>k. Some sample_salt), ie_slot = (\<lambda>k. True),
      ie_fate = (\<lambda>k. Reported), ie_others = (\<lambda>k s. s), ie_authorize = (\<lambda>k. Inl ErrProviderUnreachable),
      ie_exchange = (\<lambda>k code verifier. CodeRefused), ie_loopback = (\<lambda>s. False), ie_OIDCIssuer = [],
      ie_PublicURL = ''https://ops'', ie_Bootstrap = [], ie_SessionLifetime = 1000\<rparr>"

definition sample_user :: app_user where
  "sample_user =
     \<lparr>us_id = 1, us_issuer = LocalIssuer, us_subject = ''ada'', us_email = ''ada'', us_display_name = ''Ada'',
      us_disabled_at = None, us_created_at = 0\<rparr>"

definition sample_identity_db :: identity_db where
  "sample_identity_db =
     \<lparr>id_users = [sample_user], id_memberships = [\<lparr>ms_org = 2, ms_user = 1, ms_role = ''admin'', ms_created_at = 0\<rparr>],
      id_passwords = [\<lparr>pw_user = 1, pw_hash = sample_hash, pw_changed_at = 0\<rparr>],
      id_sessions = [\<lparr>se_id = 5, se_digest = ie_sha256 sample_identity_env ''cookie'', se_user = 1, se_expires_at = 500\<rparr>],
      id_organizations = [\<lparr>og_id = 2, og_display_name = ''Ops'', og_created_at = 0, og_retention = 90\<rparr>], id_flows = []\<rparr>"

definition sample_web_request :: web_request where
  "sample_web_request = \<lparr>wq_Cookie = ''cookie'', wq_Authorization = [], wq_RemoteAddr = ''addr'', wq_RequestID = ''r''\<rparr>"

definition sample_identity_world :: identity_world where
  "sample_identity_world = \<lparr>iw_tick = 0, iw_db = sample_identity_db, iw_trail = []\<rparr>"

definition sample_caller :: Principal where
  "sample_caller =
     \<lparr>pr_userID = 1, pr_sessionID = 5, pr_displayName = ''Ada'',
      pr_membership = \<lparr>mem_Organization = 2, mem_DisplayName = ''Ops'', mem_Role = ''admin''\<rparr>,
      pr_sourceAddress = ''addr'', pr_requestID = ''r'', pr_email = ''ada''\<rparr>"

lemma sample_env [simp]:
  "ie_lib sample_identity_env = sample_identity_lib" "ie_sha256 sample_identity_env = (\<lambda>s. take 32 (s @ replicate 32 CHR ''x''))"
  "ie_argon2 sample_identity_env = sample_argon2" "ie_address sample_identity_env = Some" "ie_salt sample_identity_env k = Some sample_salt"
  "ie_random sample_identity_env k = Some ''token''" "ie_slot sample_identity_env k" "ie_fate sample_identity_env k = Reported"
  "ie_others sample_identity_env k s = s" "ie_SessionLifetime sample_identity_env = 1000"
  by (simp_all add: sample_identity_env_def)

lemmas sample_identity_defs = sample_identity_lib_def sample_user_def sample_identity_db_def
  sample_web_request_def sample_identity_world_def sample_caller_def

lemma sample_names [simp]: "TrimSpace ''Ada'' = ''Ada''" "TrimSpace ''ada'' = ''ada''" "TrimSpace ''admin'' = ''admin''"
  by (rule TrimSpace_graphic; simp add: graphic_def)+

lemma sample_observe [simp]: "id_observe sample_identity_env w = w\<lparr>iw_tick := iw_tick w + 1\<rparr>"
  by (simp add: id_observe_def)

lemma sample_resolve:
  "Resolve sample_identity_env sample_web_request sample_identity_world
     = ((sample_caller, None), sample_identity_world\<lparr>iw_tick := 2\<rparr>)"
  by (simp add: Resolve_def fromSession_def session_by_token_def SessionByToken_def signedInFrom_def id_read_def Let_def
      membership_from_def membershipOf_def ParseRole_def KnownRole_def roles_def NewPrincipal_def WithRequest_def displayNameOf_def
      sample_identity_defs)

text \<open>
  C10. A route behind the guard is served only to the holder of an unexpired session whose user is
  enabled and, at that request, a member of the organization the request acts in, and only when the
  member's role grants what the route asks for.
\<close>

theorem served_callers_are_members:
  assumes "protect urls uuid_string (identity_guard env rq w origin) route handler request = (Serve h who, events)"
  shows "\<exists>s \<in> set (id_sessions (iw_db (id_observe env w))). \<exists>u \<in> set (id_users (iw_db (id_observe env w))).
    \<exists>m \<in> set (id_memberships (iw_db (id_observe env (id_observe env w)))).
      se_digest s = ie_sha256 env (wq_Cookie rq) \<and> us_id u = se_user s \<and> ms_user m = se_user s
      \<and> il_clock (ie_lib env) (iw_tick (id_observe env w)) < se_expires_at s \<and> us_disabled_at u = None
      \<and> pr_userID who = se_user s \<and> Organization who = ms_org m
      \<and> (rt_Permission route \<noteq> [] \<longrightarrow> Grants (TrimSpace (ms_role m)) (rt_Permission route))"
proof -
  obtain who' err w' where resolved: "Resolve env rq w = ((who', err), w')" by (metis prod.exhaust)
  with assms have served: "err = None" "who = who'" "rt_Permission route \<noteq> [] \<Longrightarrow> HavePermission who (rt_Permission route)"
    by (auto simp: protect_def identity_guard_def unauthenticatedReply_def Let_def split: if_splits)
  from resolved served(1,2) have "Resolve env rq w = ((who, None), w')" by simp
  from Resolve_who [OF this] served(3) show ?thesis unfolding HavePermission_def by metis
qed

theorem served_callers_are_members_witness:
  "fst (protect \<lparr>parseURL = (\<lambda>s. None), equalFold = (=)\<rparr> (\<lambda>u. [])
       (identity_guard sample_identity_env sample_web_request sample_identity_world ''https://ops'')
       (sample_route ''GET'' ''member.manage'') () \<lparr>rq_Method = ''GET'', rq_Path = ''/'', rq_Origin = [], rq_RemoteAddr = []\<rparr>)
     = Serve () sample_caller
   \<and> (\<exists>m \<in> set (id_memberships sample_identity_db). Grants (TrimSpace (ms_role m)) ''member.manage'')"
proof -
  let ?p = "protect \<lparr>parseURL = (\<lambda>s. None), equalFold = (=)\<rparr> (\<lambda>u. [])
       (identity_guard sample_identity_env sample_web_request sample_identity_world ''https://ops'')
       (sample_route ''GET'' ''member.manage'') () \<lparr>rq_Method = ''GET'', rq_Path = ''/'', rq_Origin = [], rq_RemoteAddr = []\<rparr>"
  have "?p = (Serve () sample_caller, [])"
    by (simp add: protect_def identity_guard_def sample_resolve IsEmpty_def originIsAllowed_def sample_route_def HavePermission_def
        Grants_def granted_def allPermissions_def sample_caller_def)
  from served_callers_are_members [OF this] this show ?thesis
    by (auto simp: sample_route_def sample_identity_world_def)
qed

section \<open>Removing a member\<close>

lemma find_membership:
  assumes "List.find (membership_key organization user) ms = Some m"
  shows "m \<in> set ms" "ms_org m = organization" "ms_user m = user"
  using assms by (auto simp: find_Some_iff)

lemma remove_membership_Inr:
  assumes "remove_membership lib between organization user db = Inr (u, target, detail, db')"
  shows "\<exists>m. List.find (membership_key organization user) (id_memberships db) = Some m
    \<and> (ms_role m = ''admin'' \<longrightarrow> refuseIfLastAdmin organization user db = None)
    \<and> db' = delete_membership organization user (between db)"
  using assms by (auto simp: remove_membership_def Let_def split: option.splits if_splits)

text \<open>What the others do is steps of their own.\<close>

definition others_step :: "identity_env \<Rightarrow> bool" where
  "others_step env \<longleftrightarrow> (\<forall>k s. (identity_step (ie_lib env))\<^sup>*\<^sup>* (fst s) (fst (ie_others env k s)))"

lemma observed_steps:
  assumes "others_step env"
  shows "(identity_step (ie_lib env))\<^sup>*\<^sup>* (iw_db w) (iw_db (id_observe env w))"
proof -
  have "(identity_step (ie_lib env))\<^sup>*\<^sup>* (fst (iw_db w, iw_trail w)) (fst (ie_others env (iw_tick w) (iw_db w, iw_trail w)))"
    using assms unfolding others_step_def by blast
  then show ?thesis
    by (cases "ie_others env (iw_tick w) (iw_db w, iw_trail w)") (simp add: id_observe_def)
qed

text \<open>
  C13. Removing a member ends their access for good. Once the removal has committed no request is
  resolved to that user again, whatever sessions remain, however the tables move on: the members of
  an organization are created with their users, and a user who has no membership never gets one.
\<close>

theorem removed_members_stay_out:
  assumes "RemoveMembership (ie_lib env) between k actor organization user (db, trail) = Inr (u, db', trail')"
    and "identity_inv (between db)" "m \<in> set (id_memberships (between db))" "ms_user m = user"
    and "\<And>x. x \<in> set (id_memberships (between db)) \<Longrightarrow> ms_user x = user \<Longrightarrow> ms_org x = organization"
    and "(identity_step (ie_lib env))\<^sup>*\<^sup>* db' (iw_db w)" "others_step env"
    and "Resolve env rq w = ((who, None), w')"
  shows "pr_userID who \<noteq> user"
proof
  assume same: "pr_userID who = user"
  from audited_Inr [OF assms(1) [unfolded RemoveMembership_def]] obtain target detail where
    "remove_membership (ie_lib env) between organization user db = Inr (u, target, detail, db')" by blast
  from remove_membership_Inr [OF this] have db': "db' = delete_membership organization user (between db)" by blast
  have there: "user \<in> us_id ` set (id_users db')" using assms(2-4) db' by (auto simp: identity_inv_def delete_membership_def)
  have out: "user \<notin> ms_user ` set (id_memberships db')" using assms(5) db' by (auto simp: delete_membership_def)
  let ?later = "iw_db (id_observe env (id_observe env w))"
  have "(identity_step (ie_lib env))\<^sup>*\<^sup>* db' ?later"
    using assms(6) observed_steps [OF assms(7)] by (meson rtranclp_trans)
  from identity_run_keeps [OF this] there out have gone: "user \<notin> ms_user ` set (id_memberships ?later)"
    unfolding identity_keeps_def identity_evolves_def by blast
  show False by (rule Resolve_who [OF assms(8)]) (metis same gone image_eqI)
qed

text \<open>A second member, whom the administrator removes.\<close>

definition sample_second_db :: identity_db where
  "sample_second_db = sample_identity_db
     \<lparr>id_users := [sample_user, \<lparr>us_id = 9, us_issuer = LocalIssuer, us_subject = ''bob'', us_email = ''bob'',
        us_display_name = ''Bob'', us_disabled_at = None, us_created_at = 0\<rparr>],
      id_memberships := id_memberships sample_identity_db @ [\<lparr>ms_org = 2, ms_user = 9, ms_role = ''admin'', ms_created_at = 0\<rparr>]\<rparr>"

lemma sample_removal:
  "\<exists>trail. RemoveMembership sample_identity_lib id 0 sample_caller 2 9 (sample_second_db, [])
     = Inr ((), delete_membership 2 9 sample_second_db, trail)"
  by (simp add: RemoveMembership_def audited_def auditedWithAction_def remove_membership_def sample_second_db_def
      refuseIfLastAdmin_def writeEvent_def Let_def Bounded_def nullableOrganization_def sample_uuid_lib_def
      sample_identity_defs Organization_def)

theorem removed_members_stay_out_witness:
  "\<exists>trail' db'. RemoveMembership sample_identity_lib id 0 sample_caller 2 9 (sample_second_db, []) = Inr ((), db', trail')
     \<and> fst (Resolve sample_identity_env sample_web_request \<lparr>iw_tick = 0, iw_db = db', iw_trail = []\<rparr>) = (sample_caller, None)
     \<and> pr_userID sample_caller \<noteq> 9"
proof -
  obtain trail' where removed: "RemoveMembership sample_identity_lib id 0 sample_caller 2 9 (sample_second_db, [])
      = Inr ((), delete_membership 2 9 sample_second_db, trail')" using sample_removal by blast
  let ?w = "\<lparr>iw_tick = 0, iw_db = delete_membership 2 9 sample_second_db, iw_trail = []\<rparr>"
  have resolved: "Resolve sample_identity_env sample_web_request ?w = ((sample_caller, None), ?w\<lparr>iw_tick := 2\<rparr>)"
    by (simp add: Resolve_def fromSession_def session_by_token_def SessionByToken_def signedInFrom_def id_read_def Let_def
        membership_from_def membershipOf_def ParseRole_def KnownRole_def roles_def NewPrincipal_def WithRequest_def displayNameOf_def
        sample_second_db_def delete_membership_def sample_identity_defs)
  have "pr_userID sample_caller \<noteq> 9"
  proof (rule removed_members_stay_out [where env = sample_identity_env])
    show "RemoveMembership (ie_lib sample_identity_env) id 0 sample_caller 2 9 (sample_second_db, [])
        = Inr ((), delete_membership 2 9 sample_second_db, trail')" using removed by simp
    show "identity_inv (id sample_second_db)"
      by (simp add: identity_inv_def sample_second_db_def sample_identity_db_def sample_user_def)
    show "\<lparr>ms_org = 2, ms_user = 9, ms_role = ''admin'', ms_created_at = 0\<rparr> \<in> set (id_memberships (id sample_second_db))"
      by (simp add: sample_second_db_def)
    show "ms_org x = 2" if "x \<in> set (id_memberships (id sample_second_db))" "ms_user x = 9" for x
      using that by (auto simp: sample_second_db_def sample_identity_db_def)
    show "others_step sample_identity_env" by (simp add: others_step_def)
    show "(identity_step (ie_lib sample_identity_env))\<^sup>*\<^sup>* (delete_membership 2 9 sample_second_db) (iw_db ?w)" by simp
    show "Resolve sample_identity_env sample_web_request ?w = ((sample_caller, None), ?w\<lparr>iw_tick := 2\<rparr>)" by (rule resolved)
  qed simp
  with removed resolved show ?thesis by auto
qed

section \<open>The last administrator\<close>

definition has_admin :: "uuid \<Rightarrow> identity_db \<Rightarrow> bool" where
  "has_admin organization db \<longleftrightarrow> (\<exists>m \<in> set (id_memberships db). ms_org m = organization \<and> ms_role m = ''admin'')"

text \<open>Alone, a removal leaves an administrator.\<close>

lemma removal_alone_keeps_an_admin:
  assumes "remove_membership lib id organization user db = Inr (u, target, detail, db')" "has_admin organization db"
    and "distinct (map ms_user (id_memberships db))"
  shows "has_admin organization db'"
proof -
  from remove_membership_Inr [OF assms(1)] obtain m where m: "List.find (membership_key organization user) (id_memberships db) = Some m"
    and guard: "ms_role m = ''admin'' \<Longrightarrow> refuseIfLastAdmin organization user db = None"
    and db': "db' = delete_membership organization user db" by auto
  from assms(2) obtain x where x: "x \<in> set (id_memberships db)" "ms_org x = organization" "ms_role x = ''admin''"
    unfolding has_admin_def by blast
  have "\<exists>y \<in> set (id_memberships db). ms_org y = organization \<and> ms_role y = ''admin'' \<and> ms_user y \<noteq> user"
  proof (cases "ms_user x = user")
    case True
    with x(1) find_membership [OF m] assms(3) have "x = m" by (auto simp: distinct_map inj_on_def)
    with guard x(3) have "refuseIfLastAdmin organization user db = None" by simp
    then show ?thesis by (auto simp: refuseIfLastAdmin_def rows_affected_0 split: if_splits)
  next
    case False
    with x show ?thesis by blast
  qed
  with db' show ?thesis by (auto simp: has_admin_def delete_membership_def)
qed

lemma own_membership:
  assumes "distinct (map ms_user (id_memberships db))" "m \<in> set (id_memberships db)" "ms_org m = organization"
  shows "List.find (membership_key organization (ms_user m)) (id_memberships db) = Some m"
proof -
  have "List.find (membership_key organization (ms_user m)) (id_memberships db) \<noteq> None"
    using assms(2,3) by (auto simp: find_None_iff)
  then obtain y where y: "List.find (membership_key organization (ms_user m)) (id_memberships db) = Some y" by blast
  from find_membership [OF y] assms(1,2) have "y = m" by (auto simp: distinct_map inj_on_def)
  with y show ?thesis by simp
qed

text \<open>The member is the only administrator of the organization.\<close>

definition only_admin :: "uuid \<Rightarrow> membership_row \<Rightarrow> identity_db \<Rightarrow> bool" where
  "only_admin organization m db \<longleftrightarrow>
     (\<forall>x \<in> set (id_memberships db). ms_org x = organization \<and> ms_role x = ''admin'' \<longleftrightarrow> x = m)"

lemma guard_is_exact:
  assumes "distinct (map ms_user (id_memberships db))" "m \<in> set (id_memberships db)" "ms_org m = organization"
  shows "ms_role m = ''admin'' \<and> refuseIfLastAdmin organization (ms_user m) db = Some ErrLastAdmin \<longleftrightarrow> only_admin organization m db"
proof -
  have "ms_user x = ms_user m \<longleftrightarrow> x = m" if "x \<in> set (id_memberships db)" for x
    using that assms(1,2) by (auto simp: distinct_map inj_on_def)
  then show ?thesis using assms(2,3) by (auto simp: refuseIfLastAdmin_def rows_affected_0 only_admin_def)
qed

lemma refuseIfLastAdmin_answers: "refuseIfLastAdmin organization user db = None \<or> refuseIfLastAdmin organization user db = Some ErrLastAdmin"
  by (simp add: refuseIfLastAdmin_def)

lemma removal_refused:
  assumes "distinct (map ms_user (id_memberships db))" "m \<in> set (id_memberships db)" "ms_org m = organization"
  shows "remove_membership lib between organization (ms_user m) db = Inl ErrLastAdmin \<longleftrightarrow> only_admin organization m db"
    and "role \<noteq> ''admin'' \<Longrightarrow>
      update_membership lib between organization (ms_user m) role db = Inl ErrLastAdmin \<longleftrightarrow> only_admin organization m db"
  unfolding guard_is_exact [OF assms, symmetric]
  using refuseIfLastAdmin_answers [of organization "ms_user m" db]
  by (auto simp: remove_membership_def update_membership_def own_membership [OF assms] Let_def split: option.splits)

lemma removal_accepted:
  assumes "distinct (map ms_user (id_memberships db))" "m \<in> set (id_memberships db)" "ms_org m = organization"
    and "\<not> only_admin organization m db"
  shows "\<exists>target detail. remove_membership lib between organization (ms_user m) db
    = Inr ((), target, detail, delete_membership organization (ms_user m) (between db))"
  using assms(4) refuseIfLastAdmin_answers [of organization "ms_user m" db]
  unfolding guard_is_exact [OF assms(1-3), symmetric]
  by (auto simp: remove_membership_def own_membership [OF assms(1-3)] Let_def)

text \<open>
  C14. The guard of the last administrator. A removal of a member is refused as one exactly when
  the member is the only administrator of the organization when it counts, and so is every change
  to another role; a removal nothing comes between leaves an administrator where there was one. But
  the guard holds only for a change alone: with two administrators, when each removal counts before
  the other commits, both are accepted and the organization is left without any, since each
  transaction locks its own member's row and counts rows it has not locked.
\<close>

theorem removals_at_once_leave_no_admin:
  assumes "distinct (map ms_user (id_memberships db))" "m \<in> set (id_memberships db)" "ms_org m = organization"
  shows "(remove_membership lib between organization (ms_user m) db = Inl ErrLastAdmin \<longleftrightarrow> only_admin organization m db)
    \<and> (role \<noteq> ''admin'' \<longrightarrow>
         (update_membership lib between organization (ms_user m) role db = Inl ErrLastAdmin \<longleftrightarrow> only_admin organization m db))
    \<and> (\<forall>t d db'. remove_membership lib id organization (ms_user m) db = Inr ((), t, d, db') \<and> has_admin organization db \<longrightarrow>
         has_admin organization db')
    \<and> (\<forall>other \<in> set (id_memberships db). other \<noteq> m
         \<and> (\<forall>x \<in> set (id_memberships db). ms_org x = organization \<and> ms_role x = ''admin'' \<longleftrightarrow> x = m \<or> x = other) \<longrightarrow>
         (\<exists>t1 d1 first t2 d2 both.
            remove_membership lib id organization (ms_user other) db = Inr ((), t1, d1, first) \<and> has_admin organization first
            \<and> remove_membership lib id organization (ms_user m) first = Inl ErrLastAdmin
            \<and> remove_membership lib (\<lambda>s. first) organization (ms_user m) db = Inr ((), t2, d2, both)
            \<and> \<not> has_admin organization both))"
proof (intro conjI ballI allI impI)
  show "remove_membership lib between organization (ms_user m) db = Inl ErrLastAdmin \<longleftrightarrow> only_admin organization m db"
    by (rule removal_refused(1) [OF assms])
  show "update_membership lib between organization (ms_user m) role db = Inl ErrLastAdmin \<longleftrightarrow> only_admin organization m db"
    if "role \<noteq> ''admin''" by (rule removal_refused(2) [OF assms that])
  show "has_admin organization db'"
    if "remove_membership lib id organization (ms_user m) db = Inr ((), t, d, db') \<and> has_admin organization db" for t d db'
    using removal_alone_keeps_an_admin that assms(1) by blast
next
  fix other
  assume other: "other \<in> set (id_memberships db)" "other \<noteq> m
      \<and> (\<forall>x \<in> set (id_memberships db). ms_org x = organization \<and> ms_role x = ''admin'' \<longleftrightarrow> x = m \<or> x = other)"
  then have org: "ms_org other = organization" "ms_role m = ''admin''" using assms(2) by auto
  let ?first = "delete_membership organization (ms_user other) db"
  have users: "ms_user other \<noteq> ms_user m" using other assms(1,2) by (auto simp: distinct_map inj_on_def)
  have alone: "\<not> only_admin organization other db" "\<not> only_admin organization m db"
    using other assms(2) by (auto simp: only_admin_def)
  have left: "m \<in> set (id_memberships ?first)" using assms(2) users by (simp add: delete_membership_def)
  have keyed: "distinct (map ms_user (id_memberships ?first))" using assms(1) by (simp add: delete_membership_def distinct_map_filter)
  have "only_admin organization m ?first" using other users by (auto simp: only_admin_def delete_membership_def)
  then have "remove_membership lib id organization (ms_user m) ?first = Inl ErrLastAdmin"
    using removal_refused(1) [OF keyed left assms(3)] by blast
  moreover have "has_admin organization ?first" using left assms(3) org(2) by (auto simp: has_admin_def)
  moreover have "\<not> has_admin organization (delete_membership organization (ms_user m) ?first)"
    using other by (auto simp: has_admin_def delete_membership_def)
  moreover obtain t1 d1 where "remove_membership lib id organization (ms_user other) db = Inr ((), t1, d1, ?first)"
    using removal_accepted [OF assms(1) other(1) org(1) alone(1), of lib id] by auto
  moreover obtain t2 d2 where "remove_membership lib (\<lambda>s. ?first) organization (ms_user m) db
      = Inr ((), t2, d2, delete_membership organization (ms_user m) ?first)"
    using removal_accepted [OF assms alone(2), of lib "\<lambda>s. ?first"] by auto
  ultimately show "\<exists>t1 d1 first t2 d2 both.
      remove_membership lib id organization (ms_user other) db = Inr ((), t1, d1, first) \<and> has_admin organization first
      \<and> remove_membership lib id organization (ms_user m) first = Inl ErrLastAdmin
      \<and> remove_membership lib (\<lambda>s. first) organization (ms_user m) db = Inr ((), t2, d2, both)
      \<and> \<not> has_admin organization both" by blast
qed

theorem removals_at_once_leave_no_admin_witness:
  "\<exists>t1 d1 first t2 d2 both.
    remove_membership sample_identity_lib id 2 9 sample_second_db = Inr ((), t1, d1, first) \<and> has_admin 2 first
    \<and> remove_membership sample_identity_lib id 2 1 first = Inl ErrLastAdmin
    \<and> remove_membership sample_identity_lib (\<lambda>s. first) 2 1 sample_second_db = Inr ((), t2, d2, both) \<and> \<not> has_admin 2 both"
proof -
  let ?a = "\<lparr>ms_org = 2, ms_user = 1, ms_role = ''admin'', ms_created_at = 0\<rparr> :: membership_row"
  let ?b = "\<lparr>ms_org = 2, ms_user = 9, ms_role = ''admin'', ms_created_at = 0\<rparr> :: membership_row"
  have rows: "id_memberships sample_second_db = [?a, ?b]" by (simp add: sample_second_db_def sample_identity_db_def)
  have "distinct (map ms_user (id_memberships sample_second_db))" "?a \<in> set (id_memberships sample_second_db)" "ms_org ?a = 2"
    by (simp_all add: rows)
  note all = removals_at_once_leave_no_admin [OF this, of sample_identity_lib, THEN conjunct2, THEN conjunct2, THEN conjunct2]
  have "\<exists>t1 d1 first t2 d2 both.
    remove_membership sample_identity_lib id 2 (ms_user ?b) sample_second_db = Inr ((), t1, d1, first) \<and> has_admin 2 first
    \<and> remove_membership sample_identity_lib id 2 (ms_user ?a) first = Inl ErrLastAdmin
    \<and> remove_membership sample_identity_lib (\<lambda>s. first) 2 (ms_user ?a) sample_second_db = Inr ((), t2, d2, both)
    \<and> \<not> has_admin 2 both"
    by (rule all [THEN bspec [of _ _ ?b], THEN mp]) (simp_all add: rows)
  then show ?thesis by (simp only: membership_row.simps)
qed

section \<open>Passwords\<close>

text \<open>
  C15. What is stored for a password is checked back exactly: it accepts a presented password just
  when that has the same key under the stored salt, and never asks to be replaced; text of a hash
  made with other parameters is checked under those, and asks to be.
\<close>

theorem hashed_passwords_verify:
  assumes "argon2_ok argon2" "hashPassword argon2 (Some salt) password = Inr encoded" "length salt = passwordSaltBytes"
    and "0 < memory" "memory < 2 ^ 32" "0 < iterations" "iterations < 2 ^ 32" "0 < parallelism" "parallelism \<le> 255"
    and "(memory, iterations, parallelism) \<noteq> (passwordMemory, passwordIterations, passwordParallelism)"
  shows "verifyPassword argon2 encoded presented =
      Checked (argon2 presented salt passwordIterations passwordMemory passwordParallelism passwordKeyBytes
                 = argon2 password salt passwordIterations passwordMemory passwordParallelism passwordKeyBytes) False
    \<and> verifyPassword argon2 (encodePassword argon2 password salt memory iterations parallelism) presented =
        Checked (argon2 presented salt iterations memory parallelism passwordKeyBytes
                   = argon2 password salt iterations memory parallelism passwordKeyBytes) True"
proof -
  have "encoded = encodePassword argon2 password salt passwordMemory passwordIterations passwordParallelism"
    using assms(2) by (simp add: hashPassword_def split: if_splits)
  then show ?thesis
    using verify_encoded [OF assms(1), of salt passwordMemory passwordIterations passwordParallelism password presented]
      verify_encoded [OF assms(1) _ _ assms(4-9), of salt password presented] assms(3,10) by auto
qed

theorem hashed_passwords_verify_witness:
  "\<exists>encoded. hashPassword sample_argon2 (Some sample_salt) sample_password = Inr encoded
     \<and> verifyPassword sample_argon2 encoded sample_password = Checked True False
     \<and> verifyPassword sample_argon2 encoded ''something else'' = Checked False False"
proof -
  obtain encoded where encoded: "hashPassword sample_argon2 (Some sample_salt) sample_password = Inr encoded"
    by (simp add: hashPassword_def sample_password_def)
  have salt: "length sample_salt = passwordSaltBytes" by (simp add: sample_salt_def)
  from hashed_passwords_verify [OF sample_argon2_ok encoded salt, where memory = 1 and iterations = 1 and parallelism = 1]
    encoded show ?thesis by (simp add: sample_argon2_def sample_password_def)
qed

text \<open>The hash a handler makes accepts the password it was made from.\<close>

definition salts_ok :: "identity_env \<Rightarrow> bool" where
  "salts_ok env \<longleftrightarrow> (\<forall>k salt. ie_salt env k = Some salt \<longrightarrow> length salt = passwordSaltBytes)"

lemma hash_password_verifies:
  assumes "argon2_ok (ie_argon2 env)" "salts_ok env" "hash_password env k password = Inr encoded"
  shows "\<exists>salt. \<forall>presented. verifyPassword (ie_argon2 env) encoded presented =
    Checked (ie_argon2 env presented salt passwordIterations passwordMemory passwordParallelism passwordKeyBytes
               = ie_argon2 env password salt passwordIterations passwordMemory passwordParallelism passwordKeyBytes) False"
proof -
  from assms(3) obtain salt where salt: "ie_salt env k = Some salt"
    "encoded = encodePassword (ie_argon2 env) password salt passwordMemory passwordIterations passwordParallelism"
    by (auto simp: hash_password_def hashPassword_def split: if_splits option.splits)
  with assms(2) have "length salt = passwordSaltBytes" by (simp add: salts_ok_def)
  with salt verify_encoded [OF assms(1), of salt passwordMemory passwordIterations passwordParallelism password] show ?thesis
    by auto
qed

lemma fail_is_an_error: "400 \<le> wr_Status (fail e)"
  by (cases e rule: fail.cases) (simp_all add: respond_def)

lemma id_write_Inr:
  assumes "id_write env f w = (Inr v, w')"
  obtains db trail where "f (iw_tick w) (iw_db (id_observe env w), iw_trail (id_observe env w)) = Inr (v, db, trail)"
    "iw_db w' = db" "iw_trail w' = trail" "ie_fate env (iw_tick w) = Reported"
  using assms by (auto simp: id_write_def Let_def split: if_splits sum.splits) (metis db_fate.exhaust)

text \<open>A session issued for a password: what the database held when it was.\<close>

lemma issueSession_local:
  assumes "issueSession env rq organization user hash w = (Inr c, w')" "hash \<noteq> []"
  obtains db token expires s where "c = SetCookie token expires" "stored_hash (user_ID user) db = Some hash"
    "iw_db w' = db\<lparr>id_sessions := id_sessions db @ [s]\<rparr>" "se_user s = user_ID user" "se_digest s = ie_sha256 env token"
    "se_expires_at s = expires"
proof -
  from assms(1) obtain token digest issued detail w1 stored actor where
      prepared: "prepareSession env rq organization (user_ID user) w = (Inr (token, digest, issued, detail), w1)"
    and wrote: "id_write env
                  (\<lambda>k s. if hash \<noteq> []
                         then IssueLocalSession (ie_lib env) k organization issued digest actor
                                (wq_RemoteAddr rq) detail hash s
                         else IssueSession (ie_lib env) k organization issued digest actor
                                (wq_RemoteAddr rq) detail s) w1 = (Inr stored, w')"
    and c: "c = SetCookie token (session_ExpiresAt stored)"
    by (auto simp: issueSession_def Let_def split: prod.splits sum.splits)
  have minted: "session_UserID issued = user_ID user" "digest = ie_sha256 env token"
    using prepared by (auto simp: prepareSession_def Issue_def Let_def split: if_splits prod.splits sum.splits option.splits)
  let ?w = "id_observe env w1"
  from wrote obtain db trail where run: "IssueLocalSession (ie_lib env) (iw_tick w1) organization issued digest actor
      (wq_RemoteAddr rq) detail hash (iw_db ?w, iw_trail ?w) = Inr (stored, db, trail)" and w': "iw_db w' = db"
    using assms(2) by (elim id_write_Inr) auto
  from run have held: "stored_hash (user_ID user) (iw_db ?w) = Some hash"
    and issue: "issueSessionIn (ie_lib env) (iw_tick w1) organization issued digest actor (wq_RemoteAddr rq) detail
      (iw_db ?w, iw_trail ?w) = Inr (stored, db, trail)"
    using minted by (auto simp: IssueLocalSession_def split: if_splits)
  from insert_session_Inr [OF issueSessionIn_Inr [OF issue]] that [OF c held, where s = "last (id_sessions db)"] minted w'
  show ?thesis by simp
qed

lemma verified_not_empty: "verifyPassword argon2 encoded password = Checked valid rehash \<Longrightarrow> encoded \<noteq> []"
  by (auto simp: verifyPassword_def)

lemma fail_not_200 [simp]: "wr_Status (fail e) \<noteq> 200"
  using fail_is_an_error [of e] by simp

lemma fail_not_204 [simp]: "wr_Status (fail e) \<noteq> 204"
  using fail_is_an_error [of e] by simp

lemma respond_status [simp]: "wr_Status (respond n b) = n" "wr_Status (with_cookie c r) = wr_Status r"
    "wr_Cookie (with_cookie c r) = Some c"
  by (simp_all add: respond_def with_cookie_def)

lemma sign_in_found_200:
  assumes "sign_in_found env rq found w = (r, w')" "wr_Status r = 200"
  obtains c where "issueSession env rq (mem_Organization (local_Membership found)) (local_User found) (local_PasswordHash found) w
    = (Inr c, w')" "wr_Cookie r = Some c"
  using assms by (auto simp: sign_in_found_def split: prod.splits sum.splits handler_error.splits store_error.splits)

text \<open>The identity a sign-in issues a session for: its hash accepts the password presented.\<close>

lemma localSignIn_200:
  assumes "argon2_ok (ie_argon2 env)" "salts_ok env"
    and "localSignIn env rq body w = (Some r, w')" "wr_Status r = 200"
  obtains b found w1 rehash where "body = Some b" "sign_in_found env rq found w1 = (r, w')"
    "verifyPassword (ie_argon2 env) (local_PasswordHash found) (signin_Password b) = Checked True rehash"
proof -
  have slot: "ie_slot env (iw_tick w)" using assms(3,4) by (auto simp: localSignIn_def split: if_splits)
  with assms(3,4) obtain b where b: "body = Some b" by (cases body) (auto simp: localSignIn_def)
  with slot assms(3,4) obtain email where email: "localEmail env (signin_Email b) = Inr email"
    by (cases "localEmail env (signin_Email b)") (auto simp: localSignIn_def localEmail_def Let_def split: if_splits)
  obtain answer w1 where answer: "local_identity env email w = (answer, w1)" by fastforce
  let ?hash = "case answer of Inl _ \<Rightarrow> dummyPasswordHash env | Inr found \<Rightarrow> local_PasswordHash found"
  note run = assms(3) [unfolded b localSignIn_def option.case, unfolded email sum.case answer prod.case, simplified slot, simplified]
  obtain found rehash where found: "answer = Inr found"
      "verifyPassword (ie_argon2 env) (local_PasswordHash found) (signin_Password b) = Checked True rehash"
    using run assms(4)
    by (cases answer; cases "verifyPassword (ie_argon2 env) ?hash (signin_Password b)") (auto split: if_splits bool.splits)
  show ?thesis
  proof (cases rehash)
    case False
    with run found have "sign_in_found env rq found w1 = (r, w')" by (auto simp: apfst_def map_prod_def split: prod.splits)
    from that [OF b this found(2)] show ?thesis .
  next
    case True
    with run found assms(4) obtain found' w2 where again: "rehash_found env found (signin_Password b) w1 = (Inr found', w2)"
        "sign_in_found env rq found' w2 = (r, w')"
      by (auto simp: apfst_def map_prod_def split: prod.splits sum.splits)
    then obtain replacement where made: "hash_password env (iw_tick w1) (signin_Password b) = Inr replacement"
        "local_PasswordHash found' = replacement"
      by (auto simp: rehash_found_def split: sum.splits prod.splits)
    from hash_password_verifies [OF assms(1,2) made(1)] made(2)
    have "verifyPassword (ie_argon2 env) (local_PasswordHash found') (signin_Password b) = Checked True False" by auto
    from that [OF b again(2) this] show ?thesis .
  qed
qed

text \<open>
  C11. Nobody signs in with a password but the one that is stored when the session is made. Between
  the check and the session the password may change, the user may be disabled or a weaker hash be
  replaced: the session row is written only while the user is an enabled local user and the stored
  hash accepts the password that was presented.
\<close>

theorem sign_in_needs_the_stored_password:
  assumes "argon2_ok (ie_argon2 env)" "salts_ok env"
    and "localSignIn env rq body w = (Some r, w')" "wr_Status r = 200"
  shows "\<exists>b db user h s token rehash. body = Some b \<and> stored_hash user db = Some h
    \<and> verifyPassword (ie_argon2 env) h (signin_Password b) = Checked True rehash
    \<and> iw_db w' = db\<lparr>id_sessions := id_sessions db @ [s]\<rparr> \<and> se_user s = user
    \<and> se_digest s = ie_sha256 env token \<and> wr_Cookie r = Some (SetCookie token (se_expires_at s))"
proof -
  obtain b found w1 rehash where b: "body = Some b" and sign: "sign_in_found env rq found w1 = (r, w')"
    and valid: "verifyPassword (ie_argon2 env) (local_PasswordHash found) (signin_Password b) = Checked True rehash"
    by (rule localSignIn_200 [OF assms])
  obtain c where issued: "issueSession env rq (mem_Organization (local_Membership found)) (local_User found)
      (local_PasswordHash found) w1 = (Inr c, w')" and c: "wr_Cookie r = Some c"
    by (rule sign_in_found_200 [OF sign assms(4)])
  obtain db token expires s where "c = SetCookie token expires"
      "stored_hash (user_ID (local_User found)) db = Some (local_PasswordHash found)"
      "iw_db w' = db\<lparr>id_sessions := id_sessions db @ [s]\<rparr>" "se_user s = user_ID (local_User found)"
      "se_digest s = ie_sha256 env token" "se_expires_at s = expires"
    by (rule issueSession_local [OF issued verified_not_empty [OF valid]])
  with b valid c show ?thesis by blast
qed

definition sample_signed_out :: identity_world where
  "sample_signed_out = \<lparr>iw_tick = 0, iw_db = sample_identity_db\<lparr>id_sessions := []\<rparr>, iw_trail = []\<rparr>"

lemma sample_hash_accepts: "verifyPassword sample_argon2 sample_hash sample_password = Checked True False"
  using verify_encoded [OF sample_argon2_ok, of sample_salt passwordMemory passwordIterations passwordParallelism sample_password
      sample_password] by (simp add: sample_hash_def sample_salt_def)

lemma sample_sign_in:
  "\<exists>r w'. localSignIn sample_identity_env sample_web_request (Some \<lparr>signin_Email = ''ada'', signin_Password = sample_password\<rparr>)
     sample_signed_out = (Some r, w') \<and> wr_Status r = 200"
proof -
  have email: "localEmail sample_identity_env ''ada'' = Inr ''ada''"
    by (simp add: localEmail_def ToLower_def lower_byte_def Let_def)
  have fill: "min n 32 + (32 - n) = (32 :: nat)" for n by auto
  have "sample_hash \<noteq> []" using verified_not_empty [OF sample_hash_accepts] .
  then show ?thesis
    by (simp add: localSignIn_def email fill local_identity_def id_read_def LocalIdentityByEmail_def sample_signed_out_def Let_def
        membership_from_def membershipOf_def ParseRole_def KnownRole_def roles_def sample_hash_accepts sample_identity_defs
        sign_in_found_def issueSession_def prepareSession_def OrganizationAuditRetention_def Issue_def id_write_def
        IssueLocalSession_def stored_hash_def enabled_local_def user_of_def issueSessionIn_def insert_session_def writeEvent_def
        sign_in_event_def Bounded_def nullableOrganization_def sample_uuid_lib_def)
qed

theorem sign_in_needs_the_stored_password_witness:
  "\<exists>r w' db user h. localSignIn sample_identity_env sample_web_request
       (Some \<lparr>signin_Email = ''ada'', signin_Password = sample_password\<rparr>) sample_signed_out = (Some r, w')
     \<and> wr_Status r = 200 \<and> stored_hash user db = Some h
     \<and> (\<exists>rehash. verifyPassword sample_argon2 h sample_password = Checked True rehash)"
proof -
  obtain r w' where run: "localSignIn sample_identity_env sample_web_request
      (Some \<lparr>signin_Email = ''ada'', signin_Password = sample_password\<rparr>) sample_signed_out = (Some r, w')" "wr_Status r = 200"
    using sample_sign_in by blast
  have "argon2_ok (ie_argon2 sample_identity_env)" "salts_ok sample_identity_env"
    using sample_argon2_ok by (simp_all add: salts_ok_def sample_salt_def)
  from sign_in_needs_the_stored_password [OF this run] run show ?thesis by auto
qed

section \<open>Changing a password\<close>

lemma enabled_local_same:
  "enabled_local user (db\<lparr>id_passwords := ps, id_sessions := ss\<rparr>) = enabled_local user db"
  by (simp add: enabled_local_def)

lemma replaced_password_holds:
  assumes replaced: "replaceLocalPassword lib k user (Some previous) replacement event (db, trail) = Inr (db', trail')"
    and keyed: "distinct (map pw_user (id_passwords db))"
  shows "stored_hash user db = Some previous" "stored_hash user db' = Some replacement"
    and "id_sessions db' = filter (\<lambda>s. se_user s \<noteq> user) (id_sessions db)"
    and "\<forall>other. other \<noteq> user \<longrightarrow> stored_hash other db' = stored_hash other db"
    and "id_users db' = id_users db" "id_memberships db' = id_memberships db"
proof -
  let ?p = "\<lambda>r. pw_user r = user \<and> pw_hash r = previous \<and> enabled_local user db"
  let ?set = "\<lambda>r. r\<lparr>pw_hash := replacement, pw_changed_at := il_now lib k\<rparr>"
  from replaceLocalPassword_Inr [OF replaced] obtain passwords where
      db': "db' = db\<lparr>id_passwords := passwords, id_sessions := filter (\<lambda>s. se_user s \<noteq> user) (id_sessions db)\<rparr>"
    and upd: "checked_update password_checks ?p ?set (id_passwords db) = Inr passwords"
    and one: "rows_affected ?p (id_passwords db) = 1" by auto
  from one have "rows_affected ?p (id_passwords db) \<noteq> 0" by simp
  then obtain row where row: "row \<in> set (id_passwords db)" "?p row" unfolding rows_affected_0 by blast
  from row_of_unique [OF keyed row(1)] row(2) show "stored_hash user db = Some previous" by (simp add: stored_hash_def)
  have update: "passwords = update_where ?p ?set (id_passwords db)" using upd by (simp add: checked_update_Inr)
  then have "row_of pw_user user passwords = Some (?set row)"
    using row_of_unique [OF keyed row(1)] row(2) by (simp add: row_of_update_where)
  then show "stored_hash user db' = Some replacement" using row(2) by (simp add: stored_hash_def db' enabled_local_same)
  show "id_sessions db' = filter (\<lambda>s. se_user s \<noteq> user) (id_sessions db)"
    "id_users db' = id_users db" "id_memberships db' = id_memberships db" by (simp_all add: db')
  have "row_of pw_user other passwords = row_of pw_user other (id_passwords db)" if "other \<noteq> user" for other
    using that update by (cases "row_of pw_user other (id_passwords db)")
      (auto simp: row_of_update_where dest: row_of_Some)
  then show "\<forall>other. other \<noteq> user \<longrightarrow> stored_hash other db' = stored_hash other db"
    by (simp add: stored_hash_def db' enabled_local_same)
qed

text \<open>
  C12. Changing a password is one compare and set on what the database holds. When it is confirmed,
  the hash the handler read, which the given current password matches, is still the stored one in the
  state the transaction finds; and from that state on, every session of the user ends and no
  other, the user's hash becomes one that accepts the new password, and no other password,
  user or membership changes.
\<close>

theorem password_change_ends_every_session:
  assumes "argon2_ok (ie_argon2 env)" "salts_ok env"
    and "changeLocalPassword env who (Some b) w = (Some r, w')" "wr_Status r = 204"
    and "others_step env" "identity_reachable (ie_lib env) (iw_db w)"
  defines "seen \<equiv> id_observe env w"
  defines "found \<equiv> iw_db (id_observe env seen)"
  shows "\<exists>h h' rehash. stored_hash (pr_userID who) (iw_db seen) = Some h \<and> stored_hash (pr_userID who) found = Some h
    \<and> verifyPassword (ie_argon2 env) h (change_CurrentPassword b) = Checked True rehash
    \<and> id_sessions (iw_db w') = filter (\<lambda>s. se_user s \<noteq> pr_userID who) (id_sessions found)
    \<and> stored_hash (pr_userID who) (iw_db w') = Some h'
    \<and> verifyPassword (ie_argon2 env) h' (change_NewPassword b) = Checked True False
    \<and> (\<forall>user. user \<noteq> pr_userID who \<longrightarrow> stored_hash user (iw_db w') = stored_hash user found)
    \<and> id_users (iw_db w') = id_users found \<and> id_memberships (iw_db w') = id_memberships found"
proof -
  from assms(3,4) obtain db1 w1 where read: "id_read env w = (Inr db1, w1)"
    by (auto simp: changeLocalPassword_def split: if_splits prod.splits sum.splits)
  note run = assms(3) [unfolded changeLocalPassword_def option.case, simplified read, simplified]
  from run assms(4) obtain previous where previous: "LocalPasswordHash who db1 = Inr previous"
    by (cases "LocalPasswordHash who db1") (auto split: if_splits store_error.splits)
  from run assms(4) obtain rehash where valid: "verifyPassword (ie_argon2 env) previous (change_CurrentPassword b) = Checked True rehash"
    by (cases "verifyPassword (ie_argon2 env) previous (change_CurrentPassword b)")
      (auto simp: previous split: if_splits)
  from run assms(4) obtain replacement where made: "hash_password env (iw_tick w1) (change_NewPassword b) = Inr replacement"
    by (auto simp: previous valid split: if_splits sum.splits)
  have w1: "w1 = seen" "db1 = iw_db seen" using read by (auto simp: id_read_def seen_def Let_def split: if_splits)
  let ?w = "id_observe env w1"
  obtain u where "id_write env (no_result (\<lambda>k. ChangeLocalPassword (ie_lib env) k who previous replacement)) w1 = (Inr u, w')"
    using run assms(4) by (auto simp: previous valid made split: if_splits prod.splits sum.splits store_error.splits)
  then obtain trail where changed: "ChangeLocalPassword (ie_lib env) (iw_tick w1) who previous replacement (iw_db ?w, iw_trail ?w)
      = Inr (iw_db w', trail)"
    by (elim id_write_Inr) (auto simp: no_result_def split: sum.splits)
  then obtain event where replaced: "replaceLocalPassword (ie_lib env) (iw_tick w1) (pr_userID who) (Some previous) replacement event
      (iw_db ?w, iw_trail ?w) = Inr (iw_db w', trail)"
    by (auto simp: ChangeLocalPassword_def split: if_splits)
  have "identity_reachable (ie_lib env) (iw_db ?w)"
    using observed_steps [OF assms(5)] assms(6) id_read_Inr [OF read] by (metis identity_reachable_steps)
  then have keyed: "distinct (map pw_user (id_passwords (iw_db ?w)))"
    using identity_reachable_one_password by (simp add: one_password_def)
  have "verifyPassword (ie_argon2 env) replacement (change_NewPassword b) = Checked True False"
    using hash_password_verifies [OF assms(1,2) made] by auto
  moreover have "stored_hash (pr_userID who) (iw_db seen) = Some previous"
    using previous by (auto simp: w1 LocalPasswordHash_def split: option.splits if_splits)
  ultimately show ?thesis
    using replaced_password_holds [OF replaced keyed] valid unfolding found_def w1 by blast
qed

text \<open>The sample user, made the way the first administrator is.\<close>

lemma sample_hash_fits: "violated (password_checks \<lparr>pw_user = u, pw_hash = sample_hash, pw_changed_at = i\<rparr>) = None"
proof -
  have "RuneCountInString sample_hash = 97"
    unfolding sample_hash_def by (rule encoded_length [OF sample_argon2_ok]) (simp add: sample_salt_def)
  then show ?thesis by (simp add: password_checks_def violated_def)
qed

definition sample_bootstrapped :: identity_db where
  "sample_bootstrapped = sample_identity_db
     \<lparr>id_users := [sample_user\<lparr>us_id := 20, us_created_at := 100, us_display_name := ''Ada''\<rparr>],
      id_memberships := [\<lparr>ms_org = 40, ms_user = 20, ms_role = ''admin'', ms_created_at = 100\<rparr>],
      id_passwords := [\<lparr>pw_user = 20, pw_hash = sample_hash, pw_changed_at = 100\<rparr>],
      id_sessions := [\<lparr>se_id = 60, se_digest = replicate 32 CHR ''d'', se_user = 20, se_expires_at = 900\<rparr>],
      id_organizations := [\<lparr>og_id = 40, og_display_name = ''Ops'', og_created_at = 100, og_retention = 90\<rparr>]\<rparr>"

lemma sample_bootstrap:
  "\<exists>created trail. BootstrapLocalUser sample_identity_lib 0 ''Ops'' ''ada'' ''Ada'' sample_hash
     \<lparr>session_ID = 0, session_UserID = 0, session_ExpiresAt = 900\<rparr> (replicate 32 CHR ''d'') [] (empty_identity_db, [])
     = Inr (created, sample_bootstrapped, trail)"
proof -
  have lower: "ToLower id ''ada'' = ''ada''" by (simp add: ToLower_def lower_byte_def)
  show ?thesis
    by (simp add: BootstrapLocalUser_def insert_user_def insert_membership_def insert_password_def insert_session_def Let_def
        empty_identity_db_def sample_bootstrapped_def sample_identity_defs lower sample_hash_fits writeEvent_def Bounded_def
        nullableOrganization_def deployment_actions_def sample_uuid_lib_def)
qed

lemma sample_bootstrapped_reachable: "identity_reachable sample_identity_lib sample_bootstrapped"
  using identity_step.bootstrap sample_bootstrap unfolding identity_reachable_def by (metis r_into_rtranclp)

definition sample_change_world :: identity_world where
  "sample_change_world = \<lparr>iw_tick = 1, iw_db = sample_bootstrapped, iw_trail = []\<rparr>"

definition sample_changer :: Principal where
  "sample_changer = sample_caller\<lparr>pr_userID := 20\<rparr>"

lemma sample_replacement:
  "hash_password sample_identity_env k ''battery staple'' = Inr
     (encodePassword sample_argon2 ''battery staple'' sample_salt passwordMemory passwordIterations passwordParallelism)"
  by (simp add: hash_password_def hashPassword_def)

lemma sample_change:
  "\<exists>r w'. changeLocalPassword sample_identity_env sample_changer
       (Some \<lparr>change_CurrentPassword = sample_password, change_NewPassword = ''battery staple''\<rparr>) sample_change_world
     = (Some r, w') \<and> wr_Status r = 204"
proof -
  let ?new = "encodePassword sample_argon2 ''battery staple'' sample_salt passwordMemory passwordIterations passwordParallelism"
  have "RuneCountInString ?new = 97" by (rule encoded_length [OF sample_argon2_ok]) (simp add: sample_salt_def)
  then have fits: "violated (password_checks \<lparr>pw_user = u, pw_hash = ?new, pw_changed_at = i\<rparr>) = None" for u i
    by (simp add: password_checks_def violated_def)
  have lengths: "sample_password \<noteq> []" "length sample_password = 13" by (simp_all add: sample_password_def)
  show ?thesis
    by (simp add: changeLocalPassword_def lengths id_read_def Let_def sample_change_world_def sample_changer_def
        LocalPasswordHash_def stored_hash_def enabled_local_def sample_bootstrapped_def sample_hash_accepts sample_replacement
        id_write_def no_result_def ChangeLocalPassword_def replaceLocalPassword_def checked_update_def fits writeEvent_def
        Bounded_def nullableOrganization_def deployment_actions_def sample_uuid_lib_def sample_identity_defs)
qed

theorem password_change_ends_every_session_witness:
  "\<exists>r w'. changeLocalPassword sample_identity_env sample_changer
       (Some \<lparr>change_CurrentPassword = sample_password, change_NewPassword = ''battery staple''\<rparr>) sample_change_world
     = (Some r, w') \<and> wr_Status r = 204 \<and> (\<forall>s \<in> set (id_sessions (iw_db w')). se_user s \<noteq> 20)"
proof -
  obtain r w' where run: "changeLocalPassword sample_identity_env sample_changer
       (Some \<lparr>change_CurrentPassword = sample_password, change_NewPassword = ''battery staple''\<rparr>) sample_change_world
     = (Some r, w')" "wr_Status r = 204"
    using sample_change by blast
  have ok: "argon2_ok (ie_argon2 sample_identity_env)" "salts_ok sample_identity_env" "others_step sample_identity_env"
    "identity_reachable (ie_lib sample_identity_env) (iw_db sample_change_world)"
    using sample_argon2_ok sample_bootstrapped_reachable
    by (simp_all add: salts_ok_def sample_salt_def others_step_def sample_change_world_def)
  from password_change_ends_every_session [OF ok(1,2) run ok(3,4)] run show ?thesis by (auto simp: sample_changer_def)
qed

section \<open>The first administrator\<close>

text \<open>
  C16. A deployment is bootstrapped once. It creates the only user, as an administrator, and from
  then on every bootstrap is refused, whatever its token, since users never go.
\<close>

theorem bootstrap_happens_once:
  assumes "BootstrapLocalUser lib k organizationName email name hash issued digest addr (db, trail) = Inr (created, db', trail')"
    and "(identity_step lib)\<^sup>*\<^sup>* db' later"
  shows "id_users db = [] \<and> (\<exists>u. us_id ` set (id_users db') = {u} \<and> u \<in> us_id ` set (id_users later))
    \<and> BootstrapLocalUser lib k2 organizationName2 email2 name2 hash2 issued2 digest2 addr2 (later, trail2)
        = Inl ErrLocalBootstrapComplete"
proof -
  from BootstrapLocalUser_Inr [OF assms(1)] obtain u where u: "id_users db = []" "id_users db' = [u]" by auto
  from identity_run_keeps [OF assms(2)] have "us_id ` set (id_users db') \<subseteq> us_id ` set (id_users later)"
    by (simp add: identity_keeps_def identity_evolves_def)
  with u(2) have there: "us_id u \<in> us_id ` set (id_users later)" by simp
  then have "id_users later \<noteq> []" by auto
  then have "BootstrapLocalUser lib k2 organizationName2 email2 name2 hash2 issued2 digest2 addr2 (later, trail2)
      = Inl ErrLocalBootstrapComplete" by (simp add: BootstrapLocalUser_def Let_def)
  with u there show ?thesis by simp
qed

theorem bootstrap_happens_once_witness:
  "BootstrapLocalUser sample_identity_lib 1 ''Ops'' ''eve'' ''Eve'' sample_hash
     \<lparr>session_ID = 0, session_UserID = 0, session_ExpiresAt = 900\<rparr> (replicate 32 CHR ''e'') [] (sample_bootstrapped, [])
     = Inl ErrLocalBootstrapComplete"
proof -
  obtain created trail where "BootstrapLocalUser sample_identity_lib 0 ''Ops'' ''ada'' ''Ada'' sample_hash
     \<lparr>session_ID = 0, session_UserID = 0, session_ExpiresAt = 900\<rparr> (replicate 32 CHR ''d'') [] (empty_identity_db, [])
     = Inr (created, sample_bootstrapped, trail)" using sample_bootstrap by blast
  from bootstrap_happens_once [OF this rtranclp.rtrancl_refl] show ?thesis by blast
qed

section \<open>Names the resolver refuses\<close>

text \<open>
  A user whose stored display name is longer than a principal's may be holds sessions that no
  request can use. Sign-in through a provider stores the name its claims carry, of any length.
\<close>

theorem long_names_lock_out:
  assumes "s \<in> set (id_sessions (iw_db (id_observe env w)))" "se_digest s = ie_sha256 env (wq_Cookie rq)"
    and "\<And>x. x \<in> set (id_sessions (iw_db (id_observe env w))) \<Longrightarrow> se_digest x = se_digest s \<Longrightarrow> x = s"
    and "\<And>u. u \<in> set (id_users (iw_db (id_observe env w))) \<Longrightarrow> us_id u = se_user s
          \<Longrightarrow> maxIdentifierLength < length (TrimSpace (us_display_name u))"
  shows "Resolve env rq w \<noteq> ((who, None), w')"
proof
  assume "Resolve env rq w = ((who, None), w')"
  then show False
  proof (rule Resolve_who)
    fix x u m assume "x \<in> set (id_sessions (iw_db (id_observe env w)))" "u \<in> set (id_users (iw_db (id_observe env w)))"
      "se_digest x = ie_sha256 env (wq_Cookie rq)" "us_id u = se_user x"
      "length (TrimSpace (us_display_name u)) \<le> maxIdentifierLength"
    with assms(2,3) assms(4) [of u] show False by auto
  qed
qed

end
