(* ===== verification/Spec2Isabelle.thy ===== *)
theory Spec2Isabelle
  imports RelayService AgentProperties IdentityProperties
begin

text \<open>
  Verification of the OpenCluster control plane.

  The program is one Go process in front of a PostgreSQL database. Operators ask questions in
  conversations and alerts open incidents; each becomes an investigation, a row that a worker leases
  and runs: an agent asks a model what to read next, reads through connected integrations, stores
  every read, and writes a conclusion that cites the reads. Relays in the clusters register with
  single-use tokens, hold one session each, take leased jobs and report what changed. Authorization
  guards the HTTP routes and the audit trail records what was done.

  How the code is modelled. A table is a list of rows and a statement one function on it; a
  transaction that takes its row lock before it decides is one step. Go errors are values of a sum
  type. What the process does not decide itself is an argument: the clock, fresh identifiers, how a
  database call ends, the rows other transactions hold locked, protobuf and JSON lexing, hashes,
  providers, tools, the sealer. The theorems hold for every such argument unless they name one.

  Foundations. \<^verbatim>\<open>Prelude\<close> (SQL and Go vocabulary), \<^verbatim>\<open>Storage\<close> (the database handle, the
  organization guard, migrations), \<^verbatim>\<open>GoStrings\<close>, \<^verbatim>\<open>Json\<close>, \<^verbatim>\<open>Cursors\<close> (base64, decimal
  integers and page cursors, with their round trips), \<^verbatim>\<open>Listing\<close> (query parameters and paging,
  with the locale \<open>page_chain\<close>: following the cursors returns every item once and ends), and
  \<^verbatim>\<open>Retention\<close> (deleting in batches, with the locale \<open>batch_retention\<close>).

  Relays (\<^verbatim>\<open>internal/relay\<close>, and \<^verbatim>\<open>job.go\<close>, \<^verbatim>\<open>lease.go\<close>, \<^verbatim>\<open>result.go\<close>, \<^verbatim>\<open>relay.go\<close>,
  \<^verbatim>\<open>relays.go\<close>, \<^verbatim>\<open>conflict.go\<close>, \<^verbatim>\<open>changes.go\<close> of \<^verbatim>\<open>internal/store/postgres\<close>).
  \<^verbatim>\<open>RelayJobs\<close> holds the statements of the work queue, \<^verbatim>\<open>RelayFencing\<close> its step relation, its
  invariant and the locale \<open>fenced_rows\<close> (a row's epoch never falls, a closed row never changes,
  so a late result is refused for good), and \<^verbatim>\<open>RelayQueue\<close> the properties. \<^verbatim>\<open>RelayLimits\<close> is the
  flood limiter and the takeover watch, \<^verbatim>\<open>RelayRegistry\<close> and \<^verbatim>\<open>RelayRegister\<close> enrolment and
  credentials, \<^verbatim>\<open>Capability\<close> the validation of reads (regular expressions by derivatives, shown
  equal to what they mean), \<^verbatim>\<open>RelaySession\<close> the messages of one session, \<^verbatim>\<open>ChangeStore\<close> and
  \<^verbatim>\<open>Inventory\<close> the record of changes, \<^verbatim>\<open>RelayService\<close> the table of live sessions under
  interleaving.

  Access and audit (\<^verbatim>\<open>internal/auth/authz\<close>, \<^verbatim>\<open>internal/audit\<close>, \<^verbatim>\<open>audit.go\<close>).
  \<^verbatim>\<open>Authz\<close> is the permission table and the guard of every route, \<^verbatim>\<open>AuditRecord\<close> the events and
  what is stripped from them, \<^verbatim>\<open>AuditTrail\<close> writing, reading and pruning them.

  Identity (\<^verbatim>\<open>internal/auth/identity\<close>, \<^verbatim>\<open>internal/auth/session\<close>, and \<^verbatim>\<open>session.go\<close>,
  \<^verbatim>\<open>identity.go\<close>, \<^verbatim>\<open>local_identity.go\<close>, \<^verbatim>\<open>local_password.go\<close>, \<^verbatim>\<open>deployment_oidc.go\<close> of the store).
  \<^verbatim>\<open>Passwords\<close> is the stored form of a password and its check, \<^verbatim>\<open>IdentityStore\<close> the tables of users,
  memberships, passwords, sessions and sign-ins under way, \<^verbatim>\<open>SignIn\<close> the handlers and the resolver
  behind the guard, \<^verbatim>\<open>IdentityProperties\<close> the step relation \<open>identity_step\<close> and what follows: whom a
  route is served to, what a sign-in proves, what a password change and a removal end, and how two
  removals at once defeat the guard of the last administrator.

  Investigations (\<^verbatim>\<open>internal/investigation\<close>, \<^verbatim>\<open>internal/conversation\<close> and their files in
  \<^verbatim>\<open>internal/store/postgres\<close>). \<^verbatim>\<open>Investigation\<close> is the data and the event stream,
  \<^verbatim>\<open>InvestigationStore\<close> and \<^verbatim>\<open>ConversationStore\<close> the statements, \<^verbatim>\<open>ConversationContext\<close>
  what a turn is told. \<^verbatim>\<open>WorkLifecycle\<close> puts every transaction on these tables into one step
  relation \<open>work_step\<close> with the invariant \<open>work_inv\<close> and the order \<open>work_evolves\<close>, and
  \<^verbatim>\<open>WorkProperties\<close> draws the properties of the reachable states.

  The agent (\<^verbatim>\<open>internal/investigation/agent\<close>, and the core of \<^verbatim>\<open>internal/integrations\<close>).
  \<^verbatim>\<open>Conclusions\<close> decodes and judges the model's conclusion, \<^verbatim>\<open>Integrations\<close> says which tools a
  connected integration may serve, \<^verbatim>\<open>AgentPrompt\<close> is what a model is shown, \<^verbatim>\<open>AgentTools\<close> how
  its calls are understood and what is stored of a read, \<^verbatim>\<open>Agent\<close> the run itself (\<open>Agent_Run\<close> for
  \<^verbatim>\<open>Run\<close> of \<^verbatim>\<open>run.go\<close>), each call to the store preceded by whatever the other workers do.
  \<^verbatim>\<open>AgentRun\<close> proves step by step that a run moves the tables only by its own transactions, counts
  only on stored runs, and keeps its budgets; \<^verbatim>\<open>Observations\<close> that what it stores fits the table;
  \<^verbatim>\<open>AgentSample\<close> evaluates one run, and \<^verbatim>\<open>AgentProperties\<close> states what every run promises.
  The hypothesis \<open>companions\<close> is all that is assumed of the others: they make steps of
  \<open>work_step\<close> and do not act under this run's claim token.

  Interfaces. \<open>fenced_rows\<close> is interpreted on the job table (\<open>jobs\<close>), the bootstrap tokens
  (\<open>bootstrap_tokens\<close>) and the investigations (\<open>investigations\<close>); \<open>page_chain\<close> on slices
  (\<open>slices\<close>) and the audit trail (\<open>trail_pages\<close>); \<open>batch_retention\<close> on audit events
  (\<open>audit_retention\<close>) and changes (\<open>change_retention\<close>).

  Bounds and fuel. The agent's loop recurs on the turns it has left and needs no fuel: a turn sends
  at most two prompts, the conclusion at most two more, and reads stop at the budget. The
  retention, paging and liveness loops are functions with termination proofs or are shown to end.
  Integers the tables keep in 16 bits are checked against that width.

  Not modelled: the scheduling of goroutines and tickers (their bodies are operations, their
  interleaving is a step relation); the encoding of text columns and their NUL checks; rounding of
  instants to microseconds; the overflow of sequences and of SQL intervals; the JSON lexer, with
  duplicate members, and the failure of \<^verbatim>\<open>json.Marshal\<close> on what was decoded from JSON; the moment
  between a sign-in's check of the user and its session, since nothing in the program disables a
  user; the difference of a nil and an empty slice, except where the code reads it;
  panics of the HTTP mux at start-up. Of the components: the clients of model providers and of the
  third-party services, configuration, telemetry and process wiring, which are input and output; the
  worker pool around the agent, alert intake and incidents, Slack delivery and postmortems,
  which the model meets only as steps on the shared tables.
\<close>

end
